(* ===== verification/Prelude.thy ===== *)
theory Prelude
  imports Main "HOL-Library.Char_ord" "HOL-Library.List_Lexorder" "HOL-Library.Code_Target_Numeral"
begin

text \<open>
  What every component shares: the exceptions of the Python code as values, the state passing
  operations with exceptions and the transaction combinator of \<open>decision_store.py\<close>, the string
  methods the code calls, and generic facts on lists and on the lexicographic order of strings.

  A Python \<open>str\<close> is a HOL \<open>string\<close>, a list of characters read as the code points 0 to 255.
\<close>

named_theorems op_simps \<open>unfolding rules of the state passing combinators\<close>
named_theorems tbl_simps \<open>rewriting of table expressions\<close>

subsection \<open>Exceptions and operations\<close>

text \<open>
  The exceptions the program raises and tells apart. \<open>StoreUnavailable\<close> is
  \<open>StoreUnavailableError\<close>; \<open>HttpError\<close> is FastAPI's \<open>HTTPException\<close> with its status code.
\<close>

datatype exn =
    KeyError string
  | ValueError string
  | PermissionError string
  | StoreUnavailable
  | RuntimeError string
  | RemediationError string
  | AuthenticationError string
  | AuthorizationError string
  | OverflowError
  | TypeError string
  | FileNotFoundError string
  | AttributeError string
  | AssertionError
  | HttpError int string
  | CalledProcessError string

type_synonym 'a result = "exn + 'a"

text \<open>
  An operation on a state returns a value or an exception together with the state it leaves:
  the state is part of the exceptional outcome too, because a handler may commit before it
  raises.
\<close>

type_synonym ('s, 'a) opn = "'s \<Rightarrow> (exn + 'a) \<times> 's"

definition ret :: "'a \<Rightarrow> ('s, 'a) opn" where
  "ret x s = (Inr x, s)"

definition throw :: "exn \<Rightarrow> ('s, 'a) opn" where
  "throw e s = (Inl e, s)"

definition bnd :: "('s, 'a) opn \<Rightarrow> ('a \<Rightarrow> ('s, 'b) opn) \<Rightarrow> ('s, 'b) opn" where
  "bnd m f s = (case m s of (Inl e, s') \<Rightarrow> (Inl e, s') | (Inr x, s') \<Rightarrow> f x s')"

text \<open>
  \<open>DecisionStore.transaction\<close>: commit on success, roll back to the state at entry when the
  body raises, and re-raise.
\<close>

definition rollback_on_error :: "('s, 'a) opn \<Rightarrow> ('s, 'a) opn" where
  "rollback_on_error m s = (case m s of (Inl e, _) \<Rightarrow> (Inl e, s) | (Inr x, s') \<Rightarrow> (Inr x, s'))"

lemma ret_apply [op_simps]: "ret x s = (Inr x, s)"
  by (simp add: ret_def)

lemma throw_apply [op_simps]: "throw e s = (Inl e, s)"
  by (simp add: throw_def)

lemma bnd_InrE:
  assumes "bnd m f s = (Inr y, s'')"
  obtains x s' where "m s = (Inr x, s')" "f x s' = (Inr y, s'')"
  using assms by (auto simp: bnd_def split: prod.splits sum.splits)

lemma bnd_Inr [op_simps]: "m s = (Inr x, s') \<Longrightarrow> bnd m f s = f x s'"
  by (simp add: bnd_def)

lemma bnd_Inl [op_simps]: "m s = (Inl e, s') \<Longrightarrow> bnd m f s = (Inl e, s')"
  by (simp add: bnd_def)

lemma bnd_ret: "bnd (ret x) f = f x"
  by (rule ext) (simp add: bnd_def ret_def)

lemma bnd_assoc: "bnd (bnd m f) g = bnd m (\<lambda>x. bnd (f x) g)"
  by (rule ext) (simp add: bnd_def split: prod.splits sum.splits)

lemma rollback_Inl: "rollback_on_error m s = (Inl e, s') \<Longrightarrow> s' = s"
  by (auto simp: rollback_on_error_def split: prod.splits sum.splits)

lemma rollback_Inr [simp]:
  "rollback_on_error m s = (Inr x, s') \<longleftrightarrow> m s = (Inr x, s')"
  by (auto simp: rollback_on_error_def split: prod.splits sum.splits)

lemma rollback_Inl_iff [simp]:
  "rollback_on_error m s = (Inl e, s') \<longleftrightarrow> s' = s \<and> (\<exists>t. m s = (Inl e, t))"
  by (auto simp: rollback_on_error_def split: prod.splits sum.splits)

text \<open>A state predicate kept by every outcome of an operation, and how it composes.\<close>

definition keeps :: "('s \<Rightarrow> bool) \<Rightarrow> ('s, 'a) opn \<Rightarrow> bool" where
  "keeps P m \<longleftrightarrow> (\<forall>s. P s \<longrightarrow> P (snd (m s)))"

lemma keepsI: "(\<And>s. P s \<Longrightarrow> P (snd (m s))) \<Longrightarrow> keeps P m"
  by (simp add: keeps_def)

lemma keepsD: "keeps P m \<Longrightarrow> P s \<Longrightarrow> P (snd (m s))"
  by (simp add: keeps_def)

lemma keeps_ret [intro]: "keeps P (ret x)"
  by (simp add: keeps_def ret_def)

lemma keeps_throw [intro]: "keeps P (throw e)"
  by (simp add: keeps_def throw_def)

lemma keeps_bnd [intro]: "keeps P m \<Longrightarrow> (\<And>x. keeps P (f x)) \<Longrightarrow> keeps P (bnd m f)"
  unfolding keeps_def bnd_def by (fastforce split: prod.splits sum.splits)

lemma keeps_rollback [intro]: "keeps P m \<Longrightarrow> keeps P (rollback_on_error m)"
  unfolding keeps_def rollback_on_error_def by (fastforce split: prod.splits sum.splits)

subsection \<open>String methods\<close>

text \<open>\<open>str.isspace\<close> on the code points 0 to 255, \<open>str.strip\<close>, \<open>str.lower\<close>.\<close>

definition is_space :: "char \<Rightarrow> bool" where
  "is_space c \<longleftrightarrow> (let n = (of_char c :: nat) in
     (9 \<le> n \<and> n \<le> 13) \<or> (28 \<le> n \<and> n \<le> 32) \<or> n = 133 \<or> n = 160)"

definition py_lstrip :: "string \<Rightarrow> string" where
  "py_lstrip s = dropWhile is_space s"

definition py_strip :: "string \<Rightarrow> string" where
  "py_strip s = rev (dropWhile is_space (rev (dropWhile is_space s)))"

definition lower_char :: "char \<Rightarrow> char" where
  "lower_char c = (let n = (of_char c :: nat) in
     if (65 \<le> n \<and> n \<le> 90) \<or> (192 \<le> n \<and> n \<le> 222 \<and> n \<noteq> 215) then char_of (n + 32) else c)"

definition py_lower :: "string \<Rightarrow> string" where
  "py_lower s = map lower_char s"

definition is_digit :: "char \<Rightarrow> bool" where
  "is_digit c \<longleftrightarrow> (let n = (of_char c :: nat) in 48 \<le> n \<and> n \<le> 57)"

definition starts_with :: "string \<Rightarrow> string \<Rightarrow> bool" where
  "starts_with s p \<longleftrightarrow> take (length p) s = p"

definition ends_with :: "string \<Rightarrow> string \<Rightarrow> bool" where
  "ends_with s p \<longleftrightarrow> length p \<le> length s \<and> drop (length s - length p) s = p"

text \<open>\<open>p in s\<close> on strings.\<close>

fun contains :: "string \<Rightarrow> string \<Rightarrow> bool" where
  "contains [] p = (p = [])"
| "contains (c # s) p = (starts_with (c # s) p \<or> contains s p)"

text \<open>\<open>s.split(c)\<close> on one character, and \<open>s.partition(c)\<close>.\<close>

fun split_char :: "char \<Rightarrow> string \<Rightarrow> string list" where
  "split_char d [] = [[]]"
| "split_char d (c # s) =
     (if c = d then [] # split_char d s
      else (case split_char d s of [] \<Rightarrow> [[c]] | w # ws \<Rightarrow> (c # w) # ws))"

definition partition_char :: "char \<Rightarrow> string \<Rightarrow> string \<times> bool \<times> string" where
  "partition_char d s =
     (let k = takeWhile (\<lambda>c. c \<noteq> d) s; r = dropWhile (\<lambda>c. c \<noteq> d) s
      in (case r of [] \<Rightarrow> (s, False, []) | _ # v \<Rightarrow> (k, True, v)))"

text \<open>\<open>sep.join(xs)\<close>.\<close>

fun join_with :: "string \<Rightarrow> string list \<Rightarrow> string" where
  "join_with sep [] = []"
| "join_with sep [x] = x"
| "join_with sep (x # xs) = x @ sep @ join_with sep xs"

text \<open>The decimal text of an integer, \<open>str(n)\<close>.\<close>

definition digit_char :: "nat \<Rightarrow> char" where
  "digit_char d = char_of (48 + d)"

fun nat_str :: "nat \<Rightarrow> string" where
  "nat_str n = (if n < 10 then [digit_char n] else nat_str (n div 10) @ [digit_char (n mod 10)])"

declare nat_str.simps [simp del]

definition int_str :: "int \<Rightarrow> string" where
  "int_str i = (if i < 0 then ''-'' @ nat_str (nat (- i)) else nat_str (nat i))"

text \<open>\<open>a or b\<close> on strings: the second operand when the first is empty.\<close>

definition str_or :: "string \<Rightarrow> string \<Rightarrow> string" where
  "str_or a b = (if a = [] then b else a)"

lemma str_or_simps [simp]: "str_or [] b = b" "a \<noteq> [] \<Longrightarrow> str_or a b = a"
  by (simp_all add: str_or_def)

definition opt_str :: "string option \<Rightarrow> string" where
  "opt_str v = (case v of None \<Rightarrow> [] | Some s \<Rightarrow> s)"

lemma opt_str_simps [simp]: "opt_str None = []" "opt_str (Some s) = s"
  by (simp_all add: opt_str_def)

lemma py_strip_Nil [simp]: "py_strip [] = []"
  by (simp add: py_strip_def)

lemma py_strip_ends:
  "py_strip s = [] \<or> \<not> is_space (hd (py_strip s)) \<and> \<not> is_space (last (py_strip s))"
proof (cases "py_strip s = []")
  case False
  let ?t = "dropWhile is_space s"
  have ne: "dropWhile is_space (rev ?t) \<noteq> []" using False by (simp add: py_strip_def)
  then have l: "\<not> is_space (hd (dropWhile is_space (rev ?t)))" by (rule hd_dropWhile)
  obtain ws where ws: "rev ?t = ws @ dropWhile is_space (rev ?t)"
    by (metis takeWhile_dropWhile_id)
  then have t: "?t = py_strip s @ rev ws"
    by (metis py_strip_def rev_append rev_rev_ident)
  then have "?t \<noteq> []" using False by auto
  then have "\<not> is_space (hd ?t)" by (rule hd_dropWhile)
  with t False have "\<not> is_space (hd (py_strip s))" by (metis hd_append2)
  with l ne show ?thesis by (simp add: py_strip_def last_rev)
qed simp

lemma dropWhile_hd: "xs = [] \<or> \<not> P (hd xs) \<Longrightarrow> dropWhile P xs = xs"
  by (cases xs) auto

lemma py_strip_idem [simp]: "py_strip (py_strip s) = py_strip s"
proof (cases "py_strip s = []")
  case False
  let ?u = "py_strip s"
  from False py_strip_ends [of s] have "\<not> is_space (hd ?u)" "\<not> is_space (last ?u)" by auto
  then have "dropWhile is_space ?u = ?u" "dropWhile is_space (rev ?u) = rev ?u"
    by (auto intro!: dropWhile_hd simp: hd_rev)
  then show ?thesis by (subst py_strip_def) simp
qed simp

subsection \<open>Lists and the lexicographic order of strings\<close>

lemma lex_append_less:
  fixes a b :: "'a::linorder list"
  assumes "length a = length b"
  shows "a @ x < b @ y \<longleftrightarrow> a < b \<or> (a = b \<and> x < y)"
  using assms by (induction a b rule: list_induct2) auto

lemma lex_append_same [simp]:
  fixes a :: "'a::linorder list"
  shows "a @ x < a @ y \<longleftrightarrow> x < y"
  by (simp add: lex_append_less)

lemma find_map_key:
  assumes "\<And>r. p (f r) = p r"
  shows "find p (map f t) = map_option f (find p t)"
  by (induction t) (auto simp: assms)

lemma find_Some_in: "find p t = Some r \<Longrightarrow> r \<in> set t \<and> p r"
  by (induction t) (auto split: if_splits)

lemma find_None_all: "find p t = None \<longleftrightarrow> (\<forall>r\<in>set t. \<not> p r)"
  by (induction t) auto

lemma filter_le_1_if_distinct:
  "distinct (map k t) \<Longrightarrow> length (filter (\<lambda>r. k r = x \<and> Q r) t) \<le> 1"
proof (induction t)
  case (Cons a t)
  show ?case
  proof (cases "k a = x")
    case True
    with Cons.prems have "filter (\<lambda>r. k r = x \<and> Q r) t = []"
      by (auto simp: filter_empty_conv) (metis imageI)
    then show ?thesis by simp
  next
    case False
    with Cons show ?thesis by simp
  qed
qed simp

end
