(* ===== verification/Py_Value.thy ===== *)
theory Py_Value
  imports Prelude Complex_Main
begin

text \<open>
  Python values as the program handles them where it is dynamically typed: JSON documents, parsed
  configuration files and request dictionaries. A \<open>float\<close> is the rational number it denotes; the
  arithmetic the code does on floats rounds to binary64 (\<open>fl\<close>, round half to even, with the
  subnormal exponent), so that a product of two floats is the float Python computes. Infinities
  and NaN are not modelled.
\<close>

datatype pyval =
    PNone
  | PBool bool
  | PInt int
  | PFloat rat
  | PStr string
  | PList "pyval list"
  | PDict "(string \<times> pyval) list"

type_synonym pyobj = "(string \<times> pyval) list"

subsection \<open>Dictionaries in insertion order\<close>

fun dict_set :: "'k \<Rightarrow> 'v \<Rightarrow> ('k \<times> 'v) list \<Rightarrow> ('k \<times> 'v) list" where
  "dict_set k v [] = [(k, v)]"
| "dict_set k v ((k', v') # d) = (if k = k' then (k, v) # d else (k', v') # dict_set k v d)"

lemma map_of_dict_set [simp]: "map_of (dict_set k v d) = (map_of d)(k \<mapsto> v)"
  by (induction k v d rule: dict_set.induct) (auto simp: fun_upd_twist)

lemma keys_dict_set:
  "map fst (dict_set k v d) = (if k \<in> fst ` set d then map fst d else map fst d @ [k])"
  by (induction k v d rule: dict_set.induct) auto

lemma distinct_dict_set: "distinct (map fst d) \<Longrightarrow> distinct (map fst (dict_set k v d))"
  by (simp add: keys_dict_set)

definition get_default :: "('k \<times> 'v) list \<Rightarrow> 'k \<Rightarrow> 'v \<Rightarrow> 'v" where
  "get_default d k v = (case map_of d k of None \<Rightarrow> v | Some x \<Rightarrow> x)"

text \<open>\<open>d.get(k)\<close>: \<open>None\<close> when the key is missing.\<close>

definition get_none :: "pyobj \<Rightarrow> string \<Rightarrow> pyval" where
  "get_none d k = get_default d k PNone"

subsection \<open>Truth values\<close>

fun truthy :: "pyval \<Rightarrow> bool" where
  "truthy PNone = False"
| "truthy (PBool b) = b"
| "truthy (PInt i) = (i \<noteq> 0)"
| "truthy (PFloat q) = (q \<noteq> 0)"
| "truthy (PStr s) = (s \<noteq> [])"
| "truthy (PList xs) = (xs \<noteq> [])"
| "truthy (PDict d) = (d \<noteq> [])"

definition or_else :: "pyval \<Rightarrow> pyval \<Rightarrow> pyval" where
  "or_else a b = (if truthy a then a else b)"

subsection \<open>Binary floating point\<close>

definition pow2 :: "int \<Rightarrow> rat" where
  "pow2 e = (if 0 \<le> e then 2 ^ nat e else 1 / 2 ^ nat (- e))"

fun bit_length :: "nat \<Rightarrow> nat" where
  "bit_length n = (if n = 0 then 0 else Suc (bit_length (n div 2)))"

declare bit_length.simps [simp del]

text \<open>The nearest integer, halves to the even one.\<close>

definition round_even :: "rat \<Rightarrow> int" where
  "round_even q = (let f = \<lfloor>q\<rfloor>; d = q - of_int f in
     if d < 1 / 2 then f else if 1 / 2 < d then f + 1 else if even f then f else f + 1)"

text \<open>
  The exponent of the last place of the binary64 number next to \<open>q\<close>: 53 significant bits, and
  never below -1074.
\<close>

definition ulp_exponent :: "rat \<Rightarrow> int" where
  "ulp_exponent q =
     (let (n, d) = quotient_of \<bar>q\<bar>;
          e = int (bit_length (nat n)) - int (bit_length (nat d)) - 53
      in max (if 2 ^ 53 \<le> \<bar>q\<bar> / pow2 e then e + 1 else e) (- 1074))"

definition fl :: "rat \<Rightarrow> rat" where
  "fl q = (if q = 0 then 0 else of_int (round_even (q / pow2 (ulp_exponent q))) * pow2 (ulp_exponent q))"

definition fadd :: "rat \<Rightarrow> rat \<Rightarrow> rat" where "fadd a b = fl (a + b)"
definition fmul :: "rat \<Rightarrow> rat \<Rightarrow> rat" where "fmul a b = fl (a * b)"
definition fdiv :: "rat \<Rightarrow> rat \<Rightarrow> rat" where "fdiv a b = fl (a / b)"

text \<open>\<open>float(n)\<close> and \<open>int(x)\<close>, which truncates towards zero.\<close>

definition float_of_int :: "int \<Rightarrow> rat" where "float_of_int n = fl (of_int n)"

definition int_of_float :: "rat \<Rightarrow> int" where
  "int_of_float q = (if q < 0 then - \<lfloor>- q\<rfloor> else \<lfloor>q\<rfloor>)"

lemma pow2_pos [simp]: "0 < pow2 e"
  by (simp add: pow2_def)

lemma round_even_of_int [simp]: "round_even (of_int n) = n"
  by (simp add: round_even_def)

lemma round_even_mono: "p \<le> q \<Longrightarrow> round_even p \<le> round_even q"
proof -
  assume le: "p \<le> q"
  then have f: "\<lfloor>p\<rfloor> \<le> \<lfloor>q\<rfloor>" by (rule floor_mono)
  show ?thesis
  proof (cases "\<lfloor>p\<rfloor> = \<lfloor>q\<rfloor>")
    case True
    with le show ?thesis by (auto simp: round_even_def Let_def)
  next
    case False
    with f have "\<lfloor>p\<rfloor> + 1 \<le> \<lfloor>q\<rfloor>" by simp
    then show ?thesis by (auto simp: round_even_def Let_def)
  qed
qed

lemma fl_0 [simp]: "fl 0 = 0"
  by (simp add: fl_def)

text \<open>A number with an integral significand at the exponent of its own last place is exact.\<close>

lemma fl_exact:
  assumes "q / pow2 (ulp_exponent q) = of_int k"
  shows "fl q = q"
proof -
  have "pow2 (ulp_exponent q) \<noteq> 0" using pow2_pos less_imp_neq by metis
  with assms have "q = of_int k * pow2 (ulp_exponent q)" by (simp add: divide_eq_eq)
  then show ?thesis using assms by (simp add: fl_def)
qed

lemma bit_length_bound: "n < 2 ^ k \<Longrightarrow> bit_length n \<le> k"
proof (induction n arbitrary: k rule: bit_length.induct)
  case (1 n)
  show ?case
  proof (cases "n = 0")
    case True then show ?thesis by (simp add: bit_length.simps)
  next
    case False
    with "1.prems" obtain j where k: "k = Suc j" by (cases k) auto
    with "1.prems" have "n div 2 < 2 ^ j" by auto
    from "1.IH" [OF False this] False k show ?thesis by (simp add: bit_length.simps [of n])
  qed
qed

lemma bit_length_1 [simp]: "bit_length (Suc 0) = 1"
  by (subst bit_length.simps) (simp add: bit_length.simps [of 0])

lemma of_int_over_pow2:
  assumes "e \<le> 0" shows "\<exists>k. of_int n / pow2 e = of_int k"
proof (cases "e = 0")
  case True
  then have "of_int n / pow2 e = of_int n" by (simp add: pow2_def)
  then show ?thesis ..
next
  case False
  then have "of_int n / pow2 e = of_int (n * 2 ^ nat (- e))" using assms by (simp add: pow2_def)
  then show ?thesis ..
qed

lemma ulp_exponent_of_int:
  assumes "\<bar>n\<bar> < 2 ^ 53" shows "ulp_exponent (of_int n) \<le> 0"
proof -
  have q: "quotient_of \<bar>of_int n\<bar> = (\<bar>n\<bar>, 1)"
    using quotient_of_int [of "\<bar>n\<bar>"] by (simp only: Rat.of_int_def of_int_abs [symmetric])
  define e where "e = int (bit_length (nat \<bar>n\<bar>)) - int (bit_length (nat 1)) - 53"
  define c where "c \<longleftrightarrow> (2 ^ 53 :: rat) \<le> \<bar>of_int n\<bar> / pow2 e"
  have "int (nat \<bar>n\<bar>) < int (2 ^ 53)" using assms by simp
  then have "nat \<bar>n\<bar> < 2 ^ 53" by (simp only: of_nat_less_iff)
  then have "bit_length (nat \<bar>n\<bar>) \<le> 53" by (rule bit_length_bound)
  moreover have "bit_length (nat 1) = 1" by simp
  ultimately have "e + 1 \<le> 0" by (simp add: e_def)
  moreover have "ulp_exponent (of_int n) = max (if c then e + 1 else e) (- 1074)"
    unfolding ulp_exponent_def q c_def e_def Let_def prod.case ..
  ultimately show ?thesis by auto
qed

lemma fl_of_int:
  assumes "\<bar>n\<bar> < 2 ^ 53"
  shows "fl (of_int n) = of_int n"
  using of_int_over_pow2 [OF ulp_exponent_of_int [OF assms]] fl_exact by blast

lemma int_of_float_of_int [simp]: "int_of_float (of_int n) = n"
  by (simp add: int_of_float_def)

lemma int_of_float_nonneg: "0 \<le> q \<Longrightarrow> 0 \<le> int_of_float q"
  by (simp add: int_of_float_def)

subsection \<open>The text of a value\<close>

text \<open>
  \<open>repr\<close> of a float: the least number of significant digits, 17 at most, whose decimal number
  rounds to the float again, written with an exponent below 1e-4 and from 1e16 on.
  \<open>decimal_exponent\<close> finds \<open>k\<close> with \<open>10 ^ (k - 1) \<le> q < 10 ^ k\<close>; its fuel covers every binary64
  magnitude.
\<close>

fun decimal_exponent :: "nat \<Rightarrow> rat \<Rightarrow> int" where
  "decimal_exponent 0 q = 0"
| "decimal_exponent (Suc fuel) q =
     (if 1 \<le> q then decimal_exponent fuel (q / 10) + 1
      else if q < 1 / 10 then decimal_exponent fuel (q * 10) - 1 else 0)"

definition pow10 :: "int \<Rightarrow> rat" where
  "pow10 e = (if 0 \<le> e then 10 ^ nat e else 1 / 10 ^ nat (- e))"

text \<open>The \<open>n\<close>-digit candidates for \<open>q\<close>: the nearest integer significand first, then its neighbours.\<close>

definition candidate :: "rat \<Rightarrow> int \<Rightarrow> nat \<Rightarrow> int option" where
  "candidate q k n =
     (let x = q * pow10 (int n - k)
      in find (\<lambda>m. fl (of_int m * pow10 (k - int n)) = q) [round_even x, \<lfloor>x\<rfloor>, \<lfloor>x\<rfloor> + 1])"

fun shortest :: "rat \<Rightarrow> int \<Rightarrow> nat list \<Rightarrow> int \<times> nat" where
  "shortest q k [] = (round_even (q * pow10 (17 - k)), 17)"
| "shortest q k (n # ns) = (case candidate q k n of Some m \<Rightarrow> (m, n) | None \<Rightarrow> shortest q k ns)"

definition format_decimal :: "string \<Rightarrow> int \<Rightarrow> string" where
  "format_decimal ds k =
     (if - 4 < k \<and> k \<le> 16 then
        (if k \<le> 0 then ''0.'' @ replicate (nat (- k)) (digit_char 0) @ ds
         else if int (length ds) \<le> k then ds @ replicate (nat k - length ds) (digit_char 0) @ ''.0''
         else take (nat k) ds @ ''.'' @ drop (nat k) ds)
      else take 1 ds @ (if length ds \<le> 1 then [] else ''.'' @ drop 1 ds) @ ''e'' @
        (if 0 \<le> k - 1 then ''+'' else ''-'') @
        (if \<bar>k - 1\<bar> < 10 then ''0'' else []) @ nat_str (nat \<bar>k - 1\<bar>))"

definition float_repr :: "rat \<Rightarrow> string" where
  "float_repr q =
     (if q = 0 then ''0.0''
      else let a = \<bar>q\<bar>; k = decimal_exponent 400 a; (m, n) = shortest a k [1..<18];
               ds = nat_str (nat m); k' = k + int (length ds) - int n
           in (if q < 0 then ''-'' else []) @
              format_decimal (rev (dropWhile (\<lambda>c. c = digit_char 0) (rev ds))) k')"

text \<open>\<open>repr\<close> of a string: the quote that does not occur, escapes for control characters.\<close>

definition hex_char :: "nat \<Rightarrow> char" where
  "hex_char d = (if d < 10 then char_of (48 + d) else char_of (87 + d))"

definition repr_char :: "char \<Rightarrow> char \<Rightarrow> string" where
  "repr_char q c = (let n = (of_char c :: nat) in
     if c = q \<or> n = 92 then [char_of (92::nat), c]
     else if n = 10 then [char_of (92::nat), CHR ''n'']
     else if n = 13 then [char_of (92::nat), CHR ''r'']
     else if n = 9 then [char_of (92::nat), CHR ''t'']
     else if n < 32 \<or> (127 \<le> n \<and> n \<le> 160) \<or> n = 173
       then [char_of (92::nat), CHR ''x'', hex_char (n div 16), hex_char (n mod 16)]
     else [c])"

definition str_repr :: "string \<Rightarrow> string" where
  "str_repr s = (let q = (if char_of (39::nat) \<in> set s \<and> char_of (34::nat) \<notin> set s
                          then char_of (34::nat) else char_of (39::nat))
                 in [q] @ concat (map (repr_char q) s) @ [q])"

fun py_repr :: "pyval \<Rightarrow> string" where
  "py_repr PNone = ''None''"
| "py_repr (PBool b) = (if b then ''True'' else ''False'')"
| "py_repr (PInt i) = int_str i"
| "py_repr (PFloat q) = float_repr q"
| "py_repr (PStr s) = str_repr s"
| "py_repr (PList xs) = ''['' @ join_with '', '' (map py_repr xs) @ '']''"
| "py_repr (PDict d) = ''{'' @ join_with '', '' (map (\<lambda>(k, v). str_repr k @ '': '' @ py_repr v) d) @ ''}''"

definition py_str :: "pyval \<Rightarrow> string" where
  "py_str v = (case v of PStr s \<Rightarrow> s | _ \<Rightarrow> py_repr v)"

lemma py_str_PStr [simp]: "py_str (PStr s) = s"
  by (simp add: py_str_def)

end
