(* ===== verification/Policy_Values.thy ===== *)
theory Policy_Values
  imports Py_Value
begin

text \<open>
  What the policy engines under \<open>governance/\<close> share: results that may be an exception, the conversions
  \<open>int(x)\<close> and \<open>float(x)\<close>, dictionary access, \<open>parse_scalar\<close> and the line discipline of the
  hand-written YAML readers.
\<close>

subsection \<open>Results\<close>

definition rbind :: "'a result \<Rightarrow> ('a \<Rightarrow> 'b result) \<Rightarrow> 'b result" where
  "rbind m f = (case m of Inl e \<Rightarrow> Inl e | Inr x \<Rightarrow> f x)"

lemma rbind_simps [simp]: "rbind (Inl e) f = Inl e" "rbind (Inr x) f = f x"
  by (simp_all add: rbind_def)

lemma rbind_Inr: "rbind m f = Inr y \<longleftrightarrow> (\<exists>x. m = Inr x \<and> f x = Inr y)"
  by (cases m) simp_all

text \<open>\<open>d[k]\<close>.\<close>

definition item :: "pyobj \<Rightarrow> string \<Rightarrow> pyval result" where
  "item d k = (case map_of d k of None \<Rightarrow> Inl (KeyError k) | Some v \<Rightarrow> Inr v)"

text \<open>\<open>v[k] = x\<close> and \<open>v.get(k, x)\<close> on a value that should be a dictionary.\<close>

definition put :: "pyval \<Rightarrow> string \<Rightarrow> pyval \<Rightarrow> pyval result" where
  "put v k x = (case v of PDict d \<Rightarrow> Inr (PDict (dict_set k x d))
     | _ \<Rightarrow> Inl (TypeError ''object does not support item assignment''))"

definition get_attr :: "pyval \<Rightarrow> string \<Rightarrow> pyval \<Rightarrow> pyval result" where
  "get_attr v k x = (case v of PDict d \<Rightarrow> Inr (get_default d k x)
     | _ \<Rightarrow> Inl (AttributeError ''object has no attribute get''))"

definition item_of :: "pyval \<Rightarrow> string \<Rightarrow> pyval result" where
  "item_of v k = (case v of PDict d \<Rightarrow> item d k | _ \<Rightarrow> Inl (TypeError ''object is not subscriptable''))"

subsection \<open>\<open>int\<close> and \<open>float\<close> of a text\<close>

text \<open>Digits, single underscores allowed between them; the value of a digit string.\<close>

fun digit_groups :: "bool \<Rightarrow> string \<Rightarrow> bool" where
  "digit_groups after_digit [] = after_digit"
| "digit_groups after_digit (c # s) =
     (if is_digit c then digit_groups True s
      else c = CHR ''_'' \<and> after_digit \<and> s \<noteq> [] \<and> is_digit (hd s) \<and> digit_groups False s)"

fun digits_to_nat :: "nat \<Rightarrow> string \<Rightarrow> nat" where
  "digits_to_nat acc [] = acc"
| "digits_to_nat acc (c # s) =
     digits_to_nat (if is_digit c then 10 * acc + (of_char c - 48) else acc) s"

definition split_sign :: "string \<Rightarrow> bool \<times> string" where
  "split_sign s = (case s of [] \<Rightarrow> (False, [])
     | c # r \<Rightarrow> if c = CHR ''-'' then (True, r) else if c = CHR ''+'' then (False, r) else (False, s))"

definition int_of_text :: "string \<Rightarrow> int option" where
  "int_of_text s = (let (neg, d) = split_sign (py_strip s) in
     if digit_groups False d then Some (if neg then - int (digits_to_nat 0 d) else int (digits_to_nat 0 d))
     else None)"

text \<open>
  A decimal literal: digits, an optional fraction, an optional exponent. Infinity and NaN are not
  modelled: their texts count as no number.
\<close>

definition is_exponent_mark :: "char \<Rightarrow> bool" where
  "is_exponent_mark c \<longleftrightarrow> c = CHR ''e'' \<or> c = CHR ''E''"

definition split_exponent :: "string \<Rightarrow> (string \<times> int) option" where
  "split_exponent s =
     (let m = takeWhile (\<lambda>c. \<not> is_exponent_mark c) s; r = dropWhile (\<lambda>c. \<not> is_exponent_mark c) s
      in case r of [] \<Rightarrow> Some (m, 0)
         | _ # e \<Rightarrow> (let (neg, d) = split_sign e in
             if digit_groups False d
             then Some (m, if neg then - int (digits_to_nat 0 d) else int (digits_to_nat 0 d)) else None))"

definition mantissa :: "string \<Rightarrow> (nat \<times> nat) option" where
  "mantissa m =
     (let (w, dot, f) = partition_char (CHR ''.'') m;
          ok = (\<lambda>x. x = [] \<or> digit_groups False x)
      in if ok w \<and> ok f \<and> (w \<noteq> [] \<or> f \<noteq> [])
         then Some (digits_to_nat (digits_to_nat 0 w) f, length (filter is_digit f)) else None)"

definition float_of_text :: "string \<Rightarrow> rat option" where
  "float_of_text s =
     (let (neg, d) = split_sign (py_strip s) in
      case split_exponent d of None \<Rightarrow> None
      | Some (m, e) \<Rightarrow> (case mantissa m of None \<Rightarrow> None
          | Some (n, k) \<Rightarrow> (let q = fl (of_nat n * pow10 (e - int k)) in Some (if neg then - q else q))))"

subsection \<open>\<open>int\<close> and \<open>float\<close> of a value\<close>

fun py_int :: "pyval \<Rightarrow> int result" where
  "py_int (PInt i) = Inr i"
| "py_int (PBool b) = Inr (if b then 1 else 0)"
| "py_int (PFloat q) = Inr (int_of_float q)"
| "py_int (PStr s) = (case int_of_text s of Some i \<Rightarrow> Inr i
     | None \<Rightarrow> Inl (ValueError (''invalid literal for int() with base 10: '' @ str_repr s)))"
| "py_int v = Inl (TypeError ''int() argument'')"

fun py_float :: "pyval \<Rightarrow> rat result" where
  "py_float (PInt i) = Inr (float_of_int i)"
| "py_float (PBool b) = Inr (if b then 1 else 0)"
| "py_float (PFloat q) = Inr q"
| "py_float (PStr s) = (case float_of_text s of Some q \<Rightarrow> Inr q
     | None \<Rightarrow> Inl (ValueError (''could not convert string to float: '' @ str_repr s)))"
| "py_float v = Inl (TypeError ''float() argument'')"

text \<open>What iterating over a value yields.\<close>

fun py_iter :: "pyval \<Rightarrow> pyval list result" where
  "py_iter (PList xs) = Inr xs"
| "py_iter (PStr s) = Inr (map (\<lambda>c. PStr [c]) s)"
| "py_iter (PDict d) = Inr (map (\<lambda>(k, v). PStr k) d)"
| "py_iter v = Inl (TypeError ''object is not iterable'')"

subsection \<open>\<open>parse_scalar\<close>\<close>

text \<open>
  Two versions occur: cost and risk read numbers and texts, the others also booleans. A dot decides
  between float and int, and what is no number stays text.
\<close>

definition number_or_text :: "string \<Rightarrow> pyval" where
  "number_or_text s =
     (if CHR ''.'' \<in> set s
      then (case float_of_text s of Some q \<Rightarrow> PFloat q | None \<Rightarrow> PStr s)
      else (case int_of_text s of Some i \<Rightarrow> PInt i | None \<Rightarrow> PStr s))"

definition parse_number :: "string \<Rightarrow> pyval" where
  "parse_number value = (let s = py_strip value in if s = [] then PStr [] else number_or_text s)"

definition parse_scalar :: "string \<Rightarrow> pyval" where
  "parse_scalar value =
     (let s = py_strip value in
      if s = [] then PStr []
      else if py_lower s \<in> {''true'', ''yes''} then PBool True
      else if py_lower s \<in> {''false'', ''no''} then PBool False
      else number_or_text s)"

subsection \<open>Lines\<close>

text \<open>\<open>str.splitlines\<close> on the code points 0 to 255.\<close>

definition is_line_end :: "char \<Rightarrow> bool" where
  "is_line_end c \<longleftrightarrow> (let n = (of_char c :: nat) in (10 \<le> n \<and> n \<le> 13) \<or> (28 \<le> n \<and> n \<le> 30) \<or> n = 133)"

fun split_lines :: "string \<Rightarrow> string \<Rightarrow> string list" where
  "split_lines cur [] = (if cur = [] then [] else [rev cur])"
| "split_lines cur (c # s) =
     (if c = CHR 0x0D \<and> s \<noteq> [] \<and> hd s = CHR 0x0A then split_lines (c # cur) s
      else if is_line_end c
        then rev (if c = CHR 0x0A \<and> cur \<noteq> [] \<and> hd cur = CHR 0x0D then tl cur else cur) # split_lines [] s
      else split_lines (c # cur) s)"

definition splitlines :: "string \<Rightarrow> string list" where
  "splitlines s = split_lines [] s"

text \<open>
  The lines a reader looks at: blank ones and comments are skipped, the others come with the number
  of leading spaces and stripped.
\<close>

record config_line =
  l_raw :: string
  l_indent :: nat
  l_text :: string

definition config_line_of :: "string \<Rightarrow> config_line" where
  "config_line_of raw =
     \<lparr>l_raw = raw, l_indent = length (takeWhile (\<lambda>c. c = CHR '' '') raw), l_text = py_strip raw\<rparr>"

definition config_lines :: "string \<Rightarrow> config_line list" where
  "config_lines text = map config_line_of
     (filter (\<lambda>raw. py_strip raw \<noteq> [] \<and> \<not> starts_with (py_lstrip raw) ''#'') (splitlines text))"

text \<open>\<open>line.rstrip(":")\<close>.\<close>

definition rstrip_colons :: "string \<Rightarrow> string" where
  "rstrip_colons s = rev (dropWhile (\<lambda>c. c = CHR '':'') (rev s))"

text \<open>A reader folds its step over the lines and stops at the first error.\<close>

fun read_lines :: "('s \<Rightarrow> config_line \<Rightarrow> 's result) \<Rightarrow> 's \<Rightarrow> config_line list \<Rightarrow> 's result" where
  "read_lines step s [] = Inr s"
| "read_lines step s (l # ls) = rbind (step s l) (\<lambda>s'. read_lines step s' ls)"

lemma read_lines_append:
  "read_lines step s (ls @ ls') = rbind (read_lines step s ls) (\<lambda>s'. read_lines step s' ls')"
  by (induction ls arbitrary: s) (auto simp: rbind_def split: sum.split)

text \<open>
  The contract of a reader: an invariant of its state that holds at the start and that every accepted
  line keeps. What it returns then satisfies it.
\<close>

locale line_reader =
  fixes step :: "'s \<Rightarrow> config_line \<Rightarrow> 's result" and start :: 's and inv :: "'s \<Rightarrow> bool"
  assumes start_inv: "inv start"
    and step_inv: "inv s \<Longrightarrow> step s l = Inr s' \<Longrightarrow> inv s'"
begin

lemma read_inv_from: "inv s \<Longrightarrow> read_lines step s ls = Inr s' \<Longrightarrow> inv s'"
proof (induction ls arbitrary: s)
  case (Cons l ls)
  then show ?case by (auto simp: rbind_Inr intro: step_inv)
qed simp

lemma read_inv: "read_lines step start ls = Inr s \<Longrightarrow> inv s"
  using read_inv_from [OF start_inv] .

lemma read_error_at:
  assumes "read_lines step start ls = Inl e"
  shows "\<exists>pre l post s. ls = pre @ l # post \<and> read_lines step start pre = Inr s \<and> inv s \<and> step s l = Inl e"
proof -
  have "\<exists>pre l post s'. ls = pre @ l # post \<and> read_lines step s pre = Inr s' \<and> step s' l = Inl e"
    if "read_lines step s ls = Inl e" for s
    using that
  proof (induction ls arbitrary: s)
    case (Cons l ls)
    show ?case
    proof (cases "step s l")
      case (Inl e')
      with Cons.prems have "l # ls = [] @ l # ls \<and> read_lines step s [] = Inr s \<and> step s l = Inl e" by simp
      then show ?thesis by blast
    next
      case (Inr s1)
      with Cons.prems Cons.IH [of s1] obtain pre l' post s' where
        "ls = pre @ l' # post" "read_lines step s1 pre = Inr s'" "step s' l' = Inl e" by auto
      with Inr have "l # ls = (l # pre) @ l' # post \<and> read_lines step s (l # pre) = Inr s' \<and> step s' l' = Inl e"
        by simp
      then show ?thesis by blast
    qed
  qed simp
  from this [OF assms] read_inv show ?thesis by blast
qed

end

end
