(* ===== verification/Table_Files.thy ===== *)
theory Table_Files
  imports Policy_Values
begin

text \<open>
  The two-level layout that the quota, policy pack and residency files share: a name on a line
  indented by two, its entries below it indented by four. The contract of a reader of this layout
  and the round trip through it: what is written is what is read.
\<close>

type_synonym table = "(string \<times> pyobj) list"

definition set_in :: "string \<Rightarrow> string \<Rightarrow> pyval \<Rightarrow> table \<Rightarrow> table" where
  "set_in name key v t = dict_set name (dict_set key v (get_default t name [])) t"

text \<open>A dictionary of dictionaries: no name and no key of a name occurs twice.\<close>

definition keys_distinct :: "table \<Rightarrow> bool" where
  "keys_distinct t \<longleftrightarrow> distinct (map fst t) \<and> (\<forall>d\<in>snd ` set t. distinct (map fst d))"

lemma snd_dict_set: "snd ` set (dict_set k v d) \<subseteq> insert v (snd ` set d)"
  by (induction k v d rule: dict_set.induct) auto

lemma fst_dict_set: "fst ` set (dict_set k v d) = insert k (fst ` set d)"
  by (induction k v d rule: dict_set.induct) auto

lemma keys_distinct_Nil [simp]: "keys_distinct []"
  by (simp add: keys_distinct_def)

lemma keys_distinct_dict_set:
  "keys_distinct t \<Longrightarrow> distinct (map fst d) \<Longrightarrow> keys_distinct (dict_set n d t)"
proof -
  assume t: "keys_distinct t" and d: "distinct (map fst d)"
  have "distinct (map fst x)" if "x \<in> snd ` set (dict_set n d t)" for x
    using that t d subsetD [OF snd_dict_set that] by (auto simp: keys_distinct_def)
  moreover have "distinct (map fst (dict_set n d t))" using t by (simp add: keys_distinct_def distinct_dict_set)
  ultimately show ?thesis by (simp only: keys_distinct_def) blast
qed

lemma keys_distinct_new [simp]: "keys_distinct t \<Longrightarrow> keys_distinct (dict_set n [] t)"
  by (simp add: keys_distinct_dict_set)

lemma keys_set_in [simp]:
  "keys_distinct t \<Longrightarrow> keys_distinct (set_in n k v t)" "fst ` set (set_in n k v t) = insert n (fst ` set t)"
proof -
  have "get_default t n [] = [] \<or> get_default t n [] \<in> snd ` set t"
    by (auto simp: get_default_def split: option.split dest: map_of_SomeD intro: rev_image_eqI)
  then have "distinct (map fst (get_default t n []))" if "keys_distinct t" using that by (auto simp: keys_distinct_def)
  then show "keys_distinct t \<Longrightarrow> keys_distinct (set_in n k v t)"
    by (simp add: set_in_def keys_distinct_dict_set distinct_dict_set)
qed (simp add: set_in_def fst_dict_set)

subsection \<open>Lines of a text\<close>

definition plain :: "string \<Rightarrow> bool" where
  "plain s = list_all (\<lambda>c. \<not> is_line_end c) s"

lemma is_line_end_10 [simp]: "is_line_end (CHR 0x0A)" and is_line_end_13 [simp]: "is_line_end (CHR 0x0D)"
  by (simp_all add: is_line_end_def)

lemma split_lines_plain:
  "plain s \<Longrightarrow> \<not> (cur \<noteq> [] \<and> hd cur = CHR 0x0D) \<Longrightarrow>
   split_lines cur (s @ CHR 0x0A # rest) = rev (rev s @ cur) # split_lines [] rest"
proof (induction s arbitrary: cur)
  case (Cons c s)
  then have c: "\<not> is_line_end c" "c \<noteq> CHR 0x0D" by (auto simp: plain_def)
  with Cons.prems Cons.IH [of "c # cur"] show ?case by (simp add: plain_def)
qed auto

lemma splitlines_unlines:
  "list_all plain ls \<Longrightarrow> splitlines (concat (map (\<lambda>l. l @ [CHR 0x0A]) ls)) = ls"
proof (induction ls)
  case (Cons l ls)
  then show ?case by (simp add: splitlines_def split_lines_plain)
qed (simp add: splitlines_def)

lemma py_strip_clean:
  assumes "s \<noteq> []" "\<not> is_space (hd s)" "\<not> is_space (last s)" shows "py_strip s = s"
  using assms by (simp add: py_strip_def dropWhile_hd hd_rev)

lemma is_space_blank [simp]: "is_space (CHR '' '')"
  by (simp add: is_space_def)

lemma not_is_space_colon [simp]: "\<not> is_space (CHR '':'')"
  by (simp add: is_space_def)

lemma py_lstrip_blanks: "py_lstrip (replicate n (CHR '' '') @ s) = py_lstrip s"
  by (induction n) (simp_all add: py_lstrip_def)

lemma py_strip_blanks: "py_strip (replicate n (CHR '' '') @ s) = py_strip s"
  using py_lstrip_blanks [of n s] by (simp add: py_strip_def py_lstrip_def)

lemma takeWhile_blanks:
  assumes "s \<noteq> []" "\<not> is_space (hd s)"
  shows "takeWhile (\<lambda>c. c = CHR '' '') (replicate n (CHR '' '') @ s) = replicate n (CHR '' '')"
proof -
  have "hd s \<noteq> CHR '' ''" using assms(2) by (metis is_space_blank)
  then have "takeWhile (\<lambda>c. c = CHR '' '') s = []" using assms(1) by (cases s) auto
  then show ?thesis by (induction n) simp_all
qed

text \<open>A line is read as its indentation and its text.\<close>

lemma config_line_of_indented:
  assumes "s \<noteq> []" "\<not> is_space (hd s)" "\<not> is_space (last s)"
  shows "config_line_of (replicate n (CHR '' '') @ s) =
    \<lparr>l_raw = replicate n (CHR '' '') @ s, l_indent = n, l_text = s\<rparr>"
  using assms by (simp add: config_line_of_def takeWhile_blanks py_strip_blanks py_strip_clean)

lemma config_lines_unlines:
  assumes "list_all (\<lambda>(n, s). s \<noteq> [] \<and> \<not> is_space (hd s) \<and> \<not> is_space (last s) \<and> hd s \<noteq> CHR ''#'' \<and> plain s) ls"
  shows "config_lines (concat (map (\<lambda>l. l @ [CHR 0x0A]) (map (\<lambda>(n, s). replicate n (CHR '' '') @ s) ls))) =
    map (\<lambda>(n, s). \<lparr>l_raw = replicate n (CHR '' '') @ s, l_indent = n, l_text = s\<rparr>) ls"
proof -
  let ?raw = "\<lambda>(n, s). replicate n (CHR '' '') @ s"
  have "plain (replicate n (CHR '' ''))" for n by (induction n) (simp_all add: plain_def is_line_end_def)
  then have "list_all plain (map ?raw ls)" using assms by (auto simp: list_all_iff plain_def)
  then have "splitlines (concat (map (\<lambda>l. l @ [CHR 0x0A]) (map ?raw ls))) = map ?raw ls"
    by (rule splitlines_unlines)
  moreover have "py_strip (?raw p) \<noteq> [] \<and> \<not> starts_with (py_lstrip (?raw p)) ''#''" if "p \<in> set ls" for p
  proof -
    obtain n s where p: "p = (n, s)" by (cases p)
    with that assms have s: "s \<noteq> []" "\<not> is_space (hd s)" "\<not> is_space (last s)" "hd s \<noteq> CHR ''#''"
      by (auto simp: list_all_iff)
    then have "py_lstrip s = s" by (simp add: py_lstrip_def dropWhile_hd)
    with s p show ?thesis
      by (cases s) (simp_all add: py_strip_blanks py_lstrip_blanks py_strip_clean starts_with_def)
  qed
  ultimately have "filter (\<lambda>raw. py_strip raw \<noteq> [] \<and> \<not> starts_with (py_lstrip raw) ''#'')
      (splitlines (concat (map (\<lambda>l. l @ [CHR 0x0A]) (map ?raw ls)))) = map ?raw ls"
    by (simp add: filter_id_conv)
  then show ?thesis using assms
    by (auto simp: config_lines_def list_all_iff config_line_of_indented split: prod.splits)
qed

subsection \<open>Writing a table\<close>

fun scalar_text :: "pyval \<Rightarrow> string" where
  "scalar_text (PBool b) = (if b then ''true'' else ''false'')"
| "scalar_text (PInt i) = int_str i"
| "scalar_text (PStr s) = s"
| "scalar_text (PFloat q) = float_repr q"
| "scalar_text v = []"

definition name_ok :: "string \<Rightarrow> bool" where
  "name_ok s \<longleftrightarrow> s \<noteq> [] \<and> \<not> is_space (hd s) \<and> hd s \<noteq> CHR ''#'' \<and> plain s \<and> CHR '':'' \<notin> set s"

text \<open>A scalar is written faithfully when its text is read back as the scalar.\<close>

definition scalar_ok :: "pyval \<Rightarrow> bool" where
  "scalar_ok v \<longleftrightarrow> (let t = scalar_text v in
     t \<noteq> [] \<and> \<not> is_space (last t) \<and> plain t \<and> parse_scalar (CHR '' '' # t) = v)"

definition table_ok :: "table \<Rightarrow> bool" where
  "table_ok t \<longleftrightarrow> distinct (map fst t) \<and>
     list_all (\<lambda>(name, d). name_ok name \<and> distinct (map fst d) \<and> list_all (\<lambda>(k, v). name_ok k \<and> scalar_ok v) d) t"

definition entry_line :: "string \<times> pyval \<Rightarrow> nat \<times> string" where
  "entry_line kv = (4, fst kv @ '': '' @ scalar_text (snd kv))"

definition group_lines :: "string \<times> pyobj \<Rightarrow> (nat \<times> string) list" where
  "group_lines g = (2, fst g @ '':'') # map entry_line (snd g)"

definition file_text :: "(nat \<times> string) list \<Rightarrow> string" where
  "file_text ls = concat (map (\<lambda>l. l @ [CHR 0x0A]) (map (\<lambda>(n, s). replicate n (CHR '' '') @ s) ls))"

definition read_line :: "nat \<times> string \<Rightarrow> config_line" where
  "read_line = (\<lambda>(n, s). \<lparr>l_raw = replicate n (CHR '' '') @ s, l_indent = n, l_text = s\<rparr>)"

definition line_ok :: "nat \<times> string \<Rightarrow> bool" where
  "line_ok = (\<lambda>(n, s). s \<noteq> [] \<and> \<not> is_space (hd s) \<and> \<not> is_space (last s) \<and> hd s \<noteq> CHR ''#'' \<and> plain s)"

lemma config_lines_file_text: "list_all line_ok ls \<Longrightarrow> config_lines (file_text ls) = map read_line ls"
  unfolding file_text_def read_line_def line_ok_def by (rule config_lines_unlines)

lemma plain_append [simp]: "plain (a @ b) \<longleftrightarrow> plain a \<and> plain b"
  by (simp add: plain_def)

lemma line_ok_group: "name_ok n \<Longrightarrow> line_ok (i, n @ '':'')"
  by (auto simp: line_ok_def name_ok_def) (simp add: plain_def is_line_end_def)

lemma line_ok_entry: "name_ok k \<Longrightarrow> scalar_ok v \<Longrightarrow> line_ok (entry_line (k, v))"
  by (auto simp: line_ok_def name_ok_def entry_line_def scalar_ok_def Let_def)
    (simp_all add: plain_def is_line_end_def)

lemma line_ok_table:
  "table_ok t \<Longrightarrow> list_all line_ok (concat (map group_lines t))"
  by (fastforce simp: table_ok_def list_all_iff group_lines_def intro: line_ok_group line_ok_entry)

lemma partition_char_found:
  "c \<notin> set k \<Longrightarrow> partition_char c (k @ c # v) = (k, True, v)"
proof -
  assume c: "c \<notin> set k"
  have "takeWhile (\<lambda>x. x \<noteq> c) (k @ c # v) = k" "dropWhile (\<lambda>x. x \<noteq> c) (k @ c # v) = c # v"
    using c by (auto simp: takeWhile_append dropWhile_append)
  then show ?thesis by (simp add: partition_char_def)
qed

text \<open>Integers and booleans are always written faithfully.\<close>

lemma is_digit_digit_char: "d < 10 \<Longrightarrow> is_digit (digit_char d) \<and> (of_char (digit_char d) :: nat) = 48 + d"
  by (simp add: is_digit_def digit_char_def)

lemma nat_str_digits: "list_all is_digit (nat_str n) \<and> nat_str n \<noteq> []"
proof (induction n rule: nat_str.induct)
  case (1 n)
  then show ?case
    using is_digit_digit_char [of n] is_digit_digit_char [of "n mod 10"]
    by (subst (1 2) nat_str.simps) auto
qed

lemma digits_to_nat_append: "digits_to_nat acc (a @ b) = digits_to_nat (digits_to_nat acc a) b"
  by (induction a arbitrary: acc) auto

lemma digits_to_nat_nat_str: "digits_to_nat 0 (nat_str n) = n"
proof (induction n rule: nat_str.induct)
  case (1 n)
  then show ?case
    using is_digit_digit_char [of n] is_digit_digit_char [of "n mod 10"]
    by (subst nat_str.simps) (auto simp: digits_to_nat_append)
qed

lemma digit_groups_digits: "list_all is_digit s \<Longrightarrow> digit_groups b s \<longleftrightarrow> b \<or> s \<noteq> []"
  by (induction s arbitrary: b) auto

lemma is_digit_facts:
  assumes "is_digit c"
  shows "\<not> is_space c" "\<not> is_line_end c" "c \<noteq> CHR ''-''" "c \<noteq> CHR ''+''" "c \<noteq> CHR ''.''" "lower_char c = c"
  using assms by (auto simp: is_digit_def is_space_def is_line_end_def lower_char_def Let_def)

lemma int_str_shape:
  "\<exists>d. list_all is_digit d \<and> d \<noteq> [] \<and> (int_str i = d \<or> int_str i = CHR ''-'' # d) \<and>
     int_of_text d = Some (if int_str i = d then i else - i)"
proof -
  define d where "d = nat_str (nat \<bar>i\<bar>)"
  have d: "list_all is_digit d" "d \<noteq> []" using nat_str_digits [of "nat \<bar>i\<bar>"] by (simp_all add: d_def)
  obtain c s where cs: "d = c # s" using d(2) by (cases d) auto
  have c: "is_digit c" and l: "is_digit (last d)" using d cs by (auto simp: list_all_iff)
  have "py_strip d = d" using d(2) cs is_digit_facts(1) [OF c] is_digit_facts(1) [OF l] by (intro py_strip_clean) auto
  moreover have "split_sign d = (False, d)" using cs is_digit_facts(3,4) [OF c] by (simp add: split_sign_def)
  moreover have "digits_to_nat 0 d = nat \<bar>i\<bar>" by (simp add: d_def digits_to_nat_nat_str)
  ultimately have "int_of_text d = Some \<bar>i\<bar>" using d by (simp add: int_of_text_def digit_groups_digits)
  moreover have "int_str i = (if i < 0 then CHR ''-'' # d else d)" by (simp add: int_str_def d_def)
  moreover have "CHR ''-'' # d \<noteq> d" by simp
  ultimately show ?thesis using d by (cases "i < 0") (intro exI [of _ d]; simp)+
qed

lemma int_of_text_minus:
  assumes "list_all is_digit d" "d \<noteq> []" "int_of_text d = Some i"
  shows "int_of_text (CHR ''-'' # d) = Some (- i)"
proof -
  obtain c s where cs: "d = c # s" using assms(2) by (cases d) auto
  have c: "is_digit c" and l: "is_digit (last d)" using assms cs by (auto simp: list_all_iff)
  have "py_strip d = d" using cs is_digit_facts(1) [OF c] is_digit_facts(1) [OF l] by (intro py_strip_clean) auto
  moreover have "py_strip (CHR ''-'' # d) = CHR ''-'' # d"
    using assms(2) is_digit_facts(1) [OF l] by (intro py_strip_clean) (auto simp: is_space_def)
  moreover have "split_sign d = (False, d)" "split_sign (CHR ''-'' # d) = (True, d)"
    using cs is_digit_facts(3,4) [OF c] by (simp_all add: split_sign_def)
  ultimately show ?thesis using assms(3) by (simp add: int_of_text_def Let_def split: if_splits)
qed

lemma scalar_ok_PInt [simp]: "scalar_ok (PInt i)"
proof -
  obtain d where d: "list_all is_digit d" "d \<noteq> []" "int_str i = d \<or> int_str i = CHR ''-'' # d"
    "int_of_text d = Some (if int_str i = d then i else - i)" using int_str_shape by blast
  let ?s = "int_str i"
  have l: "is_digit (last d)" using d by (auto simp: list_all_iff)
  have ne: "?s \<noteq> []" "last ?s = last d" using d by auto
  have hd: "is_digit (hd ?s) \<or> hd ?s = CHR ''-''" using d(1-3) by (cases d) auto
  then have "\<not> is_space (hd ?s)" using is_digit_facts(1) by (auto simp: is_space_def)
  then have strip: "py_strip ?s = ?s" using ne is_digit_facts(1) [OF l] by (intro py_strip_clean) auto
  then have strip': "py_strip (CHR '' '' # ?s) = ?s" using py_strip_blanks [of 1 ?s] by simp
  have hd_lower: "hd (py_lower ?s) = hd ?s" using hd ne is_digit_facts(6)
    by (auto simp: py_lower_def hd_map lower_char_def)
  have "\<not> is_digit (CHR ''t'')" "\<not> is_digit (CHR ''y'')" "\<not> is_digit (CHR ''f'')" "\<not> is_digit (CHR ''n'')"
    by (simp_all add: is_digit_def)
  moreover have "hd ?s \<noteq> c" if "\<not> is_digit c" "c \<noteq> CHR ''-''" for c using hd that by metis
  ultimately have other: "hd ?s \<notin> {CHR ''t'', CHR ''y'', CHR ''f'', CHR ''n''}" by simp
  have lower: "py_lower ?s \<notin> {''true'', ''yes'', ''false'', ''no''}"
  proof
    assume "py_lower ?s \<in> {''true'', ''yes'', ''false'', ''no''}"
    then have "hd (py_lower ?s) \<in> {CHR ''t'', CHR ''y'', CHR ''f'', CHR ''n''}" by (elim insertE) simp_all
    with other hd_lower show False by metis
  qed
  have dot: "CHR ''.'' \<notin> set ?s" 
  proof -
    have "CHR ''.'' \<notin> set d" using d(1) is_digit_facts(5) by (auto simp: list_all_iff)
    with d(3) show ?thesis by (elim disjE) simp_all
  qed
  have "int_of_text ?s = Some i"
    using d int_of_text_minus [OF d(1,2,4)] by (cases "?s = d") auto
  with dot lower ne strip' have "parse_scalar (CHR '' '' # ?s) = PInt i"
    by (auto simp: parse_scalar_def number_or_text_def Let_def)
  moreover have "plain ?s" using d is_digit_facts(2) by (auto simp: plain_def list_all_iff is_line_end_def)
  ultimately show ?thesis using ne is_digit_facts(1) [OF l] by (simp add: scalar_ok_def Let_def)
qed

lemma scalar_ok_PBool [simp]: "scalar_ok (PBool b)"
proof -
  have "scalar_ok (PBool True)" "scalar_ok (PBool False)" by code_simp+
  then show ?thesis by (cases b) simp_all
qed

lemma ends_with_snoc [simp]: "ends_with (s @ [c]) [c]"
  by (simp add: ends_with_def)

subsection \<open>The contract of a reader\<close>

text \<open>
  \<open>st cur t\<close> is the state inside the section of the tables: \<open>cur\<close> is the name the entries go to, \<open>t\<close>
  the tables read so far.
\<close>

locale table_reading =
  fixes step :: "'s \<Rightarrow> config_line \<Rightarrow> 's result"
    and st :: "string option \<Rightarrow> table \<Rightarrow> 's"
  assumes name_step: "l_indent l = 2 \<Longrightarrow> ends_with (l_text l) '':'' \<Longrightarrow>
      step (st cur t) l = Inr (st (Some (butlast (l_text l))) (dict_set (butlast (l_text l)) [] t))"
    and entry_step: "l_indent l = 4 \<Longrightarrow> partition_char (CHR '':'') (l_text l) = (k, True, v) \<Longrightarrow>
      k \<noteq> [] \<Longrightarrow> v \<noteq> [] \<Longrightarrow> step (st (Some n) t) l = Inr (st (Some n) (set_in n k (parse_scalar v) t))"
begin

lemma read_entries:
  assumes "distinct (map fst (d @ e))" "list_all (\<lambda>(k, v). name_ok k \<and> scalar_ok v) e" "n \<notin> fst ` set t"
  shows "read_lines step (st (Some n) (t @ [(n, d)])) (map read_line (map entry_line e)) =
    Inr (st (Some n) (t @ [(n, d @ e)]))"
  using assms
proof (induction e arbitrary: d)
  case (Cons kv e)
  obtain k v where kv: "kv = (k, v)" by (cases kv)
  from Cons.prems kv have k: "name_ok k" "scalar_ok v" and fresh: "k \<notin> fst ` set d" by auto
  let ?l = "read_line (entry_line kv)"
  have colon: "CHR '':'' \<notin> set k" "k \<noteq> []" using k(1) by (simp_all add: name_ok_def)
  then have p: "partition_char (CHR '':'') (l_text ?l) = (k, True, CHR '' '' # scalar_text v)"
    using partition_char_found [of "CHR '':''" k "CHR '' '' # scalar_text v"] by (simp add: kv entry_line_def read_line_def)
  have four: "l_indent ?l = 4" by (simp add: kv entry_line_def read_line_def)
  have add: "dict_set a x xs = xs @ [(a, x)]" if "a \<notin> fst ` set xs" for a :: string and x and xs :: "(string \<times> 'b) list"
    using that by (induction a x xs rule: dict_set.induct) auto
  have upd: "dict_set n x (t @ [(n, y)]) = t @ [(n, x)]" for x y
    using Cons.prems(3) by (induction t) auto
  have get: "get_default (t @ [(n, d)]) n [] = d"
    using Cons.prems(3) by (simp add: get_default_def map_of_append map_add_def map_of_eq_None_iff split: option.splits) (auto simp: map_of_eq_None_iff [symmetric] dest: map_of_SomeD)
  have "parse_scalar (CHR '' '' # scalar_text v) = v" using k(2) by (simp add: scalar_ok_def Let_def)
  with entry_step [OF four p colon(2)] get add [OF fresh] upd
  have "step (st (Some n) (t @ [(n, d)])) ?l = Inr (st (Some n) (t @ [(n, d @ [(k, v)])]))"
    by (simp add: set_in_def)
  with Cons.IH [of "d @ [(k, v)]"] Cons.prems kv show ?case by simp
qed simp

lemma read_table:
  assumes "table_ok (t @ u)"
  shows "\<exists>c'. read_lines step (st c t) (map read_line (concat (map group_lines u))) = Inr (st c' (t @ u))"
  using assms
proof (induction u arbitrary: t c)
  case (Cons g u)
  obtain n d where g: "g = (n, d)" by (cases g)
  from Cons.prems g have ok: "distinct (map fst d)" "list_all (\<lambda>(k, v). name_ok k \<and> scalar_ok v) d"
    and fresh: "n \<notin> fst ` set t" by (auto simp: table_ok_def)
  have add: "dict_set n [] t = t @ [(n, [])]" using fresh by (induction t) auto
  have "step (st c t) (read_line (2, n @ '':'')) = Inr (st (Some n) (t @ [(n, [])]))"
    using name_step [of "read_line (2, n @ '':'')" c t] by (simp add: read_line_def add)
  moreover have "read_lines step (st (Some n) (t @ [(n, [])])) (map read_line (map entry_line d)) =
      Inr (st (Some n) (t @ [(n, d)]))"
    using read_entries [of "[]" d n t] ok fresh by simp
  ultimately have "read_lines step (st c t) (map read_line (group_lines g)) = Inr (st (Some n) (t @ [g]))"
    by (simp add: g group_lines_def)
  moreover obtain c' where "read_lines step (st (Some n) (t @ [g])) (map read_line (concat (map group_lines u))) = Inr (st c' (t @ [g] @ u))"
    using Cons.IH [of "t @ [g]" "Some n"] Cons.prems by auto
  ultimately show ?case by (auto simp: read_lines_append)
qed auto

end

end
