(* ===== verification/Registry_Files.thy ===== *)
theory Registry_Files
  imports Table_Files
begin

text \<open>
  The reader of the model, agent and tool registries (\<open>parse_registry\<close> in \<open>governance/registry\<close>,
  \<open>governance/agents\<close> and \<open>governance/tools\<close>). The three differ in the name of the section, the keys
  that hold lists, the wording of the errors and one branch: the model registry takes a list item
  without a list for a namespace.
\<close>

record registry_format =
  rf_root :: string
  rf_kind :: string
  rf_list_keys :: "string list"
  rf_orphans :: bool

record registry_reader =
  gr_open :: bool
  gr_current :: "string option"
  gr_list :: "string option"
  gr_table :: table

text \<open>\<open>registry[name].setdefault(key, []).append(x)\<close>.\<close>

definition append_to :: "string \<Rightarrow> string \<Rightarrow> string \<Rightarrow> table \<Rightarrow> table result" where
  "append_to name key x t =
     (case get_default (get_default t name []) key (PList []) of
        PList xs \<Rightarrow> Inr (set_in name key (PList (xs @ [PStr x])) t)
      | _ \<Rightarrow> Inl (AttributeError ''object has no attribute append''))"

definition list_item :: "registry_reader \<Rightarrow> string \<Rightarrow> string \<Rightarrow> config_line \<Rightarrow> registry_reader result" where
  "list_item s name key l =
     rbind (append_to name key (drop 2 (l_text l)) (gr_table s)) (\<lambda>t. Inr (s\<lparr>gr_table := t\<rparr>))"

definition registry_entry_line :: "registry_format \<Rightarrow> registry_reader \<Rightarrow> string \<Rightarrow> config_line \<Rightarrow> registry_reader result" where
  "registry_entry_line f s name l =
     (let (key, _, value) = partition_char (CHR '':'') (l_text l);
          bad = Inl (ValueError (''unsupported '' @ rf_kind f @ '' entry: '' @ l_raw l))
      in if key = [] then bad
         else if py_strip value = []
         then (if key \<in> set (rf_list_keys f)
               then Inr (s\<lparr>gr_list := Some key, gr_table := set_in name key (PList []) (gr_table s)\<rparr>)
               else bad)
         else Inr (s\<lparr>gr_list := None, gr_table := set_in name key (parse_scalar value) (gr_table s)\<rparr>))"

definition registry_step :: "registry_format \<Rightarrow> registry_reader \<Rightarrow> config_line \<Rightarrow> registry_reader result" where
  "registry_step f s l =
     (let bad_line = Inl (ValueError (''unsupported '' @ rf_kind f @ '' format line: '' @ l_raw l)) in
      if l_indent l = 0 \<and> l_text l = rf_root f @ '':'' then Inr (s\<lparr>gr_open := True\<rparr>)
      else if \<not> gr_open s then bad_line
      else if l_indent l = 2 \<and> ends_with (l_text l) '':''
      then Inr (s\<lparr>gr_current := Some (butlast (l_text l)), gr_list := None,
                  gr_table := dict_set (butlast (l_text l)) [] (gr_table s)\<rparr>)
      else case gr_current s of
        None \<Rightarrow> bad_line
      | Some name \<Rightarrow>
          if l_indent l = 4
          then (if starts_with (l_text l) ''- ''
                then (case gr_list s of None \<Rightarrow> Inr s | Some key \<Rightarrow> list_item s name key l)
                else registry_entry_line f s name l)
          else if l_indent l = 6 \<and> starts_with (l_text l) ''- ''
          then (case gr_list s of
                  Some key \<Rightarrow> list_item s name key l
                | None \<Rightarrow> if rf_orphans f then list_item s name ''allowed_namespaces'' l
                    else Inl (ValueError (''unsupported '' @ rf_kind f @ '' entry: '' @ l_raw l)))
          else bad_line)"

definition registry_start :: registry_reader where
  "registry_start = \<lparr>gr_open = False, gr_current = None, gr_list = None, gr_table = []\<rparr>"

definition parse_registry :: "registry_format \<Rightarrow> string \<Rightarrow> table result" where
  "parse_registry f text =
     rbind (read_lines (registry_step f) registry_start (config_lines text)) (\<lambda>s. Inr (gr_table s))"

definition model_format :: registry_format where
  "model_format = \<lparr>rf_root = ''models'', rf_kind = ''registry'',
     rf_list_keys = [''allowed_namespaces'', ''allowed_teams'', ''allowed_regions''], rf_orphans = True\<rparr>"

definition agent_format :: registry_format where
  "agent_format = \<lparr>rf_root = ''agents'', rf_kind = ''agent registry'',
     rf_list_keys = [''tools'', ''allowed_teams'', ''allowed_namespaces''], rf_orphans = False\<rparr>"

definition tool_format :: registry_format where
  "tool_format = \<lparr>rf_root = ''tools'', rf_kind = ''tool registry'',
     rf_list_keys = [''allowed_actions'', ''forbidden_actions'', ''allowed_teams'', ''allowed_namespaces''],
     rf_orphans = False\<rparr>"

subsection \<open>The invariant of the reader\<close>

text \<open>
  Entries have a name, an open list is a list of the current entry. So only a misplaced namespace item
  of a model can raise anything but \<open>ValueError\<close>.
\<close>

definition registry_inv :: "registry_reader \<Rightarrow> bool" where
  "registry_inv s \<longleftrightarrow> keys_distinct (gr_table s) \<and>
     (\<forall>n. gr_current s = Some n \<longrightarrow> n \<in> fst ` set (gr_table s)) \<and>
     (\<forall>k. gr_list s = Some k \<longrightarrow> (\<exists>n xs. gr_current s = Some n \<and>
        map_of (get_default (gr_table s) n []) k = Some (PList xs)))"

lemma get_default_set_in [simp]: "get_default (set_in n k v t) n [] = dict_set k v (get_default t n [])"
  by (simp add: set_in_def get_default_def)

lemma append_to_Inr:
  "append_to name key x t = Inr t' \<longleftrightarrow>
    (\<exists>xs. get_default (get_default t name []) key (PList []) = PList xs \<and> t' = set_in name key (PList (xs @ [PStr x])) t)"
  by (auto simp: append_to_def split: pyval.split)

lemma list_item_inv:
  assumes "list_item s name key l = Inr s'" "registry_inv s" "gr_current s = Some name" "gr_list s = None \<or> gr_list s = Some key"
  shows "registry_inv s'"
  using assms by (auto simp: list_item_def rbind_Inr append_to_Inr registry_inv_def)

lemma registry_entry_line_inv:
  assumes "registry_entry_line f s name l = Inr s'" "registry_inv s" "gr_current s = Some name"
  shows "registry_inv s'"
proof -
  obtain key b val where kv: "partition_char (CHR '':'') (l_text l) = (key, b, val)"
    by (cases "partition_char (CHR '':'') (l_text l)") auto
  show ?thesis using assms
    by (auto simp: registry_entry_line_def kv Let_def registry_inv_def split: if_splits)
qed

lemma registry_step_inv:
  assumes inv: "registry_inv s" and step: "registry_step f s l = Inr s'" shows "registry_inv s'"
proof (cases "(l_indent l = 0 \<and> l_text l = rf_root f @ '':'') \<or> \<not> gr_open s")
  case True
  then show ?thesis using assms by (auto simp: registry_step_def registry_inv_def Let_def split: if_splits)
next
  case open_line: False
  show ?thesis
  proof (cases "l_indent l = 2 \<and> ends_with (l_text l) '':''")
    case True
    with open_line step inv show ?thesis
      by (auto simp: registry_step_def registry_inv_def fst_dict_set Let_def split: if_splits)
  next
    case False
    with open_line step obtain name where name: "gr_current s = Some name"
      by (auto simp: registry_step_def Let_def split: option.splits if_splits)
    from open_line False have skip: "\<not> (l_indent l = 0 \<and> l_text l = rf_root f @ '':'')" "gr_open s" by blast+
    have "s' = s \<or> registry_entry_line f s name l = Inr s' \<or>
        (\<exists>key. list_item s name key l = Inr s' \<and> (gr_list s = None \<or> gr_list s = Some key))"
      using step unfolding registry_step_def Let_def if_not_P [OF skip(1)] if_not_P [OF False] name option.case
      by (cases "gr_list s") (auto simp: skip(2) split: if_split_asm)
    then consider "s' = s" | "registry_entry_line f s name l = Inr s'"
      | key where "list_item s name key l = Inr s'" "gr_list s = None \<or> gr_list s = Some key" by blast
    then show ?thesis using inv name list_item_inv registry_entry_line_inv by cases blast+
  qed
qed

interpretation registry_lines: line_reader "registry_step f" registry_start registry_inv for f
  by unfold_locales (simp add: registry_inv_def registry_start_def, rule registry_step_inv)

lemma list_item_error:
  assumes "list_item s name key l = Inl e" "registry_inv s" "gr_current s = Some name" "gr_list s = Some key"
  shows False
  using assms by (auto simp: list_item_def append_to_def registry_inv_def get_default_def)

text \<open>The readers of the agent and tool registries fail only with \<open>ValueError\<close>, for the first line that is
  not in the format, and what they return has every name and every key of a name once; a list key that is
  read as a list stays one while items are added.\<close>

theorem registry_reader_outcome:
  assumes "\<not> rf_orphans f"
  shows "case parse_registry f text of
      Inr t \<Rightarrow> keys_distinct t
    | Inl e \<Rightarrow> \<exists>pre l post s m. config_lines text = pre @ l # post \<and>
        read_lines (registry_step f) registry_start pre = Inr s \<and> registry_step f s l = Inl e \<and> e = ValueError m"
proof (cases "read_lines (registry_step f) registry_start (config_lines text)")
  case (Inr s)
  then show ?thesis using registry_lines.read_inv [OF Inr] by (simp add: parse_registry_def registry_inv_def)
next
  case (Inl e)
  obtain pre l post s where r: "config_lines text = pre @ l # post"
    "read_lines (registry_step f) registry_start pre = Inr s" "registry_inv s" "registry_step f s l = Inl e"
    using registry_lines.read_error_at [OF Inl] by blast
  have "\<exists>m. e = ValueError m"
  proof -
    consider m where "e = ValueError m" | name key where "gr_current s = Some name" "gr_list s = Some key" "list_item s name key l = Inl e"
      using r(4) assms
      by (auto simp: registry_step_def registry_entry_line_def Let_def split: option.splits if_splits prod.splits)
    then show ?thesis using r(3) list_item_error by cases blast+
  qed
  then have "\<exists>pre l post s m. config_lines text = pre @ l # post \<and>
        read_lines (registry_step f) registry_start pre = Inr s \<and> registry_step f s l = Inl e \<and> e = ValueError m"
    using r(1,2,4) by blast
  then show ?thesis by (simp add: parse_registry_def Inl)
qed

theorem registry_reader_outcome_witness:
  "case parse_registry tool_format ''tools:'' of Inr t \<Rightarrow> keys_distinct t
    | Inl e \<Rightarrow> \<exists>pre l post s m. config_lines ''tools:'' = pre @ l # post \<and>
        read_lines (registry_step tool_format) registry_start pre = Inr s \<and> registry_step tool_format s l = Inl e \<and> e = ValueError m"
  by (rule registry_reader_outcome) (simp add: tool_format_def)

end
