(* ===== verification/Registry_Types.thy ===== *)
theory Registry_Types
  imports Registry_Files
begin

text \<open>
  The types of what the registry readers return: the code is dynamically typed, and the engines take it for
  granted that a list of teams is a list of texts and that everything else is a scalar.
\<close>

subsection \<open>Typed tables\<close>

definition value_typed :: "string set \<Rightarrow> string \<Rightarrow> pyval \<Rightarrow> bool" where
  "value_typed ks key v \<longleftrightarrow>
     (case v of
        PList xs \<Rightarrow> key \<in> ks \<and> (\<forall>x\<in>set xs. \<exists>s. x = PStr s)
      | PNone \<Rightarrow> False | PDict _ \<Rightarrow> False | _ \<Rightarrow> True)"

definition table_typed :: "string set \<Rightarrow> table \<Rightarrow> bool" where
  "table_typed ks t \<longleftrightarrow> (\<forall>d\<in>snd ` set t. \<forall>(k, v)\<in>set d. value_typed ks k v)"

lemma set_dict_set: "set (dict_set k v d) \<subseteq> insert (k, v) (set d)"
  by (induction k v d rule: dict_set.induct) auto

lemma typed_get:
  "table_typed ks t \<Longrightarrow> (k, v) \<in> set (get_default t n []) \<Longrightarrow> value_typed ks k v"
proof (cases "map_of t n")
  case (Some d)
  then have "(n, d) \<in> set t" by (rule map_of_SomeD)
  then have "d \<in> snd ` set t" by force
  moreover assume "table_typed ks t" "(k, v) \<in> set (get_default t n [])"
  ultimately show ?thesis using Some by (auto simp: get_default_def table_typed_def)
qed (simp add: get_default_def)

lemma typed_dict_set:
  assumes "table_typed ks t" "\<forall>(k, v)\<in>set d. value_typed ks k v"
  shows "table_typed ks (dict_set n d t)"
  using assms snd_dict_set [of n d t] unfolding table_typed_def by blast

lemma typed_set_in:
  assumes "table_typed ks t" "value_typed ks k v"
  shows "table_typed ks (set_in n k v t)"
  unfolding set_in_def
  using assms set_dict_set [of k v "get_default t n []"] typed_get [OF assms(1)]
  by (intro typed_dict_set) auto

lemma typed_append:
  assumes "append_to n key x t = Inr t'" "table_typed ks t" "key \<in> ks"
  shows "table_typed ks t'"
proof -
  obtain xs where xs: "get_default (get_default t n []) key (PList []) = PList xs"
    and t': "t' = set_in n key (PList (xs @ [PStr x])) t" using assms(1) by (auto simp: append_to_Inr)
  have "\<forall>y\<in>set xs. \<exists>s. y = PStr s"
  proof (cases "map_of (get_default t n []) key")
    case (Some v)
    then have "value_typed ks key v" using typed_get [OF assms(2)] map_of_SomeD by fastforce
    with Some xs show ?thesis by (simp add: get_default_def value_typed_def)
  qed (use xs in \<open>simp add: get_default_def\<close>)
  then show ?thesis unfolding t' using assms(2,3) by (intro typed_set_in) (auto simp: value_typed_def)
qed

lemma typed_empty: "k \<in> ks \<Longrightarrow> value_typed ks k (PList [])"
  by (simp add: value_typed_def)

lemma typed_scalar: "value_typed ks k (parse_scalar s)"
  by (auto simp: parse_scalar_def number_or_text_def value_typed_def Let_def split: option.split)

subsection \<open>The readers\<close>

definition reader_typed :: "registry_format \<Rightarrow> registry_reader \<Rightarrow> bool" where
  "reader_typed f s \<longleftrightarrow> table_typed (set (rf_list_keys f)) (gr_table s) \<and>
     (\<forall>k. gr_list s = Some k \<longrightarrow> k \<in> set (rf_list_keys f))"

lemma list_item_typed:
  "list_item s name key l = Inr s' \<Longrightarrow> reader_typed f s \<Longrightarrow> key \<in> set (rf_list_keys f) \<Longrightarrow> reader_typed f s'"
  by (auto simp: list_item_def rbind_Inr reader_typed_def intro: typed_append)

lemma entry_line_typed:
  "registry_entry_line f s name l = Inr s' \<Longrightarrow> reader_typed f s \<Longrightarrow> reader_typed f s'"
  by (auto simp: registry_entry_line_def reader_typed_def Let_def typed_scalar typed_empty
      intro!: typed_set_in split: if_splits prod.splits)

lemma registry_step_cases:
  assumes "registry_step f s l = Inr s'"
  obtains "gr_table s' = gr_table s" "gr_list s' = gr_list s"
    | n where "gr_table s' = dict_set n [] (gr_table s)" "gr_list s' = None"
    | n where "registry_entry_line f s n l = Inr s'"
    | n key where "list_item s n key l = Inr s'" "gr_list s = Some key \<or> rf_orphans f \<and> key = ''allowed_namespaces''"
proof (cases "(l_indent l = 0 \<and> l_text l = rf_root f @ '':'') \<or> \<not> gr_open s")
  case True
  then have "s' = s\<lparr>gr_open := True\<rparr>" using assms by (auto simp: registry_step_def Let_def split: if_splits)
  then show ?thesis by (intro that(1)) simp_all
next
  case open_line: False
  show ?thesis
  proof (cases "l_indent l = 2 \<and> ends_with (l_text l) '':''")
    case True
    with open_line assms show ?thesis by (intro that(2)) (auto simp: registry_step_def Let_def split: if_splits)
  next
    case False
    with open_line assms obtain name where name: "gr_current s = Some name"
      by (auto simp: registry_step_def Let_def split: option.splits if_splits)
    from open_line False have skip: "\<not> (l_indent l = 0 \<and> l_text l = rf_root f @ '':'')" "gr_open s" by blast+
    have "s' = s \<or> registry_entry_line f s name l = Inr s' \<or>
        (\<exists>key. list_item s name key l = Inr s' \<and> (gr_list s = Some key \<or> rf_orphans f \<and> key = ''allowed_namespaces''))"
      using assms unfolding registry_step_def Let_def if_not_P [OF skip(1)] if_not_P [OF False] name option.case
      by (cases "gr_list s") (auto simp: skip(2) split: if_split_asm)
    then show ?thesis using that(1,3,4) by blast
  qed
qed

lemma registry_step_typed:
  assumes "rf_orphans f \<longrightarrow> ''allowed_namespaces'' \<in> set (rf_list_keys f)" "reader_typed f s" "registry_step f s l = Inr s'"
  shows "reader_typed f s'"
proof -
  show ?thesis using assms(3)
  proof (cases rule: registry_step_cases)
    case 2
    then show ?thesis using assms(2) by (auto simp: reader_typed_def intro: typed_dict_set)
  next
    case (4 n key)
    then have "key \<in> set (rf_list_keys f)" using assms(1,2) by (auto simp: reader_typed_def)
    with 4(1) assms(2) show ?thesis by (rule list_item_typed)
  next
    case (3 n)
    then show ?thesis using assms(2) by (rule entry_line_typed)
  qed (use assms(2) in \<open>simp add: reader_typed_def\<close>)
qed

text \<open>C39: The registries are well typed: what the reader of the model, agent or tool registry returns has every name once and
  every key of a name once, a value is a list only under a key of the format that holds lists, its items are
  texts, and every other value is a scalar.\<close>

theorem registry_well_typed:
  assumes "f \<in> {model_format, agent_format, tool_format}" "parse_registry f text = Inr t"
  shows "keys_distinct t \<and> table_typed (set (rf_list_keys f)) t"
proof -
  obtain s where s: "read_lines (registry_step f) registry_start (config_lines text) = Inr s" "t = gr_table s"
    using assms(2) by (auto simp: parse_registry_def rbind_Inr)
  have orphans: "rf_orphans f \<longrightarrow> ''allowed_namespaces'' \<in> set (rf_list_keys f)"
    using assms(1) by (auto simp: model_format_def agent_format_def tool_format_def)
  have "reader_typed f r'" if "reader_typed f r" "read_lines (registry_step f) r ls = Inr r'" for r r' ls
    using that
  proof (induction ls arbitrary: r)
    case (Cons l ls)
    then show ?case using registry_step_typed [OF orphans] by (auto simp: rbind_Inr)
  qed simp
  moreover have "reader_typed f registry_start" by (simp add: reader_typed_def registry_start_def table_typed_def)
  ultimately have "reader_typed f s" using s(1) by blast
  moreover have "registry_inv s" using registry_lines.read_inv [OF s(1)] .
  ultimately show ?thesis by (simp add: s(2) reader_typed_def registry_inv_def)
qed

definition demo_agents_text :: string where
  "demo_agents_text = ''agents:'' @ [CHR 0x0A] @ ''  helper:'' @ [CHR 0x0A] @ ''    tools:'' @ [CHR 0x0A] @ ''      - search'' @ [CHR 0x0A]"

theorem registry_well_typed_witness:
  "table_typed (set (rf_list_keys agent_format)) [(''helper'', [(''tools'', PList [PStr ''search''])])]"
proof -
  have "parse_registry agent_format demo_agents_text = Inr [(''helper'', [(''tools'', PList [PStr ''search''])])]" by code_simp
  then show ?thesis using registry_well_typed [of agent_format] by blast
qed

text \<open>A list key given as a scalar stays a scalar, so the agent engine raises a \<open>TypeError\<close> for such an entry.\<close>

lemma scalar_under_list_key:
  "parse_registry agent_format (''agents:'' @ [CHR 0x0A] @ ''  a:'' @ [CHR 0x0A] @ ''    tools: 5'') = Inr [(''a'', [(''tools'', PInt 5)])]"
  by code_simp

end
