(* ===== verification/Gov_Request.thy ===== *)
theory Gov_Request
  imports Policy_Values
begin

text \<open>
  The governance request (\<open>GovernanceEvaluateRequest\<close> of \<open>governance_service.py\<close>), its dump to a
  dictionary, and the row the policy engines read (\<open>to_pipeline_row\<close>). The row is a record: its keys
  are fixed by \<open>to_pipeline_row\<close>; \<open>rw_tool\<close> is the key \<open>tool\<close> that only the tool endpoints add, and
  \<open>rw_multiplier\<close> the key \<open>_pack_quota_multiplier\<close>, set after the policy pack has been evaluated.
\<close>

record eval_request =
  q_subject :: string
  q_groups :: "string list"
  q_policy_pack :: string
  q_team :: string
  q_tenant_id :: string
  q_owner :: string
  q_environment :: string
  q_namespace :: string
  q_action :: string
  q_model :: string
  q_provider :: string
  q_input_tokens :: int
  q_output_tokens :: int
  q_cost_per_request_usd :: rat
  q_cost_per_hour_usd :: rat
  q_month_to_date_cost_usd :: rat
  q_forecast_monthly_cost_usd :: rat
  q_sensitive_data :: bool
  q_tool_access :: bool
  q_write_permission :: bool
  q_requests_last_minute :: int
  q_tokens_today :: int
  q_model_revision :: string
  q_model_artifact_digest :: string
  q_prompt_text :: string
  q_agent :: string
  q_region :: string

text \<open>The defaults of the model.\<close>

definition default_request :: eval_request where
  "default_request =
     \<lparr>q_subject = [], q_groups = [], q_policy_pack = [], q_team = ''platform'', q_tenant_id = [],
      q_owner = ''alice'', q_environment = ''development'', q_namespace = ''ai-dev'',
      q_action = ''invoke_model'', q_model = ''llama3.1:8b'', q_provider = ''ollama'',
      q_input_tokens = 1000, q_output_tokens = 500, q_cost_per_request_usd = fl (1 / 100),
      q_cost_per_hour_usd = fl (18 / 100), q_month_to_date_cost_usd = 100,
      q_forecast_monthly_cost_usd = 400, q_sensitive_data = False, q_tool_access = False,
      q_write_permission = False, q_requests_last_minute = 0, q_tokens_today = 0,
      q_model_revision = [], q_model_artifact_digest = [], q_prompt_text = [], q_agent = [],
      q_region = []\<rparr>"

text \<open>\<open>model_dump()\<close>: the fields in the order of their declaration.\<close>

definition request_dump :: "eval_request \<Rightarrow> pyobj" where
  "request_dump q =
     [(''subject'', PStr (q_subject q)), (''groups'', PList (map PStr (q_groups q))),
      (''policy_pack'', PStr (q_policy_pack q)), (''team'', PStr (q_team q)),
      (''tenant_id'', PStr (q_tenant_id q)), (''owner'', PStr (q_owner q)),
      (''environment'', PStr (q_environment q)), (''namespace'', PStr (q_namespace q)),
      (''action'', PStr (q_action q)), (''model'', PStr (q_model q)),
      (''provider'', PStr (q_provider q)), (''input_tokens'', PInt (q_input_tokens q)),
      (''output_tokens'', PInt (q_output_tokens q)),
      (''cost_per_request_usd'', PFloat (q_cost_per_request_usd q)),
      (''cost_per_hour_usd'', PFloat (q_cost_per_hour_usd q)),
      (''month_to_date_cost_usd'', PFloat (q_month_to_date_cost_usd q)),
      (''forecast_monthly_cost_usd'', PFloat (q_forecast_monthly_cost_usd q)),
      (''sensitive_data'', PBool (q_sensitive_data q)), (''tool_access'', PBool (q_tool_access q)),
      (''write_permission'', PBool (q_write_permission q)),
      (''requests_last_minute'', PInt (q_requests_last_minute q)),
      (''tokens_today'', PInt (q_tokens_today q)), (''model_revision'', PStr (q_model_revision q)),
      (''model_artifact_digest'', PStr (q_model_artifact_digest q)),
      (''prompt_text'', PStr (q_prompt_text q)), (''agent'', PStr (q_agent q)),
      (''region'', PStr (q_region q))]"

record row =
  rw_id :: string
  rw_timestamp :: string
  rw_subject :: string
  rw_team :: string
  rw_owner :: string
  rw_policy_pack :: string
  rw_environment :: string
  rw_namespace :: string
  rw_action :: string
  rw_model :: string
  rw_provider :: string
  rw_input_tokens :: int
  rw_output_tokens :: int
  rw_cost_per_request_usd :: rat
  rw_cost_per_hour_usd :: rat
  rw_month_to_date_cost_usd :: rat
  rw_forecast_monthly_cost_usd :: rat
  rw_sensitive_data :: bool
  rw_tool_access :: bool
  rw_write_permission :: bool
  rw_requests_last_minute :: int
  rw_tokens_today :: int
  rw_model_revision :: string
  rw_model_artifact_digest :: string
  rw_prompt_text :: string
  rw_agent :: string
  rw_region :: string
  rw_tool :: string
  rw_multiplier :: "rat option"

definition to_pipeline_row :: "string \<Rightarrow> eval_request \<Rightarrow> row" where
  "to_pipeline_row now q =
     \<lparr>rw_id = ''playground'', rw_timestamp = now, rw_subject = str_or (q_subject q) (q_owner q),
      rw_team = q_team q, rw_owner = q_owner q, rw_policy_pack = q_policy_pack q,
      rw_environment = q_environment q, rw_namespace = q_namespace q, rw_action = q_action q,
      rw_model = q_model q, rw_provider = q_provider q, rw_input_tokens = q_input_tokens q,
      rw_output_tokens = q_output_tokens q, rw_cost_per_request_usd = q_cost_per_request_usd q,
      rw_cost_per_hour_usd = q_cost_per_hour_usd q,
      rw_month_to_date_cost_usd = q_month_to_date_cost_usd q,
      rw_forecast_monthly_cost_usd = q_forecast_monthly_cost_usd q,
      rw_sensitive_data = q_sensitive_data q, rw_tool_access = q_tool_access q,
      rw_write_permission = q_write_permission q,
      rw_requests_last_minute = q_requests_last_minute q, rw_tokens_today = q_tokens_today q,
      rw_model_revision = q_model_revision q,
      rw_model_artifact_digest = q_model_artifact_digest q, rw_prompt_text = q_prompt_text q,
      rw_agent = q_agent q, rw_region = q_region q, rw_tool = [], rw_multiplier = None\<rparr>"

text \<open>A row for examples.\<close>

definition demo_row :: row where
  "demo_row =
     \<lparr>rw_id = ''r1'', rw_timestamp = [], rw_subject = ''bob'', rw_team = ''platform'', rw_owner = ''alice'',
      rw_policy_pack = [], rw_environment = ''development'', rw_namespace = ''ai-dev'',
      rw_action = ''invoke_model'', rw_model = ''llama3.1:8b'', rw_provider = ''ollama'',
      rw_input_tokens = 1000, rw_output_tokens = 500, rw_cost_per_request_usd = 0,
      rw_cost_per_hour_usd = 1, rw_month_to_date_cost_usd = 100, rw_forecast_monthly_cost_usd = 400,
      rw_sensitive_data = False, rw_tool_access = False, rw_write_permission = False,
      rw_requests_last_minute = 0, rw_tokens_today = 0, rw_model_revision = [],
      rw_model_artifact_digest = [], rw_prompt_text = [], rw_agent = [], rw_region = [], rw_tool = [],
      rw_multiplier = None\<rparr>"

text \<open>What an engine answers: a decision and its reasons.\<close>

record verdict =
  v_decision :: string
  v_reasons :: "string list"

definition verdict_of :: "string \<Rightarrow> string list \<Rightarrow> verdict" where
  "verdict_of d rs = \<lparr>v_decision = d, v_reasons = rs\<rparr>"

lemma verdict_of_sel [simp]: "v_decision (verdict_of d rs) = d" "v_reasons (verdict_of d rs) = rs"
  by (simp_all add: verdict_of_def)

text \<open>Reasons are collected in order: a condition adds its text or nothing.\<close>

definition reason_if :: "bool \<Rightarrow> string \<Rightarrow> string list" where
  "reason_if b r = (if b then [r] else [])"

lemma reason_if_simps [simp]: "reason_if True r = [r]" "reason_if False r = []"
  "reason_if b r = [] \<longleftrightarrow> \<not> b" "set (reason_if b r) = (if b then {r} else {})"
  by (simp_all add: reason_if_def)

end
