(* ===== verification/Prompt_Matching.thy ===== *)
theory Prompt_Matching
  imports Prompt_Engine
begin

text \<open>
  The matcher of \<open>Prompt_Engine\<close> against the meaning of the patterns: a relation between the position
  where a match starts and the one where it ends, in which a repetition has no bound. On patterns
  whose repeated parts consume a character the matcher finds every match, although it tries only as
  many rounds as there are characters left.
\<close>

subsection \<open>The meaning of a pattern\<close>

inductive matches :: "re \<Rightarrow> pos \<Rightarrow> pos \<Rightarrow> bool" where
  eps: "matches Eps p p"
| cls: "f c \<Longrightarrow> matches (Cls f) (b, c # s) (Some c, s)"
| cat: "matches r p q \<Longrightarrow> matches r' q t \<Longrightarrow> matches (Cat r r') p t"
| alt_left: "matches r p q \<Longrightarrow> matches (Alt r r') p q"
| alt_right: "matches r' p q \<Longrightarrow> matches (Alt r r') p q"
| many_none: "matches (Many 0 r) p p"
| many_more: "matches r p q \<Longrightarrow> matches (Many (m - 1) r) q t \<Longrightarrow> matches (Many m r) p t"
| rep_none: "matches (Rep 0 n r) p p"
| rep_more: "matches r p q \<Longrightarrow> matches (Rep (m - 1) n r) q t \<Longrightarrow> matches (Rep m (Suc n) r) p t"
| bound: "at_boundary p \<Longrightarrow> matches Bound p p"

inductive_simps matches_simps [simp]:
  "matches Eps p q" "matches (Cat r r') p q" "matches (Alt r r') p q" "matches Bound p q"

inductive_cases matches_ClsE [elim!]: "matches (Cls f) p q"
inductive_cases matches_RepE: "matches (Rep m n r) p q"

text \<open>Every match of the pattern takes a character; repetitions are of such parts, their bounds in order.\<close>

fun consumes :: "re \<Rightarrow> bool" where
  "consumes (Cls f) = True"
| "consumes (Cat r r') = (consumes r \<or> consumes r')"
| "consumes (Alt r r') = (consumes r \<and> consumes r')"
| "consumes (Many m r) = (0 < m \<and> consumes r)"
| "consumes (Rep m n r) = (0 < m \<and> consumes r)"
| "consumes _ = False"

fun proper :: "re \<Rightarrow> bool" where
  "proper (Cat r r') = (proper r \<and> proper r')"
| "proper (Alt r r') = (proper r \<and> proper r')"
| "proper (Many m r) = (consumes r \<and> proper r)"
| "proper (Rep m n r) = (m \<le> n \<and> proper r)"
| "proper _ = True"

lemma matches_length:
  "matches r p q \<Longrightarrow> length (snd q) + (if consumes r then 1 else 0) \<le> length (snd p)"
  by (induction rule: matches.induct) (auto split: if_splits)

subsection \<open>Rounds\<close>

abbreviation step_rel :: "(pos \<Rightarrow> pos list) \<Rightarrow> (pos \<times> pos) set" where
  "step_rel f \<equiv> {(p, q). q \<in> set (f p)}"

lemma set_exactly: "set (exactly n f ps) = (step_rel f ^^ n) `` set ps"
proof (induction n arbitrary: ps)
  case (Suc n)
  show ?case
  proof (cases "ps = []")
    case False
    have "set (exactly (Suc n) f ps) = (step_rel f ^^ n) `` (step_rel f `` set ps)"
      using False by (simp add: Suc.IH) (auto intro!: arg_cong [where f = "Image (step_rel f ^^ n)"])
    also have "\<dots> = (step_rel f O step_rel f ^^ n) `` set ps" by (simp only: relcomp_Image)
    also have "step_rel f O step_rel f ^^ n = step_rel f ^^ Suc n" by (simp only: relpow_commute relpow.simps)
    finally show ?thesis .
  qed simp
qed simp

lemma set_rounds: "set (rounds n f ps) = (\<Union>k\<le>n. (step_rel f ^^ k) `` set ps)"
proof (induction n arbitrary: ps)
  case (Suc n)
  show ?case
  proof (cases "ps = []")
    case False
    have "set (concat (map f ps)) = step_rel f `` set ps" by auto
    then have "set (rounds (Suc n) f ps) = set ps \<union> (\<Union>k\<le>n. (step_rel f ^^ k) `` (step_rel f `` set ps))"
      using False by (simp add: Suc.IH)
    also have "\<dots> = set ps \<union> (\<Union>k\<le>n. (step_rel f ^^ Suc k) `` set ps)"
      by (simp only: relcomp_Image [symmetric] relpow_commute relpow.simps(2))
    also have "\<dots> = (\<Union>k\<le>Suc n. (step_rel f ^^ k) `` set ps)"
      by (simp only: atMost_Suc_eq_insert_0 image_image UN_insert UN_simps) simp
    finally show ?thesis .
  qed simp
qed simp

lemma set_rounds_exactly:
  "set (rounds n f (exactly m f [p])) = {q. \<exists>j\<le>n. (p, q) \<in> step_rel f ^^ (m + j)}"
proof -
  have "(step_rel f ^^ j) `` ((step_rel f ^^ m) `` {p}) = (step_rel f ^^ (m + j)) `` {p}" for j
    by (simp only: relpow_add relcomp_Image)
  then show ?thesis by (auto simp: set_rounds set_exactly)
qed

subsection \<open>Repetitions\<close>

abbreviation match_rel :: "re \<Rightarrow> (pos \<times> pos) set" where
  "match_rel r \<equiv> {(p, q). matches r p q}"

lemma matches_Many: "matches (Many m r) p q \<longleftrightarrow> (\<exists>k\<ge>m. (p, q) \<in> match_rel r ^^ k)"
proof
  show "matches (Many m r) p q \<Longrightarrow> \<exists>k\<ge>m. (p, q) \<in> match_rel r ^^ k"
  proof (induction "Many m r" p q arbitrary: m rule: matches.induct)
    case (many_none p)
    have "(p, p) \<in> match_rel r ^^ 0" by simp
    then show ?case by blast
  next
    case (many_more p q m t)
    then obtain k where "m - 1 \<le> k" "(q, t) \<in> match_rel r ^^ k" by blast
    moreover have "(p, q) \<in> match_rel r" using many_more by simp
    ultimately have "(p, t) \<in> match_rel r ^^ Suc k" "m \<le> Suc k"
      by (auto simp del: relpow.simps intro: relpow_Suc_I2)
    then show ?case by blast
  qed
next
  assume "\<exists>k\<ge>m. (p, q) \<in> match_rel r ^^ k"
  then obtain k where "m \<le> k" "(p, q) \<in> match_rel r ^^ k" by blast
  then show "matches (Many m r) p q"
  proof (induction k arbitrary: m p)
    case 0
    then show ?case by (auto intro: many_none)
  next
    case (Suc k)
    from Suc.prems(2) obtain t where t: "matches r p t" "(t, q) \<in> match_rel r ^^ k"
      by (elim relpow_Suc_E2) simp
    have "matches (Many (m - 1) r) t q" using Suc.IH [of "m - 1" t] Suc.prems(1) t(2) by simp
    with t(1) show ?case by (rule many_more)
  qed
qed

lemma matches_Rep: "m \<le> n \<Longrightarrow> matches (Rep m n r) p q \<longleftrightarrow> (\<exists>k. m \<le> k \<and> k \<le> n \<and> (p, q) \<in> match_rel r ^^ k)"
proof (induction n arbitrary: m p)
  case 0
  then show ?case by (auto elim: matches_RepE intro: rep_none)
next
  case (Suc n)
  have "matches (Rep m (Suc n) r) p q \<longleftrightarrow> (m = 0 \<and> p = q) \<or> (\<exists>t. matches r p t \<and> matches (Rep (m - 1) n r) t q)"
    by (auto elim: matches_RepE intro: rep_none rep_more)
  also have "\<dots> \<longleftrightarrow> (m = 0 \<and> p = q) \<or> (\<exists>t k. matches r p t \<and> m - 1 \<le> k \<and> k \<le> n \<and> (t, q) \<in> match_rel r ^^ k)"
    using Suc.IH [of "m - 1"] Suc.prems by auto
  also have "\<dots> \<longleftrightarrow> (m = 0 \<and> p = q) \<or> (\<exists>k. m - 1 \<le> k \<and> k \<le> n \<and> (p, q) \<in> match_rel r ^^ Suc k)"
    by (auto simp del: relpow.simps intro: relpow_Suc_I2 elim!: relpow_Suc_E2)
  also have "\<dots> \<longleftrightarrow> (\<exists>k. m \<le> k \<and> k \<le> Suc n \<and> (p, q) \<in> match_rel r ^^ k)" (is "?l \<longleftrightarrow> ?r")
  proof
    assume ?l
    then show ?r
    proof
      assume "m = 0 \<and> p = q"
      then have "m \<le> 0 \<and> 0 \<le> Suc n \<and> (p, q) \<in> match_rel r ^^ 0" by simp
      then show ?r by blast
    next
      assume "\<exists>k. m - 1 \<le> k \<and> k \<le> n \<and> (p, q) \<in> match_rel r ^^ Suc k"
      then obtain k where "m - 1 \<le> k" "k \<le> n" and rel: "(p, q) \<in> match_rel r ^^ Suc k" by blast
      then have "m \<le> Suc k" "Suc k \<le> Suc n" by simp_all
      note this rel
      then show ?r by blast
    qed
  next
    assume ?r
    then obtain k where k: "m \<le> k" "k \<le> Suc n" "(p, q) \<in> match_rel r ^^ k" by blast
    then show ?l
    proof (cases k)
      case (Suc k')
      with k have "m - 1 \<le> k' \<and> k' \<le> n \<and> (p, q) \<in> match_rel r ^^ Suc k'" by auto
      then show ?thesis by blast
    qed simp
  qed
  finally show ?case .
qed

lemma relpow_consumes:
  assumes "consumes r" "(p, q) \<in> match_rel r ^^ k"
  shows "k \<le> length (snd p)"
  using assms(2)
proof (induction k arbitrary: p)
  case (Suc k)
  then obtain t where t: "matches r p t" "(t, q) \<in> match_rel r ^^ k" by (elim relpow_Suc_E2) simp
  from matches_length [OF t(1)] assms(1) Suc.IH [OF t(2)] show ?case by simp
qed simp

subsection \<open>The matcher\<close>

text \<open>The rounds the matcher tries are enough.\<close>

lemma ends_matches: "proper r \<Longrightarrow> set (ends r p) = {q. matches r p q}"
proof (induction r arbitrary: p)
  case (Cls f)
  then show ?case by (cases p) (auto simp: step_chars_def intro: cls split: list.splits)
next
  case (Many m r)
  have rel: "step_rel (ends r) = match_rel r" using Many by auto
  have "(\<exists>j\<le>length (snd p). (p, q) \<in> match_rel r ^^ (m + j)) \<longleftrightarrow> (\<exists>k\<ge>m. (p, q) \<in> match_rel r ^^ k)" for q
  proof
    assume "\<exists>k\<ge>m. (p, q) \<in> match_rel r ^^ k"
    then obtain k where k: "m \<le> k" "(p, q) \<in> match_rel r ^^ k" by blast
    with relpow_consumes [of r p q k] Many.prems have "k - m \<le> length (snd p)" "m + (k - m) = k" by auto
    with k(2) show "\<exists>j\<le>length (snd p). (p, q) \<in> match_rel r ^^ (m + j)" by metis
  qed (metis le_add1)
  moreover have "set (ends (Many m r) p) = {q. \<exists>j\<le>length (snd p). (p, q) \<in> match_rel r ^^ (m + j)}"
    by (simp only: ends.simps set_rounds_exactly rel)
  ultimately show ?case by (simp only: matches_Many)
next
  case (Rep m n r)
  have rel: "step_rel (ends r) = match_rel r" using Rep by auto
  have "(\<exists>j\<le>n - m. (p, q) \<in> match_rel r ^^ (m + j)) \<longleftrightarrow> (\<exists>k. m \<le> k \<and> k \<le> n \<and> (p, q) \<in> match_rel r ^^ k)" for q
  proof
    assume "\<exists>j\<le>n - m. (p, q) \<in> match_rel r ^^ (m + j)"
    then obtain j where "j \<le> n - m" "(p, q) \<in> match_rel r ^^ (m + j)" by blast
    moreover from this(1) Rep.prems have "m \<le> m + j" "m + j \<le> n" by auto
    ultimately show "\<exists>k. m \<le> k \<and> k \<le> n \<and> (p, q) \<in> match_rel r ^^ k" by blast
  next
    assume "\<exists>k. m \<le> k \<and> k \<le> n \<and> (p, q) \<in> match_rel r ^^ k"
    then obtain k where "m \<le> k" "k \<le> n" "(p, q) \<in> match_rel r ^^ k" by blast
    then have "k - m \<le> n - m" "(p, q) \<in> match_rel r ^^ (m + (k - m))" by auto
    then show "\<exists>j\<le>n - m. (p, q) \<in> match_rel r ^^ (m + j)" by blast
  qed
  moreover have "set (ends (Rep m n r) p) = {q. \<exists>j\<le>n - m. (p, q) \<in> match_rel r ^^ (m + j)}"
    by (simp only: ends.simps set_rounds_exactly rel)
  moreover have "m \<le> n" using Rep.prems by simp
  ultimately show ?case by (simp only: matches_Rep)
next
  case (Cat r r')
  then have "x \<in> set (ends r p) \<longleftrightarrow> matches r p x" "x \<in> set (ends r' y) \<longleftrightarrow> matches r' y x" for x y
    by (simp_all only: proper.simps mem_Collect_eq)
  then have "q \<in> set (ends (Cat r r') p) \<longleftrightarrow> (\<exists>t. matches r p t \<and> matches r' t q)" for q
    by (simp del: split_paired_Ex add: Bex_def)
  then show ?case unfolding set_eq_iff matches_simps mem_Collect_eq split_paired_Ex by (rule allI)
qed auto

text \<open>The character before a position of the text.\<close>

definition char_before :: "char option \<Rightarrow> string \<Rightarrow> char option" where
  "char_before b pre = (if pre = [] then b else Some (last pre))"

lemma search_from_iff:
  "search_from r b s \<longleftrightarrow> (\<exists>pre post. s = pre @ post \<and> ends r (char_before b pre, post) \<noteq> [])"
proof (induction s arbitrary: b)
  case Nil
  then show ?case by (simp add: char_before_def)
next
  case (Cons c s)
  have "(\<exists>pre post. c # s = pre @ post \<and> ends r (char_before b pre, post) \<noteq> []) \<longleftrightarrow>
      ends r (b, c # s) \<noteq> [] \<or> (\<exists>pre post. s = pre @ post \<and> ends r (char_before (Some c) pre, post) \<noteq> [])"
    (is "?l \<longleftrightarrow> ?r")
  proof
    assume ?l
    then obtain pre post where pp: "c # s = pre @ post" "ends r (char_before b pre, post) \<noteq> []" by blast
    then show ?r
    proof (cases pre)
      case (Cons x pre')
      with pp have "s = pre' @ post" "char_before b pre = char_before (Some c) pre'" by (auto simp: char_before_def)
      with pp(2) show ?thesis by auto
    qed (simp add: char_before_def)
  next
    assume ?r
    then show ?l
    proof
      assume "ends r (b, c # s) \<noteq> []"
      then have "c # s = [] @ c # s \<and> ends r (char_before b [], c # s) \<noteq> []" by (simp add: char_before_def)
      then show ?l by blast
    next
      assume "\<exists>pre post. s = pre @ post \<and> ends r (char_before (Some c) pre, post) \<noteq> []"
      then obtain pre post where "s = pre @ post" "ends r (char_before (Some c) pre, post) \<noteq> []" by blast
      then have "c # s = (c # pre) @ post \<and> ends r (char_before b (c # pre), post) \<noteq> []"
        by (auto simp: char_before_def split: if_splits)
      then show ?l by blast
    qed
  qed
  then show ?case by (simp add: Cons.IH)
qed

lemma re_search_iff:
  "proper r \<Longrightarrow> re_search r text \<longleftrightarrow> (\<exists>pre post q. text = pre @ post \<and> matches r (char_before None pre, post) q)"
  using ends_matches [of r] by (simp add: re_search_def search_from_iff flip: set_empty)

lemma proper_cats [simp]: "proper (cats rs) \<longleftrightarrow> list_all proper rs"
  by (induction rs) (simp_all add: cats_def)

lemma proper_lits [simp]: "proper (lit s)" "proper (ilit s)" "proper (opt r) \<longleftrightarrow> proper r"
  by (simp_all add: lit_def ilit_def opt_def list_all_iff)

lemma proper_alts [simp]: "proper (alts rs) \<longleftrightarrow> list_all proper rs"
proof -
  have "proper (foldl Alt r rs) \<longleftrightarrow> proper r \<and> list_all proper rs" for r rs
    by (induction rs arbitrary: r) auto
  then show ?thesis by (cases rs) (simp_all add: alts_def)
qed

lemma patterns_proper: "(l, r) \<in> set (pii_patterns @ secret_patterns @ injection_patterns) \<Longrightarrow> proper r"
  by (auto simp: pii_patterns_def secret_patterns_def injection_patterns_def email_address_def phone_number_def
      ssn_like_def aws_access_key_def github_token_def generic_api_key_def bearer_token_def ignore_instructions_def
      system_override_def prompt_leak_def jailbreak_roleplay_def Let_def)



end
