(* ===== verification/Fleet_Engine.thy ===== *)
theory Fleet_Engine
  imports Table_Files
begin

text \<open>
  The fleet: the cluster registry and the health of a cluster (\<open>fleet/evaluate.py\<close>), and the summary the
  API answers with (\<open>fleet_service.py\<close>). Probing a backend is a parameter, and so is what the response
  model (pydantic) makes of a value where it declares \<open>bool | None\<close>.
\<close>

subsection \<open>The registry\<close>

record cluster_reader =
  fr_section :: "string option"
  fr_cluster :: "string option"
  fr_clusters :: table

definition cluster_step :: "cluster_reader \<Rightarrow> config_line \<Rightarrow> cluster_reader result" where
  "cluster_step s l =
     (let bad_line = Inl (ValueError (''unsupported fleet registry line: '' @ l_raw l)) in
      if l_indent l = 0 \<and> l_text l = ''clusters:'' then Inr (s\<lparr>fr_section := Some ''clusters''\<rparr>)
      else if fr_section s \<noteq> Some ''clusters'' then bad_line
      else if l_indent l = 2 \<and> ends_with (l_text l) '':''
        then (let name = butlast (l_text l) in
              Inr (s\<lparr>fr_cluster := Some name, fr_clusters := dict_set name [] (fr_clusters s)\<rparr>))
      else case fr_cluster s of
        None \<Rightarrow> bad_line
      | Some name \<Rightarrow>
          if l_indent l = 4
          then (let (key, _, value) = partition_char (CHR '':'') (l_text l) in
                if key = [] \<or> value = []
                then Inl (ValueError (''unsupported fleet cluster entry: '' @ l_raw l))
                else Inr (s\<lparr>fr_clusters := set_in name key (parse_scalar value) (fr_clusters s)\<rparr>))
          else bad_line)"

definition cluster_start :: cluster_reader where
  "cluster_start = \<lparr>fr_section = None, fr_cluster = None, fr_clusters = []\<rparr>"

definition parse_clusters :: "string option \<Rightarrow> table result" where
  "parse_clusters file =
     (case file of
        None \<Rightarrow> Inl (FileNotFoundError ''fleet cluster file does not exist'')
      | Some t \<Rightarrow> rbind (read_lines cluster_step cluster_start (config_lines t)) (\<lambda>s. Inr (fr_clusters s)))"

subsection \<open>Health\<close>

text \<open>\<open>x is False\<close> holds of the value \<open>False\<close> only, not of what counts as false.\<close>

definition cluster_health :: "pyval \<Rightarrow> pyval \<Rightarrow> string" where
  "cluster_health ollama vllm =
     (if ollama = PNone \<and> vllm = PNone then ''unknown''
      else if ollama = PBool False \<and> vllm = PBool False then ''unreachable''
      else if ollama = PBool False \<or> vllm = PBool False then ''degraded''
      else ''healthy'')"

text \<open>A backend of a cluster; \<open>'h\<close> is the type of the health, before and after validation.\<close>

record 'h backend_state =
  bk_healthy :: 'h
  bk_latency_ms :: int
  bk_error :: "string option"

record 'h cluster_state =
  cu_id :: string
  cu_label :: string
  cu_cloud :: string
  cu_region :: string
  cu_environment :: string
  cu_primary :: bool
  cu_probe_enabled :: bool
  cu_health :: string
  cu_node_count :: int
  cu_healthy_models :: int
  cu_ollama :: "'h backend_state"
  cu_vllm :: "'h backend_state"

text \<open>A probe of a URL: health, latency and error.\<close>

type_synonym probe = "string \<Rightarrow> bool \<times> int \<times> string option"

definition probed_backend :: "probe \<Rightarrow> string \<Rightarrow> pyval backend_state" where
  "probed_backend probe url =
     (let (ok, latency, error) = probe url in \<lparr>bk_healthy = PBool ok, bk_latency_ms = latency, bk_error = error\<rparr>)"

definition static_backend :: "pyobj \<Rightarrow> string \<Rightarrow> pyval backend_state result" where
  "static_backend spec name =
     (let healthy = get_none spec (name @ ''_healthy'') in
      rbind (py_int (get_default spec (name @ ''_latency_ms'') (PInt 0))) (\<lambda>latency.
        Inr \<lparr>bk_healthy = healthy, bk_latency_ms = latency,
          bk_error = (if truthy healthy then None else Some (''static registry marks '' @ name @ '' degraded''))\<rparr>))"

record fleet_env =
  fe_probe_ollama :: probe
  fe_probe_vllm :: probe
  fe_ollama_url :: string
  fe_vllm_url :: string
  fe_as_flag :: "pyval \<Rightarrow> bool option result"

definition spec_text :: "pyobj \<Rightarrow> string \<Rightarrow> string \<Rightarrow> string" where
  "spec_text spec key d = py_str (get_default spec key (PStr d))"

definition ollama_url :: "fleet_env \<Rightarrow> pyobj \<Rightarrow> string" where
  "ollama_url env spec = py_str (or_else (get_none spec ''ollama_base_url'') (PStr (fe_ollama_url env)))"

definition vllm_url :: "fleet_env \<Rightarrow> pyobj \<Rightarrow> string" where
  "vllm_url env spec = py_str (or_else (get_none spec ''vllm_base_url'') (PStr (fe_vllm_url env)))"

definition probe_enabled :: "pyobj \<Rightarrow> bool" where
  "probe_enabled spec = truthy (get_default spec ''probe_enabled'' (PBool False))"

definition cluster_backends :: "fleet_env \<Rightarrow> pyobj \<Rightarrow> (pyval backend_state \<times> pyval backend_state) result" where
  "cluster_backends env spec =
     (if probe_enabled spec
      then Inr (probed_backend (fe_probe_ollama env) (ollama_url env spec),
                probed_backend (fe_probe_vllm env) (vllm_url env spec))
      else rbind (static_backend spec ''ollama'') (\<lambda>ob.
           rbind (static_backend spec ''vllm'') (\<lambda>vb. Inr (ob, vb))))"

definition evaluate_cluster :: "fleet_env \<Rightarrow> string \<Rightarrow> pyobj \<Rightarrow> pyval cluster_state result" where
  "evaluate_cluster env cid spec =
     rbind (cluster_backends env spec) (\<lambda>(ob, vb).
     rbind (py_int (get_default spec ''node_count'' (PInt 0))) (\<lambda>nodes.
     rbind (py_int (get_default spec ''healthy_models'' (PInt 0))) (\<lambda>models.
       Inr \<lparr>cu_id = cid, cu_label = spec_text spec ''label'' cid, cu_cloud = spec_text spec ''cloud'' ''unknown'',
         cu_region = spec_text spec ''region'' ''unknown'', cu_environment = spec_text spec ''environment'' ''development'',
         cu_primary = truthy (get_default spec ''primary'' (PBool False)), cu_probe_enabled = probe_enabled spec,
         cu_health = cluster_health (bk_healthy ob) (bk_healthy vb), cu_node_count = nodes, cu_healthy_models = models,
         cu_ollama = ob, cu_vllm = vb\<rparr>)))"

text \<open>A list comprehension whose element may raise.\<close>

fun each :: "('a \<Rightarrow> 'b result) \<Rightarrow> 'a list \<Rightarrow> 'b list result" where
  "each f [] = Inr []"
| "each f (x # xs) = rbind (f x) (\<lambda>y. rbind (each f xs) (\<lambda>ys. Inr (y # ys)))"

definition evaluate_fleet :: "fleet_env \<Rightarrow> table \<Rightarrow> pyval cluster_state list result" where
  "evaluate_fleet env clusters = each (\<lambda>(cid, spec). evaluate_cluster env cid spec) clusters"

subsection \<open>The summary\<close>

definition validate_backend_flag :: "fleet_env \<Rightarrow> pyval backend_state \<Rightarrow> bool option backend_state result" where
  "validate_backend_flag env b = rbind (fe_as_flag env (bk_healthy b)) (\<lambda>h.
     Inr \<lparr>bk_healthy = h, bk_latency_ms = bk_latency_ms b, bk_error = bk_error b\<rparr>)"

definition validate_cluster :: "fleet_env \<Rightarrow> pyval cluster_state \<Rightarrow> bool option cluster_state result" where
  "validate_cluster env c =
     rbind (validate_backend_flag env (cu_ollama c)) (\<lambda>ob.
     rbind (validate_backend_flag env (cu_vllm c)) (\<lambda>vb.
       Inr \<lparr>cu_id = cu_id c, cu_label = cu_label c, cu_cloud = cu_cloud c, cu_region = cu_region c,
         cu_environment = cu_environment c, cu_primary = cu_primary c, cu_probe_enabled = cu_probe_enabled c,
         cu_health = cu_health c, cu_node_count = cu_node_count c, cu_healthy_models = cu_healthy_models c,
         cu_ollama = ob, cu_vllm = vb\<rparr>))"

record fleet_summary =
  fs_updated_at :: string
  fs_cluster_count :: nat
  fs_healthy :: nat
  fs_degraded :: nat
  fs_unreachable :: nat
  fs_primary :: "string option"

type_synonym fleet = "bool option cluster_state list"

definition count_health :: "string \<Rightarrow> fleet \<Rightarrow> nat" where
  "count_health h cs = length (filter (\<lambda>c. cu_health c = h) cs)"

definition primary_cluster :: "fleet \<Rightarrow> string option" where
  "primary_cluster cs =
     (case find cu_primary cs of Some c \<Rightarrow> Some (cu_id c)
      | None \<Rightarrow> (case cs of [] \<Rightarrow> None | c # _ \<Rightarrow> Some (cu_id c)))"

definition summary_of :: "string \<Rightarrow> fleet \<Rightarrow> fleet_summary" where
  "summary_of now cs =
     \<lparr>fs_updated_at = now, fs_cluster_count = length cs, fs_healthy = count_health ''healthy'' cs,
      fs_degraded = count_health ''degraded'' cs, fs_unreachable = count_health ''unreachable'' cs,
      fs_primary = primary_cluster cs\<rparr>"

definition build_fleet_clusters :: "fleet_env \<Rightarrow> string \<Rightarrow> string option \<Rightarrow> (fleet_summary \<times> fleet) result" where
  "build_fleet_clusters env now file =
     rbind (parse_clusters file) (\<lambda>clusters.
     rbind (evaluate_fleet env clusters) (\<lambda>evaluated.
     rbind (each (validate_cluster env) evaluated) (\<lambda>cs. Inr (summary_of now cs, cs))))"

text \<open>The gauge per cluster.\<close>

definition fleet_cluster_metrics :: "fleet \<Rightarrow> (string \<times> string \<times> string \<times> int) list" where
  "fleet_cluster_metrics cs =
     map (\<lambda>c. (cu_id c, cu_cloud c, cu_region c, if cu_health c = ''unreachable'' then 0 else 1)) cs"

subsection \<open>The reader\<close>

interpretation cluster_table: table_reading cluster_step
  "\<lambda>cur t. \<lparr>fr_section = Some ''clusters'', fr_cluster = cur, fr_clusters = t\<rparr>"
  by unfold_locales (auto simp: cluster_step_def Let_def)

definition cluster_inv :: "cluster_reader \<Rightarrow> bool" where
  "cluster_inv s \<longleftrightarrow> keys_distinct (fr_clusters s) \<and>
     (\<forall>n. fr_cluster s = Some n \<longrightarrow> n \<in> fst ` set (fr_clusters s))"

interpretation cluster_reader: line_reader cluster_step cluster_start cluster_inv
proof
  show "cluster_inv cluster_start" by (simp add: cluster_inv_def cluster_start_def)
next
  fix s l s' assume inv: "cluster_inv s" and step: "cluster_step s l = Inr s'"
  consider "s' = s\<lparr>fr_section := Some ''clusters''\<rparr>"
    | n where "s' = s\<lparr>fr_cluster := Some n, fr_clusters := dict_set n [] (fr_clusters s)\<rparr>"
    | n k v where "fr_cluster s = Some n" "s' = s\<lparr>fr_clusters := set_in n k v (fr_clusters s)\<rparr>"
    using step by (auto simp: cluster_step_def Let_def split: if_splits option.splits prod.splits)
  then show "cluster_inv s'"
  proof cases
    case 2
    then show ?thesis using inv by (auto simp: cluster_inv_def fst_dict_set)
  next
    case 3
    then show ?thesis using inv by (auto simp: cluster_inv_def keys_set_in)
  qed (use inv in \<open>auto simp: cluster_inv_def\<close>)
qed

lemma parse_clusters_distinct:
  assumes "parse_clusters (Some t) = Inr clusters"
  shows "distinct (map fst clusters)"
proof -
  obtain s where "read_lines cluster_step cluster_start (config_lines t) = Inr s" "clusters = fr_clusters s"
    using assms by (auto simp: parse_clusters_def rbind_Inr)
  with cluster_reader.read_inv show ?thesis by (auto simp: cluster_inv_def keys_distinct_def)
qed

subsection \<open>The summary and the probes\<close>

lemma each_Inr: "each f xs = Inr ys \<longleftrightarrow> list_all2 (\<lambda>x y. f x = Inr y) xs ys"
proof (induction xs arbitrary: ys)
  case (Cons x xs)
  then show ?case by (cases ys) (auto simp: rbind_Inr)
qed auto

text \<open>What the probes of a cluster say: both backends answer, one of them, none.\<close>

definition probe_answers :: "fleet_env \<Rightarrow> pyobj \<Rightarrow> bool \<times> bool" where
  "probe_answers env spec =
     (fst (fe_probe_ollama env (ollama_url env spec)), fst (fe_probe_vllm env (vllm_url env spec)))"

definition health_of_answers :: "bool \<times> bool \<Rightarrow> string" where
  "health_of_answers a =
     (if fst a \<and> snd a then ''healthy'' else if fst a \<or> snd a then ''degraded'' else ''unreachable'')"

lemma evaluate_cluster_facts:
  assumes "evaluate_cluster env cid spec = Inr c"
  shows "cu_id c = cid" "cu_probe_enabled c = probe_enabled spec"
    "cu_primary c = truthy (get_default spec ''primary'' (PBool False))"
    "probe_enabled spec \<Longrightarrow> cu_health c = health_of_answers (probe_answers env spec)"
    "cu_health c \<in> {''healthy'', ''degraded'', ''unreachable'', ''unknown''}"
proof -
  obtain ob vb n m where b: "cluster_backends env spec = Inr (ob, vb)"
    and c: "c = \<lparr>cu_id = cid, cu_label = spec_text spec ''label'' cid, cu_cloud = spec_text spec ''cloud'' ''unknown'',
         cu_region = spec_text spec ''region'' ''unknown'', cu_environment = spec_text spec ''environment'' ''development'',
         cu_primary = truthy (get_default spec ''primary'' (PBool False)), cu_probe_enabled = probe_enabled spec,
         cu_health = cluster_health (bk_healthy ob) (bk_healthy vb), cu_node_count = n, cu_healthy_models = m,
         cu_ollama = ob, cu_vllm = vb\<rparr>"
    using assms by (auto simp: evaluate_cluster_def rbind_Inr)
  show "cu_id c = cid" "cu_probe_enabled c = probe_enabled spec"
    "cu_primary c = truthy (get_default spec ''primary'' (PBool False))"
    "cu_health c \<in> {''healthy'', ''degraded'', ''unreachable'', ''unknown''}"
    by (simp_all add: c cluster_health_def)
  show "cu_health c = health_of_answers (probe_answers env spec)" if "probe_enabled spec"
    using b that by (auto simp: c cluster_backends_def probed_backend_def probe_answers_def health_of_answers_def
        cluster_health_def split: prod.splits)
qed

lemma validate_cluster_facts:
  "validate_cluster env c = Inr d \<Longrightarrow> cu_id d = cu_id c \<and> cu_health d = cu_health c \<and> cu_primary d = cu_primary c"
  by (auto simp: validate_cluster_def rbind_Inr)

lemma count_health_split:
  assumes "\<forall>c\<in>set cs. cu_health c \<in> {''healthy'', ''degraded'', ''unreachable'', ''unknown''}"
  shows "count_health ''healthy'' cs + count_health ''degraded'' cs + count_health ''unreachable'' cs +
    count_health ''unknown'' cs = length cs"
  using assms by (induction cs) (auto simp: count_health_def)

lemma primary_cluster_Some:
  "primary_cluster cs = Some i \<Longrightarrow> \<exists>c\<in>set cs. cu_id c = i \<and> (\<forall>d\<in>set cs. cu_primary d \<longrightarrow> cu_primary c)"
proof (cases "find cu_primary cs")
  case None
  then have "\<not> cu_primary d" if "d \<in> set cs" for d using that by (auto simp: find_None_iff)
  moreover assume "primary_cluster cs = Some i"
  ultimately show ?thesis using None by (cases cs) (auto simp: primary_cluster_def)
next
  case (Some c)
  then have "c \<in> set cs" "cu_primary c" by (auto simp: find_Some_iff)
  moreover assume "primary_cluster cs = Some i"
  ultimately show ?thesis using Some by (auto simp: primary_cluster_def)
qed

text \<open>C38: the fleet answer accounts for every cluster of the registry: one status per entry, in the order of the
  file and under its own id; the counters and the clusters of unknown health add up to the whole fleet; the
  primary is a listed cluster, one that the registry marks as primary if it marks any; and a cluster that is
  probed is healthy, degraded or unreachable as both, one or none of its backends answered.\<close>

theorem fleet_accounts_for_clusters:
  assumes "build_fleet_clusters env now (Some file) = Inr (summary, cs)"
  shows "\<exists>clusters. parse_clusters (Some file) = Inr clusters \<and> distinct (map fst clusters) \<and>
      map cu_id cs = map fst clusters \<and> fs_cluster_count summary = length clusters \<and>
      fs_healthy summary + fs_degraded summary + fs_unreachable summary + count_health ''unknown'' cs = length clusters \<and>
      (clusters = [] \<longleftrightarrow> fs_primary summary = None) \<and>
      (\<forall>i. fs_primary summary = Some i \<longrightarrow> (\<exists>c\<in>set cs. cu_id c = i \<and> (\<forall>d\<in>set cs. cu_primary d \<longrightarrow> cu_primary c))) \<and>
      list_all2 (\<lambda>(cid, spec) c. probe_enabled spec \<longrightarrow> cu_health c = health_of_answers (probe_answers env spec)) clusters cs"
proof -
  obtain clusters evaluated where p: "parse_clusters (Some file) = Inr clusters"
    and e: "evaluate_fleet env clusters = Inr evaluated" and v: "each (validate_cluster env) evaluated = Inr cs"
    and s: "summary = summary_of now cs"
    using assms by (auto simp: build_fleet_clusters_def rbind_Inr)
  have each1: "list_all2 (\<lambda>(cid, spec) c. cu_id c = cid \<and> (probe_enabled spec \<longrightarrow> cu_health c = health_of_answers (probe_answers env spec)) \<and>
      cu_health c \<in> {''healthy'', ''degraded'', ''unreachable'', ''unknown''}) clusters evaluated"
    using e unfolding evaluate_fleet_def each_Inr
    by (rule list.rel_mono_strong) (use evaluate_cluster_facts in \<open>fastforce split: prod.splits\<close>)
  moreover have "list_all2 (\<lambda>c d. cu_id d = cu_id c \<and> cu_health d = cu_health c \<and> cu_primary d = cu_primary c) evaluated cs"
    using v unfolding each_Inr by (rule list.rel_mono_strong) (use validate_cluster_facts in blast)
  ultimately have both: "list_all2 (\<lambda>(cid, spec) c. cu_id c = cid \<and> (probe_enabled spec \<longrightarrow> cu_health c = health_of_answers (probe_answers env spec)) \<and>
      cu_health c \<in> {''healthy'', ''degraded'', ''unreachable'', ''unknown''}) clusters cs"
    by (rule list_all2_trans [rotated]) auto
  have ids: "map cu_id cs = map fst clusters"
    using both by (induction rule: list_all2_induct) auto
  have len: "length cs = length clusters" using both by (simp add: list_all2_lengthD)
  have "\<forall>c\<in>set cs. cu_health c \<in> {''healthy'', ''degraded'', ''unreachable'', ''unknown''}"
    using both by (induction rule: list_all2_induct) auto
  from count_health_split [OF this] have counts: "fs_healthy summary + fs_degraded summary + fs_unreachable summary +
      count_health ''unknown'' cs = length clusters" using len by (simp add: s summary_of_def)
  have prim: "\<exists>c\<in>set cs. cu_id c = i \<and> (\<forall>d\<in>set cs. cu_primary d \<longrightarrow> cu_primary c)" if "fs_primary summary = Some i" for i
    using that primary_cluster_Some [of cs i] by (simp add: s summary_of_def)
  have none: "clusters = [] \<longleftrightarrow> fs_primary summary = None"
    using len by (cases cs) (auto simp: s summary_of_def primary_cluster_def split: option.splits)
  have "list_all2 (\<lambda>(cid, spec) c. probe_enabled spec \<longrightarrow> cu_health c = health_of_answers (probe_answers env spec)) clusters cs"
    using both by (rule list.rel_mono_strong) auto
  with p ids len counts prim none parse_clusters_distinct [OF p] show ?thesis
    by (intro exI [of _ clusters]) (simp add: s summary_of_def)
qed

definition demo_fleet_env :: fleet_env where
  "demo_fleet_env = \<lparr>fe_probe_ollama = (\<lambda>u. (True, 3, None)), fe_probe_vllm = (\<lambda>u. (False, 9, Some ''refused'')),
     fe_ollama_url = ''http://o'', fe_vllm_url = ''http://v'',
     fe_as_flag = (\<lambda>v. case v of PNone \<Rightarrow> Inr None | PBool b \<Rightarrow> Inr (Some b) | _ \<Rightarrow> Inl (ValueError ''healthy''))\<rparr>"

definition demo_fleet_file :: string where
  "demo_fleet_file = ''clusters:'' @ [CHR 0x0A] @ ''  eu:'' @ [CHR 0x0A] @ ''    probe_enabled: true'' @ [CHR 0x0A] @
     ''  us:'' @ [CHR 0x0A] @ ''    primary: yes'' @ [CHR 0x0A]"

theorem fleet_accounts_for_clusters_witness:
  "\<exists>summary cs clusters. build_fleet_clusters demo_fleet_env ''now'' (Some demo_fleet_file) = Inr (summary, cs) \<and>
     parse_clusters (Some demo_fleet_file) = Inr clusters \<and> map cu_id cs = map fst clusters \<and>
     fs_primary summary = Some ''us'' \<and> fs_cluster_count summary = 2"
proof -
  have "case build_fleet_clusters demo_fleet_env ''now'' (Some demo_fleet_file) of Inl e \<Rightarrow> False
      | Inr (summary, cs) \<Rightarrow> fs_primary summary = Some ''us'' \<and> fs_cluster_count summary = 2" by code_simp
  then obtain summary cs where b: "build_fleet_clusters demo_fleet_env ''now'' (Some demo_fleet_file) = Inr (summary, cs)"
    and f: "fs_primary summary = Some ''us''" "fs_cluster_count summary = 2"
    by (auto split: sum.splits prod.splits)
  from fleet_accounts_for_clusters [OF b] b f show ?thesis by blast
qed

text \<open>A registry that writes \<open>off\<close> for the health of a backend does not make the cluster degraded: the value is
  not \<open>False\<close>. A backend nothing is known of does not count against the cluster either.\<close>

lemma health_of_other_values:
  "cluster_health (parse_scalar '' off'') (PBool True) = ''healthy''"
  "cluster_health PNone (PBool True) = ''healthy''"
  by code_simp+

end
