(* ===== verification/Registry_Engine.thy ===== *)
theory Registry_Engine
  imports Gov_Request Registry_Files
begin

text \<open>
  The model registry, \<open>governance/registry/evaluate.py\<close> and \<open>signing.py\<close>: what an entry allows, and the
  attestation that binds an entry to its key. \<open>mac\<close> is HMAC-SHA256 as a hexadecimal text, a parameter.
\<close>

subsection \<open>Attestation\<close>

definition canonical_fields :: "string list" where
  "canonical_fields = [''revision'', ''artifact_digest'', ''risk_tier'', ''license'']"

text \<open>\<open>str(entry.get(field, ""))\<close>.\<close>

definition field_text :: "pyobj \<Rightarrow> string \<Rightarrow> string" where
  "field_text entry k = py_str (get_default entry k (PStr []))"

definition get_signing_key :: "string option \<Rightarrow> string" where
  "get_signing_key env = py_strip (case env of None \<Rightarrow> ''ai-platform-registry-demo'' | Some k \<Rightarrow> k)"

definition is_registry_signature_verify_enabled :: "string option \<Rightarrow> bool" where
  "is_registry_signature_verify_enabled env \<longleftrightarrow> py_lower (py_strip (opt_str env)) \<in> {''1'', ''true'', ''yes''}"

definition canonical_payload :: "string \<Rightarrow> pyobj \<Rightarrow> string" where
  "canonical_payload model entry = join_with ''|'' (model # map (field_text entry) canonical_fields)"

definition sign_entry :: "(string \<Rightarrow> string \<Rightarrow> string) \<Rightarrow> string \<Rightarrow> string \<Rightarrow> pyobj \<Rightarrow> string" where
  "sign_entry mac key model entry = mac key (canonical_payload model entry)"

definition verify_entry_signature :: "(string \<Rightarrow> string \<Rightarrow> string) \<Rightarrow> string \<Rightarrow> string \<Rightarrow> pyobj \<Rightarrow> bool" where
  "verify_entry_signature mac key model entry \<longleftrightarrow>
     (let stored = py_strip (field_text entry ''attestation_signature'')
      in stored \<noteq> [] \<and> stored = sign_entry mac key model entry)"

text \<open>Whether there is a signature, and whether it verifies (\<open>None\<close> without one).\<close>

definition attestation_status :: "(string \<Rightarrow> string \<Rightarrow> string) \<Rightarrow> string \<Rightarrow> string \<Rightarrow> pyobj \<Rightarrow> bool \<times> bool option" where
  "attestation_status mac key model entry =
     (let has = py_strip (field_text entry ''attestation_signature'') \<noteq> []
      in (has, if has then Some (verify_entry_signature mac key model entry) else None))"

subsection \<open>Evaluation\<close>

text \<open>The environment a decision reads: the signing key and the switch for verification.\<close>

record signing_env =
  se_key :: "string option"
  se_verify :: "string option"

record model_policy =
  mp_known :: bool
  mp_forbidden :: bool
  mp_reasons :: "string list"
  mp_tier :: pyval
  mp_external :: pyval
  mp_revision :: pyval
  mp_digest :: pyval
  mp_sbom :: pyval
  mp_license :: pyval
  mp_attested :: "bool option"

definition unknown_model :: "string \<Rightarrow> model_policy" where
  "unknown_model model =
     \<lparr>mp_known = False, mp_forbidden = False, mp_reasons = [''model '' @ model @ '' is not registered''],
      mp_tier = PNone, mp_external = PBool False, mp_revision = PNone, mp_digest = PNone, mp_sbom = PNone,
      mp_license = PNone, mp_attested = None\<rparr>"

text \<open>\<open>isinstance(xs, list) and x not in xs\<close>, with or without \<open>and xs\<close>.\<close>

definition not_listed :: "pyval \<Rightarrow> string \<Rightarrow> bool" where
  "not_listed v x = (case v of PList xs \<Rightarrow> PStr x \<notin> set xs | _ \<Rightarrow> False)"

definition excluded :: "pyval \<Rightarrow> string \<Rightarrow> bool" where
  "excluded v x = (case v of PList xs \<Rightarrow> xs \<noteq> [] \<and> PStr x \<notin> set xs | _ \<Rightarrow> False)"

definition attestation_reasons :: "bool \<Rightarrow> string \<Rightarrow> string \<Rightarrow> bool \<times> bool option \<Rightarrow> string list" where
  "attestation_reasons enabled model expected status =
     (let (has, verified) = status in
      if \<not> enabled then []
      else if expected \<noteq> [] \<and> \<not> has
      then [''model '' @ model @ '' is missing a registry attestation signature'']
      else reason_if (has \<and> verified \<noteq> Some True)
        (''model '' @ model @ '' has an invalid registry attestation signature''))"

definition model_budget_reasons :: "row \<Rightarrow> pyobj \<Rightarrow> string list result" where
  "model_budget_reasons rw entry =
     (let budget = get_none entry ''max_monthly_budget_usd''; forecast = rw_forecast_monthly_cost_usd rw in
      if budget = PNone then Inr []
      else rbind (py_float budget) (\<lambda>b. Inr (reason_if (b < forecast)
        (''forecast monthly cost '' @ float_repr forecast @ '' exceeds model budget '' @ py_str budget))))"

definition entry_reasons :: "row \<Rightarrow> pyobj \<Rightarrow> string list" where
  "entry_reasons rw entry =
     (let model = rw_model rw; expected = py_strip (field_text entry ''artifact_digest'');
          provided = py_strip (rw_model_artifact_digest rw) in
      reason_if (truthy (get_default entry ''forbidden'' (PBool False)))
        (''model '' @ model @ '' is forbidden in the risk registry'') @
      reason_if (not_listed (get_none entry ''allowed_namespaces'') (rw_namespace rw))
        (''namespace '' @ rw_namespace rw @ '' is not allowed for model '' @ model) @
      reason_if (rw_sensitive_data rw \<and> \<not> truthy (get_default entry ''pii_allowed'' (PBool False)))
        (''model '' @ model @ '' does not allow sensitive data'') @
      reason_if (excluded (get_none entry ''allowed_teams'') (rw_team rw))
        (''team '' @ rw_team rw @ '' is not allowed to use model '' @ model) @
      reason_if (expected \<noteq> [] \<and> provided \<noteq> [] \<and> provided \<noteq> expected)
        (''model artifact digest mismatch for '' @ model @ '' (expected '' @ expected @ '', got '' @ provided @ '')''))"

definition evaluate_model_policy ::
  "(string \<Rightarrow> string \<Rightarrow> string) \<Rightarrow> signing_env \<Rightarrow> row \<Rightarrow> table \<Rightarrow> model_policy result" where
  "evaluate_model_policy mac env rw registry =
     (case map_of registry (rw_model rw) of
        None \<Rightarrow> Inr (unknown_model (rw_model rw))
      | Some entry \<Rightarrow>
          (let status = attestation_status mac (get_signing_key (se_key env)) (rw_model rw) entry;
               expected = py_strip (field_text entry ''artifact_digest'')
           in rbind (model_budget_reasons rw entry) (\<lambda>budget.
              let reasons = entry_reasons rw entry @
                attestation_reasons (is_registry_signature_verify_enabled (se_verify env)) (rw_model rw) expected status @ budget
              in Inr \<lparr>mp_known = True, mp_forbidden = (reasons \<noteq> []), mp_reasons = reasons,
                   mp_tier = get_none entry ''risk_tier'', mp_external = get_default entry ''external_provider'' (PBool False),
                   mp_revision = get_none entry ''revision'', mp_digest = get_none entry ''artifact_digest'',
                   mp_sbom = get_none entry ''sbom_ref'', mp_license = get_none entry ''license'',
                   mp_attested = snd status\<rparr>)))"

subsection \<open>What an allowed model has\<close>

lemma not_listed_PList: "not_listed (PList xs) x \<longleftrightarrow> PStr x \<notin> set xs"
  by (simp add: not_listed_def)

text \<open>With verification switched on, a registered model that is not forbidden and names an artifact carries a
  signature that is the MAC of its name, revision, artifact digest, tier and license under the key; a digest
  that the request gives is the registered one; sensitive data goes only to models that allow it, and the
  namespace is on the list of the model when there is one.\<close>

theorem allowed_model_is_attested:
  assumes "evaluate_model_policy mac env rw registry = Inr r" "mp_known r" "\<not> mp_forbidden r"
    and "is_registry_signature_verify_enabled (se_verify env)"
  shows "\<exists>entry. map_of registry (rw_model rw) = Some entry \<and>
    (let digest = py_strip (field_text entry ''artifact_digest''); given = py_strip (rw_model_artifact_digest rw) in
     (digest = [] \<or> py_strip (field_text entry ''attestation_signature'') =
        mac (get_signing_key (se_key env)) (canonical_payload (rw_model rw) entry)) \<and>
     (digest = [] \<or> given = [] \<or> given = digest) \<and>
     (rw_sensitive_data rw = (rw_sensitive_data rw \<and> truthy (get_default entry ''pii_allowed'' (PBool False)))) \<and>
     not_listed (get_none entry ''allowed_namespaces'') (rw_namespace rw) = False)"
proof (cases "map_of registry (rw_model rw)")
  case None
  then show ?thesis using assms(1,2) by (auto simp: evaluate_model_policy_def unknown_model_def)
next
  case (Some entry)
  let ?sig = "py_strip (field_text entry ''attestation_signature'')"
  let ?digest = "py_strip (field_text entry ''artifact_digest'')"
  have r: "entry_reasons rw entry = []" "attestation_reasons True (rw_model rw) ?digest
      (attestation_status mac (get_signing_key (se_key env)) (rw_model rw) entry) = []"
    using assms Some by (auto simp: evaluate_model_policy_def Let_def rbind_Inr)
  from r(2) have "?digest = [] \<or> verify_entry_signature mac (get_signing_key (se_key env)) (rw_model rw) entry"
    by (auto simp: attestation_reasons_def attestation_status_def Let_def reason_if_def split: if_splits)
  then have "?digest = [] \<or> ?sig = mac (get_signing_key (se_key env)) (canonical_payload (rw_model rw) entry)"
    by (auto simp: verify_entry_signature_def sign_entry_def Let_def)
  moreover from r(1) have "?digest = [] \<or> py_strip (rw_model_artifact_digest rw) = [] \<or> py_strip (rw_model_artifact_digest rw) = ?digest"
    "rw_sensitive_data rw = (rw_sensitive_data rw \<and> truthy (get_default entry ''pii_allowed'' (PBool False)))"
    "not_listed (get_none entry ''allowed_namespaces'') (rw_namespace rw) = False"
    by (auto simp: entry_reasons_def Let_def)
  ultimately show ?thesis using Some unfolding Let_def by blast
qed

text \<open>An HMAC stand-in for examples: the key before the text.\<close>

definition demo_entry_of_model :: pyobj where
  "demo_entry_of_model = [(''revision'', PStr ''r1''), (''artifact_digest'', PStr ''d1''), (''risk_tier'', PStr ''low''),
     (''license'', PStr ''mit''), (''attestation_signature'', PStr ''k:llama3.1:8b|r1|d1|low|mit'')]"

definition demo_mac :: "string \<Rightarrow> string \<Rightarrow> string" where
  "demo_mac key text = key @ '':'' @ text"

theorem allowed_model_is_attested_witness:
  "\<exists>entry. map_of [(''llama3.1:8b'', demo_entry_of_model)] (rw_model demo_row) = Some entry \<and>
     py_strip (field_text entry ''attestation_signature'') = demo_mac (get_signing_key (Some ''k'')) (canonical_payload (rw_model demo_row) entry)"
proof -
  let ?env = "\<lparr>se_key = Some ''k'', se_verify = Some ''true''\<rparr>"
  let ?reg = "[(''llama3.1:8b'', demo_entry_of_model)]"
  let ?r = "\<lparr>mp_known = True, mp_forbidden = False, mp_reasons = [], mp_tier = PStr ''low'', mp_external = PBool False,
    mp_revision = PStr ''r1'', mp_digest = PStr ''d1'', mp_sbom = PNone, mp_license = PStr ''mit'', mp_attested = Some True\<rparr>"
  have "evaluate_model_policy demo_mac ?env demo_row ?reg = Inr ?r" by code_simp
  moreover have "mp_known ?r" "\<not> mp_forbidden ?r" by simp_all
  moreover have "is_registry_signature_verify_enabled (se_verify ?env)" by code_simp
  ultimately obtain entry where e: "map_of ?reg (rw_model demo_row) = Some entry"
    "py_strip (field_text entry ''artifact_digest'') = [] \<or> py_strip (field_text entry ''attestation_signature'') =
        demo_mac (get_signing_key (Some ''k'')) (canonical_payload (rw_model demo_row) entry)"
    using allowed_model_is_attested [of demo_mac ?env demo_row ?reg ?r] by (auto simp: Let_def)
  have "entry = demo_entry_of_model" using e(1) by (simp add: demo_row_def)
  moreover have "py_strip (field_text demo_entry_of_model ''artifact_digest'') \<noteq> []" by code_simp
  ultimately show ?thesis using e by auto
qed

text \<open>The attestation covers the name and four fields only, and joins them ambiguously. Whatever else is
  changed in an entry, also \<open>pii_allowed\<close>, \<open>forbidden\<close> or the allowed namespaces, the signature stays valid;
  and a revision that contains a bar signs as another revision and digest.\<close>

theorem attestation_scope:
  "verify_entry_signature mac key model ((''pii_allowed'', v) # (''forbidden'', w) # (''allowed_namespaces'', x) # entry) =
     verify_entry_signature mac key model entry \<and>
   sign_entry mac key model [(''revision'', PStr (a @ ''|'' @ b)), (''artifact_digest'', PStr c)] =
     sign_entry mac key model [(''revision'', PStr a), (''artifact_digest'', PStr (b @ ''|'' @ c))]"
  by (simp add: verify_entry_signature_def sign_entry_def canonical_payload_def canonical_fields_def field_text_def get_default_def)

end
