(* ===== verification/Tool_Engine.thy ===== *)
theory Tool_Engine
  imports Registry_Engine
begin

text \<open>
  Agents and tools: the bindings of an agent (\<open>governance/agents/evaluate.py\<close>), the allow lists of a tool
  (\<open>governance/tools/evaluate.py\<close>), and the decision on a tool call that joins the two
  (\<open>tool_governance_service.py\<close>, \<open>agent_registry_service.py\<close>).
\<close>

subsection \<open>Agents\<close>

record agent_policy =
  ap_known :: bool
  ap_forbidden :: bool
  ap_reasons :: "string list"
  ap_tools :: "pyval list"

definition agent_reasons :: "row \<Rightarrow> string \<Rightarrow> pyobj \<Rightarrow> pyval list \<Rightarrow> table option \<Rightarrow> string list" where
  "agent_reasons rw agent entry tools tool_registry =
     (let tool = py_strip (rw_tool rw); model = py_strip (rw_model rw);
          bound_model = py_strip (field_text entry ''model'');
          tool_entry = (case tool_registry of None \<Rightarrow> None | Some t \<Rightarrow> map_of t tool) in
      reason_if (truthy (get_default entry ''forbidden'' (PBool False)))
        (''agent '' @ agent @ '' is forbidden in the agent registry'') @
      reason_if (excluded (get_none entry ''allowed_teams'') (rw_team rw))
        (''team '' @ rw_team rw @ '' is not allowed to use agent '' @ agent) @
      reason_if (excluded (get_none entry ''allowed_namespaces'') (rw_namespace rw))
        (''namespace '' @ rw_namespace rw @ '' is not allowed for agent '' @ agent) @
      reason_if (tool \<noteq> [] \<and> tools \<noteq> [] \<and> PStr tool \<notin> set tools)
        (''tool '' @ tool @ '' is not bound to agent '' @ agent) @
      reason_if (tool \<noteq> [] \<and> (case tool_entry of None \<Rightarrow> False
          | Some e \<Rightarrow> truthy (get_default e ''forbidden'' (PBool False))))
        (''bound tool '' @ tool @ '' is forbidden'') @
      reason_if (model \<noteq> [] \<and> bound_model \<noteq> [] \<and> model \<noteq> bound_model)
        (''model '' @ model @ '' does not match agent binding '' @ bound_model))"

definition evaluate_agent_policy :: "row \<Rightarrow> table \<Rightarrow> table option \<Rightarrow> agent_policy result" where
  "evaluate_agent_policy rw registry tool_registry =
     (let agent = py_strip (rw_agent rw) in
      if agent = [] then Inr \<lparr>ap_known = False, ap_forbidden = False, ap_reasons = [], ap_tools = []\<rparr>
      else case map_of registry agent of
        None \<Rightarrow> Inr \<lparr>ap_known = False, ap_forbidden = True,
                    ap_reasons = [''agent '' @ agent @ '' is not registered''], ap_tools = []\<rparr>
      | Some entry \<Rightarrow>
          rbind (py_iter (get_default entry ''tools'' (PList []))) (\<lambda>tools.
            let reasons = agent_reasons rw agent entry tools tool_registry in
            Inr \<lparr>ap_known = True, ap_forbidden = (reasons \<noteq> []), ap_reasons = reasons, ap_tools = tools\<rparr>))"

subsection \<open>Tools\<close>

text \<open>\<open>_action_allowed\<close>: the reasons against an action, none when it is allowed.\<close>

definition lower_texts :: "pyval list \<Rightarrow> string list" where
  "lower_texts xs = map (\<lambda>x. py_lower (py_str x)) xs"

definition action_reasons :: "string \<Rightarrow> pyobj \<Rightarrow> string list" where
  "action_reasons action entry =
     (let normalized = py_lower (py_strip action);
          forbidden = get_default entry ''forbidden_actions'' (PList []);
          allowed = get_default entry ''allowed_actions'' (PList []) in
      if normalized = [] then [''tool action is required'']
      else if (case forbidden of PList xs \<Rightarrow> normalized \<in> set (lower_texts xs) | _ \<Rightarrow> False)
      then [''action '' @ action @ '' is forbidden for tool'']
      else reason_if (case allowed of PList xs \<Rightarrow> xs \<noteq> [] \<and> normalized \<notin> set (lower_texts xs) | _ \<Rightarrow> False)
        (''action '' @ action @ '' is not in the tool allowlist''))"

definition write_actions :: "string list" where
  "write_actions = [''write'', ''delete'', ''patch'', ''apply'', ''create'', ''update'']"

record tool_policy =
  tp_known :: bool
  tp_forbidden :: bool
  tp_reasons :: "string list"
  tp_tier :: pyval

definition tool_reasons :: "row \<Rightarrow> string \<Rightarrow> pyobj \<Rightarrow> string list" where
  "tool_reasons rw tool entry =
     (let action = py_strip (rw_action rw) in
      reason_if (truthy (get_default entry ''forbidden'' (PBool False)))
        (''tool '' @ tool @ '' is forbidden in the tool registry'') @
      reason_if (excluded (get_none entry ''allowed_teams'') (rw_team rw))
        (''team '' @ rw_team rw @ '' is not allowed to use tool '' @ tool) @
      reason_if (excluded (get_none entry ''allowed_namespaces'') (rw_namespace rw))
        (''namespace '' @ rw_namespace rw @ '' is not allowed for tool '' @ tool) @
      action_reasons action entry @
      reason_if (py_lower action \<in> set write_actions \<and> \<not> rw_write_permission rw)
        (''action '' @ action @ '' requires explicit write permission for tool '' @ tool))"

definition evaluate_tool_policy :: "row \<Rightarrow> table \<Rightarrow> tool_policy" where
  "evaluate_tool_policy rw registry =
     (let tool = py_strip (rw_tool rw);
          refused = (\<lambda>reason. \<lparr>tp_known = False, tp_forbidden = True, tp_reasons = [reason], tp_tier = PNone\<rparr>) in
      if tool = [] then refused ''tool name is required''
      else case map_of registry tool of
        None \<Rightarrow> refused (''tool '' @ tool @ '' is not registered'')
      | Some entry \<Rightarrow>
          (let reasons = tool_reasons rw tool entry in
           \<lparr>tp_known = True, tp_forbidden = (reasons \<noteq> []), tp_reasons = reasons, tp_tier = get_none entry ''risk_tier''\<rparr>))"

subsection \<open>Tool calls\<close>

record tool_request =
  tq_subject :: string
  tq_groups :: "string list"
  tq_policy_pack :: string
  tq_team :: string
  tq_owner :: string
  tq_environment :: string
  tq_namespace :: string
  tq_agent :: string
  tq_tool :: string
  tq_action :: string
  tq_mcp_server :: string
  tq_write_permission :: bool

text \<open>The identity that replaces what the caller says of himself (\<open>WorkloadIdentity\<close>).\<close>

record workload_identity =
  wi_subject :: string
  wi_groups :: "string list"
  wi_team :: string
  wi_owner :: string
  wi_environment :: string
  wi_namespace :: string
  wi_policy_pack :: string
  wi_tenant_id :: string
  wi_source :: string

definition merge_tool_request :: "tool_request \<Rightarrow> workload_identity option \<Rightarrow> tool_request" where
  "merge_tool_request q identity = (case identity of None \<Rightarrow> q
     | Some i \<Rightarrow> q\<lparr>tq_subject := wi_subject i, tq_team := wi_team i, tq_owner := wi_owner i,
         tq_groups := wi_groups i, tq_policy_pack := wi_policy_pack i,
         tq_environment := wi_environment i, tq_namespace := wi_namespace i\<rparr>)"

text \<open>The dump of the request has no model, so the row has none; the keys the two engines do not read are
  left blank.\<close>

definition tool_row :: "tool_request \<Rightarrow> row" where
  "tool_row q =
     \<lparr>rw_id = [], rw_timestamp = [], rw_subject = tq_subject q, rw_team = tq_team q, rw_owner = tq_owner q,
      rw_policy_pack = tq_policy_pack q, rw_environment = tq_environment q, rw_namespace = tq_namespace q,
      rw_action = tq_action q, rw_model = [], rw_provider = [], rw_input_tokens = 0, rw_output_tokens = 0,
      rw_cost_per_request_usd = 0, rw_cost_per_hour_usd = 0, rw_month_to_date_cost_usd = 0,
      rw_forecast_monthly_cost_usd = 0, rw_sensitive_data = False, rw_tool_access = False,
      rw_write_permission = tq_write_permission q, rw_requests_last_minute = 0, rw_tokens_today = 0,
      rw_model_revision = [], rw_model_artifact_digest = [], rw_prompt_text = [], rw_agent = tq_agent q,
      rw_region = [], rw_tool = tq_tool q, rw_multiplier = None\<rparr>"

record tool_response =
  tv_verdict :: string
  tv_reasons :: "string list"
  tv_agent :: agent_policy
  tv_tool :: tool_policy

definition evaluate_tool_governance ::
  "tool_request \<Rightarrow> workload_identity option \<Rightarrow> table \<Rightarrow> table \<Rightarrow> tool_response result" where
  "evaluate_tool_governance q identity agents tools =
     (let rw = tool_row (merge_tool_request q identity); tool = evaluate_tool_policy rw tools in
      rbind (evaluate_agent_policy rw agents (if tools = [] then None else Some tools)) (\<lambda>agent.
        let reasons = tp_reasons tool @ ap_reasons agent; forbidden = tp_forbidden tool \<or> ap_forbidden agent in
        Inr (if forbidden
             then \<lparr>tv_verdict = ''block'',
                   tv_reasons = (if reasons = [] then [''tool governance blocked the request''] else reasons),
                   tv_agent = agent, tv_tool = tool\<rparr>
             else \<lparr>tv_verdict = ''allow'',
                   tv_reasons = (if reasons = [] then [''tool governance checks passed''] else reasons),
                   tv_agent = agent, tv_tool = tool\<rparr>)))"

lemma tool_row_simps [simp]:
  "rw_team (tool_row q) = tq_team q" "rw_namespace (tool_row q) = tq_namespace q"
  "rw_action (tool_row q) = tq_action q" "rw_model (tool_row q) = []" "rw_agent (tool_row q) = tq_agent q"
  "rw_tool (tool_row q) = tq_tool q" "rw_write_permission (tool_row q) = tq_write_permission q"
  by (simp_all add: tool_row_def)

lemma evaluate_tool_policy_allowed:
  "tp_forbidden (evaluate_tool_policy rw registry) = False \<longleftrightarrow>
    (\<exists>entry. map_of registry (py_strip (rw_tool rw)) = Some entry \<and> py_strip (rw_tool rw) \<noteq> [] \<and>
       tool_reasons rw (py_strip (rw_tool rw)) entry = [])"
  by (auto simp: evaluate_tool_policy_def Let_def split: option.split)

text \<open>C27: a tool call is allowed only for a registered tool that is not forbidden, to a team and in a namespace
  of its lists, for an action that is not forbidden and is on the allow list when there is one, and for an
  action that writes only with the write permission; when an agent is named, it is registered and, if it
  lists tools, lists this one. The team and the namespace are those of the verified identity when there is
  one, whatever the caller put into the request.\<close>

theorem tool_call_allowed:
  assumes "evaluate_tool_governance q identity agents tools = Inr r" "tv_verdict r = ''allow''"
  shows "\<exists>entry. (let m = merge_tool_request q identity; tool = py_strip (tq_tool q);
       action = py_lower (py_strip (tq_action q)); agent = py_strip (tq_agent q) in
     map_of tools tool = Some entry \<and> \<not> truthy (get_default entry ''forbidden'' (PBool False)) \<and>
     \<not> excluded (get_none entry ''allowed_teams'') (tq_team m) \<and>
     \<not> excluded (get_none entry ''allowed_namespaces'') (tq_namespace m) \<and>
     action \<noteq> [] \<and> (action \<notin> set write_actions \<or> tq_write_permission q) \<and>
     \<not> (\<exists>xs. get_none entry ''forbidden_actions'' = PList xs \<and> action \<in> set (lower_texts xs)) \<and>
     \<not> (\<exists>xs. get_none entry ''allowed_actions'' = PList xs \<and> xs \<noteq> [] \<and> action \<notin> set (lower_texts xs)) \<and>
     (agent = [] \<or> (\<exists>e bound. map_of agents agent = Some e \<and> py_iter (get_default e ''tools'' (PList [])) = Inr bound \<and>
        (bound = [] \<or> PStr tool \<in> set bound))) \<and>
     (case identity of None \<Rightarrow> m = q | Some i \<Rightarrow> tq_team m = wi_team i \<and> tq_namespace m = wi_namespace i))"
proof -
  let ?m = "merge_tool_request q identity"
  have same: "tq_tool ?m = tq_tool q" "tq_action ?m = tq_action q" "tq_agent ?m = tq_agent q"
    "tq_write_permission ?m = tq_write_permission q"
    by (simp_all add: merge_tool_request_def split: option.split)
  have ident: "case identity of None \<Rightarrow> ?m = q | Some i \<Rightarrow> tq_team ?m = wi_team i \<and> tq_namespace ?m = wi_namespace i"
    by (simp add: merge_tool_request_def split: option.split)
  obtain a where a: "evaluate_agent_policy (tool_row ?m) agents (if tools = [] then None else Some tools) = Inr a"
    and ok: "tp_forbidden (evaluate_tool_policy (tool_row ?m) tools) = False" "ap_forbidden a = False"
    using assms by (auto simp: evaluate_tool_governance_def Let_def rbind_Inr split: if_splits)
  from ok(1) obtain entry where e: "map_of tools (py_strip (tq_tool q)) = Some entry" "py_strip (tq_tool q) \<noteq> []"
    and no: "tool_reasons (tool_row ?m) (py_strip (tq_tool q)) entry = []"
    unfolding evaluate_tool_policy_allowed by (auto simp: same)
  have none_iff: "get_default entry k (PList []) = PList xs \<Longrightarrow> xs \<noteq> [] \<Longrightarrow> get_none entry k = PList xs" for k xs
    by (simp add: get_none_def get_default_def split: option.splits)
  have some_iff: "get_none entry k = PList xs \<Longrightarrow> get_default entry k (PList []) = PList xs" for k xs
    by (simp add: get_none_def get_default_def split: option.splits)
  have agent: "py_strip (tq_agent q) = [] \<or> (\<exists>e bound. map_of agents (py_strip (tq_agent q)) = Some e \<and>
      py_iter (get_default e ''tools'' (PList [])) = Inr bound \<and> (bound = [] \<or> PStr (py_strip (tq_tool q)) \<in> set bound))"
    using a ok(2) e(2) by (auto simp: evaluate_agent_policy_def agent_reasons_def Let_def rbind_Inr same split: if_splits option.splits)
  have action: "action_reasons (py_strip (tq_action q)) entry = []"
    and rest: "\<not> truthy (get_default entry ''forbidden'' (PBool False))" "\<not> excluded (get_none entry ''allowed_teams'') (tq_team ?m)"
      "\<not> excluded (get_none entry ''allowed_namespaces'') (tq_namespace ?m)"
      "py_lower (py_strip (tq_action q)) \<notin> set write_actions \<or> tq_write_permission q"
    using no by (simp_all add: tool_reasons_def Let_def same)
  have acts: "py_lower (py_strip (tq_action q)) \<noteq> []"
    "\<not> (\<exists>xs. get_none entry ''forbidden_actions'' = PList xs \<and> py_lower (py_strip (tq_action q)) \<in> set (lower_texts xs))"
    "\<not> (\<exists>xs. get_none entry ''allowed_actions'' = PList xs \<and> xs \<noteq> [] \<and> py_lower (py_strip (tq_action q)) \<notin> set (lower_texts xs))"
    using action by (auto simp: action_reasons_def Let_def some_iff split: if_splits)
  show ?thesis unfolding Let_def
    by (rule exI [of _ entry]) (use e(1) rest acts agent ident in blast)
qed

definition demo_tools_registry :: table where
  "demo_tools_registry = [(''search'', [(''allowed_actions'', PList [PStr ''Read'', PStr ''Write''])])]"

definition demo_tool_request :: tool_request where
  "demo_tool_request = \<lparr>tq_subject = [], tq_groups = [], tq_policy_pack = [], tq_team = ''platform'', tq_owner = ''gateway'',
     tq_environment = ''development'', tq_namespace = ''ai-dev'', tq_agent = [], tq_tool = ''search'', tq_action = ''read'',
     tq_mcp_server = [], tq_write_permission = False\<rparr>"

theorem tool_call_allowed_witness:
  "\<exists>entry. map_of demo_tools_registry ''search'' = Some entry \<and>
     \<not> (\<exists>xs. get_none entry ''allowed_actions'' = PList xs \<and> xs \<noteq> [] \<and> ''read'' \<notin> set (lower_texts xs))"
proof -
  let ?r = "\<lparr>tv_verdict = ''allow'', tv_reasons = [''tool governance checks passed''],
    tv_agent = \<lparr>ap_known = False, ap_forbidden = False, ap_reasons = [], ap_tools = []\<rparr>,
    tv_tool = \<lparr>tp_known = True, tp_forbidden = False, tp_reasons = [], tp_tier = PNone\<rparr>\<rparr>"
  have r: "evaluate_tool_governance demo_tool_request None [] demo_tools_registry = Inr ?r" by code_simp
  have v: "tv_verdict ?r = ''allow''" by simp
  have "py_strip ''search'' = ''search''" "py_lower (py_strip ''read'') = ''read''" by code_simp+
  then show ?thesis using tool_call_allowed [OF r v] by (auto simp: demo_tool_request_def Let_def)
qed

end
