(* ===== verification/Access.thy ===== *)
theory Access
  imports Tool_Engine
begin

text \<open>
  Who is asking, and for which tenant: bearer tokens and attribution headers (\<open>identity_service.py\<close>), roles
  (\<open>rbac.py\<close>) and the tenant scope of a request (\<open>authz.py\<close>). The environment variables are a list of names and
  values, headers a list of lower case names and values. The two ways to read a token are parameters:
  \<open>tk_verified\<close> checks the signature against the key server, \<open>tk_unsigned\<close> only decodes; \<open>None\<close> stands for the
  exceptions the code turns away (\<open>ValueError\<close>, \<open>PyJWTError\<close>).
\<close>

type_synonym names = "(string \<times> string) list"

record access_env =
  ac_env :: names
  tk_verified :: "string \<Rightarrow> pyobj option"
  tk_unsigned :: "string \<Rightarrow> pyobj option"

definition getenv :: "access_env \<Rightarrow> string \<Rightarrow> string" where
  "getenv ac k = get_default (ac_env ac) k []"

definition header :: "names \<Rightarrow> string \<Rightarrow> string" where
  "header headers k = get_default headers k []"

definition stripped_header :: "names \<Rightarrow> string \<Rightarrow> string" where
  "stripped_header headers k = py_strip (header headers k)"

subsection \<open>Bearer tokens\<close>

definition is_jwt_verify_enabled :: "access_env \<Rightarrow> bool" where
  "is_jwt_verify_enabled ac \<longleftrightarrow> py_lower (py_strip (getenv ac ''OIDC_JWT_VERIFY'')) \<in> {''1'', ''true'', ''yes''}"

definition is_tenant_jwt_only :: "access_env \<Rightarrow> bool" where
  "is_tenant_jwt_only ac \<longleftrightarrow> py_lower (py_strip (getenv ac ''TENANT_JWT_ONLY'')) \<in> {''1'', ''true'', ''yes'', ''on''}"

definition verify_bearer_token :: "access_env \<Rightarrow> string \<Rightarrow> pyobj option" where
  "verify_bearer_token ac token =
     (if \<not> is_jwt_verify_enabled ac then tk_unsigned ac token
      else if py_strip (getenv ac ''OIDC_JWKS_URL'') = [] then None
      else tk_verified ac token)"

text \<open>The token of an \<open>Authorization: Bearer\<close> header.\<close>

definition presented_token :: "names \<Rightarrow> string option" where
  "presented_token headers =
     (let authorization = header headers ''authorization'' in
      if \<not> starts_with (py_lower authorization) ''bearer '' then None
      else let token = py_strip (drop 7 authorization) in if token = [] then None else Some token)"

definition extract_bearer_claims :: "access_env \<Rightarrow> names \<Rightarrow> pyobj" where
  "extract_bearer_claims ac headers =
     (case presented_token headers of
        None \<Rightarrow> []
      | Some token \<Rightarrow>
          (case (if is_jwt_verify_enabled ac then verify_bearer_token ac token else tk_unsigned ac token) of
             None \<Rightarrow> [] | Some claims \<Rightarrow> claims))"

definition require_bearer_claims :: "access_env \<Rightarrow> names \<Rightarrow> pyobj result" where
  "require_bearer_claims ac headers =
     (case presented_token headers of
        None \<Rightarrow> Inl (AuthenticationError ''missing bearer token'')
      | Some token \<Rightarrow>
          (case verify_bearer_token ac token of
             None \<Rightarrow> Inl (AuthenticationError ''invalid bearer token'') | Some claims \<Rightarrow> Inr claims))"

subsection \<open>Groups and roles\<close>

definition csv_parts :: "string \<Rightarrow> string list" where
  "csv_parts raw = filter (\<lambda>p. p \<noteq> []) (map py_strip (split_char (CHR '','') raw))"

definition default_approver_groups :: "string list" where
  "default_approver_groups = [''ai-approvers'', ''secops'']"

definition get_approver_groups :: "access_env \<Rightarrow> string list" where
  "get_approver_groups ac =
     (let raw = py_strip (getenv ac ''OIDC_APPROVER_GROUPS'') in if raw = [] then default_approver_groups else csv_parts raw)"

fun normalize_groups :: "pyval \<Rightarrow> string list" where
  "normalize_groups (PList xs) = filter (\<lambda>g. g \<noteq> []) (map (py_strip \<circ> py_str) xs)"
| "normalize_groups (PStr s) = (if py_strip s = [] then [] else csv_parts s)"
| "normalize_groups _ = []"

definition claim_roles :: "pyobj \<Rightarrow> string list" where
  "claim_roles claims =
     normalize_groups (get_none claims ''groups'') @ normalize_groups (get_none claims ''roles'') @
     (case get_none claims ''realm_access'' of PDict d \<Rightarrow> normalize_groups (get_none d ''roles'') | _ \<Rightarrow> [])"

definition known_roles :: "string list" where
  "known_roles = [''platform-admin'', ''tenant-admin'', ''approver'', ''auditor'', ''viewer'', ''runtime-service'']"

definition default_role_groups :: "(string \<times> string list) list" where
  "default_role_groups =
     [(''platform-admin'', [''platform-admins'', ''ai-platform-admins'']), (''tenant-admin'', [''tenant-admins'', ''ai-tenant-admins'']),
      (''approver'', []), (''auditor'', [''ai-auditors'', ''auditors'']), (''viewer'', [''ai-viewers'', ''viewers'']),
      (''runtime-service'', [''ai-runtime-services'', ''runtime-services''])]"

definition upper_char :: "char \<Rightarrow> char" where
  "upper_char c = (let n = (of_char c :: nat) in if 97 \<le> n \<and> n \<le> 122 then char_of (n - 32) else c)"

text \<open>\<open>OIDC_ROLE_<ROLE>_GROUPS\<close>, for the known roles (plain ASCII names).\<close>

definition role_env_key :: "string \<Rightarrow> string" where
  "role_env_key role = ''OIDC_ROLE_'' @ map (\<lambda>c. if c = CHR ''-'' then CHR ''_'' else upper_char c) role @ ''_GROUPS''"

definition role_groups :: "access_env \<Rightarrow> string \<Rightarrow> string list" where
  "role_groups ac role =
     (if role \<notin> set known_roles then []
      else let raw = py_strip (getenv ac (role_env_key role)) in
        if raw \<noteq> [] then csv_parts raw
        else if role = ''approver'' then get_approver_groups ac
        else get_default default_role_groups role [])"

definition roles_from_claims :: "access_env \<Rightarrow> pyobj \<Rightarrow> string list" where
  "roles_from_claims ac claims =
     (let claimed = claim_roles claims in
      filter (\<lambda>role. list_ex (\<lambda>g. g \<in> set (role_groups ac role)) claimed) known_roles @
      filter (\<lambda>c. c \<in> set known_roles) claimed)"

definition principal_has_any_role :: "access_env \<Rightarrow> pyobj \<Rightarrow> string list \<Rightarrow> bool" where
  "principal_has_any_role ac claims required \<longleftrightarrow> list_ex (\<lambda>r. r \<in> set (roles_from_claims ac claims)) required"

text \<open>\<open>str(claims.get(a) or claims.get(b) or "").strip()\<close>.\<close>

definition claim_text :: "pyobj \<Rightarrow> string list \<Rightarrow> string" where
  "claim_text claims keys = py_strip (py_str (foldr (\<lambda>k v. or_else (get_none claims k) v) keys (PStr [])))"

definition require_any_role :: "access_env \<Rightarrow> names \<Rightarrow> string list \<Rightarrow> string result" where
  "require_any_role ac headers required =
     (if required = [] then Inl (ValueError ''at least one role is required'')
      else if \<not> is_jwt_verify_enabled ac then Inr ''demo''
      else rbind (require_bearer_claims ac headers) (\<lambda>claims.
        let subject = claim_text claims [''preferred_username'', ''sub''] in
        if subject = [] then Inl (AuthenticationError ''token missing subject'')
        else if \<not> principal_has_any_role ac claims required
        then Inl (AuthorizationError (''required role: '' @ join_with '' or '' required))
        else Inr subject))"

definition resolve_approver_identity :: "access_env \<Rightarrow> names \<Rightarrow> string \<Rightarrow> string result" where
  "resolve_approver_identity ac headers body_reviewer =
     (if is_jwt_verify_enabled ac then require_any_role ac headers [''approver'']
      else if py_strip body_reviewer = [] then Inl (AuthenticationError ''reviewer required'')
      else Inr (py_strip body_reviewer))"

subsection \<open>The identity of a workload\<close>

definition known_teams :: "string list" where
  "known_teams = [''platform'', ''finance'', ''search'']"

definition parse_groups_header :: "names \<Rightarrow> string list" where
  "parse_groups_header headers =
     (let raw = stripped_header headers ''x-ai-groups'' in if raw = [] then [] else csv_parts raw)"

definition team_from_groups :: "string list \<Rightarrow> string option" where
  "team_from_groups groups = find (\<lambda>g. g \<in> set known_teams) groups"

definition jwt_only_claims :: "access_env \<Rightarrow> names \<Rightarrow> pyobj result" where
  "jwt_only_claims ac headers =
     (if \<not> is_jwt_verify_enabled ac then Inl (AuthenticationError ''TENANT_JWT_ONLY requires OIDC_JWT_VERIFY=true'')
      else require_bearer_claims ac headers)"

text \<open>Team and tenant when only the token counts, and when headers and body do too.\<close>

definition jwt_team_tenant :: "pyobj \<Rightarrow> (string \<times> string) result" where
  "jwt_team_tenant claims =
     (let team = str_or (claim_text claims [''team'']) (opt_str (team_from_groups (normalize_groups (get_none claims ''groups''))));
          tenant = str_or (claim_text claims [''tenant'', ''tenant_id'']) team in
      if tenant = [] then Inl (AuthenticationError ''token missing tenant claim'') else Inr (team, tenant))"

definition open_team_tenant :: "pyobj \<Rightarrow> names \<Rightarrow> string list \<Rightarrow> eval_request \<Rightarrow> string \<times> string" where
  "open_team_tenant claims headers groups body =
     (let team = str_or (claim_text claims [''team'']) (str_or (stripped_header headers ''x-ai-team'')
            (str_or (opt_str (team_from_groups groups)) (q_team body)));
          tenant = str_or (claim_text claims [''tenant'', ''tenant_id'']) (str_or (stripped_header headers ''x-ai-tenant'')
            (str_or (py_strip (q_tenant_id body)) team)) in (team, tenant))"

definition identity_source :: "pyobj \<Rightarrow> names \<Rightarrow> eval_request \<Rightarrow> string" where
  "identity_source claims headers body =
     (if claims \<noteq> [] then ''jwt''
      else if list_ex (\<lambda>n. header headers n \<noteq> []) [''x-ai-subject'', ''x-ai-team'', ''x-ai-tenant'', ''x-ai-owner'', ''x-ai-groups'']
      then ''headers''
      else if q_subject body \<noteq> [] \<or> q_groups body \<noteq> [] then ''body'' else ''default'')"

definition resolve_workload_identity :: "access_env \<Rightarrow> names \<Rightarrow> eval_request \<Rightarrow> workload_identity result" where
  "resolve_workload_identity ac headers body =
     rbind (if is_tenant_jwt_only ac then jwt_only_claims ac headers else Inr (extract_bearer_claims ac headers)) (\<lambda>claims.
       let claim_groups = normalize_groups (get_none claims ''groups''); header_groups = parse_groups_header headers;
           groups = (if claim_groups \<noteq> [] then claim_groups else if header_groups \<noteq> [] then header_groups else q_groups body) in
       rbind (if is_tenant_jwt_only ac then jwt_team_tenant claims else Inr (open_team_tenant claims headers groups body))
         (\<lambda>(team, tenant). Inr
           \<lparr>wi_subject = str_or (claim_text claims [''sub'', ''email'']) (str_or (stripped_header headers ''x-ai-subject'')
              (str_or (q_subject body) ''anonymous'')),
            wi_groups = groups, wi_team = team,
            wi_owner = str_or (claim_text claims [''preferred_username'', ''name'']) (str_or (stripped_header headers ''x-ai-owner'') (q_owner body)),
            wi_environment = str_or (claim_text claims [''environment'']) (str_or (stripped_header headers ''x-ai-environment'') (q_environment body)),
            wi_namespace = str_or (claim_text claims [''namespace'']) (str_or (stripped_header headers ''x-ai-namespace'') (q_namespace body)),
            wi_policy_pack = str_or (claim_text claims [''policy_pack'']) (str_or (stripped_header headers ''x-ai-policy-pack'') (q_policy_pack body)),
            wi_tenant_id = tenant, wi_source = identity_source claims headers body\<rparr>))"

definition apply_identity :: "eval_request \<Rightarrow> workload_identity \<Rightarrow> eval_request" where
  "apply_identity body i =
     body\<lparr>q_subject := wi_subject i, q_team := wi_team i, q_owner := wi_owner i, q_groups := wi_groups i,
       q_policy_pack := wi_policy_pack i, q_environment := wi_environment i, q_namespace := wi_namespace i,
       q_tenant_id := wi_tenant_id i\<rparr>"

definition claim_tenant :: "pyobj \<Rightarrow> string" where
  "claim_tenant claims = str_or (claim_text claims [''tenant'', ''tenant_id'']) (claim_text claims [''team''])"

definition resolve_request_tenant :: "access_env \<Rightarrow> names \<Rightarrow> string result" where
  "resolve_request_tenant ac headers =
     (if is_tenant_jwt_only ac then rbind (jwt_only_claims ac headers) (\<lambda>claims. Inr (claim_tenant claims))
      else let claims = extract_bearer_claims ac headers in
        Inr (str_or (claim_text claims [''tenant'', ''tenant_id'']) (str_or (stripped_header headers ''x-ai-tenant'')
          (str_or (claim_text claims [''team'']) (stripped_header headers ''x-ai-team'')))))"

subsection \<open>What a router asks\<close>

text \<open>Exceptions as HTTP answers; the detail is the message.\<close>

definition http_auth :: "exn \<Rightarrow> exn" where
  "http_auth e = (case e of AuthenticationError m \<Rightarrow> HttpError 401 m | AuthorizationError m \<Rightarrow> HttpError 403 m | _ \<Rightarrow> e)"

definition map_error :: "(exn \<Rightarrow> exn) \<Rightarrow> 'a result \<Rightarrow> 'a result" where
  "map_error f r = (case r of Inl e \<Rightarrow> Inl (f e) | Inr x \<Rightarrow> Inr x)"

definition require_roles :: "access_env \<Rightarrow> names \<Rightarrow> string list \<Rightarrow> string result" where
  "require_roles ac headers roles = map_error http_auth (require_any_role ac headers roles)"

definition cross_tenant_roles :: "string list" where
  "cross_tenant_roles = [''platform-admin'', ''auditor'']"

definition requested_tenant :: "string option \<Rightarrow> string \<Rightarrow> string option" where
  "requested_tenant query_tenant body_tenant =
     (let t = py_strip (str_or (opt_str query_tenant) body_tenant) in if t = [] then None else Some t)"

definition tenant_for_request ::
  "access_env \<Rightarrow> bool \<Rightarrow> names \<Rightarrow> string option \<Rightarrow> string \<Rightarrow> string option result" where
  "tenant_for_request ac isolation headers query_tenant body_tenant =
     (if \<not> is_jwt_verify_enabled ac then Inr (requested_tenant query_tenant body_tenant)
      else rbind (map_error http_auth (require_bearer_claims ac headers)) (\<lambda>claims.
        rbind (map_error http_auth (resolve_request_tenant ac headers)) (\<lambda>jwt_tenant.
          let roles = roles_from_claims ac claims; requested = requested_tenant query_tenant body_tenant in
          if list_ex (\<lambda>r. r \<in> set cross_tenant_roles) roles
          then Inr (if requested \<noteq> None then requested else if jwt_tenant = [] then None else Some jwt_tenant)
          else if jwt_tenant = [] then
            (if isolation then Inl (HttpError 400 ''tenant required in JWT claims'') else Inr requested)
          else if requested \<noteq> None \<and> requested \<noteq> Some jwt_tenant then Inl (HttpError 403 ''cross-tenant access denied'')
          else Inr (Some jwt_tenant))))"

subsection \<open>Facts\<close>

lemma map_error_Inr [simp]: "map_error f r = Inr x \<longleftrightarrow> r = Inr x"
  by (cases r) (simp_all add: map_error_def)

lemma claims_of_token:
  "presented_token headers = presented_token headers' \<Longrightarrow> require_bearer_claims ac headers = require_bearer_claims ac headers'"
  by (simp add: require_bearer_claims_def)

lemma required_token:
  assumes "require_bearer_claims ac headers = Inr claims" "is_jwt_verify_enabled ac"
  obtains token where "presented_token headers = Some token" "tk_verified ac token = Some claims"
  using assms by (auto simp: require_bearer_claims_def verify_bearer_token_def split: option.splits if_splits)

text \<open>C21: With verification on, a role is granted only to the bearer of a verified token: its signature was checked,
  it names a subject, and one of the required roles is claimed or comes from one of its groups. What the
  other headers say does not matter.\<close>

theorem role_needs_verified_token:
  assumes "require_any_role ac headers required = Inr subject" "is_jwt_verify_enabled ac"
  shows "\<exists>token claims role. presented_token headers = Some token \<and> tk_verified ac token = Some claims \<and>
    subject = claim_text claims [''preferred_username'', ''sub''] \<and> subject \<noteq> [] \<and> role \<in> set required \<and> role \<in> set known_roles \<and>
    (role \<in> set (claim_roles claims) \<or> set (claim_roles claims) \<inter> set (role_groups ac role) \<noteq> {})"
proof -
  obtain claims where c: "require_bearer_claims ac headers = Inr claims" "claim_text claims [''preferred_username'', ''sub''] = subject"
    "subject \<noteq> []" "principal_has_any_role ac claims required"
    using assms by (auto simp: require_any_role_def rbind_Inr Let_def split: if_splits)
  obtain token where t: "presented_token headers = Some token" "tk_verified ac token = Some claims"
    by (rule required_token [OF c(1) assms(2)])
  from c(4) obtain role where "role \<in> set required" "role \<in> set (roles_from_claims ac claims)"
    by (auto simp: principal_has_any_role_def list_ex_iff)
  moreover from this(2) have "role \<in> set known_roles \<and>
      (role \<in> set (claim_roles claims) \<or> set (claim_roles claims) \<inter> set (role_groups ac role) \<noteq> {})"
    by (auto simp: roles_from_claims_def Let_def list_ex_iff)
  ultimately show ?thesis using t c(2,3) by blast
qed

text \<open>When only tokens name tenants, the scope of a caller without a cross-tenant role is the tenant (or team) of
  his verified token, whatever the query, the body and the attribution headers say.\<close>

theorem tenant_locked_to_token:
  assumes "tenant_for_request ac isolation headers query_tenant body_tenant = Inr (Some tenant)"
    "is_jwt_verify_enabled ac" "is_tenant_jwt_only ac"
  shows "\<exists>token claims. presented_token headers = Some token \<and> tk_verified ac token = Some claims \<and>
    (tenant = claim_tenant claims \<or> set (roles_from_claims ac claims) \<inter> {''platform-admin'', ''auditor''} \<noteq> {} \<or>
     claim_tenant claims = [] \<and> \<not> isolation)"
proof -
  obtain claims jwt_tenant where c: "require_bearer_claims ac headers = Inr claims" "resolve_request_tenant ac headers = Inr jwt_tenant"
    and rest: "list_ex (\<lambda>r. r \<in> set cross_tenant_roles) (roles_from_claims ac claims) \<or> jwt_tenant = [] \<and> \<not> isolation \<or> tenant = jwt_tenant"
    using assms(1,2) by (auto simp: tenant_for_request_def rbind_Inr Let_def split: if_splits)
  obtain token where "presented_token headers = Some token" "tk_verified ac token = Some claims"
    by (rule required_token [OF c(1) assms(2)])
  moreover have "jwt_tenant = claim_tenant claims"
    using c assms(2,3) by (simp add: resolve_request_tenant_def jwt_only_claims_def)
  ultimately show ?thesis using rest by (auto simp: list_ex_iff cross_tenant_roles_def)
qed

text \<open>When only tokens name tenants, team and tenant of a workload are a function of its token: neither the body nor
  another header changes them.\<close>

theorem workload_tenant_from_token:
  assumes "resolve_workload_identity ac headers body = Inr i" "resolve_workload_identity ac headers' body' = Inr i'"
    "is_tenant_jwt_only ac" "presented_token headers = presented_token headers'"
  shows "wi_team i = wi_team i' \<and> wi_tenant_id i = wi_tenant_id i' \<and> wi_tenant_id i \<noteq> [] \<and> wi_source i = ''jwt''"
proof -
  have i: "\<exists>claims. jwt_only_claims ac hs = Inr claims \<and> jwt_team_tenant claims = Inr (wi_team j, wi_tenant_id j) \<and>
      wi_source j = identity_source claims hs b"
    if "resolve_workload_identity ac hs b = Inr j" for hs b j
    using that assms(3) by (auto simp: resolve_workload_identity_def rbind_Inr Let_def)
  obtain claims where c: "jwt_only_claims ac headers = Inr claims" "jwt_team_tenant claims = Inr (wi_team i, wi_tenant_id i)"
    "wi_source i = identity_source claims headers body" using i [OF assms(1)] by blast
  obtain claims' where c': "jwt_only_claims ac headers' = Inr claims'" "jwt_team_tenant claims' = Inr (wi_team i', wi_tenant_id i')"
    using i [OF assms(2)] by blast
  have "claims' = claims" using c(1) c'(1) claims_of_token [OF assms(4)] by (simp add: jwt_only_claims_def split: if_splits)
  moreover have "wi_tenant_id i \<noteq> []" using c(2) by (auto simp: jwt_team_tenant_def Let_def split: if_splits)
  moreover have "claims \<noteq> []"
  proof
    assume "claims = []"
    with c(2) show False by (simp add: jwt_team_tenant_def claim_text_def get_none_def get_default_def or_else_def str_or_def
          team_from_groups_def Let_def py_strip_def)
  qed
  ultimately show ?thesis using c c' by (simp add: identity_source_def)
qed

text \<open>Without that switch the header \<open>x-ai-tenant\<close> comes before the team of the token: a verified token that names a
  team and no tenant takes whatever tenant the header gives.\<close>

lemma tenant_header_overrides_team:
  assumes "is_jwt_verify_enabled ac" "\<not> is_tenant_jwt_only ac" "require_bearer_claims ac headers = Inr claims"
    "claim_text claims [''tenant'', ''tenant_id''] = []" "stripped_header headers ''x-ai-tenant'' = other" "other \<noteq> []"
    "\<not> list_ex (\<lambda>r. r \<in> set cross_tenant_roles) (roles_from_claims ac claims)"
  shows "tenant_for_request ac isolation headers None [] = Inr (Some other)"
proof -
  have "extract_bearer_claims ac headers = claims"
    using assms(1,3) by (auto simp: require_bearer_claims_def extract_bearer_claims_def split: option.splits)
  then show ?thesis
    using assms by (simp add: tenant_for_request_def resolve_request_tenant_def requested_tenant_def str_or_def py_strip_def opt_str_def map_error_def)
qed

text \<open>A platform administrator with a verified token.\<close>

definition demo_claims :: pyobj where
  "demo_claims = [(''sub'', PStr ''u1''), (''team'', PStr ''acme''), (''groups'', PList [PStr ''tenant-admins''])]"

definition demo_access :: "string \<Rightarrow> access_env" where
  "demo_access only = \<lparr>ac_env = [(''OIDC_JWT_VERIFY'', ''true''), (''OIDC_JWKS_URL'', ''u''), (''TENANT_JWT_ONLY'', only)],
     tk_verified = (\<lambda>t. if t = ''tok'' then Some demo_claims else None), tk_unsigned = (\<lambda>_. None)\<rparr>"

definition demo_headers :: names where
  "demo_headers = [(''authorization'', ''Bearer tok''), (''x-ai-tenant'', ''other'')]"

theorem role_needs_verified_token_witness:
  "\<exists>role. role \<in> set [''tenant-admin'', ''platform-admin''] \<and> role \<in> set known_roles \<and>
     set (claim_roles demo_claims) \<inter> set (role_groups (demo_access ''true'') role) \<noteq> {}"
proof -
  have "require_any_role (demo_access ''true'') demo_headers [''tenant-admin'', ''platform-admin''] = Inr ''u1''"
    "is_jwt_verify_enabled (demo_access ''true'')" "claim_roles demo_claims = [''tenant-admins'']"
    "presented_token demo_headers = Some ''tok''" "tk_verified (demo_access ''true'') ''tok'' = Some demo_claims"
    by code_simp+
  from role_needs_verified_token [OF this(1,2)] this(3-5) show ?thesis by (auto simp: known_roles_def)
qed

theorem tenant_locked_to_token_witness:
  "tenant_for_request (demo_access ''true'') True demo_headers None [] = Inr (Some (claim_tenant demo_claims))"
proof -
  have t: "tenant_for_request (demo_access ''true'') True demo_headers None [] = Inr (Some ''acme'')"
    and e: "is_jwt_verify_enabled (demo_access ''true'')" "is_tenant_jwt_only (demo_access ''true'')"
    and c: "presented_token demo_headers = Some ''tok''" "tk_verified (demo_access ''true'') ''tok'' = Some demo_claims"
      "roles_from_claims (demo_access ''true'') demo_claims = [''tenant-admin'']"
    by code_simp+
  from tenant_locked_to_token [OF t e] c t show ?thesis by auto
qed

theorem workload_tenant_from_token_witness:
  "\<exists>i i'. resolve_workload_identity (demo_access ''true'') demo_headers default_request = Inr i \<and>
     resolve_workload_identity (demo_access ''true'') [(''authorization'', ''Bearer tok'')] (default_request\<lparr>q_tenant_id := ''evil''\<rparr>) = Inr i' \<and>
     wi_tenant_id i = wi_tenant_id i'"
proof -
  have c: "jwt_only_claims (demo_access ''true'') demo_headers = Inr demo_claims"
      "jwt_only_claims (demo_access ''true'') [(''authorization'', ''Bearer tok'')] = Inr demo_claims"
      "jwt_team_tenant demo_claims = Inr (''acme'', ''acme'')"
    and e: "is_tenant_jwt_only (demo_access ''true'')" "presented_token demo_headers = presented_token [(''authorization'', ''Bearer tok'')]"
    by code_simp+
  obtain i i' where i: "resolve_workload_identity (demo_access ''true'') demo_headers default_request = Inr i"
    "resolve_workload_identity (demo_access ''true'') [(''authorization'', ''Bearer tok'')] (default_request\<lparr>q_tenant_id := ''evil''\<rparr>) = Inr i'"
    by (simp add: resolve_workload_identity_def c e(1) Let_def)
  from workload_tenant_from_token [OF i e] i show ?thesis by blast
qed

end
