(* ===== verification/Py_Float.thy ===== *)
theory Py_Float
  imports Py_Value
begin

text \<open>
  Rounding to binary64 is monotone: the exponent of the last place puts a significand between
  \<open>2 ^ 52\<close> and \<open>2 ^ 53\<close>, and grows with the number. Sums, and products with a factor that is not
  negative, are monotone therefore too.
\<close>

subsection \<open>Powers of two\<close>

lemma pow2_add: "pow2 (a + b) = pow2 a * pow2 b"
proof -
  have nat_case: "pow2 (int m - int n) = 2 ^ m / 2 ^ n" for m n
    by (cases "n \<le> m") (auto simp: pow2_def power_diff nat_diff_distrib' divide_simps simp flip: of_nat_diff power_add)
  obtain m n where a: "a = int m - int n" using int_diff_cases by blast
  obtain m' n' where b: "b = int m' - int n'" using int_diff_cases by blast
  have "a + b = int (m + m') - int (n + n')" using a b by simp
  then show ?thesis by (simp only: nat_case a b) (simp add: power_add)
qed

lemma pow2_nonneg [simp]: "0 \<le> pow2 e" and pow2_neq_0 [simp]: "pow2 e \<noteq> 0"
  using pow2_pos [of e] by linarith+

lemma pow2_diff: "pow2 (a - b) = pow2 a / pow2 b"
  using pow2_add [of "a - b" b] pow2_pos [of b] by (simp add: field_simps)

lemma pow2_nat [simp]: "pow2 (int n) = 2 ^ n"
  by (simp add: pow2_def)

lemma pow2_mono: "a \<le> b \<Longrightarrow> pow2 a \<le> pow2 b"
proof -
  assume "a \<le> b"
  then obtain k where "b - a = int k" using zero_le_imp_eq_int [of "b - a"] by auto
  moreover have "pow2 b = pow2 a * pow2 (b - a)" using pow2_add [of a "b - a"] by simp
  ultimately show ?thesis using pow2_pos [of a] by simp
qed

lemma pow2_less_cancel: "pow2 a < pow2 b \<Longrightarrow> a < b"
  using pow2_mono [of b a] by linarith

subsection \<open>The exponent of the last place\<close>

lemma bit_length_le: "0 < n \<Longrightarrow> 2 ^ bit_length n \<le> 2 * n"
proof (induction n rule: bit_length.induct)
  case (1 n)
  show ?case
  proof (cases "n div 2 = 0")
    case True
    with "1.prems" have "n = 1" by auto
    then show ?thesis by simp
  next
    case False
    with 1 have "2 ^ bit_length (n div 2) \<le> 2 * (n div 2)" by simp
    with "1.prems" show ?thesis by (simp add: bit_length.simps [of n])
  qed
qed

lemma bit_length_gt: "n < 2 ^ bit_length n"
proof (induction n rule: bit_length.induct)
  case (1 n)
  then show ?case
    by (cases "n = 0") (simp, subst bit_length.simps, simp)
qed

text \<open>The exponent of a number that is not too small: its significand has exactly 53 bits.\<close>

definition raw_exponent :: "rat \<Rightarrow> int" where
  "raw_exponent q = (let (n, d) = quotient_of \<bar>q\<bar>;
     e = int (bit_length (nat n)) - int (bit_length (nat d)) - 53
   in if 2 ^ 53 \<le> \<bar>q\<bar> / pow2 e then e + 1 else e)"

lemma ulp_exponent_raw: "ulp_exponent q = max (raw_exponent q) (- 1074)"
  by (simp add: ulp_exponent_def raw_exponent_def Let_def split: prod.split)

lemma raw_exponent_bounds:
  assumes "0 < q" shows "pow2 (raw_exponent q + 52) \<le> q \<and> q < pow2 (raw_exponent q + 53)"
proof -
  obtain n d where nd: "quotient_of q = (n, d)" by (cases "quotient_of q")
  have d: "0 < d" and q: "q = of_int n / of_int d"
    using quotient_of_denom_pos [OF nd] quotient_of_div [OF nd] by auto
  have n: "0 < n" using assms d q by (simp add: zero_less_divide_iff)
  define a where "a = int (bit_length (nat n))"
  define b where "b = int (bit_length (nat d))"
  have bounds: "pow2 (int (bit_length (nat k))) \<le> 2 * of_int k \<and> of_int k < pow2 (int (bit_length (nat k)))"
    if "0 < k" for k :: int
  proof -
    have "int (2 ^ bit_length (nat k)) \<le> int (2 * nat k)" "int (nat k) < int (2 ^ bit_length (nat k))"
      using bit_length_le [of "nat k"] bit_length_gt [of "nat k"] that by (simp_all only: of_nat_le_iff of_nat_less_iff zero_less_nat_eq)
    then have "(2::int) ^ bit_length (nat k) \<le> 2 * k" "k < 2 ^ bit_length (nat k)" using that by simp_all
    then have "(of_int (2 ^ bit_length (nat k)) :: rat) \<le> of_int (2 * k)"
      "(of_int k :: rat) < of_int (2 ^ bit_length (nat k))" by (simp_all only: of_int_le_iff of_int_less_iff)
    then show ?thesis by simp
  qed
  have A: "pow2 a \<le> 2 * of_int n" "of_int n < pow2 a" using bounds [OF n] by (simp_all add: a_def)
  have B: "pow2 b \<le> 2 * of_int d" "of_int d < pow2 b" using bounds [OF d] by (simp_all add: b_def)
  have two: "pow2 1 = 2" using pow2_nat [of 1] by simp
  have d': "(0::rat) < of_int d" using d by simp
  have lo: "pow2 (a - b - 1) \<le> q"
  proof -
    have "pow2 a * of_int d \<le> (2 * of_int n) * pow2 b"
      using A B d' n pow2_pos [of a] by (intro mult_mono) auto
    then show ?thesis using d' pow2_pos [of b]
      by (simp add: q pow2_diff pow2_add two field_simps)
  qed
  have hi: "q < pow2 (a - b + 1)"
  proof -
    have "of_int n * pow2 b < pow2 a * (2 * of_int d)"
      using A B d' n pow2_pos [of b] by (intro mult_less_le_imp_less) auto
    then show ?thesis using d' pow2_pos [of b]
      by (simp add: q pow2_diff pow2_add two field_simps)
  qed
  define e where "e = a - b - 53"
  have raw: "raw_exponent q = (if 2 ^ 53 \<le> q / pow2 e then e + 1 else e)"
    using assms nd by (simp add: raw_exponent_def e_def a_def b_def)
  have p53: "pow2 53 = 2 ^ 53" using pow2_nat [of 53] by simp
  have cmp: "2 ^ 53 \<le> q / pow2 e \<longleftrightarrow> pow2 (e + 53) \<le> q"
    using pow2_pos [of e] by (simp add: pow2_add p53 field_simps)
  show ?thesis
  proof (cases "pow2 (e + 53) \<le> q")
    case True
    moreover have "a - b + 1 = e + 1 + 53" by (simp add: e_def)
    ultimately show ?thesis using raw cmp hi by (simp add: algebra_simps)
  next
    case False
    moreover have "a - b - 1 = e + 52" by (simp add: e_def)
    ultimately show ?thesis using raw cmp lo by (simp add: algebra_simps)
  qed
qed

lemma raw_exponent_mono:
  assumes "0 < p" "p \<le> q" shows "raw_exponent p \<le> raw_exponent q"
proof -
  have "pow2 (raw_exponent p + 52) \<le> p" using raw_exponent_bounds [OF assms(1)] by simp
  also have "p \<le> q" by fact
  also have "q < pow2 (raw_exponent q + 53)" using raw_exponent_bounds [of q] assms by simp
  finally have "raw_exponent p + 52 < raw_exponent q + 53" by (rule pow2_less_cancel)
  then show ?thesis by simp
qed

subsection \<open>Rounding\<close>

lemma round_even_ge: "of_int k \<le> q \<Longrightarrow> k \<le> round_even q"
  using round_even_mono [of "of_int k" q] by simp

lemma round_even_le: "q \<le> of_int k \<Longrightarrow> round_even q \<le> k"
  using round_even_mono [of q "of_int k"] by simp

lemma fl_upper: "0 < q \<Longrightarrow> fl q \<le> pow2 (ulp_exponent q + 53)"
proof -
  assume q: "0 < q"
  let ?E = "ulp_exponent q"
  have "q < pow2 (raw_exponent q + 53)" using raw_exponent_bounds [OF q] by simp
  also have "\<dots> \<le> pow2 (?E + 53)" by (rule pow2_mono) (simp add: ulp_exponent_raw)
  finally have "q / pow2 ?E \<le> pow2 53" using pow2_pos [of ?E] by (simp add: pow2_add field_simps)
  then have "q / pow2 ?E \<le> of_int (2 ^ 53)" using pow2_nat [of 53] by simp
  then have "round_even (q / pow2 ?E) \<le> 2 ^ 53" by (rule round_even_le)
  then have "(of_int (round_even (q / pow2 ?E)) :: rat) \<le> of_int (2 ^ 53)" by (simp only: of_int_le_iff)
  then have "of_int (round_even (q / pow2 ?E)) * pow2 ?E \<le> 2 ^ 53 * pow2 ?E"
    using pow2_pos [of ?E] by (intro mult_right_mono) auto
  then show ?thesis using q pow2_nat [of 53] by (simp add: fl_def pow2_add mult.commute)
qed

lemma fl_lower:
  assumes "0 < q" "- 1074 < ulp_exponent q" shows "pow2 (ulp_exponent q + 52) \<le> fl q"
proof -
  let ?E = "ulp_exponent q"
  have "raw_exponent q = ?E" using assms(2) by (simp add: ulp_exponent_raw)
  then have "pow2 (?E + 52) \<le> q" using raw_exponent_bounds [OF assms(1)] by simp
  then have "pow2 52 \<le> q / pow2 ?E" using pow2_pos [of ?E] by (simp add: pow2_add field_simps)
  then have "of_int (2 ^ 52) \<le> q / pow2 ?E" using pow2_nat [of 52] by simp
  then have "2 ^ 52 \<le> round_even (q / pow2 ?E)" by (rule round_even_ge)
  then have "(of_int (2 ^ 52) :: rat) \<le> of_int (round_even (q / pow2 ?E))" by (simp only: of_int_le_iff)
  then have "2 ^ 52 * pow2 ?E \<le> of_int (round_even (q / pow2 ?E)) * pow2 ?E"
    using pow2_pos [of ?E] by (intro mult_right_mono) auto
  then show ?thesis using assms(1) pow2_nat [of 52] by (simp add: fl_def pow2_add mult.commute)
qed

lemma fl_nonneg: "0 \<le> q \<Longrightarrow> 0 \<le> fl q"
  using round_even_ge [of 0 "q / pow2 (ulp_exponent q)"] pow2_pos [of "ulp_exponent q"]
  by (simp add: fl_def)

lemma fl_mono_pos:
  assumes "0 < p" "p \<le> q" shows "fl p \<le> fl q"
proof (cases "ulp_exponent p = ulp_exponent q")
  case True
  let ?E = "ulp_exponent q"
  have "p / pow2 ?E \<le> q / pow2 ?E" using assms(2) by (rule divide_right_mono) simp
  then have "(of_int (round_even (p / pow2 ?E)) :: rat) \<le> of_int (round_even (q / pow2 ?E))"
    using round_even_mono by simp
  then show ?thesis using True assms pow2_pos [of ?E] by (simp add: fl_def mult_right_mono)
next
  case False
  with raw_exponent_mono [OF assms] have less: "ulp_exponent p < ulp_exponent q" by (auto simp: ulp_exponent_raw max_def split: if_splits)
  then have big: "- 1074 < ulp_exponent q" by (simp add: ulp_exponent_raw)
  have "fl p \<le> pow2 (ulp_exponent p + 53)" using assms by (simp add: fl_upper)
  also have "\<dots> \<le> pow2 (ulp_exponent q + 52)" using less by (intro pow2_mono) simp
  also have "\<dots> \<le> fl q" using assms big by (intro fl_lower) auto
  finally show ?thesis .
qed

lemma round_even_minus: "round_even (- q) = - round_even q"
proof (cases "q = of_int \<lfloor>q\<rfloor>")
  case True
  then obtain k where "q = of_int k" by blast
  then show ?thesis using round_even_of_int [of "- k"] by simp
next
  case False
  define f where "f = \<lfloor>q\<rfloor>"
  have "of_int f < q" "q < of_int f + 1" using False f_def by linarith+
  then have m: "\<lfloor>- q\<rfloor> = - f - 1" by (simp add: floor_eq_iff)
  show ?thesis by (auto simp: round_even_def m Let_def simp flip: f_def)
qed

lemma fl_minus: "fl (- q) = - fl q"
  by (simp add: fl_def ulp_exponent_def round_even_minus)

theorem fl_mono:
  assumes "p \<le> q" shows "fl p \<le> fl q"
proof (cases "0 < p")
  case True
  then show ?thesis using assms by (rule fl_mono_pos)
next
  case np: False
  show ?thesis
  proof (cases "0 \<le> q")
    case True
    have "0 \<le> fl (- p)" using np by (intro fl_nonneg) simp
    then show ?thesis using fl_nonneg [OF True] by (simp add: fl_minus)
  next
    case False
    then have "fl (- q) \<le> fl (- p)" using assms by (intro fl_mono_pos) auto
    then show ?thesis by (simp add: fl_minus)
  qed
qed

lemma fadd_mono: "a \<le> a' \<Longrightarrow> b \<le> b' \<Longrightarrow> fadd a b \<le> fadd a' b'"
  unfolding fadd_def by (rule fl_mono) simp

lemma fmul_mono: "0 \<le> a \<Longrightarrow> b \<le> b' \<Longrightarrow> fmul a b \<le> fmul a b'"
  unfolding fmul_def by (rule fl_mono) (rule mult_left_mono)

lemma int_of_float_mono: "a \<le> b \<Longrightarrow> int_of_float a \<le> int_of_float b"
proof -
  assume "a \<le> b"
  moreover have "0 \<le> \<lfloor>- a\<rfloor>" if "a < 0" using that by simp
  moreover have "0 \<le> \<lfloor>b\<rfloor>" if "\<not> b < 0" using that by simp
  moreover have "- \<lfloor>- a\<rfloor> \<le> \<lfloor>b\<rfloor>" if "a < 0" "\<not> b < 0" using that calculation by linarith
  ultimately show ?thesis by (auto simp: int_of_float_def intro: floor_mono)
qed

text \<open>Rounding is idempotent: a float is its own nearest float.\<close>

lemma fl_fl_pos:
  assumes "0 < q" shows "fl (fl q) = fl q"
proof (cases "fl q = 0")
  case False
  define e where "e = ulp_exponent q"
  define u where "u = ulp_exponent (fl q)"
  have pos: "0 < fl q" using False fl_nonneg [of q] assms by simp
  have val: "fl q = of_int (round_even (q / pow2 e)) * pow2 e" using assms by (simp add: fl_def e_def)
  have upper: "fl q \<le> pow2 (e + 53)" using fl_upper [OF assms] by (simp add: e_def)
  have u: "u = max (raw_exponent (fl q)) (- 1074)" and e: "- 1074 \<le> e" by (simp_all add: u_def e_def ulp_exponent_raw)
  show ?thesis
  proof (cases "u \<le> e")
    case True
    then have "pow2 (e - u) = of_int (2 ^ nat (e - u))" by (simp add: pow2_def)
    then have "fl q / pow2 u = of_int (round_even (q / pow2 e) * 2 ^ nat (e - u))"
      unfolding val by (simp add: pow2_diff field_simps)
    then show ?thesis unfolding u_def by (rule fl_exact)
  next
    case False
    then have "pow2 (u + 52) \<le> fl q" using u e raw_exponent_bounds [OF pos] by (simp add: max_def split: if_splits)
    with upper have le: "pow2 (u + 52) \<le> pow2 (e + 53)" by simp
    have "u = e + 1"
    proof (rule ccontr)
      assume "u \<noteq> e + 1"
      with False have "pow2 (e + 54) \<le> pow2 (u + 52)" by (intro pow2_mono) simp
      moreover have "pow2 (e + 54) = 2 * pow2 (e + 53)" using pow2_add [of "e + 53" 1] by (simp add: pow2_def add.assoc)
      ultimately show False using le pow2_pos [of "e + 53"] by simp
    qed
    then have "u + 52 = e + 53" by simp
    with upper \<open>pow2 (u + 52) \<le> fl q\<close> have "fl q = pow2 (u + 52)" by (simp only: order.antisym)
    then have "fl q / pow2 u = of_int (2 ^ 52)" using pow2_nat [of 52] by (simp add: pow2_add)
    then show ?thesis unfolding u_def by (rule fl_exact)
  qed
qed simp

lemma fl_fl: "fl (fl q) = fl q"
proof (cases q "0::rat" rule: linorder_cases)
  case less
  then have "fl (fl (- q)) = fl (- q)" by (intro fl_fl_pos) simp
  then show ?thesis by (simp add: fl_minus)
qed (simp_all add: fl_fl_pos)

end
