(* ===== verification/Server_Signals.thy ===== *)
theory Server_Signals
  imports Access Py_Float
begin

text \<open>
  The signals the server derives itself, \<open>server_signals.py\<close>: who may send his own figures, the readers of the
  price list and of the data classification, the cost of a request and its sensitivity. The two files are given by
  their text, \<open>None\<close> when there is no file; \<open>lru_cache\<close> keeps what was read.
\<close>

subsection \<open>Who may send his own signals\<close>

definition claimed_texts :: "pyval \<Rightarrow> string list" where
  "claimed_texts v = (case v of PList xs \<Rightarrow> map py_str xs | PStr s \<Rightarrow> csv_parts s | _ \<Rightarrow> [])"

definition allow_client_governance_signals :: "access_env \<Rightarrow> names \<Rightarrow> bool" where
  "allow_client_governance_signals ac headers \<longleftrightarrow>
     py_lower (py_strip (getenv ac ''GOVERNANCE_ALLOW_CLIENT_SIGNALS'')) \<in> {''1'', ''true'', ''yes'', ''on''} \<or>
     \<not> is_jwt_verify_enabled ac \<or>
     (let claims = extract_bearer_claims ac headers in
      claims \<noteq> [] \<and>
      (list_ex (\<lambda>r. r \<in> {''governance-simulate'', ''platform-admin''}) (roles_from_claims ac claims) \<or>
       list_ex (\<lambda>g. g \<in> {''governance-simulate'', ''governance:simulate''})
         (claimed_texts (get_none claims ''groups'') @ claimed_texts (get_none claims ''roles''))))"

subsection \<open>The files\<close>

definition strip_char :: "char \<Rightarrow> string \<Rightarrow> string" where
  "strip_char c s = rev (dropWhile (\<lambda>x. x = c) (rev (dropWhile (\<lambda>x. x = c) s)))"

definition signal_scalar :: "string \<Rightarrow> pyval" where
  "signal_scalar value =
     (let s = strip_char (CHR 0x27) (strip_char (CHR 0x22) (py_strip value)); lowered = py_lower s in
      if s = [] then PStr []
      else if lowered \<in> {''true'', ''yes'', ''on''} then PBool True
      else if lowered \<in> {''false'', ''no'', ''off''} then PBool False
      else number_or_text s)"

record pricing =
  pr_currency :: "pyval option"
  pr_default :: pyobj
  pr_models :: table

record pricing_reader =
  pg_section :: "string option"
  pg_model :: "string option"
  pg_result :: pricing

definition pricing_step :: "config_line \<Rightarrow> pricing_reader \<Rightarrow> pricing_reader" where
  "pricing_step l s =
     (let (k, _, value) = partition_char (CHR '':'') (l_text l); key = py_strip k; p = pg_result s in
      if l_indent l = 0
      then (if key = ''currency'' \<and> py_strip value \<noteq> []
            then s\<lparr>pg_section := None, pg_result := p\<lparr>pr_currency := Some (signal_scalar value)\<rparr>\<rparr>
            else if key \<in> {''default'', ''models''} \<and> py_strip value = [] then s\<lparr>pg_section := Some key, pg_model := None\<rparr>
            else s\<lparr>pg_section := None\<rparr>)
      else if pg_section s = Some ''default'' \<and> l_indent l = 2
      then s\<lparr>pg_result := p\<lparr>pr_default := dict_set key (signal_scalar value) (pr_default p)\<rparr>\<rparr>
      else if pg_section s = Some ''models'' \<and> l_indent l = 2 \<and> ends_with (l_text l) '':''
      then (let name = butlast (l_text l) in
            s\<lparr>pg_model := Some name, pg_result := p\<lparr>pr_models := dict_set name [] (pr_models p)\<rparr>\<rparr>)
      else (case pg_model s of
          Some name \<Rightarrow> if pg_section s = Some ''models'' \<and> l_indent l = 4
            then s\<lparr>pg_result := p\<lparr>pr_models := set_in name key (signal_scalar value) (pr_models p)\<rparr>\<rparr> else s
        | None \<Rightarrow> s))"

definition parse_pricing_file :: "string \<Rightarrow> pricing" where
  "parse_pricing_file text = pg_result (fold pricing_step (config_lines text)
     \<lparr>pg_section = None, pg_model = None, pg_result = \<lparr>pr_currency = None, pr_default = [], pr_models = []\<rparr>\<rparr>)"

definition load_pricing_config :: "string option \<Rightarrow> pricing" where
  "load_pricing_config file =
     (case file of
        None \<Rightarrow> \<lparr>pr_currency = None, pr_default = [(''input_usd_per_1k_tokens'', PFloat (fl (1 / 1000))),
            (''output_usd_per_1k_tokens'', PFloat (fl (2 / 1000))), (''cost_per_hour_usd'', PFloat (1 / 2))], pr_models = []\<rparr>
      | Some t \<Rightarrow> parse_pricing_file t)"

record classification =
  cl_tenants :: table
  cl_namespaces :: table
  cl_labels :: "string list"

record classification_reader =
  cg_section :: string
  cg_name :: "string option"
  cg_list :: string
  cg_result :: classification

definition in_section :: "string \<Rightarrow> (table \<Rightarrow> table) \<Rightarrow> classification \<Rightarrow> classification" where
  "in_section section f c = (if section = ''tenants'' then c\<lparr>cl_tenants := f (cl_tenants c)\<rparr> else c\<lparr>cl_namespaces := f (cl_namespaces c)\<rparr>)"

text \<open>The list under \<open>cg_list\<close> is one the reader has put there: no other value is appended to.\<close>

definition append_value :: "string \<Rightarrow> string \<Rightarrow> string \<Rightarrow> table \<Rightarrow> table" where
  "append_value name key x t =
     (case get_default (get_default t name []) key (PList []) of
        PList xs \<Rightarrow> set_in name key (PList (xs @ [PStr x])) t | _ \<Rightarrow> t)"

definition classification_step :: "config_line \<Rightarrow> classification_reader \<Rightarrow> classification_reader" where
  "classification_step l s =
     (let line = l_text l; c = cg_result s; tabled = cg_section s \<in> {''tenants'', ''namespaces''} in
      if l_indent l = 0 \<and> ends_with line '':'' then s\<lparr>cg_section := butlast line, cg_name := None, cg_list := []\<rparr>
      else if cg_section s = ''sensitive_classifications'' \<and> starts_with line ''- ''
      then s\<lparr>cg_result := c\<lparr>cl_labels := cl_labels c @ [py_strip (drop 2 line)]\<rparr>\<rparr>
      else if tabled \<and> l_indent l = 2 \<and> ends_with line '':''
      then s\<lparr>cg_name := Some (butlast line), cg_list := [], cg_result := in_section (cg_section s) (dict_set (butlast line) []) c\<rparr>
      else (case cg_name s of
          Some name \<Rightarrow>
            if \<not> (tabled \<and> l_indent l = 4) then s
            else if starts_with line ''- '' \<and> cg_list s \<noteq> []
            then s\<lparr>cg_result := in_section (cg_section s) (append_value name (cg_list s) (py_strip (drop 2 line))) c\<rparr>
            else (let (k, _, value) = partition_char (CHR '':'') line; key = py_strip k in
              if py_strip value = []
              then s\<lparr>cg_list := key, cg_result := in_section (cg_section s) (set_in name key (PList [])) c\<rparr>
              else s\<lparr>cg_list := [], cg_result := in_section (cg_section s) (set_in name key (signal_scalar value)) c\<rparr>)
        | None \<Rightarrow> s))"

definition parse_classification_file :: "string \<Rightarrow> classification" where
  "parse_classification_file text = cg_result (fold classification_step (config_lines text)
     \<lparr>cg_section = [], cg_name = None, cg_list = [], cg_result = \<lparr>cl_tenants = [], cl_namespaces = [], cl_labels = []\<rparr>\<rparr>)"

definition load_classification_config :: "string option \<Rightarrow> classification" where
  "load_classification_config file =
     (case file of
        None \<Rightarrow> \<lparr>cl_tenants = [], cl_namespaces = [], cl_labels = [''pii'', ''confidential'', ''restricted'', ''sensitive'']\<rparr>
      | Some t \<Rightarrow> parse_classification_file t)"

subsection \<open>The cost of a request\<close>

text \<open>\<open>round(x, n)\<close>: the nearest decimal with \<open>n\<close> digits, then the nearest float.\<close>

definition py_round :: "nat \<Rightarrow> rat \<Rightarrow> rat" where
  "py_round n q = fl (of_int (round_even (q * 10 ^ n)) / 10 ^ n)"

definition rates_of :: "pricing \<Rightarrow> string \<Rightarrow> pyobj" where
  "rates_of p model = fold (\<lambda>(k, v). dict_set k v) (get_default (pr_models p) model []) (pr_default p)"

definition rate :: "pyobj \<Rightarrow> string \<Rightarrow> rat result" where
  "rate rates key = py_float (or_else (get_none rates key) (PFloat 0))"

record request_cost =
  rc_per_request :: rat
  rc_per_hour :: rat
  rc_month :: rat
  rc_forecast :: rat

definition tokens_cost :: "int \<Rightarrow> rat \<Rightarrow> rat" where
  "tokens_cost n r = fmul (fdiv (float_of_int (max n 0)) 1000) r"

definition derive_request_cost :: "pricing \<Rightarrow> string \<Rightarrow> int \<Rightarrow> int \<Rightarrow> rat option \<Rightarrow> request_cost result" where
  "derive_request_cost p model input_tokens output_tokens month_to_date =
     rbind (rate (rates_of p model) ''input_usd_per_1k_tokens'') (\<lambda>input_rate.
     rbind (rate (rates_of p model) ''output_usd_per_1k_tokens'') (\<lambda>output_rate.
     rbind (rate (rates_of p model) ''cost_per_hour_usd'') (\<lambda>hour.
       let month = (case month_to_date of None \<Rightarrow> 0 | Some m \<Rightarrow> m) in
       Inr \<lparr>rc_per_request = py_round 8 (fadd (tokens_cost input_tokens input_rate) (tokens_cost output_tokens output_rate)),
         rc_per_hour = hour, rc_month = month,
         rc_forecast = py_round 4 (max (fmul month (5 / 4)) (fmul (fmul (fmul hour 24) 30) (fl (1 / 10))))\<rparr>)))"

subsection \<open>Sensitivity\<close>

definition flag :: "pyobj option \<Rightarrow> string \<Rightarrow> bool" where
  "flag cfg key = (case cfg of None \<Rightarrow> False | Some d \<Rightarrow> truthy (get_default d key (PBool False)))"

definition sensitive_labels :: "classification \<Rightarrow> string list" where
  "sensitive_labels c = map (py_lower \<circ> py_strip) (cl_labels c)"

definition classification_header :: "names \<Rightarrow> string" where
  "classification_header headers =
     py_lower (py_strip (str_or (header headers ''x-ai-data-classification'') (header headers ''x-ai-classification'')))"

definition writer_claims :: "pyobj \<Rightarrow> bool" where
  "writer_claims claims \<longleftrightarrow>
     list_ex (\<lambda>g. g \<in> {''ai-writers'', ''writers'', ''deployers'', ''ai-deployers''})
       (normalize_groups (get_none claims ''groups'') @ normalize_groups (get_none claims ''roles'')) \<or>
     py_lower (claim_text claims [''write_permission'']) \<in> {''1'', ''true'', ''yes'', ''on''}"

definition derive_sensitivity :: "access_env \<Rightarrow> classification \<Rightarrow> string \<Rightarrow> string \<Rightarrow> names \<Rightarrow> bool \<times> bool" where
  "derive_sensitivity ac c team namespace headers =
     (let tenant = map_of (cl_tenants c) team; ns = map_of (cl_namespaces c) namespace; labels = sensitive_labels c;
          claimed = classification_header headers; claims = extract_bearer_claims ac headers in
      (flag tenant ''default_sensitive'' \<or> flag ns ''sensitive'' \<or> claimed \<noteq> [] \<and> claimed \<in> set labels \<or>
         claims \<noteq> [] \<and> py_lower (claim_text claims [''data_classification'', ''classification'']) \<in> set labels,
       flag tenant ''write_allowed'' \<or> claims \<noteq> [] \<and> writer_claims claims))"

subsection \<open>What the client cannot do\<close>

lemma py_round_mono: "p \<le> q \<Longrightarrow> py_round n p \<le> py_round n q"
  unfolding py_round_def by (intro fl_mono divide_right_mono) (simp_all add: round_even_mono)

lemma tokens_cost_mono:
  assumes "m \<le> n" "0 \<le> r"
  shows "tokens_cost m r \<le> tokens_cost n r"
proof -
  have "(of_int (max m 0) :: rat) \<le> of_int (max n 0)" by (intro of_int_le_iff [THEN iffD2] max.mono assms(1) order.refl)
  then have "fdiv (float_of_int (max m 0)) 1000 \<le> fdiv (float_of_int (max n 0)) 1000"
    unfolding fdiv_def float_of_int_def by (intro fl_mono divide_right_mono) simp_all
  then show ?thesis unfolding tokens_cost_def fmul_def by (intro fl_mono mult_right_mono assms(2))
qed

text \<open>The cost the server derives grows with what is asked for: with prices that are not negative, more tokens or
  more spending in the month never make a request cheaper, through all roundings.\<close>

theorem derived_cost_monotone:
  assumes "derive_request_cost p model i k m = Inr c" "derive_request_cost p model i' k' m' = Inr c'"
    "i \<le> i'" "k \<le> k'" "m = None \<or> (\<exists>x y. m = Some x \<and> m' = Some y \<and> x \<le> y)" "\<forall>y. m' = Some y \<longrightarrow> 0 \<le> y"
    "\<forall>key r. rate (rates_of p model) key = Inr r \<longrightarrow> 0 \<le> r"
  shows "rc_per_request c \<le> rc_per_request c' \<and> rc_per_hour c = rc_per_hour c' \<and> rc_month c \<le> rc_month c' \<and>
    rc_forecast c \<le> rc_forecast c'"
proof -
  obtain a b h where r: "rate (rates_of p model) ''input_usd_per_1k_tokens'' = Inr a"
    "rate (rates_of p model) ''output_usd_per_1k_tokens'' = Inr b" "rate (rates_of p model) ''cost_per_hour_usd'' = Inr h"
    using assms(1) by (auto simp: derive_request_cost_def rbind_Inr)
  then have nonneg: "0 \<le> a" "0 \<le> b" using assms(7) by blast+
  let ?m = "case m of None \<Rightarrow> 0 | Some x \<Rightarrow> x" and ?m' = "case m' of None \<Rightarrow> 0 | Some x \<Rightarrow> x"
  have month: "?m \<le> ?m'" using assms(5,6) by (auto split: option.split)
  then have "fmul ?m (5 / 4) \<le> fmul ?m' (5 / 4)" unfolding fmul_def by (intro fl_mono mult_right_mono) simp_all
  then have forecast: "py_round 4 (max (fmul ?m (5 / 4)) x) \<le> py_round 4 (max (fmul ?m' (5 / 4)) x)" for x
    by (intro py_round_mono) auto
  have "py_round 8 (fadd (tokens_cost i a) (tokens_cost k b)) \<le> py_round 8 (fadd (tokens_cost i' a) (tokens_cost k' b))"
    by (intro py_round_mono fadd_mono tokens_cost_mono assms(3,4) nonneg)
  with assms(1,2) r month forecast show ?thesis by (auto simp: derive_request_cost_def Let_def)
qed

text \<open>Sensitivity is the server's. A tenant or namespace classified as sensitive stays so whatever headers and
  tokens come with the request; permission to write comes from the tenant's entry or from the claims of a verified
  token, never from a header.\<close>

theorem sensitivity_not_lowered:
  assumes "derive_sensitivity ac c team namespace headers = (sensitive, writes)"
  shows "(flag (map_of (cl_tenants c) team) ''default_sensitive'' \<or> flag (map_of (cl_namespaces c) namespace) ''sensitive'' \<longrightarrow> sensitive) \<and>
    (writes \<and> is_jwt_verify_enabled ac \<longrightarrow> flag (map_of (cl_tenants c) team) ''write_allowed'' \<or>
      (\<exists>token claims. presented_token headers = Some token \<and> tk_verified ac token = Some claims \<and> writer_claims claims))"
proof -
  have "\<exists>token. presented_token headers = Some token \<and> tk_verified ac token = Some (extract_bearer_claims ac headers)"
    if "extract_bearer_claims ac headers \<noteq> []" "is_jwt_verify_enabled ac"
    using that by (auto simp: extract_bearer_claims_def verify_bearer_token_def split: option.splits if_splits)
  then show ?thesis using assms by (auto simp: derive_sensitivity_def Let_def)
qed

subsection \<open>Examples\<close>

definition demo_pricing :: pricing where
  "demo_pricing = \<lparr>pr_currency = None, pr_default = [(''input_usd_per_1k_tokens'', PFloat 1), (''output_usd_per_1k_tokens'', PFloat 2),
     (''cost_per_hour_usd'', PFloat 1)], pr_models = []\<rparr>"

definition demo_classification :: classification where
  "demo_classification = \<lparr>cl_tenants = [(''finance'', [(''default_sensitive'', PBool True)])], cl_namespaces = [], cl_labels = [''pii'']\<rparr>"

lemma demo_rate: "rate (rates_of demo_pricing model) key = Inr r \<Longrightarrow> 0 \<le> r"
  by (auto simp: rate_def rates_of_def demo_pricing_def get_none_def get_default_def or_else_def split: if_splits)

theorem derived_cost_monotone_witness:
  "\<exists>c c'. derive_request_cost demo_pricing ''m'' 1000 0 None = Inr c \<and> derive_request_cost demo_pricing ''m'' 2000 500 (Some 3) = Inr c' \<and>
     rc_per_request c \<le> rc_per_request c' \<and> rc_forecast c \<le> rc_forecast c'"
proof -
  have "\<exists>c. derive_request_cost demo_pricing ''m'' i k m = Inr c" for i k m
    by (simp add: derive_request_cost_def rate_def rates_of_def demo_pricing_def get_none_def get_default_def or_else_def Let_def)
  then obtain c c' where c: "derive_request_cost demo_pricing ''m'' 1000 0 None = Inr c"
    "derive_request_cost demo_pricing ''m'' 2000 500 (Some 3) = Inr c'" by metis
  have "rc_per_request c \<le> rc_per_request c' \<and> rc_per_hour c = rc_per_hour c' \<and> rc_month c \<le> rc_month c' \<and> rc_forecast c \<le> rc_forecast c'"
    by (rule derived_cost_monotone [OF c]) (auto intro: demo_rate)
  with c show ?thesis by blast
qed

theorem sensitivity_not_lowered_witness:
  "fst (derive_sensitivity (demo_access ''true'') demo_classification ''finance'' [] demo_headers)"
proof -
  obtain sensitive writes where d: "derive_sensitivity (demo_access ''true'') demo_classification ''finance'' [] demo_headers = (sensitive, writes)"
    by (rule prod.exhaust)
  from sensitivity_not_lowered [OF this] have sensitive
    by (simp add: demo_classification_def flag_def get_default_def)
  with d show ?thesis by simp
qed

end
