(* ===== verification/Live_Signals.thy ===== *)
theory Live_Signals
  imports Policy_Values
begin

text \<open>
  Live telemetry, \<open>prometheus_service.py\<close>: the queries that are built for a team and a model, the collection of their
  answers and the reasons to block. The query endpoint of Prometheus is a parameter: a query gives a number, no value
  or an error.
\<close>

subsection \<open>Settings\<close>

definition prom_env :: "(string \<times> string) list \<Rightarrow> string \<Rightarrow> string \<Rightarrow> string" where
  "prom_env env k d = get_default env k d"

definition is_prometheus_enabled :: "(string \<times> string) list \<Rightarrow> bool" where
  "is_prometheus_enabled env \<longleftrightarrow> py_lower (py_strip (prom_env env ''PROMETHEUS_GOVERNANCE_ENABLED'' [])) \<in> {''1'', ''true'', ''yes''}"

definition get_prometheus_url :: "(string \<times> string) list \<Rightarrow> string option" where
  "get_prometheus_url env =
     (let url = rev (dropWhile (\<lambda>c. c = CHR ''/'') (rev (py_strip (prom_env env ''PROMETHEUS_URL'' [])))) in
      if url = [] then None else Some url)"

definition get_max_error_rate :: "(string \<times> string) list \<Rightarrow> rat result" where
  "get_max_error_rate env = py_float (PStr (prom_env env ''PROMETHEUS_MAX_ERROR_RATE'' ''0.05''))"

definition get_max_p95_latency_ms :: "(string \<times> string) list \<Rightarrow> rat result" where
  "get_max_p95_latency_ms env = py_float (PStr (prom_env env ''PROMETHEUS_MAX_P95_LATENCY_MS'' ''2500''))"

record prom_status =
  pt_enabled :: bool
  pt_url :: "string option"
  pt_max_error_rate :: rat
  pt_max_p95 :: rat

definition prometheus_status :: "(string \<times> string) list \<Rightarrow> prom_status result" where
  "prometheus_status env =
     rbind (get_max_error_rate env) (\<lambda>e. rbind (get_max_p95_latency_ms env) (\<lambda>l.
       Inr \<lparr>pt_enabled = (is_prometheus_enabled env \<and> get_prometheus_url env \<noteq> None), pt_url = get_prometheus_url env,
         pt_max_error_rate = e, pt_max_p95 = l\<rparr>))"

subsection \<open>Queries\<close>

text \<open>\<open>_escape_label\<close>: backslashes are doubled first, then quotes get one.\<close>

definition replace_char :: "char \<Rightarrow> string \<Rightarrow> string \<Rightarrow> string" where
  "replace_char c new s = concat (map (\<lambda>x. if x = c then new else [x]) s)"

definition bslash :: char where "bslash = CHR 0x5C"

definition quote :: char where "quote = CHR 0x22"

definition escape_label :: "string \<Rightarrow> string" where
  "escape_label v = replace_char quote [bslash, quote] (replace_char bslash [bslash, bslash] v)"

definition matcher :: "string \<Rightarrow> string \<Rightarrow> string" where
  "matcher name v = name @ ''='' @ [quote] @ v @ [quote]"

definition rate_sum :: "string \<Rightarrow> string \<Rightarrow> string" where
  "rate_sum metric selector = ''sum(rate('' @ metric @ selector @ ''[5m]))''"

definition braces :: "string \<Rightarrow> string" where
  "braces s = ''{'' @ s @ ''}''"

definition build_prometheus_queries :: "string \<Rightarrow> string \<Rightarrow> (string \<times> string) list" where
  "build_prometheus_queries team model =
     (let team_label = escape_label team; model_label = py_strip (escape_label model);
          metric = ''gateway_chat_requests_total''; decisions = ''gateway_governance_decisions_total'';
          model_filter = matcher ''requested_model'' model_label;
          (errors, total) = (if model_label \<noteq> []
            then (rate_sum metric (braces (matcher ''outcome'' ''error'' @ '','' @ model_filter)), rate_sum metric (braces model_filter))
            else (rate_sum metric (braces (matcher ''outcome'' ''error'')), rate_sum metric []))
      in [(''gateway_p95_latency_ms'',
             ''histogram_quantile(0.95, sum(rate(gateway_chat_duration_seconds_bucket[5m])) by (le)) * 1000''),
          (''gateway_error_rate'', errors @ '' / clamp_min('' @ total @ '', 1)''),
          (''governance_block_rate'', rate_sum decisions (braces (matcher ''verdict'' ''block'')) @ '' / clamp_min('' @ rate_sum decisions [] @ '', 1)''),
          (''tenant_request_rate'', rate_sum ''gateway_tenant_requests_total'' (braces (matcher ''team'' team_label)))])"

subsection \<open>Signals\<close>

record signals =
  ps_enabled :: bool
  ps_team :: string
  ps_model :: string
  ps_p95 :: "rat option"
  ps_error_rate :: "rat option"
  ps_block_rate :: "rat option"
  ps_tenant_rate :: "rat option"
  ps_queries :: "(string \<times> string) list"
  ps_errors :: "string list"

definition no_signals :: "string \<Rightarrow> string \<Rightarrow> signals" where
  "no_signals team model = \<lparr>ps_enabled = False, ps_team = team, ps_model = model, ps_p95 = None, ps_error_rate = None,
     ps_block_rate = None, ps_tenant_rate = None, ps_queries = [], ps_errors = []\<rparr>"

text \<open>\<open>setattr(signals, name, value)\<close>.\<close>

definition set_signal :: "string \<Rightarrow> rat option \<Rightarrow> signals \<Rightarrow> signals" where
  "set_signal name v s =
     (if name = ''gateway_p95_latency_ms'' then s\<lparr>ps_p95 := v\<rparr>
      else if name = ''gateway_error_rate'' then s\<lparr>ps_error_rate := v\<rparr>
      else if name = ''governance_block_rate'' then s\<lparr>ps_block_rate := v\<rparr>
      else if name = ''tenant_request_rate'' then s\<lparr>ps_tenant_rate := v\<rparr> else s)"

text \<open>The answer to a query: an error of the kinds that are caught, with its text, or a value.\<close>

type_synonym prom_answer = "string + rat option"

definition collect :: "(string \<Rightarrow> prom_answer) \<Rightarrow> string \<times> string \<Rightarrow> signals \<Rightarrow> signals" where
  "collect ask q s =
     (case ask (snd q) of
        Inl error \<Rightarrow> s\<lparr>ps_errors := ps_errors s @ [fst q @ '': '' @ error]\<rparr>
      | Inr v \<Rightarrow> set_signal (fst q) v s)"

definition fetch_prometheus_signals :: "(string \<times> string) list \<Rightarrow> (string \<Rightarrow> prom_answer) \<Rightarrow> string \<Rightarrow> string \<Rightarrow> signals" where
  "fetch_prometheus_signals env ask team model =
     (if \<not> is_prometheus_enabled env \<or> get_prometheus_url env = None then no_signals team model
      else (let queries = build_prometheus_queries team model in
        fold (collect ask) queries ((no_signals team model)\<lparr>ps_enabled := True, ps_queries := queries\<rparr>)))"

text \<open>\<open>f"{x:.nf}"\<close>.\<close>

definition fixed_text :: "nat \<Rightarrow> rat \<Rightarrow> string" where
  "fixed_text n q =
     (let m = round_even (\<bar>q\<bar> * 10 ^ n); ds = nat_str (nat m);
          padded = replicate (n + 1 - length ds) (CHR ''0'') @ ds; k = length padded - n
      in (if q < 0 then ''-'' else []) @ take k padded @ (if n = 0 then [] else ''.'' @ drop k padded))"

definition over_limit :: "string \<Rightarrow> nat \<Rightarrow> rat option \<Rightarrow> rat \<Rightarrow> string list" where
  "over_limit name digits v limit =
     (case v of None \<Rightarrow> []
      | Some x \<Rightarrow> if limit < x then [''live prometheus '' @ name @ '' exceeded threshold ('' @ fixed_text digits x @ ''>'' @
          fixed_text digits limit @ '')''] else [])"

text \<open>A threshold is read only when there is a value to compare with it.\<close>

definition prometheus_block_reasons :: "(string \<times> string) list \<Rightarrow> signals \<Rightarrow> string list result" where
  "prometheus_block_reasons env s =
     (if \<not> ps_enabled s then Inr []
      else rbind (if ps_error_rate s = None then Inr [] else rbind (get_max_error_rate env) (\<lambda>limit.
          Inr (over_limit ''gateway_error_rate'' 3 (ps_error_rate s) limit))) (\<lambda>errors.
        rbind (if ps_p95 s = None then Inr [] else rbind (get_max_p95_latency_ms env) (\<lambda>limit.
          Inr (over_limit ''gateway_p95_latency_ms'' 0 (ps_p95 s) limit))) (\<lambda>latency. Inr (errors @ latency))))"

definition signals_to_row_fields :: "signals \<Rightarrow> pyobj" where
  "signals_to_row_fields s =
     (''prometheus_enabled'', PBool (ps_enabled s)) #
     List.map_filter (\<lambda>(k, v). map_option (\<lambda>q. (k, PFloat q)) v)
       [(''gateway_p95_latency_ms'', ps_p95 s), (''gateway_error_rate'', ps_error_rate s),
        (''governance_block_rate'', ps_block_rate s), (''tenant_request_rate'', ps_tenant_rate s)]"

subsection \<open>No label ends early\<close>

text \<open>How PromQL reads a double-quoted text: a backslash takes the next character, a quote ends it.\<close>

fun scan_label :: "string \<Rightarrow> (string \<times> string) option" where
  "scan_label [] = None"
| "scan_label (c # s) =
     (if c = quote then Some ([], s)
      else if c = bslash then (case s of [] \<Rightarrow> None | d # s' \<Rightarrow> map_option (\<lambda>(v, r). (d # v, r)) (scan_label s'))
      else map_option (\<lambda>(v, r). (c # v, r)) (scan_label s))"

lemma escape_label_simps [simp]:
  "escape_label [] = []"
  "escape_label (c # v) = (if c = quote \<or> c = bslash then [bslash, c] else [c]) @ escape_label v"
  by (auto simp: escape_label_def replace_char_def bslash_def quote_def)

lemma scan_escaped: "scan_label (escape_label v @ quote # rest) = Some (v, rest)"
  by (induction v) (auto simp: bslash_def quote_def)

text \<open>No query injection. Whatever team a request names, the query about it is the intended one: read by PromQL's
  rules, the label after \<open>team=\<close> is exactly that name and the query goes on behind it as written.\<close>

theorem team_label_cannot_escape:
  shows "\<exists>before after. map_of (build_prometheus_queries team model) ''tenant_request_rate'' = Some (before @ after) \<and>
    before = ''sum(rate(gateway_tenant_requests_total{team='' @ [quote] \<and> scan_label after = Some (team, ''}[5m]))'')"
  using scan_escaped [of team "''}[5m]))''"]
  by (intro exI [of _ "''sum(rate(gateway_tenant_requests_total{team='' @ [quote]"] exI [of _ "escape_label team @ quote # ''}[5m]))''"])
    (simp add: build_prometheus_queries_def Let_def rate_sum_def braces_def matcher_def split: prod.split)

end
