(* ===== verification/Py_Time.thy ===== *)
theory Py_Time
  imports Prelude
begin

text \<open>
  Python's UTC \<open>datetime\<close> and the two conversions of \<open>decision_store.py\<close>: \<open>_isoformat\<close> writes a
  time stamp as text, and every time stamp of the store is kept, compared (SQL \<open>\<le>\<close> on TEXT) and
  sorted as that text; \<open>_parse_iso\<close> reads it back. An instant is the number of microseconds
  since 0001-01-01T00:00:00Z, \<open>datetime.min\<close>. The theory shows that the order of the texts is
  the order of the instants and that parsing is the inverse of printing.
\<close>

type_synonym instant = nat

subsection \<open>The proleptic Gregorian calendar\<close>

definition leap :: "nat \<Rightarrow> bool" where
  "leap y \<longleftrightarrow> y mod 4 = 0 \<and> (y mod 100 \<noteq> 0 \<or> y mod 400 = 0)"

definition days_in_year :: "nat \<Rightarrow> nat" where
  "days_in_year y = (if leap y then 366 else 365)"

definition month_lengths :: "nat \<Rightarrow> nat list" where
  "month_lengths y = [31, if leap y then 29 else 28, 31, 30, 31, 30, 31, 31, 30, 31, 30, 31]"

function year_split :: "nat \<Rightarrow> nat \<Rightarrow> nat \<times> nat" where
  "year_split y d = (if d < days_in_year y then (y, d) else year_split (Suc y) (d - days_in_year y))"
  by pat_completeness auto
termination
  by (relation "measure snd") (auto simp: days_in_year_def split: if_splits)

declare year_split.simps [simp del]

fun month_split :: "nat list \<Rightarrow> nat \<Rightarrow> nat \<Rightarrow> nat \<times> nat" where
  "month_split [] m d = (m, d)"
| "month_split (l # ls) m d = (if d < l then (m, d) else month_split ls (Suc m) (d - l))"

definition civil :: "nat \<Rightarrow> nat \<times> nat \<times> nat" where
  "civil n = (let (y, r) = year_split 1 n; (m, d) = month_split (month_lengths y) 1 r
              in (y, m, Suc d))"

text \<open>The way back, as Python's \<open>_ymd2ord\<close>: days before the year, the month and the day.\<close>

definition days_before_year :: "nat \<Rightarrow> nat" where
  "days_before_year y = sum_list (map days_in_year [1..<y])"

definition days_before_month :: "nat \<Rightarrow> nat \<Rightarrow> nat" where
  "days_before_month y m = sum_list (take (m - 1) (month_lengths y))"

definition day_number :: "nat \<Rightarrow> nat \<Rightarrow> nat \<Rightarrow> nat" where
  "day_number y m d = days_before_year y + days_before_month y m + (d - 1)"

subsection \<open>ISO 8601 text\<close>

fun digits :: "nat \<Rightarrow> nat \<Rightarrow> string" where
  "digits 0 n = []"
| "digits (Suc w) n = digits w (n div 10) @ [digit_char (n mod 10)]"

definition digits_value :: "string \<Rightarrow> nat" where
  "digits_value s = foldl (\<lambda>a c. 10 * a + ((of_char c :: nat) - 48)) 0 s"

definition day_us :: nat where
  "day_us = 86400000000"

text \<open>\<open>datetime.max\<close>: the instants a Python \<open>datetime\<close> can hold are below \<open>instant_limit\<close>.\<close>

definition instant_limit :: instant where
  "instant_limit = 3652059 * day_us"

text \<open>
  \<open>_isoformat\<close>: \<open>datetime.isoformat\<close> writes date and time to the second (\<open>stamp\<close>, of the second
  count) and leaves the fraction out when the microseconds are 0.
\<close>

definition stamp :: "nat \<Rightarrow> string" where
  "stamp s =
     (let (y, m, d) = civil (s div 86400)
      in digits 4 y @ ''-'' @ digits 2 m @ ''-'' @ digits 2 d @ ''T'' @
         digits 2 (s div 3600 mod 24) @ '':'' @ digits 2 (s div 60 mod 60) @ '':'' @
         digits 2 (s mod 60))"

definition fraction :: "nat \<Rightarrow> string" where
  "fraction us = (if us = 0 then [] else ''.'' @ digits 6 us) @ ''+00:00''"

definition isoformat :: "instant \<Rightarrow> string" where
  "isoformat t = stamp (t div 1000000) @ fraction (t mod 1000000)"

text \<open>
  \<open>_parse_iso\<close>, Python's \<open>datetime.fromisoformat\<close> on the texts \<open>isoformat\<close> writes.
\<close>

definition parse_iso :: "string \<Rightarrow> instant" where
  "parse_iso s =
     (let n = (\<lambda>i w. digits_value (take w (drop i s)));
          us = (if take 1 (drop 19 s) = ''.'' then n 20 6 else 0)
      in day_number (n 0 4) (n 5 2) (n 8 2) * day_us +
         n 11 2 * 3600000000 + n 14 2 * 60000000 + n 17 2 * 1000000 + us)"

subsection \<open>Adding a duration\<close>

text \<open>
  \<open>now + timedelta(seconds=max(ttl, 0))\<close> and \<open>now - timedelta(days=max(days, 0))\<close>; Python raises
  \<open>OverflowError\<close> when the result is no \<open>datetime\<close>.
\<close>

definition add_seconds :: "instant \<Rightarrow> int \<Rightarrow> instant option" where
  "add_seconds t s = (let u = t + nat (max s 0) * 1000000 in if u < instant_limit then Some u else None)"

definition sub_days :: "instant \<Rightarrow> int \<Rightarrow> instant option" where
  "sub_days t d = (let k = nat (max d 0) * day_us in if k \<le> t then Some (t - k) else None)"

subsection \<open>The text of a number\<close>

lemma length_digits [simp]: "length (digits w n) = w"
  by (induction w arbitrary: n) auto

lemma of_digit_char: "d < 10 \<Longrightarrow> of_char (digit_char d) = (48 + d :: nat)"
  by (simp add: digit_char_def)

lemma digit_char_less: "a < 10 \<Longrightarrow> b < 10 \<Longrightarrow> digit_char a < digit_char b \<longleftrightarrow> a < b"
  by (simp add: less_char_def of_digit_char)

lemma digits_mono_strict:
  "m < 10 ^ w \<Longrightarrow> n < 10 ^ w \<Longrightarrow> m < n \<Longrightarrow> digits w m < digits w n"
proof (induction w arbitrary: m n)
  case (Suc w)
  have q: "m div 10 < 10 ^ w" "n div 10 < 10 ^ w"
    using Suc.prems by (auto simp: less_mult_imp_div_less)
  show ?case
  proof (cases "m div 10 = n div 10")
    case True
    then have "m mod 10 < n mod 10"
      using Suc.prems(3) by (metis div_mult_mod_eq nat_add_left_cancel_less)
    with True show ?thesis by (simp add: digit_char_less)
  next
    case False
    with Suc.prems(3) have "m div 10 < n div 10"
      by (metis div_le_mono le_neq_implies_less less_imp_le_nat)
    from Suc.IH [OF q this] show ?thesis by (simp add: lex_append_less)
  qed
qed simp

lemma digits_less_iff:
  assumes "m < 10 ^ w" "n < 10 ^ w"
  shows "digits w m < digits w n \<longleftrightarrow> m < n"
  using digits_mono_strict [OF assms] digits_mono_strict [OF assms(2,1)]
  by (metis less_asym linorder_neqE_nat order_less_irrefl)

lemma digits_eq_iff:
  assumes "m < 10 ^ w" "n < 10 ^ w"
  shows "digits w m = digits w n \<longleftrightarrow> m = n"
  using digits_less_iff [OF assms] digits_less_iff [OF assms(2,1)]
  by (metis linorder_neqE_nat order_less_irrefl)

lemma digits_value_digits: "n < 10 ^ w \<Longrightarrow> digits_value (digits w n) = n"
proof (induction w arbitrary: n)
  case 0
  then show ?case by (simp add: digits_value_def)
next
  case (Suc w)
  have "digits_value (digits w (n div 10)) = n div 10"
    using Suc.prems by (intro Suc.IH) (simp add: less_mult_imp_div_less)
  then show ?case by (simp add: digits_value_def of_digit_char)
qed

subsection \<open>The calendar is strictly monotone and invertible\<close>

lemma days_in_year_pos [simp]: "0 < days_in_year y"
  by (simp add: days_in_year_def)

lemma year_split_props:
  assumes "year_split y n = (y', r)"
  shows "y \<le> y' \<and> r < days_in_year y' \<and> n = sum_list (map days_in_year [y..<y']) + r"
  using assms
proof (induction y n arbitrary: y' r rule: year_split.induct)
  case (1 y d)
  show ?case
  proof (cases "d < days_in_year y")
    case True
    with "1.prems" show ?thesis by (auto simp: year_split.simps [of y d])
  next
    case False
    then have "year_split (Suc y) (d - days_in_year y) = (y', r)"
      using "1.prems" by (simp add: year_split.simps [of y d])
    from "1.IH" [OF False this] False show ?thesis by (auto simp: upt_conv_Cons)
  qed
qed

lemma year_split_mono:
  assumes "m < n" "year_split y m = (ym, rm)" "year_split y n = (yn, rn)"
  shows "ym < yn \<or> (ym = yn \<and> rm < rn)"
proof -
  note a = year_split_props [OF assms(2)] and b = year_split_props [OF assms(3)]
  have "\<not> yn < ym"
  proof
    assume lt: "yn < ym"
    with b have "y \<le> yn" by simp
    then have "[y..<ym] = [y..<yn] @ [yn..<ym]"
      using lt by (metis le_add_diff_inverse less_imp_le upt_add_eq_append)
    moreover have "[yn..<ym] = yn # [Suc yn..<ym]" using lt by (simp add: upt_conv_Cons)
    ultimately show False using a b assms(1) by simp
  qed
  then show ?thesis using a b assms(1) by auto
qed

lemma month_split_props:
  assumes "month_split ls m n = (m', d)" "n < sum_list ls"
  shows "m \<le> m' \<and> m' - m < length ls \<and> d < ls ! (m' - m) \<and> n = sum_list (take (m' - m) ls) + d"
  using assms
proof (induction ls m n arbitrary: m' d rule: month_split.induct)
  case (2 l ls m d0)
  show ?case
  proof (cases "d0 < l")
    case False
    with 2 have ih: "Suc m \<le> m' \<and> m' - Suc m < length ls \<and> d < ls ! (m' - Suc m) \<and>
        d0 - l = sum_list (take (m' - Suc m) ls) + d" by auto
    then have "m' - m = Suc (m' - Suc m)" by arith
    moreover have "d0 = l + (sum_list (take (m' - Suc m) ls) + d)" using ih False by linarith
    ultimately show ?thesis using ih by simp
  qed (use 2 in auto)
qed simp

lemma month_split_mono:
  assumes "a < b" "month_split ls m a = (ma, da)" "month_split ls m b = (mb, db)"
  shows "ma < mb \<or> (ma = mb \<and> da < db)"
  using assms
proof (induction ls arbitrary: m a b)
  case (Cons l ls)
  show ?case
  proof (cases "a < l \<and> \<not> b < l")
    case True
    have "\<And>k m d. month_split ls k m = (mb, d) \<Longrightarrow> k \<le> mb" for mb
      by (induction ls) (auto split: if_splits dest: Suc_leD)
    moreover have "month_split ls (Suc m) (b - l) = (mb, db)" using True Cons.prems by simp
    ultimately have "Suc m \<le> mb" by blast
    with True Cons.prems show ?thesis by auto
  next
    case False
    with Cons.prems Cons.IH [of "a - l" "b - l" "Suc m"] show ?thesis
      by (auto split: if_splits)
  qed
qed auto

lemma sum_month_lengths: "sum_list (month_lengths y) = days_in_year y"
  by (simp add: month_lengths_def days_in_year_def)

lemma month_length_bound: "i < 12 \<Longrightarrow> month_lengths y ! i \<le> 31"
  unfolding month_lengths_def by (auto simp: nth_Cons less_Suc_eq numeral_nat split: nat.splits)

lemma civil_props:
  assumes "civil n = (y, m, d)"
  shows "1 \<le> y \<and> 1 \<le> m \<and> m \<le> 12 \<and> 1 \<le> d \<and> d \<le> 31 \<and> day_number y m d = n"
proof -
  obtain r where ys: "year_split 1 n = (y, r)"
    and ms: "month_split (month_lengths y) 1 r = (m, d - 1)" and d: "1 \<le> d"
    using assms by (auto simp: civil_def Let_def split: prod.splits)
  note a = year_split_props [OF ys]
  have "r < sum_list (month_lengths y)" using a by (simp add: sum_month_lengths)
  note b = month_split_props [OF ms this]
  have "m - 1 < 12" using b by (simp add: month_lengths_def)
  with b month_length_bound [of "m - 1" y] have "d - 1 < 31" by simp
  moreover have "day_number y m d = n"
    using a b d unfolding day_number_def days_before_year_def days_before_month_def by linarith
  moreover have "m \<le> 12" "d \<le> 31" using \<open>m - 1 < 12\<close> \<open>d - 1 < 31\<close> by linarith+
  ultimately show ?thesis using a b d by simp
qed

lemma civil_mono:
  assumes "n < k" "civil n = (y, m, d)" "civil k = (y', m', d')"
  shows "y < y' \<or> (y = y' \<and> (m < m' \<or> (m = m' \<and> d < d')))"
proof -
  obtain r r' where ys: "year_split 1 n = (y, r)" "year_split 1 k = (y', r')"
    and ms: "month_split (month_lengths y) 1 r = (m, d - 1)" "1 \<le> d"
      "month_split (month_lengths y') 1 r' = (m', d' - 1)" "1 \<le> d'"
    using assms by (auto simp: civil_def Let_def split: prod.splits)
  from year_split_mono [OF assms(1) ys] show ?thesis
  proof
    assume "y = y' \<and> r < r'"
    with month_split_mono [of r r' "month_lengths y" 1] ms show ?thesis by fastforce
  qed auto
qed

lemma leap_count_step:
  fixes x z a b c n :: nat
  assumes "x + b = 365 * n + a + c" "p400 \<Longrightarrow> p100" "p100 \<Longrightarrow> p4"
    "z = x + (if p4 \<and> (\<not> p100 \<or> p400) then 366 else 365)"
  shows "z + (if p100 then Suc b else b) =
    365 * Suc n + (if p4 then Suc a else a) + (if p400 then Suc c else c)"
  using assms by auto

lemma days_before_year_closed:
  "days_before_year (Suc y) + y div 100 = 365 * y + y div 4 + y div 400"
proof (induction y)
  case 0
  then show ?case by (simp add: days_before_year_def)
next
  case (Suc y)
  have "days_before_year (Suc (Suc y)) = days_before_year (Suc y) +
      (if Suc y mod 4 = 0 \<and> (Suc y mod 100 \<noteq> 0 \<or> Suc y mod 400 = 0) then 366 else 365)"
    by (simp add: days_before_year_def days_in_year_def leap_def)
  moreover have "Suc y mod 400 = 0 \<Longrightarrow> Suc y mod 100 = 0" "Suc y mod 100 = 0 \<Longrightarrow> Suc y mod 4 = 0"
    using dvd_trans [of 100 400 "Suc y"] dvd_trans [of 4 100 "Suc y"]
    by (simp_all add: mod_eq_0_iff_dvd)
  ultimately show ?case
    unfolding div_Suc by (intro leap_count_step [OF Suc.IH]) auto
qed

lemma civil_year_bound:
  assumes "civil n = (y, m, d)" "n < 3652059" shows "y < 10000"
proof (rule ccontr)
  assume "\<not> y < 10000"
  then obtain k where y: "y = 10000 + k" using le_Suc_ex by force
  have "[1..<10000 + k] = [1..<10000] @ [10000..<10000 + k]"
    by (rule upt_add_eq_append) simp
  then have "days_before_year 10000 \<le> days_before_year y" unfolding days_before_year_def y by simp
  moreover have "days_before_year 10000 = 3652059"
    using days_before_year_closed [of 9999] by simp
  ultimately have "3652059 \<le> day_number y m d" by (simp add: day_number_def)
  with civil_props [OF assms(1)] assms(2) show False by simp
qed

subsection \<open>The order of the texts is the order of the instants\<close>

lemma time_fields:
  fixes s :: nat
  shows "s = 60 * (s div 60) + s mod 60"
    "s div 60 = 60 * (s div 3600) + s div 60 mod 60"
    "s div 3600 = 24 * (s div 86400) + s div 3600 mod 24"
proof -
  show "s = 60 * (s div 60) + s mod 60" by simp
  have "s div 60 div 60 = s div 3600" by (simp flip: div_mult2_eq)
  then show "s div 60 = 60 * (s div 3600) + s div 60 mod 60"
    by (metis mult_div_mod_eq)
  have "s div 3600 div 24 = s div 86400" by (simp flip: div_mult2_eq)
  then show "s div 3600 = 24 * (s div 86400) + s div 3600 mod 24"
    by (metis mult_div_mod_eq)
qed

lemma clock_lex:
  fixes q h m s h' m' s' :: nat
  assumes "60 * (60 * (24 * q + h) + m) + s < 60 * (60 * (24 * q + h') + m') + s'"
    "m < 60" "s < 60" "m' < 60" "s' < 60"
  shows "h < h' \<or> h = h' \<and> (m < m' \<or> m = m' \<and> s < s')"
proof (cases rule: linorder_cases [of h h'])
  case equal
  with assms have "60 * m + s < 60 * m' + s'" by simp
  with equal assms show ?thesis by (cases rule: linorder_cases [of m m']) simp_all
next
  case greater
  then have "60 * (60 * (24 * q + h') + m') + s' < 60 * (60 * (24 * q + h) + m) + s"
    using assms by simp
  with assms show ?thesis by simp
qed simp

lemma second_count:
  fixes s :: nat
  shows "s = 60 * (60 * (24 * (s div 86400) + s div 3600 mod 24) + s div 60 mod 60) + s mod 60"
  by (metis time_fields)

lemma clock_mono:
  fixes a b :: nat
  assumes "a < b" "a div 86400 = b div 86400"
  shows "a div 3600 mod 24 < b div 3600 mod 24 \<or>
    a div 3600 mod 24 = b div 3600 mod 24 \<and>
      (a div 60 mod 60 < b div 60 mod 60 \<or>
       a div 60 mod 60 = b div 60 mod 60 \<and> a mod 60 < b mod 60)"
proof (rule clock_lex)
  show "60 * (60 * (24 * (a div 86400) + a div 3600 mod 24) + a div 60 mod 60) + a mod 60 <
      60 * (60 * (24 * (a div 86400) + b div 3600 mod 24) + b div 60 mod 60) + b mod 60"
    using assms second_count [of a] second_count [of b] by argo
qed simp_all

lemma stamp_mono:
  assumes "a < b" "b div 86400 < 3652059"
  shows "stamp a < stamp b"
proof -
  obtain y m d where ca: "civil (a div 86400) = (y, m, d)" by (cases "civil (a div 86400)")
  obtain y' m' d' where cb: "civil (b div 86400) = (y', m', d')" by (cases "civil (b div 86400)")
  have le: "a div 86400 \<le> b div 86400" using assms by (simp add: div_le_mono)
  have bounds: "y < 10000" "y' < 10000" "m < 100" "m' < 100" "d < 100" "d' < 100"
    using civil_year_bound [OF ca] civil_year_bound [OF cb] civil_props [OF ca] civil_props [OF cb]
      le assms(2) by auto
  have clk: "\<And>x :: nat. x div 3600 mod 24 < 100" "\<And>x :: nat. x div 60 mod 60 < 100"
    "\<And>x :: nat. x mod 60 < 100"
    by (simp_all add: less_trans [OF mod_less_divisor])
  note lex = lex_append_less digits_less_iff digits_eq_iff
  show ?thesis
  proof (cases "a div 86400 = b div 86400")
    case True
    with clock_mono [OF assms(1) True] ca cb show ?thesis
      by (simp add: stamp_def lex clk)
  next
    case False
    with le have "a div 86400 < b div 86400" by simp
    from civil_mono [OF this ca cb] show ?thesis
      unfolding stamp_def ca cb by (auto simp: lex bounds)
  qed
qed

lemma length_stamp: "length (stamp s) = 19"
  by (simp add: stamp_def split: prod.split)

lemma fraction_mono: "u < v \<Longrightarrow> v < 1000000 \<Longrightarrow> fraction u < fraction v"
  by (auto simp: fraction_def lex_append_less digits_less_iff less_char_def)

lemma isoformat_mono:
  assumes "s < t" "t < instant_limit"
  shows "isoformat s < isoformat t"
proof (cases "s div 1000000 = t div 1000000")
  case True
  with assms(1) have "s mod 1000000 < t mod 1000000"
    by (metis div_mult_mod_eq nat_add_left_cancel_less)
  then show ?thesis by (simp add: isoformat_def True fraction_mono)
next
  case False
  with assms(1) have lt: "s div 1000000 < t div 1000000"
    by (metis div_le_mono le_neq_implies_less less_imp_le_nat)
  have "t div 1000000 div 86400 < 3652059"
    using assms(2) by (simp add: instant_limit_def day_us_def div_mult2_eq [symmetric] less_mult_imp_div_less)
  from stamp_mono [OF lt this] show ?thesis
    by (simp add: isoformat_def lex_append_less length_stamp)
qed

lemma isoformat_less_iff:
  assumes "s < instant_limit" "t < instant_limit"
  shows "isoformat s < isoformat t \<longleftrightarrow> s < t"
  using isoformat_mono [of s t] isoformat_mono [of t s] assms
  by (metis less_asym linorder_neqE_nat order_less_irrefl)

lemma isoformat_le_iff:
  assumes "s < instant_limit" "t < instant_limit"
  shows "isoformat s \<le> isoformat t \<longleftrightarrow> s \<le> t"
  using isoformat_less_iff [OF assms(2,1)] by (simp add: not_less [symmetric])

subsection \<open>Parsing is the inverse of printing\<close>

lemma digits_value_2: "n < 100 \<Longrightarrow> digits_value (digits 2 n) = n"
  using digits_value_digits [of n 2] by simp

lemma digits_value_6: "n < 1000000 \<Longrightarrow> digits_value (digits 6 n) = n"
  using digits_value_digits [of n 6] by simp

lemma digits_value_4: "n < 10000 \<Longrightarrow> digits_value (digits 4 n) = n"
  using digits_value_digits [of n 4] by simp

lemma take_digits [simp]: "take w (digits w n @ x) = digits w n"
  by simp

lemma drop_digits: "drop (w + k) (digits w n @ x) = drop k x"
  by simp

lemma parse_stamp:
  assumes "s div 86400 < 3652059"
  shows "parse_iso (stamp s @ x) =
    s * 1000000 + (if take 1 x = ''.'' then digits_value (take 6 (drop 1 x)) else 0)"
proof -
  obtain y m d where c: "civil (s div 86400) = (y, m, d)" by (cases "civil (s div 86400)")
  have b: "y < 10000" "m < 100" "d < 100" "day_number y m d = s div 86400"
    using civil_year_bound [OF c assms] civil_props [OF c] by auto
  have len: "\<And>w n. length (digits w n) = w" by simp
  have fields:
    "take 4 (drop 0 (stamp s @ x)) = digits 4 y"
    "take 2 (drop 5 (stamp s @ x)) = digits 2 m"
    "take 2 (drop 8 (stamp s @ x)) = digits 2 d"
    "take 2 (drop 11 (stamp s @ x)) = digits 2 (s div 3600 mod 24)"
    "take 2 (drop 14 (stamp s @ x)) = digits 2 (s div 60 mod 60)"
    "take 2 (drop 17 (stamp s @ x)) = digits 2 (s mod 60)"
    "drop 19 (stamp s @ x) = x" "drop 20 (stamp s @ x) = drop 1 x"
    unfolding stamp_def c by (simp_all add: len)
  have t: "\<And>n :: nat. n mod 60 < 100" "\<And>n :: nat. n mod 24 < 100"
    by (simp_all add: less_trans [OF mod_less_divisor])
  have "s * 1000000 = s div 86400 * day_us + s div 3600 mod 24 * 3600000000 +
      s div 60 mod 60 * 60000000 + s mod 60 * 1000000"
    by (subst second_count [of s]) (simp add: day_us_def algebra_simps)
  then show ?thesis
    unfolding parse_iso_def Let_def fields
    by (simp add: b t digits_value_2 digits_value_4)
qed

lemma parse_isoformat:
  assumes "t < instant_limit"
  shows "parse_iso (isoformat t) = t"
proof -
  have "t div 1000000 div 86400 < 3652059"
    using assms by (simp add: instant_limit_def day_us_def div_mult2_eq [symmetric] less_mult_imp_div_less)
  from parse_stamp [OF this, of "fraction (t mod 1000000)"]
  have "parse_iso (isoformat t) = t div 1000000 * 1000000 + t mod 1000000"
    unfolding isoformat_def
    by (cases "t mod 1000000 = 0") (simp_all add: fraction_def digits_value_6)
  then show ?thesis by simp
qed

end
