(* ===== verification/Json.thy ===== *)
theory Json
  imports Py_Value
begin

text \<open>
  \<open>json.dumps(v, sort_keys=True, separators=(",", ":"), ensure_ascii=True)\<close>, the canonical text the
  program hashes, and the proof that this text determines the value up to the order of keys.
\<close>

subsection \<open>The encoder\<close>

definition json_char :: "char \<Rightarrow> string" where
  "json_char c = (let n = (of_char c :: nat) in
     if n = 34 \<or> n = 92 then [char_of (92::nat), c]
     else if n = 10 then [char_of (92::nat), CHR ''n'']
     else if n = 13 then [char_of (92::nat), CHR ''r'']
     else if n = 9 then [char_of (92::nat), CHR ''t'']
     else if n = 12 then [char_of (92::nat), CHR ''f'']
     else if n = 8 then [char_of (92::nat), CHR ''b'']
     else if 32 \<le> n \<and> n \<le> 126 then [c]
     else [char_of (92::nat), CHR ''u'', CHR ''0'', CHR ''0'', hex_char (n div 16), hex_char (n mod 16)])"

definition json_str :: "string \<Rightarrow> string" where
  "json_str s = [CHR 0x22] @ concat (map json_char s) @ [CHR 0x22]"

fun json_text :: "pyval \<Rightarrow> string" where
  "json_text PNone = ''null''"
| "json_text (PBool b) = (if b then ''true'' else ''false'')"
| "json_text (PInt i) = int_str i"
| "json_text (PFloat q) = float_repr q"
| "json_text (PStr s) = json_str s"
| "json_text (PList xs) = ''['' @ join_with '','' (map json_text xs) @ '']''"
| "json_text (PDict d) = ''{'' @ join_with '','' (map (\<lambda>(k, v). json_str k @ '':'' @ json_text v) d) @ ''}''"

text \<open>\<open>sort_keys=True\<close>, at every level.\<close>

fun canon :: "pyval \<Rightarrow> pyval" where
  "canon (PList xs) = PList (map canon xs)"
| "canon (PDict d) = PDict (sort_key fst (map (\<lambda>(k, v). (k, canon v)) d))"
| "canon v = v"

definition json_canonical :: "pyval \<Rightarrow> string" where
  "json_canonical v = json_text (canon v)"

fun floats :: "pyval \<Rightarrow> rat list" where
  "floats (PFloat q) = [q]"
| "floats (PList xs) = concat (map floats xs)"
| "floats (PDict d) = concat (map (\<lambda>(k, v). floats v) d)"
| "floats v = []"

subsection \<open>Numbers\<close>

lemma nat_str_chars: "c \<in> set (nat_str n) \<Longrightarrow> \<exists>d<10. c = digit_char d"
proof (induction n rule: nat_str.induct)
  case (1 n)
  show ?case
  proof (cases "n < 10")
    case True
    with 1 show ?thesis by (auto simp: nat_str.simps [of n])
  next
    case False
    with 1 have "c \<in> set (nat_str (n div 10)) \<or> c = digit_char (n mod 10)"
      by (auto simp: nat_str.simps [of n])
    moreover have "n mod 10 < 10" by simp
    ultimately show ?thesis using "1.IH" False by blast
  qed
qed

definition num_char :: "char \<Rightarrow> bool" where
  "num_char c \<longleftrightarrow> is_digit c \<or> c \<in> set ''-+.e''"

lemma num_char_digit: "d < 10 \<Longrightarrow> num_char (digit_char d)"
  by (simp add: num_char_def is_digit_def digit_char_def)

lemma nat_str_num: "c \<in> set (nat_str n) \<Longrightarrow> num_char c"
  using nat_str_chars num_char_digit by blast

lemma nat_str_ne: "nat_str n \<noteq> []"
  by (subst nat_str.simps) simp

lemma digit_char_inj: "d < 10 \<Longrightarrow> d' < 10 \<Longrightarrow> digit_char d = digit_char d' \<Longrightarrow> d = d'"
proof -
  assume d: "d < 10" "d' < 10" "digit_char d = digit_char d'"
  then have "(of_char (digit_char d) :: nat) = of_char (digit_char d')" by simp
  with d(1,2) show "d = d'" by (simp add: digit_char_def)
qed

lemma nat_str_inj: "nat_str m = nat_str n \<Longrightarrow> m = n"
proof (induction m arbitrary: n rule: nat_str.induct)
  case (1 m)
  consider (s) "m < 10" "n < 10" | (b) "10 \<le> m" "10 \<le> n" | (x) "m < 10" "10 \<le> n" | (y) "10 \<le> m" "n < 10"
    by linarith
  then show ?case
  proof cases
    case s
    with 1 show ?thesis by (simp add: nat_str.simps [of m] nat_str.simps [of n] digit_char_inj)
  next
    case b
    with "1.prems" have "nat_str (m div 10) = nat_str (n div 10)" "digit_char (m mod 10) = digit_char (n mod 10)"
      by (simp_all add: nat_str.simps [of m] nat_str.simps [of n])
    with "1.IH" b have "m div 10 = n div 10" "m mod 10 = n mod 10" by (simp_all add: digit_char_inj)
    then show ?thesis by (metis div_mult_mod_eq)
  qed (use "1.prems" nat_str_ne [of "m div 10"] nat_str_ne [of "n div 10"] in
    \<open>auto simp: nat_str.simps [of m] nat_str.simps [of n]\<close>)
qed

lemma of_digit: "d < 10 \<Longrightarrow> of_char (digit_char d) = (48 + d :: nat)"
  by (simp add: digit_char_def)

lemma digit_not: "d < 10 \<Longrightarrow> (of_char x :: nat) < 48 \<or> 57 < (of_char x :: nat) \<Longrightarrow> digit_char d \<noteq> x"
proof
  assume d: "d < 10" "(of_char x :: nat) < 48 \<or> 57 < (of_char x :: nat)" "digit_char d = x"
  then have "(of_char x :: nat) = 48 + d" using of_digit [OF d(1)] by simp
  with d(1,2) show False by simp
qed

lemma digit_char_minus: "d < 10 \<Longrightarrow> digit_char d \<noteq> CHR ''-''"
  by (rule digit_not) simp_all

lemma int_str_inj: "int_str i = int_str j \<Longrightarrow> i = j"
proof -
  have neg: "CHR ''-'' # x \<noteq> nat_str n" for x n
    using nat_str_chars [of "CHR ''-''" n] digit_char_minus by (metis list.set_intros(1))
  assume eq: "int_str i = int_str j"
  show "i = j"
  proof (cases "i < 0"; cases "j < 0")
    assume "i < 0" "j < 0"
    with eq have "nat (- i) = nat (- j)" by (auto simp: int_str_def intro: nat_str_inj)
    with \<open>i < 0\<close> \<open>j < 0\<close> show ?thesis by simp
  next
    assume "\<not> i < 0" "\<not> j < 0"
    with eq have "nat i = nat j" by (auto simp: int_str_def intro: nat_str_inj)
    with \<open>\<not> i < 0\<close> \<open>\<not> j < 0\<close> show ?thesis by simp
  qed (use eq neg in \<open>auto simp: int_str_def\<close>, metis)
qed

lemma num_minus: "num_char (CHR ''-'')"
  by (simp add: num_char_def)

lemma int_str_chars: "c \<in> set (int_str i) \<Longrightarrow> num_char c"
  using nat_str_num num_minus by (auto simp: int_str_def split: if_splits)

lemma int_str_no_point: "c \<in> set (int_str i) \<Longrightarrow> c \<noteq> CHR ''.'' \<and> c \<noteq> CHR ''e''"
proof
  assume c: "c \<in> set (int_str i)"
  have *: "digit_char d \<noteq> CHR ''.''" "digit_char d \<noteq> CHR ''e''" if "d < 10" for d
    using that digit_not [of d "CHR ''.''"] digit_not [of d "CHR ''e''"] by simp_all
  from c have "c = CHR ''-'' \<or> (\<exists>d<10. c = digit_char d)"
    using nat_str_chars by (auto simp: int_str_def split: if_splits)
  then show "c \<noteq> CHR ''.''" "c \<noteq> CHR ''e''" using * by auto metis+
qed

lemma int_str_ne: "int_str i \<noteq> []"
  by (simp add: int_str_def nat_str_ne)

lemma format_chars:
  assumes "\<And>c. c \<in> set ds \<Longrightarrow> num_char c" "c \<in> set (format_decimal ds k)"
  shows "num_char c"
proof -
  have p: "num_char (CHR ''.'')" "num_char (CHR ''0'')" "num_char (CHR ''e'')" "num_char (CHR ''+'')"
    "num_char (CHR ''-'')" "num_char (digit_char 0)"
    by (simp_all add: num_char_def is_digit_def digit_char_def)
  show ?thesis using assms p nat_str_num
    by (auto simp: format_decimal_def split: if_splits dest: in_set_takeD in_set_dropD)
qed

lemma format_point: "CHR ''.'' \<in> set (format_decimal ds k) \<or> CHR ''e'' \<in> set (format_decimal ds k)"
  by (simp add: format_decimal_def)

lemma float_repr_form:
  assumes "q \<noteq> 0"
  obtains sg ds k where "float_repr q = sg @ format_decimal ds k" "sg = [] \<or> sg = ''-''"
    "\<And>c. c \<in> set ds \<Longrightarrow> num_char c"
proof -
  obtain m n where mn: "shortest \<bar>q\<bar> (decimal_exponent 400 \<bar>q\<bar>) [1..<18] = (m, n)" by fastforce
  show thesis
  proof (rule that)
    show "float_repr q = (if q < 0 then ''-'' else []) @
        format_decimal (rev (dropWhile (\<lambda>c. c = digit_char 0) (rev (nat_str (nat m)))))
          (decimal_exponent 400 \<bar>q\<bar> + int (length (nat_str (nat m))) - int n)"
      unfolding float_repr_def Let_def mn prod.case if_not_P [OF assms] ..
    show "num_char c" if "c \<in> set (rev (dropWhile (\<lambda>c. c = digit_char 0) (rev (nat_str (nat m)))))" for c
      using that nat_str_num by (auto dest: set_dropWhileD)
  qed simp
qed

lemma float_repr_chars: "c \<in> set (float_repr q) \<Longrightarrow> num_char c"
proof (cases "q = 0")
  case True
  then show "c \<in> set (float_repr q) \<Longrightarrow> num_char c" by (auto simp: float_repr_def num_char_def is_digit_def)
next
  case False
  then show "c \<in> set (float_repr q) \<Longrightarrow> num_char c"
    using format_chars num_minus by (elim float_repr_form) auto
qed

lemma float_repr_point: "CHR ''.'' \<in> set (float_repr q) \<or> CHR ''e'' \<in> set (float_repr q)"
proof (cases "q = 0")
  case False
  then show ?thesis using format_point by (elim float_repr_form) auto
qed (simp add: float_repr_def)

lemma float_repr_ne: "float_repr q \<noteq> []"
  using float_repr_point [of q] by auto

subsection \<open>A text followed by a delimiter determines the value\<close>

definition delim :: "string \<Rightarrow> bool" where
  "delim r \<longleftrightarrow> r = [] \<or> hd r \<in> set '',]}''"

lemma delim_not_num: "delim r \<Longrightarrow> takeWhile num_char r = []"
  by (cases r) (auto simp: delim_def num_char_def is_digit_def)

lemma num_prefix:
  assumes "x @ r = y @ r'" "\<And>c. c \<in> set x \<Longrightarrow> num_char c" "\<And>c. c \<in> set y \<Longrightarrow> num_char c" "delim r" "delim r'"
  shows "x = y \<and> r = r'"
proof -
  have "takeWhile num_char (x @ r) = x" "takeWhile num_char (y @ r') = y"
    using assms(2-5) delim_not_num by (simp_all add: takeWhile_append2)
  with assms(1) have "x = y" by simp
  with assms(1) show ?thesis by simp
qed

lemma join_unique:
  assumes item: "\<And>x x' r r'. x \<in> set xs \<Longrightarrow> x' \<in> set xs' \<Longrightarrow> f x @ r = g x' @ r' \<Longrightarrow> delim r \<Longrightarrow> delim r' \<Longrightarrow> h x = h' x' \<and> r = r'"
    and ne: "\<And>x. \<exists>c w. f x = c # w \<and> c \<notin> set '',]}''" "\<And>x. \<exists>c w. g x = c # w \<and> c \<notin> set '',]}''"
    and c: "c \<in> set '']}''"
    and eq: "join_with '','' (map f xs) @ c # r = join_with '','' (map g xs') @ c # r'"
  shows "map h xs = map h' xs' \<and> r = r'"
  using item eq
proof (induction xs arbitrary: xs' r r')
  case Nil
  show ?case
  proof (cases xs')
    case (Cons x ys)
    obtain d w where "g x = d # w" "d \<notin> set '',]}''" using ne(2) by blast
    with Nil Cons c show ?thesis by (cases ys) auto
  qed (use Nil in simp)
next
  case (Cons x xs)
  obtain d w where d: "f x = d # w" "d \<notin> set '',]}''" using ne(1) by blast
  show ?case
  proof (cases xs')
    case Nil
    with Cons.prems(2) d c show ?thesis by (cases xs) auto
  next
    case (Cons x' ys)
    define t where "t = (if xs = [] then c # r else CHR '','' # join_with '','' (map f xs) @ c # r)"
    define t' where "t' = (if ys = [] then c # r' else CHR '','' # join_with '','' (map g ys) @ c # r')"
    have "f x @ t = g x' @ t'"
      using Cons.prems(2) Cons unfolding t_def t'_def
      by (cases xs; cases ys) auto
    moreover have "delim t" "delim t'" using c by (auto simp: t_def t'_def delim_def)
    ultimately have x: "h x = h' x'" and tt: "t = t'" using Cons.prems(1) [of x x' t t'] \<open>xs' = x' # ys\<close> by auto
    have cc: "c \<noteq> CHR '',''" using c by auto
    have "map h xs = map h' ys \<and> r = r'"
    proof (cases "xs = []"; cases "ys = []")
      assume "xs \<noteq> []" "ys \<noteq> []"
      with tt have "join_with '','' (map f xs) @ c # r = join_with '','' (map g ys) @ c # r'"
        by (simp add: t_def t'_def)
      then show ?thesis using Cons.prems(1) \<open>xs' = x' # ys\<close> by (intro Cons.IH) auto
    qed (use tt cc in \<open>auto simp: t_def t'_def\<close>)
    with x Cons show ?thesis by simp
  qed
qed

subsection \<open>Strings\<close>

text \<open>What an escape sequence stands for, read off its front.\<close>

definition hex_value :: "char \<Rightarrow> nat" where
  "hex_value c = (let n = (of_char c :: nat) in if n < 58 then n - 48 else n - 87)"

definition unescape :: "string \<Rightarrow> char \<times> string" where
  "unescape s =
     (if hd s \<noteq> char_of (92::nat) then (hd s, tl s)
      else let e = s ! 1 in
        if e = CHR ''u'' then (char_of (16 * hex_value (s ! 4) + hex_value (s ! 5)), drop 6 s)
        else (if e = CHR ''n'' then char_of (10::nat) else if e = CHR ''r'' then char_of (13::nat)
              else if e = CHR ''t'' then char_of (9::nat) else if e = CHR ''f'' then char_of (12::nat)
              else if e = CHR ''b'' then char_of (8::nat) else e, drop 2 s))"

lemma hex_value_hex_char: "d < 16 \<Longrightarrow> hex_value (hex_char d) = d"
  by (auto simp: hex_value_def hex_char_def)

lemma char_eqI: "(of_char c :: nat) = n \<Longrightarrow> char_of n = c"
  by (metis char_of_char)

lemma char_code: "(of_char c :: nat) = k \<Longrightarrow> c = char_of k"
  by (metis char_of_char)

lemma control_chars: "char_of (92::nat) = CHR 0x5C" "char_of (34::nat) = CHR 0x22"
  "char_of (10::nat) = CHR 0x0A" "char_of (13::nat) = CHR 0x0D"
  "char_of (9::nat) = CHR 0x09" "char_of (12::nat) = CHR 0x0C" "char_of (8::nat) = CHR 0x08"
  by (rule char_eqI; simp)+

lemma unescape_json_char: "unescape (json_char c @ x) = (c, x)"
proof -
  let ?n = "of_char c :: nat"
  have n: "?n < 256" by simp
  have h: "16 * hex_value (hex_char (?n div 16)) + hex_value (hex_char (?n mod 16)) = ?n"
    using less_mult_imp_div_less [of ?n 16 16] n by (simp add: hex_value_hex_char)
  consider (special) "?n = 34 \<or> ?n = 92 \<or> ?n = 10 \<or> ?n = 13 \<or> ?n = 9 \<or> ?n = 12 \<or> ?n = 8"
    | (p) "?n \<notin> {34, 92}" "32 \<le> ?n" "?n \<le> 126" | (u) "?n \<notin> {34, 92, 8, 9, 10, 12, 13}" "\<not> (32 \<le> ?n \<and> ?n \<le> 126)"
    by auto
  then show ?thesis
  proof cases
    case special
    then have "c \<in> {CHR 0x22, CHR 0x5C, CHR 0x0A, CHR 0x0D, CHR 0x09, CHR 0x0C, CHR 0x08}"
      using char_code [of c 34] char_code [of c 92] char_code [of c 10] char_code [of c 13]
        char_code [of c 9] char_code [of c 12] char_code [of c 8] unfolding control_chars by blast
    then show ?thesis
      by (elim insertE emptyE) (simp_all add: json_char_def unescape_def control_chars)
  next
    case p
    then have "c \<noteq> CHR 0x5C" by auto
    moreover have "json_char c = [c]" using p unfolding json_char_def Let_def by auto
    ultimately show ?thesis by (simp add: unescape_def control_chars)
  next
    case u
    then have "json_char c = [char_of (92::nat), CHR ''u'', CHR ''0'', CHR ''0'', hex_char (?n div 16), hex_char (?n mod 16)]"
      unfolding json_char_def Let_def by auto
    then show ?thesis using h by (simp add: unescape_def Let_def)
  qed
qed

lemma json_char_inj: "json_char c @ x = json_char c' @ y \<Longrightarrow> c = c' \<and> x = y"
proof -
  assume "json_char c @ x = json_char c' @ y"
  then have "unescape (json_char c @ x) = unescape (json_char c' @ y)" by (rule arg_cong)
  then show ?thesis unfolding unescape_json_char by simp
qed

lemma json_char_first: "\<exists>d w. json_char c = d # w \<and> d \<noteq> CHR 0x22"
proof -
  have "c \<noteq> CHR 0x22" if "(of_char c :: nat) \<noteq> 34" using that by auto
  then show ?thesis by (auto simp: json_char_def Let_def control_chars)
qed

lemma chars_unique:
  "concat (map json_char s) @ CHR 0x22 # r = concat (map json_char s') @ CHR 0x22 # r' \<Longrightarrow> s = s' \<and> r = r'"
proof (induction s arbitrary: s')
  case Nil
  then show ?case
  proof (cases s')
    case (Cons c w)
    with Nil json_char_first [of c] show ?thesis by auto
  qed simp
next
  case (Cons c s)
  show ?case
  proof (cases s')
    case Nil
    with Cons.prems json_char_first [of c] show ?thesis by auto
  next
    case (Cons c' w)
    with Cons.prems have "json_char c @ (concat (map json_char s) @ CHR 0x22 # r) =
        json_char c' @ (concat (map json_char w) @ CHR 0x22 # r')" by simp
    from json_char_inj [OF this] have "c = c'"
      "concat (map json_char s) @ CHR 0x22 # r = concat (map json_char w) @ CHR 0x22 # r'" by auto
    with Cons.IH Cons show ?thesis by blast
  qed
qed

lemma json_str_unique: "json_str s @ r = json_str s' @ r' \<Longrightarrow> s = s' \<and> r = r'"
  using chars_unique [of s r s' r'] by (simp add: json_str_def)

subsection \<open>The text determines the value\<close>

definition first_class :: "char \<Rightarrow> nat" where
  "first_class c = (if c = CHR ''n'' then 0 else if c = CHR ''t'' then 1 else if c = CHR ''f'' then 2
     else if c = CHR 0x22 then 3 else if c = CHR ''['' then 4 else if c = CHR ''{'' then 5
     else if num_char c then 6 else 7)"

fun value_class :: "pyval \<Rightarrow> nat" where
  "value_class PNone = 0"
| "value_class (PBool b) = (if b then 1 else 2)"
| "value_class (PInt i) = 6"
| "value_class (PFloat q) = 6"
| "value_class (PStr s) = 3"
| "value_class (PList xs) = 4"
| "value_class (PDict d) = 5"

lemma num_first_class: "num_char c \<Longrightarrow> first_class c = 6"
  by (auto simp: first_class_def num_char_def is_digit_def)

lemma json_text_first: "\<exists>c w. json_text v = c # w \<and> first_class c = value_class v"
proof (cases v)
  case (PInt i)
  then obtain c w where "int_str i = c # w" using int_str_ne by (cases "int_str i") auto
  with PInt int_str_chars [of c i] show ?thesis by (simp add: num_first_class)
next
  case (PFloat q)
  then obtain c w where "float_repr q = c # w" using float_repr_ne by (cases "float_repr q") auto
  with PFloat float_repr_chars [of c q] show ?thesis by (simp add: num_first_class)
qed (simp_all add: first_class_def json_str_def)

lemma json_text_head: "\<exists>c w. json_text v = c # w \<and> c \<notin> set '',]}''"
proof -
  obtain c w where c: "json_text v = c # w" "first_class c = value_class v" using json_text_first by blast
  moreover have "first_class d = 7" if "d \<in> set '',]}''" for d
    using that by (auto simp: first_class_def num_char_def is_digit_def)
  moreover have "value_class v \<noteq> 7" by (cases v) auto
  ultimately show ?thesis by metis
qed

text \<open>
  The floats in play form a set on which \<open>repr\<close> is injective: Python guarantees that the text of a
  float reads back as the same float.
\<close>

lemma floats_item: "(k, w) \<in> set d \<Longrightarrow> set (floats w) \<subseteq> set (floats (PDict d))"
  by (induction d) (auto simp: split_beta)

lemma json_text_unique:
  assumes "inj_on float_repr G" "set (floats v) \<subseteq> G" "set (floats v') \<subseteq> G"
    "json_text v @ r = json_text v' @ r'" "delim r" "delim r'"
  shows "v = v' \<and> r = r'"
  using assms(2-6)
proof (induction v arbitrary: v' r r')
  case PNone
  then have "value_class v' = 0" using json_text_first [of v'] by (auto simp: first_class_def)
  with PNone show ?case by (cases v') (auto split: if_splits)
next
  case (PBool b)
  have "value_class v' = (if b then 1 else 2)"
    using PBool.prems(3) json_text_first [of v'] by (auto simp: first_class_def split: if_splits)
  with PBool show ?case by (cases v'; cases b) (auto split: if_splits)
next
  case (PInt i)
  from PInt.prems(3) json_text_first [of v'] json_text_first [of "PInt i"] have "value_class v' = 6" by auto
  then consider (i) j where "v' = PInt j" | (f) q where "v' = PFloat q" by (cases v') (auto split: if_splits)
  then show ?case
  proof cases
    case i
    with PInt.prems num_prefix [of "int_str i" r "int_str j" r'] int_str_chars
    show ?thesis by (auto dest: int_str_inj)
  next
    case f
    with PInt.prems num_prefix [of "int_str i" r "float_repr q" r'] int_str_chars float_repr_chars
    have "int_str i = float_repr q" by auto
    with float_repr_point [of q] int_str_no_point [of _ i] show ?thesis by auto
  qed
next
  case (PFloat p)
  from PFloat.prems(3) json_text_first [of v'] json_text_first [of "PFloat p"] have "value_class v' = 6" by auto
  then consider (i) j where "v' = PInt j" | (f) q where "v' = PFloat q" by (cases v') (auto split: if_splits)
  then show ?case
  proof cases
    case i
    with PFloat.prems num_prefix [of "float_repr p" r "int_str j" r'] int_str_chars float_repr_chars
    have "int_str j = float_repr p" by auto
    with float_repr_point [of p] int_str_no_point [of _ j] show ?thesis by auto
  next
    case f
    with PFloat.prems num_prefix [of "float_repr p" r "float_repr q" r'] float_repr_chars
    have "float_repr p = float_repr q \<and> r = r'" by auto
    with f PFloat.prems(1,2) assms(1) show ?thesis by (auto dest: inj_onD)
  qed
next
  case (PStr s)
  from PStr.prems(3) json_text_first [of v'] json_text_first [of "PStr s"] have "value_class v' = 3" by auto
  then obtain s' where "v' = PStr s'" by (cases v') (auto split: if_splits)
  with PStr.prems show ?case by (auto dest: json_str_unique)
next
  case (PList xs)
  from PList.prems(3) json_text_first [of v'] json_text_first [of "PList xs"] have "value_class v' = 4" by auto
  then obtain ys where v': "v' = PList ys" by (cases v') (auto split: if_splits)
  have eq: "join_with '','' (map json_text xs) @ CHR '']'' # r = join_with '','' (map json_text ys) @ CHR '']'' # r'"
    using PList.prems(3) v' by simp
  have ys: "set (floats y) \<subseteq> G" if "y \<in> set ys" for y using PList.prems(2) that v' by auto
  have xs: "set (floats x) \<subseteq> G" if "x \<in> set xs" for x using PList.prems(1) that by auto
  have "map id xs = map id ys \<and> r = r'"
  proof (rule join_unique [where f = json_text and g = json_text and c = "CHR '']''"])
    show "id x = id x' \<and> t = t'" if "x \<in> set xs" "x' \<in> set ys" "json_text x @ t = json_text x' @ t'" "delim t" "delim t'"
      for x x' t t' using PList.IH [OF that(1) xs [OF that(1)] ys [OF that(2)] that(3-5)] by simp
  qed (use json_text_head eq in auto)
  with v' show ?case by simp
next
  case (PDict d)
  from PDict.prems(3) json_text_first [of v'] json_text_first [of "PDict d"] have "value_class v' = 5" by auto
  then obtain e where v': "v' = PDict e" by (cases v') (auto split: if_splits)
  let ?f = "\<lambda>(k, v). json_str k @ '':'' @ json_text v"
  have eq: "join_with '','' (map ?f d) @ CHR ''}'' # r = join_with '','' (map ?f e) @ CHR ''}'' # r'"
    using PDict.prems(3) v' by simp
  have "map id d = map id e \<and> r = r'"
  proof (rule join_unique [where f = ?f and g = ?f and c = "CHR ''}''"])
    fix x x' t t'
    assume that: "x \<in> set d" "x' \<in> set e" "?f x @ t = ?f x' @ t'" "delim t" "delim t'"
    obtain k w k' w' where kv: "x = (k, w)" "x' = (k', w')" by fastforce
    with that have "json_str k @ (CHR '':'' # json_text w @ t) = json_str k' @ (CHR '':'' # json_text w' @ t')"
      by simp
    from json_str_unique [OF this] have k: "k = k'" and w: "json_text w @ t = json_text w' @ t'" by auto
    have "set (floats w) \<subseteq> G"
      using floats_item [OF that(1) [unfolded kv]] PDict.prems(1) by (rule order_trans)
    have "set (floats w') \<subseteq> G"
      using floats_item [OF that(2) [unfolded kv]] PDict.prems(2) [unfolded v'] by (rule order_trans)
    note G = \<open>set (floats w) \<subseteq> G\<close> \<open>set (floats w') \<subseteq> G\<close>
    from PDict.IH [OF that(1), of w, OF _ G w that(4,5)] kv have "w = w' \<and> t = t'" by simp
    with k kv show "id x = id x' \<and> t = t'" by simp
  qed (use eq in \<open>auto simp: json_str_def\<close>)
  with v' show ?case by simp
qed

lemma json_canonical_inj:
  assumes "json_canonical v = json_canonical v'"
    "inj_on float_repr (set (floats (canon v)) \<union> set (floats (canon v')))"
  shows "canon v = canon v'"
  using json_text_unique [OF assms(2), of "canon v" "canon v'" "[]" "[]"] assms(1)
  by (simp add: json_canonical_def delim_def)

end
