(* ===== verification/Quota_State.thy ===== *)
theory Quota_State
  imports Table_Files Py_Time Json
begin

text \<open>
  The shared quota counters of \<open>quota_state_service.py\<close>. Redis is a map from keys to texts or hashes with an
  optional deadline, and its commands are read as documented: \<open>GET\<close>, \<open>HGETALL\<close>, \<open>INCRBY\<close>, \<open>HSET\<close> and
  \<open>EXPIRE\<close>; a command on a key of the other kind or on a text that is no 64 bit integer is an error, and a
  script that fails keeps what it has written. The two Lua scripts are translated command by command. A point in
  time is an \<open>instant\<close>, in microseconds; the scripts get it as seconds since 1970. The theory shows that the
  counters count: what is read is the number of calls of the team in the current minute and the sum of its tokens of
  the current day, by the counters and by the older hash alike.
\<close>

subsection \<open>Redis\<close>

datatype redis_value = RText string | RHash "(string \<times> string) list"

type_synonym redis = "string \<Rightarrow> (redis_value \<times> nat option) option"

definition live :: "redis \<Rightarrow> nat \<Rightarrow> string \<Rightarrow> redis_value option" where
  "live r clk k = (case r k of None \<Rightarrow> None
     | Some (v, None) \<Rightarrow> Some v
     | Some (v, Some d) \<Rightarrow> if d \<le> clk then None else Some v)"

definition deadline_of :: "redis \<Rightarrow> nat \<Rightarrow> string \<Rightarrow> nat option" where
  "deadline_of r clk k = (if live r clk k = None then None else (case r k of None \<Rightarrow> None | Some (_, d) \<Rightarrow> d))"

definition wrong_type :: exn where
  "wrong_type = RuntimeError ''WRONGTYPE''"

definition redis_get :: "redis \<Rightarrow> nat \<Rightarrow> string \<Rightarrow> string option result" where
  "redis_get r clk k = (case live r clk k of None \<Rightarrow> Inr None | Some (RText t) \<Rightarrow> Inr (Some t) | Some (RHash _) \<Rightarrow> Inl wrong_type)"

definition redis_hgetall :: "redis \<Rightarrow> nat \<Rightarrow> string \<Rightarrow> (string \<times> string) list result" where
  "redis_hgetall r clk k = (case live r clk k of None \<Rightarrow> Inr [] | Some (RHash h) \<Rightarrow> Inr h | Some (RText _) \<Rightarrow> Inl wrong_type)"

text \<open>The integers Redis counts with: their own decimal text, 64 bits.\<close>

definition redis_int :: "string \<Rightarrow> int option" where
  "redis_int t = (case int_of_text t of
     Some i \<Rightarrow> if int_str i = t \<and> - (2 ^ 63) \<le> i \<and> i < 2 ^ 63 then Some i else None | None \<Rightarrow> None)"

definition redis_incrby :: "nat \<Rightarrow> string \<Rightarrow> int \<Rightarrow> (redis, int) opn" where
  "redis_incrby clk k n r =
     (case live r clk k of
        None \<Rightarrow> (Inr n, r(k \<mapsto> (RText (int_str n), None)))
      | Some (RHash _) \<Rightarrow> (Inl wrong_type, r)
      | Some (RText t) \<Rightarrow> (case redis_int t of
            None \<Rightarrow> (Inl (RuntimeError ''value is not an integer or out of range''), r)
          | Some i \<Rightarrow> if i + n < - (2 ^ 63) \<or> 2 ^ 63 \<le> i + n
              then (Inl (RuntimeError ''increment or decrement would overflow''), r)
              else (Inr (i + n), r(k \<mapsto> (RText (int_str (i + n)), deadline_of r clk k)))))"

definition redis_expire :: "nat \<Rightarrow> string \<Rightarrow> nat \<Rightarrow> (redis, unit) opn" where
  "redis_expire clk k ttl r =
     (Inr (), case live r clk k of None \<Rightarrow> r | Some v \<Rightarrow> r(k \<mapsto> (v, Some (clk + ttl * 1000000))))"

definition redis_hset :: "nat \<Rightarrow> string \<Rightarrow> (string \<times> string) list \<Rightarrow> (redis, unit) opn" where
  "redis_hset clk k pairs r =
     (case live r clk k of
        Some (RText _) \<Rightarrow> (Inl wrong_type, r)
      | Some (RHash h) \<Rightarrow> (Inr (), r(k \<mapsto> (RHash (fold (\<lambda>(f, v). dict_set f v) pairs h), deadline_of r clk k)))
      | None \<Rightarrow> (Inr (), r(k \<mapsto> (RHash (fold (\<lambda>(f, v). dict_set f v) pairs []), None))))"

subsection \<open>Clocks, keys and Lua numbers\<close>

text \<open>Seconds from \<open>datetime.min\<close> to 1970, the whole seconds of \<open>time.time()\<close>, and their fraction.\<close>

definition epoch :: int where
  "epoch = 62135596800"

definition unix_seconds :: "instant \<Rightarrow> int" where
  "unix_seconds t = int (t div 1000000) - epoch"

definition unix_time :: "instant \<Rightarrow> rat" where
  "unix_time t = of_nat t / 1000000 - of_int epoch"

definition minute_bucket :: "instant \<Rightarrow> int" where
  "minute_bucket t = unix_seconds t - unix_seconds t mod 60"

text \<open>\<open>datetime.now(UTC).strftime("%Y-%m-%d")\<close>.\<close>

definition day_text :: "instant \<Rightarrow> string" where
  "day_text t = take 10 (stamp (t div 1000000))"

definition hash_key :: "string \<Rightarrow> string" where
  "hash_key team = ''ai:tenant:'' @ team"

definition rpm_key :: "string \<Rightarrow> instant \<Rightarrow> string" where
  "rpm_key team now = ''ai:tenant:'' @ team @ '':rpm:'' @ int_str (minute_bucket now)"

definition tokens_key :: "string \<Rightarrow> instant \<Rightarrow> string" where
  "tokens_key team d = ''ai:tenant:'' @ team @ '':tokens:'' @ day_text d"

definition month_cost_key :: "string \<Rightarrow> string" where
  "month_cost_key team = ''ai:finops:'' @ team @ '':month_to_date_cost_usd''"

text \<open>
  \<open>tonumber\<close> on decimal texts (hexadecimal ones are not modelled) and \<open>tostring\<close>, which writes 14 significant
  digits.
\<close>

definition lua_tonumber :: "string \<Rightarrow> rat option" where
  "lua_tonumber t = (if CHR ''_'' \<in> set t then None else float_of_text t)"

definition lua_tostring :: "int \<Rightarrow> string" where
  "lua_tostring n =
     (if \<bar>n\<bar> < 10 ^ 14 then int_str n
      else (let k = length (nat_str (nat \<bar>n\<bar>)) - 1; m = round_even (of_int \<bar>n\<bar> / 10 ^ (k - 13));
                (m, k) = (if m = 10 ^ 14 then (10 ^ 13, k + 1) else (m, k));
                ds = nat_str (nat m); frac = rev (dropWhile (\<lambda>c. c = CHR ''0'') (rev (tl ds)))
            in (if n < 0 then ''-'' else []) @ [hd ds] @ (if frac = [] then [] else ''.'' @ frac) @ ''e+'' @ nat_str k))"

definition lua_field :: "(string \<times> string) list \<Rightarrow> string \<Rightarrow> rat" where
  "lua_field h k = (case map_of h k of None \<Rightarrow> 0 | Some t \<Rightarrow> (case lua_tonumber t of None \<Rightarrow> 0 | Some q \<Rightarrow> q))"

subsection \<open>The scripts\<close>

definition read_script :: "redis \<Rightarrow> nat \<Rightarrow> string \<Rightarrow> rat \<Rightarrow> string \<Rightarrow> (int \<times> int) result" where
  "read_script r clk key now today =
     rbind (redis_hgetall r clk key) (\<lambda>h.
       if h = [] then Inr (0, 0)
       else Inr (int_of_float (if now - lua_field h ''window_start'' \<ge> 60 then 0 else lua_field h ''requests_last_minute''),
         int_of_float (if get_default h ''tokens_day'' [] \<noteq> today then 0 else lua_field h ''tokens_today'')))"

definition incr_script :: "nat \<Rightarrow> string \<Rightarrow> string \<Rightarrow> string \<Rightarrow> int \<Rightarrow> string \<Rightarrow> int \<Rightarrow> nat \<Rightarrow> nat \<Rightarrow> (redis, int \<times> int) opn" where
  "incr_script clk rpm_k tokens_k hash_k window today delta rpm_ttl tokens_ttl =
     bnd (redis_incrby clk rpm_k 1) (\<lambda>rpm.
     bnd (if rpm = 1 then redis_expire clk rpm_k rpm_ttl else ret ()) (\<lambda>_.
     bnd (redis_incrby clk tokens_k delta) (\<lambda>tokens.
     bnd (if tokens = delta then redis_expire clk tokens_k tokens_ttl else ret ()) (\<lambda>_.
     bnd (redis_hset clk hash_k [(''window_start'', lua_tostring window), (''requests_last_minute'', lua_tostring rpm),
         (''tokens_today'', lua_tostring tokens), (''tokens_day'', today)]) (\<lambda>_.
     bnd (redis_expire clk hash_k (max rpm_ttl tokens_ttl)) (\<lambda>_. ret (rpm, tokens)))))))"

subsection \<open>The service\<close>

record snapshot =
  sn_team :: string
  sn_rpm :: int
  sn_tokens :: int
  sn_month_cost :: rat
  sn_source :: string
  sn_unavailable :: bool

definition unavailable_snapshot :: "string \<Rightarrow> snapshot" where
  "unavailable_snapshot team = \<lparr>sn_team = team, sn_rpm = 0, sn_tokens = 0, sn_month_cost = 0,
     sn_source = ''unavailable'', sn_unavailable = True\<rparr>"

text \<open>\<open>QUOTA_REDIS_URL\<close>, and whether the server answers.\<close>

record quota_env =
  qe_url :: string
  qe_up :: bool

definition get_quota_redis_url :: "quota_env \<Rightarrow> string option" where
  "get_quota_redis_url env = (if py_strip (qe_url env) = [] then None else Some (py_strip (qe_url env)))"

definition get_quota_on_unavailable :: "string option \<Rightarrow> string" where
  "get_quota_on_unavailable setting =
     (let raw = py_lower (py_strip (case setting of None \<Rightarrow> ''approval_required'' | Some s \<Rightarrow> s))
      in if raw \<in> {''allow'', ''block'', ''approval_required''} then raw else ''approval_required'')"

definition state_field :: "(pyval \<Rightarrow> 'a result) \<Rightarrow> (string \<times> string) list \<Rightarrow> string \<Rightarrow> 'a result" where
  "state_field conv h k = conv (case map_of h k of None \<Rightarrow> PInt 0 | Some t \<Rightarrow> if t = [] then PInt 0 else PStr t)"

definition normalize_state :: "(string \<times> string) list \<Rightarrow> instant \<Rightarrow> instant \<Rightarrow> (int \<times> int) result" where
  "normalize_state h now d =
     (if h = [] then Inr (0, 0)
      else rbind (state_field py_float h ''window_start'') (\<lambda>window_start.
        rbind (state_field py_int h ''requests_last_minute'') (\<lambda>requests.
        rbind (state_field py_int h ''tokens_today'') (\<lambda>tokens.
          Inr (if unix_time now - window_start \<ge> 60 then 0 else requests,
            if get_default h ''tokens_day'' [] \<noteq> day_text d then 0 else tokens)))))"

definition as_int :: "string option \<Rightarrow> int option result" where
  "as_int v =
     (case v of None \<Rightarrow> Inr None
      | Some t \<Rightarrow> let s = dropWhile (\<lambda>c. c = CHR ''-'') (py_strip t) in
          if s \<noteq> [] \<and> list_all is_digit s then rbind (py_int (PStr t)) (\<lambda>i. Inr (Some i)) else Inr None)"

definition none_0 :: "int option \<Rightarrow> int" where
  "none_0 v = (case v of None \<Rightarrow> 0 | Some i \<Rightarrow> i)"

definition month_cost_of :: "string option \<Rightarrow> rat result" where
  "month_cost_of raw =
     rbind (as_int raw) (\<lambda>parsed. Inr (case parsed of
        Some i \<Rightarrow> float_of_int i
      | None \<Rightarrow> (case raw of None \<Rightarrow> 0 | Some t \<Rightarrow> (case float_of_text t of None \<Rightarrow> 0 | Some q \<Rightarrow> q))))"

definition read_counters :: "redis \<Rightarrow> instant \<Rightarrow> instant \<Rightarrow> string \<Rightarrow> (int \<times> int) result" where
  "read_counters r d now team =
     rbind (rbind (redis_get r now (rpm_key team now)) as_int) (\<lambda>rpm_counter.
     rbind (rbind (redis_get r now (tokens_key team d)) as_int) (\<lambda>tokens_counter.
       if rpm_counter \<noteq> None \<or> tokens_counter \<noteq> None then Inr (none_0 rpm_counter, none_0 tokens_counter)
       else read_script r now (hash_key team) (unix_time now) (day_text d)))"

definition read_finops_month_cost :: "quota_env \<Rightarrow> instant \<Rightarrow> string \<Rightarrow> redis \<Rightarrow> rat option" where
  "read_finops_month_cost env now team r =
     (if get_quota_redis_url env = None \<or> \<not> qe_up env then None
      else (case redis_get r now (month_cost_key team) of
        Inl _ \<Rightarrow> None
      | Inr None \<Rightarrow> Some 0
      | Inr (Some t) \<Rightarrow> Some (case float_of_text t of None \<Rightarrow> 0 | Some q \<Rightarrow> q)))"

text \<open>\<open>d\<close> is the reading of the clock for the date, \<open>now\<close> the later one for the minute.\<close>

definition read_quota_state :: "quota_env \<Rightarrow> instant \<Rightarrow> instant \<Rightarrow> string \<Rightarrow> redis \<Rightarrow> snapshot option" where
  "read_quota_state env d now team r =
     (if get_quota_redis_url env = None then None
      else Some (if \<not> qe_up env then unavailable_snapshot team
        else case rbind (read_counters r d now team) (\<lambda>(rpm, tokens).
               rbind (rbind (redis_get r now (month_cost_key team)) month_cost_of) (\<lambda>cost.
                 Inr \<lparr>sn_team = team, sn_rpm = rpm, sn_tokens = tokens, sn_month_cost = cost, sn_source = ''redis'',
                   sn_unavailable = False\<rparr>)) of
             Inl _ \<Rightarrow> unavailable_snapshot team
           | Inr s \<Rightarrow> s))"

definition incr_quota_counters :: "quota_env \<Rightarrow> instant \<Rightarrow> instant \<Rightarrow> string \<Rightarrow> int \<Rightarrow> redis \<Rightarrow> snapshot option \<times> redis" where
  "incr_quota_counters env now d team tokens r =
     (if get_quota_redis_url env = None then (None, r)
      else if \<not> qe_up env then (Some (unavailable_snapshot team), r)
      else case incr_script now (rpm_key team now) (tokens_key team d) (hash_key team) (minute_bucket now) (day_text d)
               (max tokens 0) 120 172800 r of
          (Inl _, r') \<Rightarrow> (Some (unavailable_snapshot team), r')
        | (Inr (rpm, sum_tokens), r') \<Rightarrow> (Some \<lparr>sn_team = team, sn_rpm = rpm, sn_tokens = sum_tokens, sn_month_cost = 0,
             sn_source = ''redis'', sn_unavailable = False\<rparr>, r'))"

record quota_status =
  qt_enabled :: bool
  qt_url :: "string option"
  qt_backend :: string
  qt_on_unavailable :: string

definition quota_state_status :: "quota_env \<Rightarrow> string option \<Rightarrow> quota_status" where
  "quota_state_status env setting =
     (let url = get_quota_redis_url env in
      \<lparr>qt_enabled = (url \<noteq> None), qt_url = url, qt_backend = (if url \<noteq> None then ''redis'' else ''request''),
       qt_on_unavailable = get_quota_on_unavailable setting\<rparr>)"

subsection \<open>Clocks and texts\<close>

lemma int_of_text_int_str [simp]: "int_of_text (int_str i) = Some i"
proof -
  obtain d where d: "list_all is_digit d" "d \<noteq> []" "int_str i = d \<or> int_str i = CHR ''-'' # d"
    "int_of_text d = Some (if int_str i = d then i else - i)" using int_str_shape by blast
  show ?thesis using d int_of_text_minus [OF d(1,2,4)] by (cases "int_str i = d") auto
qed

lemma redis_int_int_str: "- (2 ^ 63) \<le> i \<Longrightarrow> i < 2 ^ 63 \<Longrightarrow> redis_int (int_str i) = Some i"
  by (simp add: redis_int_def)

lemma redis_int_Some: "redis_int (int_str i) = Some j \<Longrightarrow> j = i"
  by (simp add: redis_int_def split: if_splits)

lemma as_int_int_str [simp]: "as_int (Some (int_str i)) = Inr (Some i)"
proof -
  obtain d where d: "list_all is_digit d" "d \<noteq> []" "int_str i = d \<or> int_str i = CHR ''-'' # d"
    using int_str_shape by blast
  have ends: "is_digit (hd d)" "is_digit (last d)" using d(1,2) by (cases d; auto simp: list_all_iff)+
  then have "py_strip (int_str i) = int_str i"
    using d(2,3) is_digit_facts(1) by (intro py_strip_clean) (auto simp: is_space_def)
  moreover have "dropWhile (\<lambda>c. c = CHR ''-'') (int_str i) = d"
    using d ends is_digit_facts(3) by (cases d) auto
  ultimately show ?thesis using d(1,2) by (simp add: as_int_def Let_def)
qed

lemma same_minute_less:
  assumes "minute_bucket u = minute_bucket t"
  shows "u < t + 60 * 1000000"
proof -
  have "unix_seconds u < unix_seconds t + 60"
    using assms pos_mod_bound [of 60 "unix_seconds u"] pos_mod_sign [of 60 "unix_seconds t"] by (simp add: minute_bucket_def)
  then have "int (u div 1000000) < int (t div 1000000) + 60" by (simp add: unix_seconds_def)
  then have "u div 1000000 < t div 1000000 + 60" by simp
  then show ?thesis by linarith
qed

lemma minute_bucket_eq: "minute_bucket t = int (t div 1000000 div 60) * 60 - epoch"
proof -
  have "epoch mod 60 = 0" by (simp add: epoch_def)
  then have "unix_seconds t mod 60 = int (t div 1000000) mod 60"
    unfolding unix_seconds_def by (metis diff_zero mod_diff_right_eq)
  moreover have "int (t div 1000000) = int (t div 1000000) mod 60 + 60 * int (t div 1000000 div 60)"
    by (simp add: zmod_int zdiv_int)
  ultimately show ?thesis by (simp add: minute_bucket_def unix_seconds_def)
qed

lemma same_minute_same_day:
  assumes "minute_bucket u = minute_bucket t"
  shows "u div day_us = t div day_us"
proof -
  have "u div 1000000 div 60 = t div 1000000 div 60" using assms by (simp add: minute_bucket_eq)
  then have "u div 1000000 div 60 div 1440 = t div 1000000 div 60 div 1440" by simp
  then show ?thesis by (simp add: day_us_def div_mult2_eq [symmetric])
qed

lemma same_day_less:
  assumes "u div day_us = t div day_us"
  shows "u < t + day_us"
proof -
  have "u < (u div day_us + 1) * day_us" by (simp add: day_us_def) 
  also have "\<dots> \<le> t + day_us" unfolding assms by (simp add: add_mult_distrib)
  finally show ?thesis .
qed

lemma day_text_inj:
  assumes "t < instant_limit" "u < instant_limit"
  shows "day_text t = day_text u \<longleftrightarrow> t div day_us = u div day_us"
proof -
  have day: "x div 1000000 div 86400 = x div day_us" for x by (simp add: day_us_def div_mult2_eq [symmetric])
  obtain y m d where c: "civil (t div day_us) = (y, m, d)" by (cases "civil (t div day_us)")
  obtain y' m' d' where c': "civil (u div day_us) = (y', m', d')" by (cases "civil (u div day_us)")
  have lim: "t div day_us < 3652059" "u div day_us < 3652059"
    using assms by (simp_all add: instant_limit_def less_mult_imp_div_less)
  have b: "y < 10 ^ 4" "m < 10 ^ 2" "d < 10 ^ 2" "y' < 10 ^ 4" "m' < 10 ^ 2" "d' < 10 ^ 2"
    using civil_year_bound [OF c lim(1)] civil_year_bound [OF c' lim(2)] civil_props [OF c] civil_props [OF c'] by auto
  have "day_text t = digits 4 y @ ''-'' @ digits 2 m @ ''-'' @ digits 2 d"
    "day_text u = digits 4 y' @ ''-'' @ digits 2 m' @ ''-'' @ digits 2 d'"
    by (simp_all add: day_text_def stamp_def day c c')
  then have "day_text t = day_text u \<longleftrightarrow> y = y' \<and> m = m' \<and> d = d'"
    using b by (simp add: digits_eq_iff append_eq_append_conv)
  also have "\<dots> \<longleftrightarrow> t div day_us = u div day_us"
    using civil_props [OF c] civil_props [OF c'] c c' by auto
  finally show ?thesis .
qed

text \<open>Team names without a colon have keys of their own.\<close>

definition team_ok :: "string \<Rightarrow> bool" where
  "team_ok team \<longleftrightarrow> CHR '':'' \<notin> set team"

lemma before_colon:
  assumes "team_ok u" "team_ok v"
  shows "u @ CHR '':'' # x = v @ CHR '':'' # y \<longleftrightarrow> u = v \<and> x = y"
  using assms
proof (induction u arbitrary: v)
  case Nil
  then show ?case by (cases v) (auto simp: team_ok_def)
next
  case (Cons c u)
  show ?case
  proof (cases v)
    case Nil
    with Cons.prems show ?thesis by (auto simp: team_ok_def)
  next
    case (Cons c' v')
    with Cons.IH [of v'] Cons.prems show ?thesis by (auto simp: team_ok_def)
  qed
qed

lemma keys_apart [simp]:
  assumes "team_ok u" "team_ok v"
  shows "rpm_key u s = rpm_key v t \<longleftrightarrow> u = v \<and> minute_bucket s = minute_bucket t"
    "tokens_key u s = tokens_key v t \<longleftrightarrow> u = v \<and> day_text s = day_text t"
    "hash_key u = hash_key v \<longleftrightarrow> u = v" "rpm_key u s \<noteq> tokens_key v t" "tokens_key u s \<noteq> rpm_key v t"
    "rpm_key u s \<noteq> hash_key v" "hash_key u \<noteq> rpm_key v s" "tokens_key u s \<noteq> hash_key v" "hash_key u \<noteq> tokens_key v s"
  using before_colon [OF assms] assms by (auto simp: rpm_key_def tokens_key_def hash_key_def team_ok_def dest: int_str_inj)

subsection \<open>What the counters count\<close>

text \<open>The specification: the log of the calls, the oldest first.\<close>

record call =
  c_team :: string
  c_at :: instant
  c_tokens :: int

definition calls_this_minute :: "call list \<Rightarrow> string \<Rightarrow> instant \<Rightarrow> int" where
  "calls_this_minute hist team now = int (length (filter (\<lambda>c. c_team c = team \<and> minute_bucket (c_at c) = minute_bucket now) hist))"

definition calls_today :: "call list \<Rightarrow> string \<Rightarrow> instant \<Rightarrow> call list" where
  "calls_today hist team now = filter (\<lambda>c. c_team c = team \<and> c_at c div day_us = now div day_us) hist"

definition tokens_this_day :: "call list \<Rightarrow> string \<Rightarrow> instant \<Rightarrow> int" where
  "tokens_this_day hist team now = sum_list (map c_tokens (calls_today hist team now))"

text \<open>A store in which the log has been counted, call after call, by a running Redis that failed none of them; keys outside
  \<open>ai:tenant:\<close> may be written by others.\<close>

inductive counted :: "call list \<Rightarrow> redis \<Rightarrow> bool" where
  counted_none: "counted [] (\<lambda>_. None)"
| counted_call: "counted hist r \<Longrightarrow> team_ok team \<Longrightarrow> now < instant_limit \<Longrightarrow> \<forall>c\<in>set hist. c_at c \<le> now \<Longrightarrow>
    incr_quota_counters env now now team tokens r = (Some snap, r') \<Longrightarrow> \<not> sn_unavailable snap \<Longrightarrow>
    counted (hist @ [\<lparr>c_team = team, c_at = now, c_tokens = max tokens 0\<rparr>]) r'"
| counted_other: "counted hist r \<Longrightarrow> \<not> starts_with k ''ai:tenant:'' \<Longrightarrow> counted hist (r(k := v))"

text \<open>Each counter is there from its first call on and outlives the minute or day it counts.\<close>

definition holds_text :: "redis \<Rightarrow> string \<Rightarrow> int \<Rightarrow> (instant \<Rightarrow> bool) \<Rightarrow> bool" where
  "holds_text r k n during \<longleftrightarrow> (\<exists>d. r k = Some (RText (int_str n), Some d) \<and> (\<forall>u. during u \<longrightarrow> u < d))"

definition same_minute :: "instant \<Rightarrow> instant \<Rightarrow> bool" where
  "same_minute t u \<longleftrightarrow> minute_bucket u = minute_bucket t"

definition same_day :: "instant \<Rightarrow> instant \<Rightarrow> bool" where
  "same_day t u \<longleftrightarrow> u div day_us = t div day_us"

definition rpm_ok :: "call list \<Rightarrow> redis \<Rightarrow> string \<Rightarrow> instant \<Rightarrow> bool" where
  "rpm_ok hist r team t \<longleftrightarrow>
     (if calls_this_minute hist team t = 0 then r (rpm_key team t) = None
      else holds_text r (rpm_key team t) (calls_this_minute hist team t) (same_minute t))"

definition tokens_ok :: "call list \<Rightarrow> redis \<Rightarrow> string \<Rightarrow> instant \<Rightarrow> bool" where
  "tokens_ok hist r team t \<longleftrightarrow>
     (if calls_today hist team t = [] then r (tokens_key team t) = None
      else holds_text r (tokens_key team t) (tokens_this_day hist team t) (same_day t))"

definition hash_of :: "call list \<Rightarrow> string \<Rightarrow> instant \<Rightarrow> (string \<times> string) list" where
  "hash_of hist team t =
     [(''window_start'', lua_tostring (minute_bucket t)), (''requests_last_minute'', lua_tostring (calls_this_minute hist team t)),
      (''tokens_today'', lua_tostring (tokens_this_day hist team t)), (''tokens_day'', day_text t)]"

definition hash_ok :: "call list \<Rightarrow> redis \<Rightarrow> string \<Rightarrow> bool" where
  "hash_ok hist r team \<longleftrightarrow>
     (let calls = filter (\<lambda>c. c_team c = team) hist; t = c_at (last calls) in
      if calls = [] then r (hash_key team) = None
      else \<exists>d. r (hash_key team) = Some (RHash (hash_of hist team t), Some d) \<and> (\<forall>u. same_day t u \<longrightarrow> u < d))"

definition counters_ok :: "call list \<Rightarrow> redis \<Rightarrow> bool" where
  "counters_ok hist r \<longleftrightarrow> (\<forall>team. team_ok team \<longrightarrow> hash_ok hist r team \<and>
     (\<forall>t. t < instant_limit \<longrightarrow> rpm_ok hist r team t \<and> tokens_ok hist r team t))"

lemma calls_append [simp]:
  "calls_this_minute (hist @ [c]) team t =
     calls_this_minute hist team t + (if c_team c = team \<and> same_minute t (c_at c) then 1 else 0)"
  "calls_today (hist @ [c]) team t = calls_today hist team t @ (if c_team c = team \<and> same_day t (c_at c) then [c] else [])"
  by (auto simp: calls_this_minute_def calls_today_def same_minute_def same_day_def)

lemma tokens_append [simp]:
  "tokens_this_day (hist @ [c]) team t =
     tokens_this_day hist team t + (if c_team c = team \<and> same_day t (c_at c) then c_tokens c else 0)"
  by (simp add: tokens_this_day_def)

lemma calls_nonneg [simp]: "0 \<le> calls_this_minute hist team t"
  by (simp add: calls_this_minute_def)

text \<open>Incrementing a counter that holds the count of the log.\<close>

lemma incr_absent:
  assumes "r k = None" "bnd (redis_incrby now k n) f r = (Inr x, r')"
  shows "f n (r(k \<mapsto> (RText (int_str n), None))) = (Inr x, r')"
  using assms by (simp add: bnd_def redis_incrby_def live_def)

lemma incr_present:
  assumes "holds_text r k m during" "during now" "bnd (redis_incrby now k n) f r = (Inr x, r')"
  obtains d where "\<forall>u. during u \<longrightarrow> u < d" "f (m + n) (r(k \<mapsto> (RText (int_str (m + n)), Some d))) = (Inr x, r')"
proof -
  obtain d where d: "r k = Some (RText (int_str m), Some d)" "\<forall>u. during u \<longrightarrow> u < d"
    using assms(1) by (auto simp: holds_text_def)
  then have l: "live r now k = Some (RText (int_str m))" "deadline_of r now k = Some d"
    using assms(2) by (auto simp: live_def deadline_of_def linorder_not_less [symmetric])
  show thesis
  proof (rule that [OF d(2)])
    show "f (m + n) (r(k \<mapsto> (RText (int_str (m + n)), Some d))) = (Inr x, r')"
      using assms(3) l
      by (cases "redis_int (int_str m)") (auto simp: bnd_def redis_incrby_def dest!: redis_int_Some split: if_splits)
  qed
qed

lemma expire_present:
  assumes "r k = Some (v, d)" "d = None \<or> (\<exists>x. d = Some x \<and> now < x)"
  shows "bnd (redis_expire now k ttl) f r = f () (r(k \<mapsto> (v, Some (now + ttl * 1000000))))"
  using assms by (auto simp: bnd_def redis_expire_def live_def)

lemma count_step:
  assumes "if fresh then r k = None \<and> m = 0 else holds_text r k m during" "during now"
    "\<forall>u. during u \<longrightarrow> u < now + ttl * 1000000"
    "bnd (redis_incrby now k n) (\<lambda>x. bnd (if x = n then redis_expire now k ttl else ret ()) (\<lambda>_. g x)) r = (Inr y, r')"
  obtains d where "\<forall>u. during u \<longrightarrow> u < d" "g (m + n) (r(k \<mapsto> (RText (int_str (m + n)), Some d))) = (Inr y, r')"
proof (cases fresh)
  case True
  with assms(1) have r: "r k = None" "m = 0" by simp_all
  show thesis
    using incr_absent [OF r(1) assms(4)] r(2) assms(3) by (intro that [of "now + ttl * 1000000"]) (simp_all add: expire_present)
next
  case False
  with assms(1) have "holds_text r k m during" by simp
  from incr_present [OF this assms(2,4)] obtain d where d: "\<forall>u. during u \<longrightarrow> u < d"
    "bnd (if m + n = n then redis_expire now k ttl else ret ()) (\<lambda>_. g (m + n)) (r(k \<mapsto> (RText (int_str (m + n)), Some d))) = (Inr y, r')" .
  have "now < d" using d(1) assms(2) by blast
  show thesis
  proof (cases "m + n = n")
    case True
    with d(2) \<open>now < d\<close> assms(3) show ?thesis by (intro that [of "now + ttl * 1000000"]) (simp_all add: expire_present)
  next
    case False
    with d show ?thesis by (intro that [of d]) (simp_all add: bnd_ret)
  qed
qed

lemma hset_four:
  assumes "r k = None \<or> (\<exists>a b c e d. r k = Some (RHash [(''window_start'', a), (''requests_last_minute'', b), (''tokens_today'', c), (''tokens_day'', e)], Some d))"
    "bnd (redis_hset now k [(''window_start'', a'), (''requests_last_minute'', b'), (''tokens_today'', c'), (''tokens_day'', e')])
       (\<lambda>_. bnd (redis_expire now k ttl) (\<lambda>_. ret x)) r = (Inr y, r')"
  shows "y = x \<and> r' = r(k \<mapsto> (RHash [(''window_start'', a'), (''requests_last_minute'', b'), (''tokens_today'', c'), (''tokens_day'', e')],
    Some (now + ttl * 1000000)))"
proof -
  let ?h = "RHash [(''window_start'', a'), (''requests_last_minute'', b'), (''tokens_today'', c'), (''tokens_day'', e')]"
  let ?r' = "\<lambda>d. (Inr (), r(k \<mapsto> (?h, d)))"
  have "\<exists>d. redis_hset now k [(''window_start'', a'), (''requests_last_minute'', b'), (''tokens_today'', c'), (''tokens_day'', e')] r
      = ?r' d \<and> (d = None \<or> (\<exists>z. d = Some z \<and> now < z))"
    using assms(1)
  proof (elim disjE exE)
    assume "r k = None"
    then show ?thesis by (intro exI [of _ None]) (simp add: redis_hset_def live_def)
  next
    fix a b c e d
    assume "r k = Some (RHash [(''window_start'', a), (''requests_last_minute'', b), (''tokens_today'', c), (''tokens_day'', e)], Some d)"
    then show ?thesis
      by (intro exI [of _ "if d \<le> now then None else Some d"]) (simp add: redis_hset_def live_def deadline_of_def)
  qed
  with assms(2) show ?thesis
    by (auto simp: bnd_def redis_expire_def live_def ret_def split: option.splits)
qed

lemma counted_call_effect:
  assumes "counters_ok hist r" "team_ok team" "now < instant_limit"
    "incr_quota_counters env now now team tokens r = (Some snap, r')" "\<not> sn_unavailable snap"
    "c = \<lparr>c_team = team, c_at = now, c_tokens = max tokens 0\<rparr>"
  obtains d1 d2 where "\<forall>u. same_minute now u \<longrightarrow> u < d1" "\<forall>u. same_day now u \<longrightarrow> u < d2"
    "r' = r(rpm_key team now \<mapsto> (RText (int_str (calls_this_minute (hist @ [c]) team now)), Some d1),
       tokens_key team now \<mapsto> (RText (int_str (tokens_this_day (hist @ [c]) team now)), Some d2),
       hash_key team \<mapsto> (RHash (hash_of (hist @ [c]) team now), Some (now + 172800 * 1000000)))"
    "sn_rpm snap = calls_this_minute (hist @ [c]) team now" "sn_tokens snap = tokens_this_day (hist @ [c]) team now"
proof -
  let ?n = "calls_this_minute hist team now" and ?m = "tokens_this_day hist team now"
  have ok: "hash_ok hist r team" "rpm_ok hist r team now" "tokens_ok hist r team now"
    using assms(1-3) by (simp_all add: counters_ok_def)
  have now: "same_minute now now" "same_day now now" by (simp_all add: same_minute_def same_day_def)
  have min: "\<forall>u. same_minute now u \<longrightarrow> u < now + 120 * 1000000"
    using same_minute_less by (fastforce simp: same_minute_def)
  have day: "\<forall>u. same_day now u \<longrightarrow> u < now + 172800 * 1000000"
    using same_day_less by (fastforce simp: same_day_def day_us_def)
  obtain x where run: "incr_script now (rpm_key team now) (tokens_key team now) (hash_key team) (minute_bucket now)
      (day_text now) (max tokens 0) 120 172800 r = (Inr x, r')" and x: "sn_rpm snap = fst x" "sn_tokens snap = snd x"
    using assms(4,5) unfolding incr_quota_counters_def
    by (auto simp: unavailable_snapshot_def split: if_splits prod.splits sum.splits)
  have "if ?n = 0 then r (rpm_key team now) = None \<and> ?n = 0 else holds_text r (rpm_key team now) ?n (same_minute now)"
    using ok(2) by (simp add: rpm_ok_def split: if_splits)
  from count_step [OF this now(1) min run [unfolded incr_script_def]] obtain d1 where d1: "\<forall>u. same_minute now u \<longrightarrow> u < d1"
    and run1: "bnd (redis_incrby now (tokens_key team now) (max tokens 0)) (\<lambda>sum.
      bnd (if sum = max tokens 0 then redis_expire now (tokens_key team now) 172800 else ret ()) (\<lambda>_.
      bnd (redis_hset now (hash_key team) [(''window_start'', lua_tostring (minute_bucket now)),
         (''requests_last_minute'', lua_tostring (?n + 1)), (''tokens_today'', lua_tostring sum), (''tokens_day'', day_text now)])
      (\<lambda>_. bnd (redis_expire now (hash_key team) (max 120 172800)) (\<lambda>_. ret (?n + 1, sum)))))
      (r(rpm_key team now \<mapsto> (RText (int_str (?n + 1)), Some d1))) = (Inr x, r')" .
  let ?r1 = "r(rpm_key team now \<mapsto> (RText (int_str (?n + 1)), Some d1))"
  have "if calls_today hist team now = [] then ?r1 (tokens_key team now) = None \<and> ?m = 0
      else holds_text ?r1 (tokens_key team now) ?m (same_day now)"
    using ok(3) assms(2) by (simp add: tokens_ok_def holds_text_def tokens_this_day_def split: if_splits)
  from count_step [OF this now(2) day run1] obtain d2 where d2: "\<forall>u. same_day now u \<longrightarrow> u < d2"
    and run2: "bnd (redis_hset now (hash_key team) [(''window_start'', lua_tostring (minute_bucket now)),
         (''requests_last_minute'', lua_tostring (?n + 1)), (''tokens_today'', lua_tostring (?m + max tokens 0)), (''tokens_day'', day_text now)])
      (\<lambda>_. bnd (redis_expire now (hash_key team) (max 120 172800)) (\<lambda>_. ret (?n + 1, ?m + max tokens 0)))
      (?r1(tokens_key team now \<mapsto> (RText (int_str (?m + max tokens 0)), Some d2))) = (Inr x, r')" .
  let ?r2 = "?r1(tokens_key team now \<mapsto> (RText (int_str (?m + max tokens 0)), Some d2))"
  have "?r2 (hash_key team) = None \<or> (\<exists>a b c e d. ?r2 (hash_key team) =
      Some (RHash [(''window_start'', a), (''requests_last_minute'', b), (''tokens_today'', c), (''tokens_day'', e)], Some d))"
    using ok(1) assms(2) by (auto simp: hash_ok_def hash_of_def Let_def split: if_splits)
  from hset_four [OF this run2] have "x = (?n + 1, ?m + max tokens 0)" "r' = ?r2(hash_key team \<mapsto>
      (RHash [(''window_start'', lua_tostring (minute_bucket now)), (''requests_last_minute'', lua_tostring (?n + 1)),
        (''tokens_today'', lua_tostring (?m + max tokens 0)), (''tokens_day'', day_text now)], Some (now + 172800 * 1000000)))"
    by simp_all
  with x now show thesis by (intro that [OF d1 d2]) (simp_all add: assms(6) hash_of_def)
qed

lemma in_same_minute:
  assumes "same_minute t u"
  shows "rpm_key team u = rpm_key team t" "same_minute u = same_minute t" "calls_this_minute hist team u = calls_this_minute hist team t"
  using assms by (auto simp: rpm_key_def same_minute_def calls_this_minute_def)

lemma in_same_day:
  assumes "same_day t u"
  shows "same_day u = same_day t" "calls_today hist team u = calls_today hist team t" "tokens_this_day hist team u = tokens_this_day hist team t"
  using assms by (auto simp: same_day_def calls_today_def tokens_this_day_def)

lemma hash_of_other: "c_team c \<noteq> team \<Longrightarrow> hash_of (hist @ [c]) team t = hash_of hist team t"
  by (simp add: hash_of_def)

lemma counters_kept:
  assumes "counters_ok hist r" "team_ok team" "now < instant_limit"
    "incr_quota_counters env now now team tokens r = (Some snap, r')" "\<not> sn_unavailable snap"
    "c = \<lparr>c_team = team, c_at = now, c_tokens = max tokens 0\<rparr>"
  shows "counters_ok (hist @ [c]) r'"
proof -
  obtain d1 d2 where d: "\<forall>u. same_minute now u \<longrightarrow> u < d1" "\<forall>u. same_day now u \<longrightarrow> u < d2"
    and r': "r' = r(rpm_key team now \<mapsto> (RText (int_str (calls_this_minute (hist @ [c]) team now)), Some d1),
       tokens_key team now \<mapsto> (RText (int_str (tokens_this_day (hist @ [c]) team now)), Some d2),
       hash_key team \<mapsto> (RHash (hash_of (hist @ [c]) team now), Some (now + 172800 * 1000000)))"
    using counted_call_effect [OF assms] by blast
  have now: "same_minute now now" "same_day now now" by (simp_all add: same_minute_def same_day_def)
  have some: "calls_this_minute (hist @ [c]) team now \<noteq> 0" "calls_today (hist @ [c]) team now \<noteq> []"
    using now by (simp_all add: assms(6) add_nonneg_eq_0_iff)
  show ?thesis unfolding counters_ok_def
  proof (intro allI impI conjI)
    fix v assume v: "team_ok v"
    note keys = keys_apart [OF v assms(2)] keys_apart [OF assms(2) v] keys_apart [OF assms(2) assms(2)]
    have ok: "hash_ok hist r v" "\<And>t. t < instant_limit \<Longrightarrow> rpm_ok hist r v t \<and> tokens_ok hist r v t"
      using assms(1) v by (simp_all add: counters_ok_def)
    show "hash_ok (hist @ [c]) r' v"
    proof (cases "v = team")
      case True
      have "\<forall>u. same_day now u \<longrightarrow> u < now + 172800 * 1000000" using same_day_less by (fastforce simp: same_day_def day_us_def)
      with True show ?thesis by (simp add: hash_ok_def Let_def assms(6) r')
    next
      case False
      with ok(1) show ?thesis by (simp add: hash_ok_def Let_def assms(6) r' keys hash_of_other)
    qed
    fix t :: instant assume t: "t < instant_limit"
    show "rpm_ok (hist @ [c]) r' v t"
    proof (cases "v = team \<and> same_minute now t")
      case True
      with some(1) d(1) in_same_minute [OF True [THEN conjunct2]] show ?thesis
        by (simp add: rpm_ok_def holds_text_def r' keys)
    next
      case False
      then have "rpm_key v t \<noteq> rpm_key team now" "\<not> (c_team c = v \<and> same_minute t (c_at c))"
        by (auto simp: keys same_minute_def assms(6))
      with ok(2) [OF t] show ?thesis by (auto simp: rpm_ok_def holds_text_def r' keys)
    qed
    show "tokens_ok (hist @ [c]) r' v t"
    proof (cases "v = team \<and> same_day now t")
      case True
      then have "tokens_key v t = tokens_key team now" using day_text_inj [OF t assms(3)] by (simp add: tokens_key_def same_day_def)
      with True some(2) d(2) in_same_day [OF True [THEN conjunct2]] show ?thesis
        by (simp add: tokens_ok_def holds_text_def r' keys)
    next
      case False
      then have "tokens_key v t \<noteq> tokens_key team now" "\<not> (c_team c = v \<and> same_day t (c_at c))"
        using day_text_inj [OF t assms(3)] by (auto simp: keys same_day_def assms(6))
      with ok(2) [OF t] show ?thesis by (auto simp: tokens_ok_def holds_text_def r' keys)
    qed
  qed
qed

lemma tenant_keys: "starts_with (rpm_key team t) ''ai:tenant:''" "starts_with (tokens_key team t) ''ai:tenant:''"
  "starts_with (hash_key team) ''ai:tenant:''" "\<not> starts_with (month_cost_key team) ''ai:tenant:''"
  by (simp_all add: starts_with_def rpm_key_def tokens_key_def hash_key_def month_cost_key_def)

lemma counters_other:
  assumes "counters_ok hist r" "\<not> starts_with k ''ai:tenant:''"
  shows "counters_ok hist (r(k := v))"
proof -
  have "rpm_key team t \<noteq> k" "tokens_key team t \<noteq> k" "hash_key team \<noteq> k" for team t
    using assms(2) tenant_keys by metis+
  then have eqs: "(r(k := v)) (rpm_key team t) = r (rpm_key team t)" "(r(k := v)) (tokens_key team t) = r (tokens_key team t)"
    "(r(k := v)) (hash_key team) = r (hash_key team)" for team t
    by (metis fun_upd_other)+
  show ?thesis using assms(1) by (simp only: counters_ok_def hash_ok_def rpm_ok_def tokens_ok_def holds_text_def eqs)
qed

lemma counted_ok:
  assumes "counted hist r"
  shows "counters_ok hist r \<and> sorted (map c_at hist) \<and> (\<forall>c\<in>set hist. c_at c < instant_limit)"
  using assms
proof induction
  case counted_none
  then show ?case by (simp add: counters_ok_def hash_ok_def rpm_ok_def tokens_ok_def calls_this_minute_def calls_today_def)
next
  case (counted_call hist r team now env tokens snap r')
  then show ?case using counters_kept [of hist r team now env tokens snap r'] by (auto simp: sorted_append)
next
  case (counted_other hist r k v)
  then show ?case using counters_other by blast
qed

subsection \<open>Reading\<close>

lemma lua_tonumber_int_str:
  assumes "\<bar>i\<bar> < 10 ^ 14"
  shows "lua_tonumber (int_str i) = Some (of_int i)"
proof -
  define d where "d = nat_str (nat \<bar>i\<bar>)"
  have d: "list_all is_digit d" "d \<noteq> []" using nat_str_digits [of "nat \<bar>i\<bar>"] by (simp_all add: d_def)
  have int: "int_str i = (if i < 0 then CHR ''-'' # d else d)" by (simp add: int_str_def d_def)
  have chars: "c \<in> set d \<Longrightarrow> is_digit c" for c using d(1) by (simp add: list_all_iff)
  have not_digit: "\<not> is_digit (CHR ''_'')" "\<not> is_digit (CHR ''e'')" "\<not> is_digit (CHR ''E'')" "\<not> is_digit (CHR ''.'')"
    "\<not> is_digit (CHR ''+'')" "\<not> is_digit (CHR ''-'')"
    by (simp_all add: is_digit_def)
  have last: "is_digit (last d)" and hd: "is_digit (hd d)" using d(2) chars by simp_all
  have strip: "py_strip (int_str i) = int_str i"
    using d(2) is_digit_facts(1) [OF last] is_digit_facts(1) [OF hd] unfolding int by (intro py_strip_clean) (auto simp: is_space_def)
  have sign: "split_sign (int_str i) = (i < 0, d)"
    using d(2) hd not_digit by (cases d) (auto simp: int split_sign_def)
  have no_mark: "\<forall>c\<in>set d. \<not> is_exponent_mark c" using chars not_digit by (auto simp: is_exponent_mark_def)
  then have exp: "split_exponent d = Some (d, 0)" by (simp add: split_exponent_def takeWhile_eq_all_conv [THEN iffD2] dropWhile_eq_Nil_conv [THEN iffD2])
  have "\<forall>c\<in>set d. c \<noteq> CHR ''.''" using chars not_digit by auto
  then have "partition_char (CHR ''.'') d = (d, False, [])" by (simp add: partition_char_def dropWhile_eq_Nil_conv [THEN iffD2])
  then have mant: "mantissa d = Some (nat \<bar>i\<bar>, 0)"
    using d digits_to_nat_nat_str by (simp add: mantissa_def Let_def digit_groups_digits d_def)
  have "fl (of_int i) = of_int i" "fl (of_int (- i)) = of_int (- i)" using assms by (intro fl_of_int; simp)+
  then have "float_of_text (int_str i) = Some (of_int i)"
    by (simp add: float_of_text_def strip sign exp mant Let_def pow10_def)
  moreover have "CHR ''_'' \<notin> set (int_str i)" using chars not_digit by (auto simp: int)
  ultimately show ?thesis by (simp add: lua_tonumber_def)
qed

lemma lua_text: "\<bar>i\<bar> < 10 ^ 14 \<Longrightarrow> lua_tostring i = int_str i"
  by (simp add: lua_tostring_def)

lemma minute_bucket_small: "t < instant_limit \<Longrightarrow> \<bar>minute_bucket t\<bar> < 10 ^ 14"
proof -
  assume "t < instant_limit"
  then have "t div 1000000 < 3652059 * 86400" by (simp add: instant_limit_def day_us_def less_mult_imp_div_less)
  then have "int (t div 1000000 div 60) * 60 < 3652059 * 86400" by linarith
  then show ?thesis by (simp add: minute_bucket_eq epoch_def)
qed

lemma minute_over:
  assumes "t \<le> now"
  shows "60 \<le> unix_time now - of_int (minute_bucket t) \<longleftrightarrow> minute_bucket t \<noteq> minute_bucket now"
proof -
  define a where "a = t div 1000000 div 60"
  define b where "b = now div 1000000 div 60"
  have le: "a \<le> b" unfolding a_def b_def using assms by (intro div_le_mono)
  have "b * 60000000 \<le> now" "now < (b + 1) * 60000000"
    by (simp_all add: b_def div_mult2_eq [symmetric] dividend_less_div_times mult.commute)
  then have "(of_nat (b * 60000000) :: rat) \<le> of_nat now" "(of_nat now :: rat) < of_nat ((b + 1) * 60000000)"
    by (simp_all only: of_nat_le_iff of_nat_less_iff)
  then have now: "of_nat b * 60 \<le> (of_nat now / 1000000 :: rat)" "(of_nat now / 1000000 :: rat) < (of_nat b + 1) * 60"
    by (simp_all add: field_simps)
  have diff: "unix_time now - of_int (minute_bucket t) = of_nat now / 1000000 - of_nat a * 60"
    by (simp add: unix_time_def minute_bucket_eq a_def)
  show ?thesis
  proof (cases "a = b")
    case True
    with now have "\<not> 60 \<le> (of_nat now / 1000000 - of_nat a * 60 :: rat)" by (simp add: algebra_simps)
    with True show ?thesis unfolding diff by (simp add: minute_bucket_eq a_def b_def)
  next
    case False
    with le have "(of_nat (a + 1) :: rat) \<le> of_nat b" by (simp only: of_nat_le_iff)
    with now(1) have "60 \<le> (of_nat now / 1000000 - of_nat a * 60 :: rat)" by (simp add: algebra_simps)
    moreover have "minute_bucket t \<noteq> minute_bucket now" using False by (simp add: minute_bucket_eq a_def b_def)
    ultimately show ?thesis unfolding diff by simp
  qed
qed

lemma minute_bucket_mono: "s \<le> t \<Longrightarrow> minute_bucket s \<le> minute_bucket t"
  by (simp add: minute_bucket_eq div_le_mono)

lemma le_last:
  assumes "sorted (map c_at hist)" "c \<in> set hist" "c_team c = team"
  shows "c_at c \<le> c_at (last (filter (\<lambda>c. c_team c = team) hist))"
proof -
  let ?calls = "filter (\<lambda>c. c_team c = team) hist"
  have c: "c \<in> set ?calls" using assms(2,3) by simp
  then have ne: "?calls \<noteq> []" by (metis empty_iff empty_set)
  have "sorted (map c_at (butlast ?calls @ [last ?calls]))" using sorted_filter [OF assms(1)] ne by simp
  moreover have "c \<in> set (butlast ?calls) \<or> c = last ?calls" using c ne by (metis append_butlast_last_id in_set_conv_decomp Un_iff set_append insert_iff empty_iff list.set)
  ultimately show ?thesis by (auto simp: sorted_append)
qed

text \<open>The last call of a team tells whether this minute, or this day, has any.\<close>

lemma since_last_call:
  assumes "sorted (map c_at hist)" "\<forall>c\<in>set hist. c_at c \<le> now" "filter (\<lambda>c. c_team c = team) hist \<noteq> []"
  defines "t \<equiv> c_at (last (filter (\<lambda>c. c_team c = team) hist))"
  shows "calls_this_minute hist team now = (if same_minute now t then calls_this_minute hist team t else 0)"
    "calls_today hist team now = (if same_day now t then calls_today hist team t else [])" "t \<le> now"
proof -
  have "last (filter (\<lambda>c. c_team c = team) hist) \<in> set hist" using last_in_set [OF assms(3)] by simp
  then show le: "t \<le> now" using assms(2) by (simp add: t_def)
  have between: "c_at c \<le> t" if "c \<in> set hist" "c_team c = team" for c
    using le_last [OF assms(1) that] by (simp add: t_def)
  have "same_minute now t" if "c \<in> set hist" "c_team c = team" "same_minute now (c_at c)" for c
    using minute_bucket_mono [OF between [OF that(1,2)]] minute_bucket_mono [OF le] that(3) by (simp add: same_minute_def)
  then show "calls_this_minute hist team now = (if same_minute now t then calls_this_minute hist team t else 0)"
    using in_same_minute(3) [of now t] by (auto simp: calls_this_minute_def same_minute_def filter_empty_conv)
  have "same_day now t" if "c \<in> set hist" "c_team c = team" "same_day now (c_at c)" for c
    using div_le_mono [OF between [OF that(1,2)], of day_us] div_le_mono [OF le, of day_us] that(3) by (simp add: same_day_def)
  then show "calls_today hist team now = (if same_day now t then calls_today hist team t else [])"
    using in_same_day(2) [of now t] by (auto simp: calls_today_def same_day_def filter_empty_conv)
qed

lemma hash_live:
  assumes "counters_ok hist r" "team_ok team"
  shows "redis_hgetall r now (hash_key team) = Inr [] \<and>
      (filter (\<lambda>c. c_team c = team) hist = [] \<or> \<not> same_day now (c_at (last (filter (\<lambda>c. c_team c = team) hist)))) \<or>
    filter (\<lambda>c. c_team c = team) hist \<noteq> [] \<and>
      redis_hgetall r now (hash_key team) = Inr (hash_of hist team (c_at (last (filter (\<lambda>c. c_team c = team) hist))))"
proof -
  let ?calls = "filter (\<lambda>c. c_team c = team) hist"
  have ok: "hash_ok hist r team" using assms by (simp add: counters_ok_def)
  show ?thesis
  proof (cases "?calls = []")
    case True
    with ok show ?thesis by (simp add: hash_ok_def Let_def redis_hgetall_def live_def)
  next
    case False
    with ok obtain d where d: "r (hash_key team) = Some (RHash (hash_of hist team (c_at (last ?calls))), Some d)"
      "\<forall>u. same_day (c_at (last ?calls)) u \<longrightarrow> u < d" by (auto simp: hash_ok_def Let_def)
    then have "d \<le> now \<Longrightarrow> \<not> same_day now (c_at (last ?calls))" by (auto simp: same_day_def)
    with d(1) False show ?thesis by (auto simp: redis_hgetall_def live_def)
  qed
qed

lemma read_fresh:
  assumes "counters_ok hist r" "sorted (map c_at hist)" "\<forall>c\<in>set hist. c_at c \<le> now" "now < instant_limit" "team_ok team"
    "calls_today hist team now = []"
  shows "read_script r now (hash_key team) (unix_time now) (day_text now) = Inr (0, 0)"
proof -
  let ?calls = "filter (\<lambda>c. c_team c = team) hist"
  define t where "t = c_at (last ?calls)"
  from hash_live [OF assms(1,5), of now] show ?thesis
  proof (elim disjE conjE)
    assume h: "?calls \<noteq> []" "redis_hgetall r now (hash_key team) = Inr (hash_of hist team (c_at (last ?calls)))"
    note since = since_last_call [OF assms(2,3) h(1), folded t_def]
    have "last ?calls \<in> set (calls_today hist team now)" if "same_day now t"
      using that last_in_set [OF h(1)] by (simp add: calls_today_def same_day_def t_def)
    with assms(6) have day: "\<not> same_day now t" by auto
    then have "minute_bucket t \<noteq> minute_bucket now" using same_minute_same_day [of t now] unfolding same_day_def by metis
    moreover have lt: "t < instant_limit" using since(3) assms(4) by simp
    ultimately have "60 \<le> unix_time now - lua_field (hash_of hist team t) ''window_start''"
      using minute_over [OF since(3)] minute_bucket_small [OF lt]
      by (simp add: lua_field_def hash_of_def lua_text lua_tonumber_int_str)
    moreover have "day_text t \<noteq> day_text now" using day day_text_inj [OF lt assms(4)] by (simp add: same_day_def)
    moreover have "get_default (hash_of hist team t) ''tokens_day'' [] = day_text t" "hash_of hist team t \<noteq> []"
      by (simp_all add: get_default_def hash_of_def)
    moreover have "int_of_float 0 = 0" by (simp add: int_of_float_def)
    ultimately show ?thesis using h(2) by (simp only: read_script_def t_def [symmetric] rbind_simps if_True if_False not_False_eq_True simp_thms)
  qed (simp_all add: read_script_def)
qed

lemma minute_in_day: "calls_today hist team now = [] \<Longrightarrow> calls_this_minute hist team now = 0"
  by (auto simp: calls_today_def calls_this_minute_def filter_empty_conv dest: same_minute_same_day)

lemma read_rpm: "rpm_ok hist r team now \<Longrightarrow> rbind (redis_get r now (rpm_key team now)) as_int =
    Inr (if calls_this_minute hist team now = 0 then None else Some (calls_this_minute hist team now))"
  by (auto simp: rpm_ok_def holds_text_def redis_get_def live_def same_minute_def as_int_def [of None] split: if_splits)

lemma read_tokens: "tokens_ok hist r team now \<Longrightarrow> rbind (redis_get r now (tokens_key team now)) as_int =
    Inr (if calls_today hist team now = [] then None else Some (tokens_this_day hist team now))"
  by (auto simp: tokens_ok_def holds_text_def redis_get_def live_def same_day_def as_int_def [of None] split: if_splits)

lemma counters_read:
  assumes "counted hist r" "\<forall>c\<in>set hist. c_at c \<le> now" "now < instant_limit" "team_ok team"
  shows "read_counters r now now team = Inr (calls_this_minute hist team now, tokens_this_day hist team now)"
proof -
  have ok: "counters_ok hist r" "sorted (map c_at hist)" using counted_ok [OF assms(1)] by simp_all
  then have k: "rpm_ok hist r team now" "tokens_ok hist r team now" using assms(3,4) by (simp_all add: counters_ok_def)
  show ?thesis using read_fresh [OF ok assms(2-4)] minute_in_day [of hist team now]
    by (cases "calls_today hist team now = []")
      (simp_all add: read_counters_def read_rpm [OF k(1)] read_tokens [OF k(2)] none_0_def tokens_this_day_def)
qed

text \<open>C26: The counters count. Whatever calls were counted, by which teams and in which order, what is read for a team
  is the number of its calls in the current minute and the sum of its tokens of the current day: counters expire no
  earlier than what they count, teams do not share keys, and a day without calls reads as zero through the older
  hash.\<close>

theorem quota_counts_calls:
  assumes "counted hist r" "\<forall>c\<in>set hist. c_at c \<le> now" "now < instant_limit" "team_ok team"
    "get_quota_redis_url env \<noteq> None" "qe_up env" "rbind (redis_get r now (month_cost_key team)) month_cost_of = Inr cost"
  shows "read_quota_state env now now team r = Some \<lparr>sn_team = team, sn_rpm = calls_this_minute hist team now,
    sn_tokens = tokens_this_day hist team now, sn_month_cost = cost, sn_source = ''redis'', sn_unavailable = False\<rparr>"
  using assms(5-7) counters_read [OF assms(1-4)] by (simp add: read_quota_state_def)

lemma lua_field_number: "\<bar>i\<bar> < 10 ^ 14 \<Longrightarrow> map_of h k = Some (lua_tostring i) \<Longrightarrow> lua_field h k = of_int i"
  by (simp add: lua_field_def lua_text lua_tonumber_int_str)

lemma state_field_number:
  assumes "\<bar>i\<bar> < 10 ^ 14" "map_of h k = Some (lua_tostring i)"
  shows "state_field py_int h k = Inr i" "state_field py_float h k = Inr (of_int i)"
  using assms lua_tonumber_int_str [OF assms(1)] int_str_ne [of i]
  by (simp_all add: state_field_def lua_text lua_tonumber_def split: if_splits)

text \<open>The reader of the hash in Lua and the one in Python agree on what the increment script writes.\<close>

lemma hash_readers:
  assumes "t \<le> now" "now < instant_limit" "calls_this_minute hist team t < 10 ^ 14" "\<bar>tokens_this_day hist team t\<bar> < 10 ^ 14"
    "redis_hgetall r now (hash_key team) = Inr (hash_of hist team t)"
  defines "answer \<equiv> (if same_minute now t then calls_this_minute hist team t else 0, if same_day now t then tokens_this_day hist team t else 0)"
  shows "read_script r now (hash_key team) (unix_time now) (day_text now) = Inr answer"
    "normalize_state (hash_of hist team t) now now = Inr answer"
proof -
  let ?h = "hash_of hist team t"
  have lt: "t < instant_limit" using assms(1,2) by simp
  have fields: "map_of ?h ''window_start'' = Some (lua_tostring (minute_bucket t))"
    "map_of ?h ''requests_last_minute'' = Some (lua_tostring (calls_this_minute hist team t))"
    "map_of ?h ''tokens_today'' = Some (lua_tostring (tokens_this_day hist team t))"
    "get_default ?h ''tokens_day'' [] = day_text t" "?h \<noteq> []"
    by (simp_all add: hash_of_def get_default_def)
  have small: "\<bar>minute_bucket t\<bar> < 10 ^ 14" "\<bar>calls_this_minute hist team t\<bar> < 10 ^ 14"
    using minute_bucket_small [OF lt] assms(3) calls_nonneg [of hist team t] by simp_all
  note lua = lua_field_number [OF small(1) fields(1)] lua_field_number [OF small(2) fields(2)] lua_field_number [OF assms(4) fields(3)]
  note py = state_field_number(2) [OF small(1) fields(1)] state_field_number(1) [OF small(2) fields(2)]
    state_field_number(1) [OF assms(4) fields(3)]
  have over: "60 \<le> unix_time now - of_int (minute_bucket t) \<longleftrightarrow> \<not> same_minute now t" "day_text t \<noteq> day_text now \<longleftrightarrow> \<not> same_day now t"
    using minute_over [OF assms(1)] day_text_inj [OF lt assms(2)] by (simp_all add: same_minute_def same_day_def)
  have zero: "int_of_float 0 = 0" by (simp add: int_of_float_def)
  show "read_script r now (hash_key team) (unix_time now) (day_text now) = Inr answer"
    by (simp add: read_script_def assms(5) fields(4,5) lua over answer_def zero)
  show "normalize_state ?h now now = Inr answer"
    by (simp add: normalize_state_def py fields(4,5) over answer_def)
qed

text \<open>Three readers, one answer. As long as the counts stay below the fourteen digits Lua writes in full, the
  older hash says what the counters say, whether the Lua script reads it or \<open>_normalize_state\<close>.\<close>

theorem quota_readers_agree:
  assumes "counted hist r" "\<forall>c\<in>set hist. c_at c \<le> now" "now < instant_limit" "team_ok team"
    "\<forall>t. calls_this_minute hist team t < 10 ^ 14 \<and> \<bar>tokens_this_day hist team t\<bar> < 10 ^ 14"
    "redis_hgetall r now (hash_key team) = Inr h"
  shows "read_script r now (hash_key team) (unix_time now) (day_text now) = read_counters r now now team \<and>
    normalize_state h now now = read_counters r now now team"
proof -
  let ?calls = "filter (\<lambda>c. c_team c = team) hist"
  let ?t = "c_at (last ?calls)"
  have ok: "counters_ok hist r" "sorted (map c_at hist)" using counted_ok [OF assms(1)] by simp_all
  have counters: "read_counters r now now team = Inr (calls_this_minute hist team now, tokens_this_day hist team now)"
    using counters_read [OF assms(1-4)] .
  from hash_live [OF ok(1) assms(4), of now] show ?thesis
  proof (elim disjE conjE)
    assume "redis_hgetall r now (hash_key team) = Inr []" "?calls = []"
    then show ?thesis using assms(6) unfolding counters
      by (auto simp: read_script_def normalize_state_def calls_this_minute_def tokens_this_day_def calls_today_def filter_empty_conv)
  next
    assume none: "redis_hgetall r now (hash_key team) = Inr []" "\<not> same_day now ?t"
    then have "calls_today hist team now = []"
      using since_last_call(2) [OF ok(2) assms(2), of team] by (cases "?calls = []") (auto simp: calls_today_def filter_empty_conv)
    then show ?thesis using assms(6) none(1) minute_in_day [of hist team now] unfolding counters
      by (simp add: read_script_def normalize_state_def tokens_this_day_def)
  next
    assume h: "?calls \<noteq> []" "redis_hgetall r now (hash_key team) = Inr (hash_of hist team ?t)"
    note since = since_last_call [OF ok(2) assms(2) h(1)]
    have answer: "(if same_minute now ?t then calls_this_minute hist team ?t else 0,
        if same_day now ?t then tokens_this_day hist team ?t else 0) =
      (calls_this_minute hist team now, tokens_this_day hist team now)"
      using since(1,2) by (simp add: tokens_this_day_def)
    show ?thesis using hash_readers [OF since(3) assms(3) _ _ h(2)] assms(5,6) h(2) unfolding counters answer by simp
  qed
qed

text \<open>One call on an empty Redis.\<close>

definition demo_env :: quota_env where
  "demo_env = \<lparr>qe_url = ''redis'', qe_up = True\<rparr>"

definition demo_call :: call where
  "demo_call = \<lparr>c_team = ''acme'', c_at = 63900000000000000, c_tokens = 10\<rparr>"

lemma demo_call_counted:
  obtains r where "counted [demo_call] r" "r (month_cost_key ''acme'') = None"
proof -
  let ?t = "63900000000000000 :: instant"
  have team: "team_ok ''acme''" by (simp add: team_ok_def)
  note keys = keys_apart [OF team team]
  have "month_cost_key ''acme'' \<noteq> k" if "starts_with k ''ai:tenant:''" for k using that tenant_keys(4) by blast
  note cost = this [OF tenant_keys(1)] this [OF tenant_keys(2)] this [OF tenant_keys(3)]
  have "get_quota_redis_url demo_env \<noteq> None" "qe_up demo_env"
    by (simp_all add: get_quota_redis_url_def demo_env_def py_strip_def py_lstrip_def is_space_def)
  then obtain snap r where "incr_quota_counters demo_env ?t ?t ''acme'' 10 (\<lambda>_. None) = (Some snap, r)"
    "\<not> sn_unavailable snap" "r (month_cost_key ''acme'') = None"
    by (simp add: incr_quota_counters_def incr_script_def bnd_def redis_incrby_def redis_expire_def redis_hset_def live_def keys ret_def cost)
  moreover have "?t < instant_limit" by (simp add: instant_limit_def day_us_def)
  ultimately have "counted ([] @ [\<lparr>c_team = ''acme'', c_at = ?t, c_tokens = max 10 0\<rparr>]) r"
    using team by (intro counted_call [OF counted_none]) auto
  with \<open>r (month_cost_key ''acme'') = None\<close> that show thesis by (simp add: demo_call_def)
qed

lemma demo_counts:
  "calls_this_minute [demo_call] ''acme'' 63900000000000000 = 1" "tokens_this_day [demo_call] ''acme'' 63900000000000000 = 10"
  "calls_this_minute [demo_call] team t < 10 ^ 14" "\<bar>tokens_this_day [demo_call] team t\<bar> < 10 ^ 14"
  by (simp_all add: calls_this_minute_def tokens_this_day_def calls_today_def demo_call_def)

theorem quota_counts_calls_witness:
  "\<exists>r. counted [demo_call] r \<and> read_quota_state demo_env (c_at demo_call) (c_at demo_call) ''acme'' r =
     Some \<lparr>sn_team = ''acme'', sn_rpm = 1, sn_tokens = 10, sn_month_cost = 0, sn_source = ''redis'', sn_unavailable = False\<rparr>"
proof -
  obtain r where r: "counted [demo_call] r" "r (month_cost_key ''acme'') = None" using demo_call_counted .
  have "rbind (redis_get r (c_at demo_call) (month_cost_key ''acme'')) month_cost_of = Inr 0"
    by (simp add: redis_get_def live_def r(2) month_cost_of_def as_int_def)
  moreover have "get_quota_redis_url demo_env \<noteq> None"
    by (simp add: get_quota_redis_url_def demo_env_def py_strip_def py_lstrip_def is_space_def)
  ultimately have "read_quota_state demo_env (c_at demo_call) (c_at demo_call) ''acme'' r = Some \<lparr>sn_team = ''acme'',
      sn_rpm = calls_this_minute [demo_call] ''acme'' (c_at demo_call), sn_tokens = tokens_this_day [demo_call] ''acme'' (c_at demo_call),
      sn_month_cost = 0, sn_source = ''redis'', sn_unavailable = False\<rparr>"
    by (intro quota_counts_calls [OF r(1)]) (simp_all add: demo_call_def instant_limit_def day_us_def team_ok_def demo_env_def)
  with r(1) demo_counts(1,2) show ?thesis by (auto simp: demo_call_def)
qed

theorem quota_readers_agree_witness:
  "\<exists>r h. counted [demo_call] r \<and> redis_hgetall r (c_at demo_call) (hash_key ''acme'') = Inr h \<and>
     normalize_state h (c_at demo_call) (c_at demo_call) = read_counters r (c_at demo_call) (c_at demo_call) ''acme''"
proof -
  obtain r where r: "counted [demo_call] r" using demo_call_counted by blast
  have team: "team_ok ''acme''" by (simp add: team_ok_def)
  obtain h where h: "redis_hgetall r (c_at demo_call) (hash_key ''acme'') = Inr h"
    using hash_live [OF _ team, of "[demo_call]" r "c_at demo_call"] counted_ok [OF r] by blast
  have "normalize_state h (c_at demo_call) (c_at demo_call) = read_counters r (c_at demo_call) (c_at demo_call) ''acme''"
    using quota_readers_agree [OF r _ _ team _ h] demo_counts(3,4) by (simp add: demo_call_def instant_limit_def day_us_def)
  with r h show ?thesis by blast
qed

end
