(* ===== verification/Quota_Engine.thy ===== *)
theory Quota_Engine
  imports Gov_Request Table_Files Py_Float
begin

text \<open>
  Tenant quotas, \<open>governance/quota/evaluate.py\<close>: the reader of the policy file and the decision on a
  request. Policies map a team to its limits.
\<close>

subsection \<open>Reading the policies\<close>

record quota_reader =
  qr_section :: "string option"
  qr_tenant :: "string option"
  qr_policies :: table

definition quota_step :: "quota_reader \<Rightarrow> config_line \<Rightarrow> quota_reader result" where
  "quota_step s l =
     (if l_indent l = 0 \<and> l_text l = ''tenants:'' then Inr (s\<lparr>qr_section := Some ''tenants''\<rparr>)
      else if qr_section s \<noteq> Some ''tenants''
        then Inl (ValueError (''unsupported quota policy line: '' @ l_raw l))
      else if l_indent l = 2 \<and> ends_with (l_text l) '':''
        then (let name = butlast (l_text l) in
              Inr (s\<lparr>qr_tenant := Some name, qr_policies := dict_set name [] (qr_policies s)\<rparr>))
      else case qr_tenant s of
        None \<Rightarrow> Inl (ValueError (''unsupported quota policy line: '' @ l_raw l))
      | Some name \<Rightarrow>
          if l_indent l = 4
          then (let (key, _, value) = partition_char (CHR '':'') (l_text l) in
                if key = [] \<or> value = []
                then Inl (ValueError (''unsupported quota entry: '' @ l_raw l))
                else Inr (s\<lparr>qr_policies := set_in name key (parse_scalar value) (qr_policies s)\<rparr>))
          else Inl (ValueError (''unsupported quota policy line: '' @ l_raw l)))"

definition quota_start :: quota_reader where
  "quota_start = \<lparr>qr_section = None, qr_tenant = None, qr_policies = []\<rparr>"

definition parse_policies :: "string \<Rightarrow> table result" where
  "parse_policies text =
     rbind (read_lines quota_step quota_start (config_lines text)) (\<lambda>s. Inr (qr_policies s))"

subsection \<open>Evaluation\<close>

text \<open>A limit from the policy, scaled by the pack's multiplier unless it is 0.\<close>

definition scaled_limit :: "pyobj \<Rightarrow> string \<Rightarrow> rat \<Rightarrow> int result" where
  "scaled_limit tenant key multiplier =
     rbind (py_int (get_default tenant key (PInt 0)))
       (\<lambda>n. Inr (if n \<noteq> 0 then int_of_float (fmul (float_of_int n) multiplier) else 0))"

definition budget_reason :: "pyobj \<Rightarrow> row \<Rightarrow> string list result" where
  "budget_reason tenant rw =
     (let budget = get_none tenant ''max_monthly_budget_usd'';
          total = fadd (rw_month_to_date_cost_usd rw) (rw_cost_per_request_usd rw)
      in if budget = PNone then Inr []
         else rbind (py_float budget) (\<lambda>b. Inr (reason_if (total > b)
           (''team '' @ rw_team rw @ '' would exceed max_monthly_budget_usd ('' @ float_repr total @ ''/'' @ py_str budget @ '')''))))"

definition evaluate_request :: "row \<Rightarrow> table \<Rightarrow> verdict result" where
  "evaluate_request rw policies =
     (case map_of policies (rw_team rw) of
        None \<Rightarrow> Inr (verdict_of ''block'' [''team '' @ rw_team rw @ '' is not onboarded for tenant quotas''])
      | Some tenant \<Rightarrow>
          (let multiplier = (case rw_multiplier rw of None \<Rightarrow> 1 | Some m \<Rightarrow> m);
               projected = rw_tokens_today rw + (rw_input_tokens rw + rw_output_tokens rw)
           in rbind (scaled_limit tenant ''requests_per_minute'' multiplier) (\<lambda>rpm.
              rbind (scaled_limit tenant ''tokens_per_day'' multiplier) (\<lambda>tokens.
              rbind (budget_reason tenant rw) (\<lambda>budget.
              let reasons =
                reason_if (rpm \<noteq> 0 \<and> rpm \<le> rw_requests_last_minute rw)
                  (''team '' @ rw_team rw @ '' exceeded requests_per_minute ('' @
                   int_str (rw_requests_last_minute rw) @ ''/'' @ int_str rpm @ '')'') @
                reason_if (tokens \<noteq> 0 \<and> tokens < projected)
                  (''team '' @ rw_team rw @ '' would exceed tokens_per_day ('' @ int_str projected @
                   ''/'' @ int_str tokens @ '')'') @
                budget @
                reason_if (rw_sensitive_data rw \<and> \<not> truthy (get_default tenant ''sensitive_data_allowed'' (PBool False)))
                  (''team '' @ rw_team rw @ '' is not allowed to process sensitive data'')
              in Inr (if reasons \<noteq> [] then verdict_of ''block'' reasons
                      else verdict_of ''allow'' [''tenant quota checks passed'']))))))"

subsection \<open>The reader\<close>

text \<open>
  The invariant of the reader: entries go to a tenant of the table, tenants and the keys of a tenant
  occur once.
\<close>

definition quota_inv :: "quota_reader \<Rightarrow> bool" where
  "quota_inv s \<longleftrightarrow> keys_distinct (qr_policies s) \<and>
     (\<forall>n. qr_tenant s = Some n \<longrightarrow> n \<in> fst ` set (qr_policies s) \<and> qr_section s = Some ''tenants'')"

interpretation quota_reader: line_reader quota_step quota_start quota_inv
proof
  show "quota_inv quota_start" by (simp add: quota_inv_def quota_start_def)
next
  fix s l s' assume inv: "quota_inv s" and step: "quota_step s l = Inr s'"
  consider "s' = s\<lparr>qr_section := Some ''tenants''\<rparr>"
    | n where "s' = s\<lparr>qr_tenant := Some n, qr_policies := dict_set n [] (qr_policies s)\<rparr>" "qr_section s = Some ''tenants''"
    | n k v where "qr_tenant s = Some n" "s' = s\<lparr>qr_policies := set_in n k v (qr_policies s)\<rparr>"
    using step by (auto simp: quota_step_def Let_def split: if_splits option.splits prod.splits)
  then show "quota_inv s'"
  proof cases
    case 2
    then show ?thesis using inv by (auto simp: quota_inv_def fst_dict_set)
  next
    case 3
    then show ?thesis using inv by (auto simp: quota_inv_def keys_set_in)
  qed (use inv in \<open>auto simp: quota_inv_def\<close>)
qed

interpretation quota_table: table_reading quota_step
  "\<lambda>cur t. \<lparr>qr_section = Some ''tenants'', qr_tenant = cur, qr_policies = t\<rparr>"
  by unfold_locales (auto simp: quota_step_def Let_def)

text \<open>The quota file of a table.\<close>

definition quota_lines :: "table \<Rightarrow> (nat \<times> string) list" where
  "quota_lines t = (0, ''tenants:'') # concat (map group_lines t)"

text \<open>The quota file is read as it is written: for every table of tenants with printable names and
  scalars that the format can express, among them all integers and booleans, the reader returns the
  table from its text.\<close>

theorem quota_file_roundtrip:
  assumes "table_ok t"
  shows "parse_policies (file_text (quota_lines t)) = Inr t"
proof -
  let ?st = "\<lambda>cur u. \<lparr>qr_section = Some ''tenants'', qr_tenant = cur, qr_policies = u\<rparr>"
  have "list_all line_ok (quota_lines t)"
    using line_ok_table [OF assms] by (simp add: quota_lines_def line_ok_def plain_def is_space_def is_line_end_def)
  moreover have "quota_step quota_start (read_line (0, ''tenants:'')) = Inr (?st None [])"
    by (simp add: quota_step_def quota_start_def read_line_def)
  moreover obtain c where
    "read_lines quota_step (?st None []) (map read_line (concat (map group_lines t))) = Inr (?st c t)"
    using quota_table.read_table [of "[]" t None] assms by auto
  ultimately show ?thesis
    by (simp add: parse_policies_def config_lines_file_text) (simp add: quota_lines_def)
qed

theorem quota_file_roundtrip_witness:
  "parse_policies (file_text (quota_lines [(''core'', [(''requests_per_minute'', PInt 60), (''sensitive_data_allowed'', PBool True)])]))
    = Inr [(''core'', [(''requests_per_minute'', PInt 60), (''sensitive_data_allowed'', PBool True)])]"
proof (rule quota_file_roundtrip)
  show "table_ok [(''core'', [(''requests_per_minute'', PInt 60), (''sensitive_data_allowed'', PBool True)])]" by code_simp
qed

subsection \<open>Decisions\<close>

text \<open>What a decision rests on: the limits after scaling, the usage with this request counted.\<close>

definition rate_exceeded :: "row \<Rightarrow> int \<Rightarrow> bool" where
  "rate_exceeded rw rpm \<longleftrightarrow> rpm \<noteq> 0 \<and> rpm \<le> rw_requests_last_minute rw"

definition tokens_exceeded :: "row \<Rightarrow> int \<Rightarrow> bool" where
  "tokens_exceeded rw tokens \<longleftrightarrow> tokens \<noteq> 0 \<and> tokens < rw_tokens_today rw + (rw_input_tokens rw + rw_output_tokens rw)"

definition budget_exceeded :: "row \<Rightarrow> rat option \<Rightarrow> bool" where
  "budget_exceeded rw budget \<longleftrightarrow> (case budget of None \<Rightarrow> False
     | Some b \<Rightarrow> b < fadd (rw_month_to_date_cost_usd rw) (rw_cost_per_request_usd rw))"

definition pack_multiplier :: "row \<Rightarrow> rat" where
  "pack_multiplier rw = (case rw_multiplier rw of None \<Rightarrow> 1 | Some m \<Rightarrow> m)"

lemma budget_reason_Inr:
  assumes "budget_reason tenant rw = Inr rs"
  obtains budget where "rs = [] \<longleftrightarrow> \<not> budget_exceeded rw budget"
    "\<And>rw'. \<exists>rs'. budget_reason tenant rw' = Inr rs' \<and> (rs' = [] \<longleftrightarrow> \<not> budget_exceeded rw' budget)"
proof (cases "get_none tenant ''max_monthly_budget_usd'' = PNone")
  case True
  with assms have "rs = [] \<longleftrightarrow> \<not> budget_exceeded rw None" by (simp add: budget_reason_def budget_exceeded_def)
  then show ?thesis by (rule that) (simp add: True budget_reason_def budget_exceeded_def)
next
  case False
  with assms obtain b where b: "py_float (get_none tenant ''max_monthly_budget_usd'') = Inr b"
    by (auto simp: budget_reason_def Let_def rbind_Inr)
  with False assms have "rs = [] \<longleftrightarrow> \<not> budget_exceeded rw (Some b)"
    by (auto simp: budget_reason_def Let_def budget_exceeded_def)
  then show ?thesis by (rule that) (simp add: False b budget_reason_def Let_def budget_exceeded_def)
qed

lemma evaluate_request_Inr:
  assumes "evaluate_request rw policies = Inr v" "map_of policies (rw_team rw) = Some tenant"
  obtains rpm tokens budget where
    "scaled_limit tenant ''requests_per_minute'' (pack_multiplier rw) = Inr rpm"
    "scaled_limit tenant ''tokens_per_day'' (pack_multiplier rw) = Inr tokens"
    "\<And>rw'. \<exists>rs. budget_reason tenant rw' = Inr rs \<and> (rs = [] \<longleftrightarrow> \<not> budget_exceeded rw' budget)"
    "v_decision v = (if rate_exceeded rw rpm \<or> tokens_exceeded rw tokens \<or> budget_exceeded rw budget \<or>
       (rw_sensitive_data rw \<and> \<not> truthy (get_default tenant ''sensitive_data_allowed'' (PBool False))) then ''block'' else ''allow'')"
proof -
  obtain rpm tokens rs where l: "scaled_limit tenant ''requests_per_minute'' (pack_multiplier rw) = Inr rpm"
    "scaled_limit tenant ''tokens_per_day'' (pack_multiplier rw) = Inr tokens" "budget_reason tenant rw = Inr rs"
    using assms by (auto simp: evaluate_request_def Let_def rbind_Inr pack_multiplier_def)
  from l(3) obtain budget where b: "rs = [] \<longleftrightarrow> \<not> budget_exceeded rw budget"
    "\<And>rw'. \<exists>rs'. budget_reason tenant rw' = Inr rs' \<and> (rs' = [] \<longleftrightarrow> \<not> budget_exceeded rw' budget)"
    by (rule budget_reason_Inr) blast
  have "v_decision v = (if rate_exceeded rw rpm \<or> tokens_exceeded rw tokens \<or> rs \<noteq> [] \<or>
       (rw_sensitive_data rw \<and> \<not> truthy (get_default tenant ''sensitive_data_allowed'' (PBool False))) then ''block'' else ''allow'')"
    using assms l by (auto simp: evaluate_request_def Let_def rbind_Inr rate_exceeded_def tokens_exceeded_def reason_if_def
        simp flip: pack_multiplier_def split: if_splits)
  with b(1) have "v_decision v = (if rate_exceeded rw rpm \<or> tokens_exceeded rw tokens \<or> budget_exceeded rw budget \<or>
       (rw_sensitive_data rw \<and> \<not> truthy (get_default tenant ''sensitive_data_allowed'' (PBool False))) then ''block'' else ''allow'')"
    by simp
  then show ?thesis by (rule that [OF l(1,2) b(2)])
qed

text \<open>At least the usage of another row of the same team.\<close>

definition uses_at_least :: "row \<Rightarrow> row \<Rightarrow> bool" where
  "uses_at_least rw' rw \<longleftrightarrow> rw_team rw' = rw_team rw \<and> rw_multiplier rw' = rw_multiplier rw \<and>
     rw_requests_last_minute rw \<le> rw_requests_last_minute rw' \<and> rw_tokens_today rw \<le> rw_tokens_today rw' \<and>
     rw_input_tokens rw \<le> rw_input_tokens rw' \<and> rw_output_tokens rw \<le> rw_output_tokens rw' \<and>
     rw_month_to_date_cost_usd rw \<le> rw_month_to_date_cost_usd rw' \<and>
     rw_cost_per_request_usd rw \<le> rw_cost_per_request_usd rw' \<and> (rw_sensitive_data rw \<le> rw_sensitive_data rw')"

lemma exceeded_mono:
  assumes "uses_at_least rw' rw"
  shows "rate_exceeded rw rpm \<Longrightarrow> rate_exceeded rw' rpm"
    "tokens_exceeded rw tokens \<Longrightarrow> tokens_exceeded rw' tokens"
    "budget_exceeded rw budget \<Longrightarrow> budget_exceeded rw' budget"
proof -
  show "budget_exceeded rw budget \<Longrightarrow> budget_exceeded rw' budget"
    using fadd_mono [of "rw_month_to_date_cost_usd rw" "rw_month_to_date_cost_usd rw'"
        "rw_cost_per_request_usd rw" "rw_cost_per_request_usd rw'"] assms
    by (auto simp: budget_exceeded_def uses_at_least_def split: option.splits)
qed (use assms in \<open>auto simp: rate_exceeded_def tokens_exceeded_def uses_at_least_def\<close>)

text \<open>Quotas are monotone: when a request is blocked, a request of the same team that uses at least as
  much in every respect (requests and tokens so far, tokens and cost of the request, spent budget,
  sensitivity) is blocked too, floating point rounding included.\<close>

theorem quota_monotone:
  assumes "evaluate_request rw policies = Inr v" "v_decision v = ''block''" "uses_at_least rw' rw"
  shows "\<exists>v'. evaluate_request rw' policies = Inr v' \<and> v_decision v' = ''block''"
proof (cases "map_of policies (rw_team rw)")
  case None
  with assms(3) show ?thesis by (simp add: evaluate_request_def uses_at_least_def)
next
  case (Some tenant)
  obtain rpm tokens budget where l: "scaled_limit tenant ''requests_per_minute'' (pack_multiplier rw) = Inr rpm"
    "scaled_limit tenant ''tokens_per_day'' (pack_multiplier rw) = Inr tokens"
    and b: "\<And>rw'. \<exists>rs. budget_reason tenant rw' = Inr rs \<and> (rs = [] \<longleftrightarrow> \<not> budget_exceeded rw' budget)"
    and v: "v_decision v = (if rate_exceeded rw rpm \<or> tokens_exceeded rw tokens \<or> budget_exceeded rw budget \<or>
       (rw_sensitive_data rw \<and> \<not> truthy (get_default tenant ''sensitive_data_allowed'' (PBool False))) then ''block'' else ''allow'')"
    by (rule evaluate_request_Inr [OF assms(1) Some]) (rule that)
  have same: "rw_team rw' = rw_team rw" "pack_multiplier rw' = pack_multiplier rw"
    using assms(3) by (simp_all add: uses_at_least_def pack_multiplier_def)
  obtain rs where rs: "budget_reason tenant rw' = Inr rs" "rs = [] \<longleftrightarrow> \<not> budget_exceeded rw' budget" using b by blast
  have "rate_exceeded rw' rpm \<or> tokens_exceeded rw' tokens \<or> rs \<noteq> [] \<or>
       (rw_sensitive_data rw' \<and> \<not> truthy (get_default tenant ''sensitive_data_allowed'' (PBool False)))"
    using v assms(2) exceeded_mono [OF assms(3)] assms(3) rs(2)
    by (auto simp: uses_at_least_def split: if_splits)
  then show ?thesis using l rs(1) Some same
    by (auto simp: evaluate_request_def Let_def rate_exceeded_def tokens_exceeded_def reason_if_def simp flip: pack_multiplier_def)
qed

text \<open>A limit that the pack's multiplier scales below one is not a limit of zero but no limit: with one
  request per minute and the multiplier one half, no request of the team is blocked, however many
  were made.\<close>

theorem quota_limit_vanishes:
  "evaluate_request (rw\<lparr>rw_multiplier := Some (1 / 2), rw_sensitive_data := False\<rparr>)
      [(rw_team rw, [(''requests_per_minute'', PInt 1)])]
    = Inr (verdict_of ''allow'' [''tenant quota checks passed''])"
proof -
  have "\<lfloor>1 / 2 :: rat\<rfloor> = 0" by (simp add: floor_eq_iff)
  moreover have half: "fl (1 / 2) = (1 / 2 :: rat)" and one: "fl 1 = (1 :: rat)" by code_simp+
  ultimately have "scaled_limit [(''requests_per_minute'', PInt 1)] ''requests_per_minute'' (1 / 2) = Inr 0"
    by (simp add: scaled_limit_def get_default_def float_of_int_def fmul_def int_of_float_def half one)
  moreover have "scaled_limit [(''requests_per_minute'', PInt 1)] ''tokens_per_day'' (1 / 2) = Inr 0"
    by (simp add: scaled_limit_def get_default_def)
  ultimately show ?thesis
    by (simp add: evaluate_request_def budget_reason_def get_none_def get_default_def)
qed

theorem quota_monotone_witness:
  "\<exists>v'. evaluate_request (demo_row\<lparr>rw_requests_last_minute := 61\<rparr>) [(''platform'', [(''requests_per_minute'', PInt 60)])] = Inr v' \<and>
     v_decision v' = ''block''"
proof -
  let ?p = "[(''platform'', [(''requests_per_minute'', PInt 60)])]"
  let ?v = "verdict_of ''block'' [''team platform exceeded requests_per_minute (60/60)'']"
  have "evaluate_request (demo_row\<lparr>rw_requests_last_minute := 60\<rparr>) ?p = Inr ?v" by code_simp
  moreover have "v_decision ?v = ''block''" by simp
  moreover have "uses_at_least (demo_row\<lparr>rw_requests_last_minute := 61\<rparr>) (demo_row\<lparr>rw_requests_last_minute := 60\<rparr>)"
    by (simp add: uses_at_least_def)
  ultimately show ?thesis by (rule quota_monotone)
qed

end
