(* ===== verification/Cost_Engine.thy ===== *)
theory Cost_Engine
  imports Gov_Request
begin

text \<open>
  Cost governance, \<open>governance/cost/evaluate.py\<close>: the reader of the policy file and the decision on one
  usage row. The policies have a \<open>global\<close> part and one entry per team.
\<close>

subsection \<open>Reading the policies\<close>

record cost_policies =
  cp_global :: pyval
  cp_teams :: pyval
  cp_other :: pyobj

record cost_reader =
  cr_section :: "string option"
  cr_team :: "string option"
  cr_list :: "string option"
  cr_policies :: cost_policies

text \<open>
  \<open>policies[key] = v\<close> for a top-level key with a value; \<open>global\<close> and \<open>teams\<close> lose their table that
  way, and using them as one raises from then on.
\<close>

definition put_top :: "string \<Rightarrow> pyval \<Rightarrow> cost_policies \<Rightarrow> cost_policies" where
  "put_top key v p =
     (if key = ''global'' then p\<lparr>cp_global := v\<rparr>
      else if key = ''teams'' then p\<lparr>cp_teams := v\<rparr>
      else p\<lparr>cp_other := dict_set key v (cp_other p)\<rparr>)"

definition put_global :: "string \<Rightarrow> pyval \<Rightarrow> cost_policies \<Rightarrow> cost_policies result" where
  "put_global key v p = rbind (put (cp_global p) key v) (\<lambda>g. Inr (p\<lparr>cp_global := g\<rparr>))"

definition put_team :: "string \<Rightarrow> pyval \<Rightarrow> cost_policies \<Rightarrow> cost_policies result" where
  "put_team team v p = rbind (put (cp_teams p) team v) (\<lambda>t. Inr (p\<lparr>cp_teams := t\<rparr>))"

text \<open>\<open>policies["teams"][team][key] = v\<close>.\<close>

definition team_set :: "string \<Rightarrow> string \<Rightarrow> pyval \<Rightarrow> cost_policies \<Rightarrow> cost_policies result" where
  "team_set team key v p =
     rbind (item_of (cp_teams p) team) (\<lambda>entry. rbind (put entry key v) (\<lambda>entry'. put_team team entry' p))"

definition append_item :: "string \<Rightarrow> string \<Rightarrow> string \<Rightarrow> cost_policies \<Rightarrow> cost_policies result" where
  "append_item team key x p =
     rbind (item_of (cp_teams p) team) (\<lambda>entry. rbind (item_of entry key) (\<lambda>v.
       case v of PList xs \<Rightarrow> team_set team key (PList (xs @ [PStr x])) p
       | _ \<Rightarrow> Inl (AttributeError ''object has no attribute append'')))"

definition cost_step :: "cost_reader \<Rightarrow> config_line \<Rightarrow> cost_reader result" where
  "cost_step s l =
     (let (key, _, value) = partition_char (CHR '':'') (l_text l);
          p = cr_policies s; team = opt_str (cr_team s);
          keep = (\<lambda>lst r. rbind r (\<lambda>p'. Inr (s\<lparr>cr_list := lst, cr_policies := p'\<rparr>)))
      in
      if l_indent l = 0
      then (if py_strip value \<noteq> []
            then Inr \<lparr>cr_section = None, cr_team = None, cr_list = None, cr_policies = put_top key (parse_number value) p\<rparr>
            else Inr \<lparr>cr_section = Some key, cr_team = None, cr_list = None, cr_policies = p\<rparr>)
      else if cr_section s = Some ''global'' \<and> l_indent l = 2
      then keep None (put_global key (parse_number value) p)
      else if cr_section s = Some ''teams'' \<and> l_indent l = 2
      then rbind (put_team (rstrip_colons (l_text l)) (PDict []) p)
             (\<lambda>p'. Inr (s\<lparr>cr_team := Some (rstrip_colons (l_text l)), cr_list := None, cr_policies := p'\<rparr>))
      else if cr_section s = Some ''teams'' \<and> l_indent l = 4 \<and> team \<noteq> []
      then (if py_strip value \<noteq> [] then keep None (team_set team key (parse_number value) p)
            else keep (Some key) (team_set team key (PList []) p))
      else if cr_section s = Some ''teams'' \<and> l_indent l = 6 \<and> team \<noteq> [] \<and> opt_str (cr_list s) \<noteq> []
      then (if \<not> starts_with (l_text l) ''- ''
            then Inl (ValueError (''unsupported policy list item: '' @ l_raw l))
            else keep (cr_list s) (append_item team (opt_str (cr_list s)) (drop 2 (l_text l)) p))
      else Inl (ValueError (''unsupported policy format line: '' @ l_raw l)))"

definition cost_start :: cost_reader where
  "cost_start = \<lparr>cr_section = None, cr_team = None, cr_list = None,
     cr_policies = \<lparr>cp_global = PDict [], cp_teams = PDict [], cp_other = []\<rparr>\<rparr>"

definition parse_policy_file :: "string \<Rightarrow> cost_policies result" where
  "parse_policy_file text =
     rbind (read_lines cost_step cost_start (config_lines text)) (\<lambda>s. Inr (cr_policies s))"

subsection \<open>Evaluation\<close>

text \<open>
  Two parts of \<open>evaluate_row\<close>: a hard limit gives a reason, a soft one a warning. The pair is
  (reasons, warnings).
\<close>

type_synonym findings = "string list \<times> string list"

definition limit_findings :: "rat \<Rightarrow> rat \<Rightarrow> rat \<Rightarrow> string \<Rightarrow> string \<Rightarrow> findings" where
  "limit_findings x hard soft over near =
     (if hard < x then ([over], []) else if soft \<le> x then ([], [near]) else ([], []))"

definition team_findings :: "row \<Rightarrow> pyval \<Rightarrow> findings result" where
  "team_findings rw policy =
     (if policy = PNone then Inr ([''team '' @ rw_team rw @ '' has no cost governance policy''], [])
      else
        rbind (rbind (get_attr policy ''allowed_models'' (PList [])) py_iter) (\<lambda>allowed.
        let model = reason_if (PStr (rw_model rw) \<notin> set allowed)
              (''model '' @ rw_model rw @ '' is not approved for team '' @ rw_team rw)
        in rbind (rbind (item_of policy ''monthly_budget_usd'') py_float) (\<lambda>budget.
           rbind (rbind (item_of policy ''warn_at_percent'') py_float) (\<lambda>percent.
           let (r, w) = limit_findings (rw_month_to_date_cost_usd rw) budget (fmul budget (fdiv percent 100))
                 (''team '' @ rw_team rw @ '' monthly budget exceeded'')
                 (''team '' @ rw_team rw @ '' is near monthly budget'')
           in Inr (model @ r, w)))))"

definition global_findings :: "rat \<Rightarrow> pyval \<Rightarrow> string \<Rightarrow> string \<Rightarrow> string \<Rightarrow> string \<Rightarrow> findings result" where
  "global_findings x g hard_key soft_key over near =
     rbind (rbind (item_of g hard_key) py_float) (\<lambda>hard.
       if hard < x then Inr ([over], [])
       else rbind (rbind (item_of g soft_key) py_float) (\<lambda>soft.
         Inr (limit_findings x hard soft over near)))"

definition evaluate_row :: "row \<Rightarrow> cost_policies \<Rightarrow> verdict result" where
  "evaluate_row rw p =
     rbind (rbind (get_attr (cp_teams p) (rw_team rw) PNone) (team_findings rw)) (\<lambda>(r1, w1).
     rbind (global_findings (rw_cost_per_hour_usd rw) (cp_global p)
              ''max_model_hourly_cost_usd'' ''warn_model_hourly_cost_usd''
              ''model hourly cost exceeds hard limit'' ''model hourly cost is near hard limit'') (\<lambda>(r2, w2).
     rbind (global_findings (rw_forecast_monthly_cost_usd rw) (cp_global p)
              ''max_forecast_monthly_cost_usd'' ''warn_forecast_monthly_cost_usd''
              ''forecasted monthly cost exceeds platform hard limit''
              ''forecasted monthly cost is near platform hard limit'') (\<lambda>(r3, w3).
     let reasons = r1 @ r2 @ r3; warnings = w1 @ w2 @ w3 in
     Inr (if reasons \<noteq> [] then verdict_of ''block'' reasons
          else if warnings \<noteq> [] then verdict_of ''warn'' warnings
          else verdict_of ''allow'' [''usage is within governance limits'']))))"

subsection \<open>The reader\<close>

text \<open>
  The entries of a team go to a table that is there, the items of a list to a list that is there.
\<close>

definition team_open :: "cost_policies \<Rightarrow> string \<Rightarrow> string option \<Rightarrow> bool" where
  "team_open p team lst \<longleftrightarrow> (\<exists>d e. cp_teams p = PDict d \<and> map_of d team = Some (PDict e) \<and>
     (\<forall>k. lst = Some k \<longrightarrow> (\<exists>xs. map_of e k = Some (PList xs))))"

definition cost_inv :: "cost_reader \<Rightarrow> bool" where
  "cost_inv s \<longleftrightarrow> (\<forall>team. cr_team s = Some team \<longrightarrow> team_open (cr_policies s) team (cr_list s)) \<and>
     (cr_list s \<noteq> None \<longrightarrow> cr_team s \<noteq> None)"

lemma put_team_open: "put_team team (PDict e) p = Inr p' \<Longrightarrow> (\<forall>k. lst = Some k \<longrightarrow> (\<exists>xs. map_of e k = Some (PList xs))) \<Longrightarrow>
    team_open p' team lst"
  by (auto simp: put_team_def put_def rbind_Inr team_open_def split: pyval.splits)

lemma team_set_open:
  assumes "team_set team key v p = Inr p'" "team_open p team None"
    "lst = None \<or> (lst = Some key \<and> (\<exists>xs. v = PList xs))"
  shows "team_open p' team lst"
proof -
  obtain d e where d: "cp_teams p = PDict d" "map_of d team = Some (PDict e)" using assms(2) by (auto simp: team_open_def)
  then have "put_team team (PDict (dict_set key v e)) p = Inr p'"
    using assms(1) by (simp add: team_set_def item_of_def item_def put_def)
  then show ?thesis by (rule put_team_open) (use assms(3) in auto)
qed

lemma append_item_open:
  assumes "append_item team key x p = Inr p'" "team_open p team (Some key)"
  shows "team_open p' team (Some key)"
proof -
  obtain v where "(case v of PList xs \<Rightarrow> team_set team key (PList (xs @ [PStr x])) p
      | _ \<Rightarrow> Inl (AttributeError ''object has no attribute append'')) = Inr p'"
    using assms(1) unfolding append_item_def rbind_Inr by blast
  then obtain v where "team_set team key (PList v) p = Inr p'" by (cases v) auto
  then show ?thesis by (rule team_set_open) (use assms(2) in \<open>auto simp: team_open_def\<close>)
qed

lemma put_global_open: "put_global key v p = Inr p' \<Longrightarrow> team_open p' team lst \<longleftrightarrow> team_open p team lst"
  by (auto simp: put_global_def rbind_Inr team_open_def)

lemma team_open_None: "team_open p team lst \<Longrightarrow> team_open p team None"
  by (auto simp: team_open_def)

lemma cost_inv_listed:
  "cr_team s = Some team \<Longrightarrow> team_open p team lst \<Longrightarrow> cost_inv (s\<lparr>cr_list := lst, cr_policies := p\<rparr>)"
  by (simp add: cost_inv_def)

lemma opt_str_Some: "opt_str v \<noteq> [] \<Longrightarrow> v = Some (opt_str v)"
  by (cases v) simp_all

lemma cost_step_inv:
  assumes inv: "cost_inv s" and step: "cost_step s l = Inr s'" shows "cost_inv s'"
proof -
  obtain key b val where kv: "partition_char (CHR '':'') (l_text l) = (key, b, val)"
    by (cases "partition_char (CHR '':'') (l_text l)") auto
  let ?team = "opt_str (cr_team s)" and ?p = "cr_policies s"
  note d = cost_step_def kv Let_def prod.case
  have opened: "cr_team s = Some ?team \<and> team_open ?p ?team None" if "?team \<noteq> []"
    using inv opt_str_Some [OF that] by (auto simp: cost_inv_def dest: team_open_None)
  consider "l_indent l = 0" | "l_indent l = 2" | "l_indent l = 4" | "l_indent l = 6" | "l_indent l \<notin> {0, 2, 4, 6}" by auto
  then show ?thesis
  proof cases
    case 1
    with step have "cr_team s' = None \<and> cr_list s' = None" by (auto simp: d split: if_splits)
    then show ?thesis by (simp add: cost_inv_def)
  next
    case 2
    show ?thesis
    proof (cases "cr_section s = Some ''global''")
      case True
      with step 2 obtain p where "put_global key (parse_number val) ?p = Inr p" "s' = s\<lparr>cr_list := None, cr_policies := p\<rparr>"
        by (auto simp: d rbind_Inr)
      then show ?thesis using inv by (auto simp: cost_inv_def put_global_open dest: team_open_None)
    next
      case False
      with step 2 obtain t p where "put_team t (PDict []) ?p = Inr p" "s' = s\<lparr>cr_team := Some t, cr_list := None, cr_policies := p\<rparr>"
        by (auto simp: d rbind_Inr split: if_splits)
      then show ?thesis by (auto simp: cost_inv_def intro: put_team_open)
    qed
  next
    case 3
    with step have team: "?team \<noteq> []" by (auto simp: d split: if_splits)
    from step 3 obtain v lst p where p: "team_set ?team key v ?p = Inr p" "s' = s\<lparr>cr_list := lst, cr_policies := p\<rparr>"
      "lst = None \<or> (lst = Some key \<and> (\<exists>xs. v = PList xs))"
      by (auto simp: d rbind_Inr split: if_splits)
    have "team_open p ?team lst" using p(1) conjunct2 [OF opened [OF team]] p(3) by (rule team_set_open)
    with cost_inv_listed [OF conjunct1 [OF opened [OF team]]] p(2) show ?thesis by metis
  next
    case 4
    with step have team: "?team \<noteq> []" and lst: "opt_str (cr_list s) \<noteq> []" by (auto simp: d split: if_splits)
    from step 4 obtain x p where "append_item ?team (opt_str (cr_list s)) x ?p = Inr p" "s' = s\<lparr>cr_list := cr_list s, cr_policies := p\<rparr>"
      by (auto simp: d rbind_Inr split: if_splits)
    moreover have "team_open ?p ?team (Some (opt_str (cr_list s)))"
      using inv opened [OF team] opt_str_Some [OF lst] by (auto simp: cost_inv_def)
    ultimately show ?thesis using cost_inv_listed [of s ?team p "cr_list s"] opened [OF team] opt_str_Some [OF lst] append_item_open by metis
  next
    case 5
    with step show ?thesis by (auto simp: d)
  qed
qed

interpretation cost_reader: line_reader cost_step cost_start cost_inv
  by unfold_locales (simp add: cost_inv_def cost_start_def, rule cost_step_inv)

subsection \<open>Decisions\<close>

definition cost_rank :: "string \<Rightarrow> nat" where
  "cost_rank d = (if d = ''block'' then 2 else if d = ''warn'' then 1 else 0)"

text \<open>The rank of a pair of reasons and warnings.\<close>

definition findings_rank :: "findings \<Rightarrow> nat" where
  "findings_rank f = (if fst f \<noteq> [] then 2 else if snd f \<noteq> [] then 1 else 0)"

lemma findings_rank_simps [simp]:
  "findings_rank ([], []) = 0" "findings_rank ([], x # w) = 1" "findings_rank (x # r, w) = 2"
  by (simp_all add: findings_rank_def)

lemma limit_findings_mono:
  "x \<le> y \<Longrightarrow> findings_rank (limit_findings x hard soft over near) \<le> findings_rank (limit_findings y hard soft over near)"
  by (auto simp: limit_findings_def)

lemma global_findings_mono:
  assumes "global_findings x g hk sk over near = Inr f" "x \<le> y"
  shows "\<exists>f'. global_findings y g hk sk over near = Inr f' \<and> findings_rank f \<le> findings_rank f'"
proof -
  obtain hard where hard: "rbind (item_of g hk) py_float = Inr hard" using assms(1) by (auto simp: global_findings_def rbind_Inr)
  show ?thesis
  proof (cases "hard < y")
    case True
    then show ?thesis using hard by (auto simp: global_findings_def findings_rank_def)
  next
    case False
    with assms hard obtain soft where soft: "rbind (item_of g sk) py_float = Inr soft" "f = limit_findings x hard soft over near"
      by (auto simp: global_findings_def rbind_Inr split: if_splits)
    then show ?thesis using hard False limit_findings_mono [OF assms(2)] by (simp add: global_findings_def)
  qed
qed

lemma evaluate_row_Inr:
  "evaluate_row rw p = Inr v \<longleftrightarrow> (\<exists>t.
     rbind (get_attr (cp_teams p) (rw_team rw) PNone) (team_findings rw) = Inr t \<and> (\<exists>h.
     global_findings (rw_cost_per_hour_usd rw) (cp_global p) ''max_model_hourly_cost_usd'' ''warn_model_hourly_cost_usd''
       ''model hourly cost exceeds hard limit'' ''model hourly cost is near hard limit'' = Inr h \<and> (\<exists>c.
     global_findings (rw_forecast_monthly_cost_usd rw) (cp_global p) ''max_forecast_monthly_cost_usd''
       ''warn_forecast_monthly_cost_usd'' ''forecasted monthly cost exceeds platform hard limit''
       ''forecasted monthly cost is near platform hard limit'' = Inr c \<and>
     (let reasons = fst t @ fst h @ fst c; warnings = snd t @ snd h @ snd c in
      v = (if reasons \<noteq> [] then verdict_of ''block'' reasons
           else if warnings \<noteq> [] then verdict_of ''warn'' warnings
           else verdict_of ''allow'' [''usage is within governance limits''])))))"
  unfolding evaluate_row_def by (simp add: rbind_Inr case_prod_beta Let_def eq_commute [of v])

lemma verdict_rank:
  assumes "let reasons = fst t @ fst h @ fst c; warnings = snd t @ snd h @ snd c in
      v = (if reasons \<noteq> [] then verdict_of ''block'' reasons
           else if warnings \<noteq> [] then verdict_of ''warn'' warnings else verdict_of ''allow'' x)"
  shows "cost_rank (v_decision v) = max (findings_rank t) (max (findings_rank h) (findings_rank c))"
  using assms by (auto simp: Let_def cost_rank_def findings_rank_def)

text \<open>At least the spending of another row of the same team for the same model.\<close>

definition spends_at_least :: "row \<Rightarrow> row \<Rightarrow> bool" where
  "spends_at_least rw' rw \<longleftrightarrow> rw_team rw' = rw_team rw \<and> rw_model rw' = rw_model rw \<and>
     rw_month_to_date_cost_usd rw \<le> rw_month_to_date_cost_usd rw' \<and>
     rw_cost_per_hour_usd rw \<le> rw_cost_per_hour_usd rw' \<and>
     rw_forecast_monthly_cost_usd rw \<le> rw_forecast_monthly_cost_usd rw'"

lemma team_findings_mono:
  assumes "team_findings rw tp = Inr f" "spends_at_least rw' rw"
  shows "\<exists>f'. team_findings rw' tp = Inr f' \<and> findings_rank f \<le> findings_rank f'"
proof (cases "tp = PNone")
  case False
  obtain allowed budget percent where r:
    "rbind (get_attr tp ''allowed_models'' (PList [])) py_iter = Inr allowed"
    "rbind (item_of tp ''monthly_budget_usd'') py_float = Inr budget"
    "rbind (item_of tp ''warn_at_percent'') py_float = Inr percent"
    using assms(1) False by (auto simp: team_findings_def Let_def rbind_Inr)
  show ?thesis using assms False
    by (auto simp: team_findings_def Let_def r limit_findings_def spends_at_least_def findings_rank_def split: if_splits)
qed (use assms in \<open>auto simp: team_findings_def spends_at_least_def findings_rank_def\<close>)

text \<open>The cost decision escalates with spending: a row of the same team and model that costs at least as
  much by the hour, in the month so far and in the forecast is judged at least as severely, in the
  order allow, warn, block, whatever limits the policy file has.\<close>

theorem cost_escalates:
  assumes "evaluate_row rw p = Inr v" "spends_at_least rw' rw"
  shows "\<exists>v'. evaluate_row rw' p = Inr v' \<and> cost_rank (v_decision v) \<le> cost_rank (v_decision v')"
proof -
  obtain t h c where f: "rbind (get_attr (cp_teams p) (rw_team rw) PNone) (team_findings rw) = Inr t"
     "global_findings (rw_cost_per_hour_usd rw) (cp_global p) ''max_model_hourly_cost_usd'' ''warn_model_hourly_cost_usd''
       ''model hourly cost exceeds hard limit'' ''model hourly cost is near hard limit'' = Inr h"
     "global_findings (rw_forecast_monthly_cost_usd rw) (cp_global p) ''max_forecast_monthly_cost_usd''
       ''warn_forecast_monthly_cost_usd'' ''forecasted monthly cost exceeds platform hard limit''
       ''forecasted monthly cost is near platform hard limit'' = Inr c"
    and v: "let reasons = fst t @ fst h @ fst c; warnings = snd t @ snd h @ snd c in
      v = (if reasons \<noteq> [] then verdict_of ''block'' reasons
           else if warnings \<noteq> [] then verdict_of ''warn'' warnings
           else verdict_of ''allow'' [''usage is within governance limits''])"
    using assms(1) unfolding evaluate_row_Inr by blast
  have le: "rw_cost_per_hour_usd rw \<le> rw_cost_per_hour_usd rw'" "rw_forecast_monthly_cost_usd rw \<le> rw_forecast_monthly_cost_usd rw'"
    and team: "rw_team rw' = rw_team rw" using assms(2) by (simp_all add: spends_at_least_def)
  obtain tp where tp: "get_attr (cp_teams p) (rw_team rw) PNone = Inr tp" "team_findings rw tp = Inr t"
    using f(1) by (auto simp: rbind_Inr)
  obtain t' where t': "team_findings rw' tp = Inr t'" "findings_rank t \<le> findings_rank t'"
    using team_findings_mono [OF tp(2) assms(2)] by blast
  obtain h' where h': "global_findings (rw_cost_per_hour_usd rw') (cp_global p) ''max_model_hourly_cost_usd'' ''warn_model_hourly_cost_usd''
       ''model hourly cost exceeds hard limit'' ''model hourly cost is near hard limit'' = Inr h'" "findings_rank h \<le> findings_rank h'"
    using global_findings_mono [OF f(2) le(1)] by blast
  obtain c' where c': "global_findings (rw_forecast_monthly_cost_usd rw') (cp_global p) ''max_forecast_monthly_cost_usd''
       ''warn_forecast_monthly_cost_usd'' ''forecasted monthly cost exceeds platform hard limit''
       ''forecasted monthly cost is near platform hard limit'' = Inr c'" "findings_rank c \<le> findings_rank c'"
    using global_findings_mono [OF f(3) le(2)] by blast
  obtain v' where v': "evaluate_row rw' p = Inr v'" "cost_rank (v_decision v') = max (findings_rank t') (max (findings_rank h') (findings_rank c'))"
    using verdict_rank [of t' h' c'] tp(1) t'(1) h'(1) c'(1) team by (simp add: evaluate_row_Inr Let_def)
  have "cost_rank (v_decision v) = max (findings_rank t) (max (findings_rank h) (findings_rank c))" by (rule verdict_rank [OF v])
  with v' t'(2) h'(2) c'(2) show ?thesis by (intro exI [of _ v']) auto
qed

definition demo_costs :: cost_policies where
  "demo_costs =
     \<lparr>cp_global = PDict [(''max_model_hourly_cost_usd'', PInt 5), (''warn_model_hourly_cost_usd'', PInt 2),
        (''max_forecast_monthly_cost_usd'', PInt 5000), (''warn_forecast_monthly_cost_usd'', PInt 4000)],
      cp_teams = PDict [(''platform'', PDict [(''monthly_budget_usd'', PInt 1000), (''warn_at_percent'', PInt 50),
        (''allowed_models'', PList [PStr ''llama3.1:8b''])])],
      cp_other = []\<rparr>"

theorem cost_escalates_witness:
  "\<exists>v'. evaluate_row (demo_row\<lparr>rw_month_to_date_cost_usd := 600\<rparr>) demo_costs = Inr v' \<and>
     cost_rank ''allow'' \<le> cost_rank (v_decision v')"
proof -
  have half: "fl (1 / 2) = (1 / 2 :: rat)" by code_simp
  have ints: "float_of_int (numeral n) = numeral n" if "numeral n < (2 ^ 53 :: int)" for n
    using fl_of_int [of "numeral n"] that by (simp add: float_of_int_def)
  have f500: "fl 500 = 500" using fl_of_int [of 500] by simp
  have "evaluate_row demo_row demo_costs = Inr (verdict_of ''allow'' [''usage is within governance limits''])"
    by (simp add: evaluate_row_def demo_costs_def demo_row_def get_attr_def item_of_def item_def get_default_def
        team_findings_def global_findings_def limit_findings_def ints fmul_def fdiv_def half f500)
  moreover have "spends_at_least (demo_row\<lparr>rw_month_to_date_cost_usd := 600\<rparr>) demo_row"
    by (simp add: spends_at_least_def demo_row_def)
  ultimately have "\<exists>v'. evaluate_row (demo_row\<lparr>rw_month_to_date_cost_usd := 600\<rparr>) demo_costs = Inr v' \<and>
     cost_rank (v_decision (verdict_of ''allow'' [''usage is within governance limits''])) \<le> cost_rank (v_decision v')"
    by (rule cost_escalates)
  then show ?thesis by simp
qed

end
