(* ===== verification/Risk_Engine.thy ===== *)
theory Risk_Engine
  imports Gov_Request
begin

text \<open>
  Risk scoring, \<open>governance/risk/evaluate.py\<close>: the rules, the factors of a request, the bounded score
  and its level.
\<close>

subsection \<open>Reading the rules\<close>

record risk_rules =
  rr_weights :: pyobj
  rr_thresholds :: pyobj
  rr_external :: "string list"
  rr_production :: "string list"

definition risk_sections :: "string list" where
  "risk_sections = [''score_weights'', ''thresholds'', ''external_providers'', ''production_namespaces'']"

definition risk_step :: "string option \<times> risk_rules \<Rightarrow> config_line \<Rightarrow> (string option \<times> risk_rules) result" where
  "risk_step st l =
     (let (section, rules) = st; (key, _, value) = partition_char (CHR '':'') (l_text l);
          entry = (if key = [] \<or> value = [] then Inl (ValueError (''unsupported rule entry: '' @ l_raw l))
                   else Inr (key, parse_number value));
          listed = (if \<not> starts_with (l_text l) ''- '' then Inl (ValueError (''unsupported rule list item: '' @ l_raw l))
                    else Inr (drop 2 (l_text l)))
      in
      if l_indent l = 0
      then (let name = rstrip_colons (l_text l) in
            if name \<notin> set risk_sections then Inl (ValueError (''unsupported rule section: '' @ name))
            else Inr (Some name, rules))
      else if section = Some ''score_weights'' \<and> l_indent l = 2
      then rbind entry (\<lambda>(k, v). Inr (section, rules\<lparr>rr_weights := dict_set k v (rr_weights rules)\<rparr>))
      else if section = Some ''thresholds'' \<and> l_indent l = 2
      then rbind entry (\<lambda>(k, v). Inr (section, rules\<lparr>rr_thresholds := dict_set k v (rr_thresholds rules)\<rparr>))
      else if section = Some ''external_providers'' \<and> l_indent l = 2
      then rbind listed (\<lambda>x. Inr (section, rules\<lparr>rr_external := rr_external rules @ [x]\<rparr>))
      else if section = Some ''production_namespaces'' \<and> l_indent l = 2
      then rbind listed (\<lambda>x. Inr (section, rules\<lparr>rr_production := rr_production rules @ [x]\<rparr>))
      else Inl (ValueError (''unsupported rule format line: '' @ l_raw l)))"

definition parse_rules :: "string \<Rightarrow> risk_rules result" where
  "parse_rules text =
     rbind (read_lines risk_step (None, \<lparr>rr_weights = [], rr_thresholds = [], rr_external = [], rr_production = []\<rparr>)
              (config_lines text)) (\<lambda>s. Inr (snd s))"

subsection \<open>Scoring\<close>

definition deploy_actions :: "string list" where
  "deploy_actions = [''deploy_model'', ''enable_external_model'', ''scale_replicas'']"

definition int_item :: "pyobj \<Rightarrow> string \<Rightarrow> int result" where
  "int_item d k = rbind (item d k) py_int"

definition risk_level :: "int \<Rightarrow> pyobj \<Rightarrow> string result" where
  "risk_level score thresholds =
     rbind (int_item thresholds ''critical_min'') (\<lambda>c.
       if c \<le> score then Inr ''critical''
       else rbind (int_item thresholds ''high_min'') (\<lambda>h.
         if h \<le> score then Inr ''high''
         else rbind (int_item thresholds ''medium_min'') (\<lambda>m.
           Inr (if m \<le> score then ''medium'' else ''low''))))"

text \<open>A factor: its name, its points and its reason.\<close>

type_synonym factor = "string \<times> int \<times> string"

definition factor_if :: "bool \<Rightarrow> string \<Rightarrow> int result \<Rightarrow> string \<Rightarrow> factor list result" where
  "factor_if b name points reason =
     (if b then rbind points (\<lambda>n. Inr [(name, n, reason)]) else Inr [])"

fun collect :: "'a list result list \<Rightarrow> 'a list result" where
  "collect [] = Inr []"
| "collect (m # ms) = rbind m (\<lambda>x. rbind (collect ms) (\<lambda>xs. Inr (x @ xs)))"

definition weight :: "risk_rules \<Rightarrow> string \<Rightarrow> int result" where
  "weight rules k = int_item (rr_weights rules) k"

definition weight_default :: "risk_rules \<Rightarrow> string \<Rightarrow> int \<Rightarrow> int result" where
  "weight_default rules k n = py_int (get_default (rr_weights rules) k (PInt n))"

definition request_factors :: "row \<Rightarrow> risk_rules \<Rightarrow> factor list result" where
  "request_factors rw rules =
     (let volume = rw_input_tokens rw + rw_output_tokens rw in
      collect
       [factor_if (rw_owner rw = []) ''missing_owner'' (weight rules ''missing_owner'')
          ''request has no responsible owner'',
        factor_if (rw_provider rw \<in> set (rr_external rules)) ''external_provider'' (weight rules ''external_provider'')
          (''provider '' @ rw_provider rw @ '' is external''),
        factor_if (rw_environment rw = ''production'' \<or> rw_namespace rw \<in> set (rr_production rules) \<or>
                   ends_with (rw_namespace rw) ''-prod'') ''production_namespace'' (weight rules ''production_namespace'')
          (''namespace '' @ rw_namespace rw @ '' is production-facing''),
        rbind (int_item (rr_thresholds rules) ''high_token_volume'') (\<lambda>t.
          factor_if (t \<le> volume) ''high_token_volume'' (weight rules ''high_token_volume'')
            (''token volume '' @ int_str volume @ '' exceeds threshold'')),
        rbind (rbind (item (rr_thresholds rules) ''high_cost_forecast_usd'') py_float) (\<lambda>t.
          factor_if (t \<le> rw_forecast_monthly_cost_usd rw) ''high_cost_forecast'' (weight rules ''high_cost_forecast'')
            ''forecasted monthly cost exceeds threshold''),
        factor_if (rw_sensitive_data rw) ''sensitive_data'' (weight rules ''sensitive_data'')
          ''request may process sensitive data'',
        factor_if (rw_tool_access rw) ''tool_access'' (weight rules ''tool_access'') ''request enables tool access'',
        factor_if (rw_write_permission rw) ''write_permission'' (weight rules ''write_permission'')
          ''request grants write permission'',
        factor_if (rw_action rw \<in> set deploy_actions) ''deploy_permission'' (weight rules ''deploy_permission'')
          (''action '' @ rw_action rw @ '' can change serving state'')])"

definition registry_factors :: "row \<Rightarrow> risk_rules \<Rightarrow> (string \<times> pyobj) list \<Rightarrow> factor list result" where
  "registry_factors rw rules registry =
     (let named = (\<lambda>text. ''model '' @ rw_model rw @ text) in
      case map_of registry (rw_model rw) of
        None \<Rightarrow> factor_if True ''unregistered_model'' (weight_default rules ''missing_owner'' 10)
                  (named '' is not in the risk registry'')
      | Some entry \<Rightarrow>
          (let tier = get_none entry ''risk_tier'' in
           collect
            [factor_if (tier = PStr ''critical'') ''registry_critical_tier'' (weight_default rules ''high_cost_forecast'' 20)
               (named '' is tagged critical in the registry''),
             factor_if (tier = PStr ''high'') ''registry_high_tier'' (weight_default rules ''external_provider'' 15)
               (named '' is tagged high risk in the registry''),
             factor_if (rw_sensitive_data rw \<and> \<not> truthy (get_default entry ''pii_allowed'' (PBool False)))
               ''registry_pii_denied'' (weight rules ''sensitive_data'') (named '' does not allow sensitive data'')]))"

record risk_result =
  rk_score :: int
  rk_level :: string
  rk_factors :: "factor list"

definition evaluate_risk :: "row \<Rightarrow> risk_rules \<Rightarrow> (string \<times> pyobj) list option \<Rightarrow> risk_result result" where
  "evaluate_risk rw rules registry =
     rbind (request_factors rw rules) (\<lambda>fs.
     rbind (case registry of None \<Rightarrow> Inr [] | Some r \<Rightarrow> registry_factors rw rules r) (\<lambda>gs.
     let score = min (sum_list (map (\<lambda>(_, n, _). n) (fs @ gs))) 100 in
     rbind (risk_level score (rr_thresholds rules)) (\<lambda>level.
     Inr \<lparr>rk_score = score, rk_level = level, rk_factors = fs @ gs\<rparr>)))"

subsection \<open>The reader\<close>

text \<open>The reader is only ever in a section it knows, and keeps the keys of the tables apart.\<close>

definition risk_inv :: "string option \<times> risk_rules \<Rightarrow> bool" where
  "risk_inv st \<longleftrightarrow> (\<forall>n. fst st = Some n \<longrightarrow> n \<in> set risk_sections) \<and>
     distinct (map fst (rr_weights (snd st))) \<and> distinct (map fst (rr_thresholds (snd st)))"

interpretation risk_reader: line_reader risk_step
  "(None, \<lparr>rr_weights = [], rr_thresholds = [], rr_external = [], rr_production = []\<rparr>)" risk_inv
proof
  fix st l st' assume "risk_inv st" "risk_step st l = Inr st'"
  then show "risk_inv st'"
    by (cases st) (auto simp: risk_step_def risk_inv_def Let_def rbind_Inr distinct_dict_set split: if_splits prod.splits)
qed (simp add: risk_inv_def)

subsection \<open>The score\<close>

definition points :: "factor list \<Rightarrow> int" where
  "points fs = sum_list (map (\<lambda>(_, n, _). n) fs)"

lemma points_simps [simp]: "points [] = 0" "points ((a, n, r) # fs) = n + points fs" "points (fs @ gs) = points fs + points gs"
  by (simp_all add: points_def)

text \<open>
  How a factor grows: when it applies to a request, it applies to a riskier one with the same points,
  and no points are negative.
\<close>

definition grows :: "factor list result \<Rightarrow> factor list result \<Rightarrow> bool" where
  "grows m m' \<longleftrightarrow> (\<forall>fs fs'. m = Inr fs \<longrightarrow> m' = Inr fs' \<longrightarrow> points fs \<le> points fs')"

lemma grows_refl [simp]: "grows m m"
  by (simp add: grows_def)

lemma grows_factor_if:
  assumes "b \<Longrightarrow> b'" "\<And>n. w = Inr n \<Longrightarrow> 0 \<le> n"
  shows "grows (factor_if b name w r) (factor_if b' name w r')"
  using assms by (cases w) (auto simp: grows_def factor_if_def)

lemma grows_threshold:
  assumes "\<And>t. b t \<Longrightarrow> b' t" "\<And>n. w = Inr n \<Longrightarrow> 0 \<le> n"
  shows "grows (rbind th (\<lambda>t. factor_if (b t) name w r)) (rbind th (\<lambda>t. factor_if (b' t) name w r'))"
  using grows_factor_if [OF assms(1) assms(2)] by (cases th) (auto simp: grows_def)

lemma grows_collect:
  "list_all2 grows ms ms' \<Longrightarrow> grows (collect ms) (collect ms')"
proof (induction rule: list_all2_induct)
  case (Cons m ms m' ms')
  show ?case unfolding grows_def
  proof (intro allI impI)
    fix fs fs' assume "collect (m # ms) = Inr fs" "collect (m' # ms') = Inr fs'"
    then obtain x xs x' xs' where "m = Inr x" "collect ms = Inr xs" "fs = x @ xs"
      "m' = Inr x'" "collect ms' = Inr xs'" "fs' = x' @ xs'" by (auto simp: rbind_Inr)
    with Cons(1,3) show "points fs \<le> points fs'" by (simp add: grows_def add_mono)
  qed
qed simp

text \<open>No weight is negative.\<close>

definition weights_ok :: "risk_rules \<Rightarrow> bool" where
  "weights_ok rules \<longleftrightarrow> list_all (\<lambda>(k, v). case py_int v of Inl _ \<Rightarrow> True | Inr n \<Rightarrow> 0 \<le> n) (rr_weights rules)"

lemma weight_nonneg: "weights_ok rules \<Longrightarrow> weight rules k = Inr n \<Longrightarrow> 0 \<le> n"
  by (auto simp: weights_ok_def weight_def int_item_def item_def rbind_Inr list_all_iff split: option.splits sum.splits
      dest!: map_of_SomeD)

lemma weight_default_nonneg:
  "weights_ok rules \<Longrightarrow> 0 \<le> d \<Longrightarrow> weight_default rules k d = Inr n \<Longrightarrow> 0 \<le> n"
  by (auto simp: weights_ok_def weight_default_def get_default_def list_all_iff split: option.splits sum.splits
      dest!: map_of_SomeD)

text \<open>At least the risk signals of another request for the same model by the same provider.\<close>

definition riskier :: "row \<Rightarrow> row \<Rightarrow> bool" where
  "riskier rw' rw \<longleftrightarrow> rw_model rw' = rw_model rw \<and> rw_provider rw' = rw_provider rw \<and>
     (rw_owner rw = [] \<longrightarrow> rw_owner rw' = []) \<and>
     (rw_environment rw' = rw_environment rw \<or> rw_environment rw' = ''production'') \<and>
     rw_namespace rw' = rw_namespace rw \<and>
     rw_input_tokens rw + rw_output_tokens rw \<le> rw_input_tokens rw' + rw_output_tokens rw' \<and>
     rw_forecast_monthly_cost_usd rw \<le> rw_forecast_monthly_cost_usd rw' \<and>
     rw_sensitive_data rw \<le> rw_sensitive_data rw' \<and> rw_tool_access rw \<le> rw_tool_access rw' \<and>
     rw_write_permission rw \<le> rw_write_permission rw' \<and>
     (rw_action rw' = rw_action rw \<or> rw_action rw' \<in> set deploy_actions)"

lemma request_factors_grow:
  assumes "riskier rw' rw" "weights_ok rules"
  shows "grows (request_factors rw rules) (request_factors rw' rules)"
proof -
  note r = assms(1) [unfolded riskier_def]
  show ?thesis unfolding request_factors_def Let_def
    by (rule grows_collect, intro list_all2_Cons [THEN iffD2] conjI list_all2_Nil [THEN iffD2] refl;
        (rule grows_factor_if grows_threshold)?; (erule weight_nonneg [OF assms(2)])?; use r in auto)
qed

lemma registry_factors_grow:
  assumes "riskier rw' rw" "weights_ok rules"
  shows "grows (registry_factors rw rules registry) (registry_factors rw' rules registry)"
proof (cases "map_of registry (rw_model rw)")
  case (Some entry)
  have m: "rw_model rw' = rw_model rw" and sd: "rw_sensitive_data rw \<Longrightarrow> rw_sensitive_data rw'"
    using assms(1) by (simp_all add: riskier_def)
  show ?thesis unfolding registry_factors_def Let_def m Some option.case
    by (rule grows_collect) (simp add: grows_factor_if weight_nonneg [OF assms(2)] sd)
qed (use assms(1) in \<open>simp add: registry_factors_def riskier_def\<close>)

definition level_rank :: "string \<Rightarrow> nat" where
  "level_rank l = (if l = ''critical'' then 3 else if l = ''high'' then 2 else if l = ''medium'' then 1 else 0)"

lemma risk_level_mono:
  assumes "risk_level a th = Inr l" "risk_level b th = Inr l'" "a \<le> b"
  shows "level_rank l \<le> level_rank l'"
proof -
  obtain c where c: "int_item th ''critical_min'' = Inr c" using assms(1) by (auto simp: risk_level_def rbind_Inr)
  show ?thesis
  proof (cases "c \<le> b")
    case True
    then have "l' = ''critical''" using assms(2) c by (simp add: risk_level_def)
    then show ?thesis by (simp add: level_rank_def)
  next
    case b: False
    then have a: "\<not> c \<le> a" using assms(3) by simp
    obtain h where h: "int_item th ''high_min'' = Inr h" using assms(1) c a by (auto simp: risk_level_def rbind_Inr)
    show ?thesis
    proof (cases "h \<le> b")
      case True
      then have "l' = ''high''" using assms(2) c h b by (simp add: risk_level_def)
      moreover have "level_rank l \<le> 2" using assms(1) c h a by (auto simp: risk_level_def rbind_Inr level_rank_def split: if_splits)
      ultimately show ?thesis by (simp add: level_rank_def)
    next
      case False
      then have "\<not> h \<le> a" using assms(3) by simp
      with assms(1,2) c h a b False obtain m where "l = (if m \<le> a then ''medium'' else ''low'')" "l' = (if m \<le> b then ''medium'' else ''low'')"
        by (auto simp: risk_level_def rbind_Inr)
      then show ?thesis using assms(3) by (simp add: level_rank_def)
    qed
  qed
qed

lemma evaluate_risk_Inr:
  "evaluate_risk rw rules registry = Inr r \<longleftrightarrow> (\<exists>fs gs. request_factors rw rules = Inr fs \<and>
     (case registry of None \<Rightarrow> Inr [] | Some x \<Rightarrow> registry_factors rw rules x) = Inr gs \<and>
     risk_level (min (points (fs @ gs)) 100) (rr_thresholds rules) = Inr (rk_level r) \<and>
     rk_score r = min (points (fs @ gs)) 100 \<and> rk_factors r = fs @ gs)"
  unfolding evaluate_risk_def rbind_Inr Let_def points_def by (cases r) auto

text \<open>The risk score is the sum of the points of the reported factors, cut off at 100, and monotone: with
  weights that are not negative, a request that shows every risk signal of another one scores at
  least as high and is put on a level at least as high.\<close>

theorem risk_monotone:
  assumes "evaluate_risk rw rules registry = Inr r" "evaluate_risk rw' rules registry = Inr r'"
    and "riskier rw' rw" "weights_ok rules"
  shows "rk_score r = min (points (rk_factors r)) 100 \<and> rk_score r \<le> rk_score r' \<and> rk_score r' \<le> 100 \<and>
    level_rank (rk_level r) \<le> level_rank (rk_level r')"
proof -
  let ?reg = "\<lambda>rw. case registry of None \<Rightarrow> Inr [] | Some x \<Rightarrow> registry_factors rw rules x"
  obtain fs gs where r: "request_factors rw rules = Inr fs" "?reg rw = Inr gs" "rk_factors r = fs @ gs"
    "risk_level (min (points (fs @ gs)) 100) (rr_thresholds rules) = Inr (rk_level r)"
    "rk_score r = min (points (fs @ gs)) 100"
    using assms(1) by (auto simp: evaluate_risk_Inr)
  obtain fs' gs' where r': "request_factors rw' rules = Inr fs'" "?reg rw' = Inr gs'"
    "risk_level (min (points (fs' @ gs')) 100) (rr_thresholds rules) = Inr (rk_level r')"
    "rk_score r' = min (points (fs' @ gs')) 100"
    using assms(2) by (auto simp: evaluate_risk_Inr)
  have "points fs \<le> points fs'" using request_factors_grow [OF assms(3,4)] r(1) r'(1) by (simp add: grows_def)
  moreover have "points gs \<le> points gs'"
    using registry_factors_grow [OF assms(3,4)] r(2) r'(2) by (cases registry) (auto simp: grows_def)
  ultimately have le: "min (points (fs @ gs)) 100 \<le> min (points (fs' @ gs')) 100" by simp
  with risk_level_mono [OF r(4) r'(3) le] r(3,5) r'(4) show ?thesis by simp
qed

definition demo_rules :: risk_rules where
  "demo_rules =
     \<lparr>rr_weights = [(''missing_owner'', PInt 10), (''external_provider'', PInt 15), (''production_namespace'', PInt 20),
        (''high_token_volume'', PInt 10), (''high_cost_forecast'', PInt 20), (''sensitive_data'', PInt 40),
        (''tool_access'', PInt 10), (''write_permission'', PInt 15), (''deploy_permission'', PInt 10)],
      rr_thresholds = [(''critical_min'', PInt 80), (''high_min'', PInt 60), (''medium_min'', PInt 30),
        (''high_token_volume'', PInt 100000), (''high_cost_forecast_usd'', PInt 5000)],
      rr_external = [''openai''], rr_production = [''ai-prod'']\<rparr>"

lemma demo_risk:
  "evaluate_risk demo_row demo_rules None = Inr \<lparr>rk_score = 0, rk_level = ''low'', rk_factors = []\<rparr>"
  "evaluate_risk (demo_row\<lparr>rw_sensitive_data := True\<rparr>) demo_rules None = Inr \<lparr>rk_score = 40, rk_level = ''medium'',
     rk_factors = [(''sensitive_data'', 40, ''request may process sensitive data'')]\<rparr>"
proof -
  have f: "float_of_int 5000 = 5000" using fl_of_int [of 5000] by (simp add: float_of_int_def)
  show "evaluate_risk demo_row demo_rules None = Inr \<lparr>rk_score = 0, rk_level = ''low'', rk_factors = []\<rparr>"
    "evaluate_risk (demo_row\<lparr>rw_sensitive_data := True\<rparr>) demo_rules None = Inr \<lparr>rk_score = 40, rk_level = ''medium'',
     rk_factors = [(''sensitive_data'', 40, ''request may process sensitive data'')]\<rparr>"
    by (simp_all add: evaluate_risk_def request_factors_def factor_if_def demo_row_def demo_rules_def int_item_def item_def
        ends_with_def deploy_actions_def risk_level_def weight_def f)
qed

theorem risk_monotone_witness:
  "\<exists>r r'. evaluate_risk demo_row demo_rules None = Inr r \<and>
     evaluate_risk (demo_row\<lparr>rw_sensitive_data := True\<rparr>) demo_rules None = Inr r' \<and>
     rk_score r \<le> rk_score r' \<and> level_rank (rk_level r) \<le> level_rank (rk_level r')"
proof -
  have "riskier (demo_row\<lparr>rw_sensitive_data := True\<rparr>) demo_row" by (simp add: riskier_def)
  moreover have "weights_ok demo_rules" by (simp add: weights_ok_def demo_rules_def)
  ultimately show ?thesis using risk_monotone [OF demo_risk] demo_risk by blast
qed

end
