(* ===== verification/Pack_Engine.thy ===== *)
theory Pack_Engine
  imports Gov_Request Table_Files
begin

text \<open>
  Policy packs and data residency, \<open>governance/policy-packs/evaluate.py\<close> and
  \<open>governance/sovereign/evaluate.py\<close>: a named pack restricts what an environment may do, a region
  restricts where models may run.
\<close>

definition external_providers :: "string list" where
  "external_providers = [''anthropic'', ''openai'', ''external'']"

subsection \<open>Reading packs and regions\<close>

text \<open>
  Both files have a default, and named tables of two levels; packs also map environments to names.
\<close>

record named_tables =
  nt_default :: string
  nt_map :: "(string \<times> string) list"
  nt_tables :: table

record table_reader =
  tr_section :: "string option"
  tr_current :: "string option"
  tr_config :: named_tables

definition table_line ::
  "string \<Rightarrow> string \<Rightarrow> table_reader \<Rightarrow> config_line \<Rightarrow> table_reader result" where
  "table_line bad_line bad_entry s l =
     (if l_indent l = 2 \<and> ends_with (l_text l) '':''
      then (let name = butlast (l_text l); c = tr_config s in
            Inr (s\<lparr>tr_current := Some name, tr_config := c\<lparr>nt_tables := dict_set name [] (nt_tables c)\<rparr>\<rparr>))
      else case tr_current s of
        None \<Rightarrow> Inl (ValueError (bad_line @ l_raw l))
      | Some name \<Rightarrow>
          if l_indent l = 4
          then (let (key, _, value) = partition_char (CHR '':'') (l_text l); c = tr_config s in
                if key = [] \<or> value = [] then Inl (ValueError (bad_entry @ l_raw l))
                else Inr (s\<lparr>tr_config := c\<lparr>nt_tables :=
                  set_in name key (parse_scalar value) (nt_tables c)\<rparr>\<rparr>))
          else Inl (ValueError (bad_line @ l_raw l)))"

definition pack_step :: "table_reader \<Rightarrow> config_line \<Rightarrow> table_reader result" where
  "pack_step s l =
     (let (key, _, value) = partition_char (CHR '':'') (l_text l); c = tr_config s in
      if l_indent l = 0
      then (if key = ''default_pack'' then Inr (s\<lparr>tr_section := None, tr_config := c\<lparr>nt_default := py_strip value\<rparr>\<rparr>)
            else if key = ''environment_map'' then Inr (s\<lparr>tr_section := Some ''environment_map''\<rparr>)
            else if key = ''packs'' then Inr (s\<lparr>tr_section := Some ''packs''\<rparr>)
            else Inl (ValueError (''unsupported policy pack line: '' @ l_raw l)))
      else if tr_section s = Some ''environment_map'' \<and> l_indent l = 2
      then (if key = [] \<or> value = [] then Inl (ValueError (''unsupported environment map entry: '' @ l_raw l))
            else Inr (s\<lparr>tr_config := c\<lparr>nt_map := dict_set (py_strip key) (py_strip value) (nt_map c)\<rparr>\<rparr>))
      else if tr_section s = Some ''packs''
      then table_line ''unsupported policy pack line: '' ''unsupported pack entry: '' s l
      else Inl (ValueError (''unsupported policy pack line: '' @ l_raw l)))"

definition region_step :: "table_reader \<Rightarrow> config_line \<Rightarrow> table_reader result" where
  "region_step s l =
     (let (key, _, value) = partition_char (CHR '':'') (l_text l); c = tr_config s in
      if l_indent l = 0
      then (if key = ''default_region'' then Inr (s\<lparr>tr_section := None, tr_config := c\<lparr>nt_default := py_strip value\<rparr>\<rparr>)
            else if key = ''regions'' then Inr (s\<lparr>tr_section := Some ''regions''\<rparr>)
            else Inl (ValueError (''unsupported residency line: '' @ l_raw l)))
      else if tr_section s = Some ''regions''
      then table_line ''unsupported residency line: '' ''unsupported region entry: '' s l
      else Inl (ValueError (''unsupported residency line: '' @ l_raw l)))"

definition table_start :: "string \<Rightarrow> table_reader" where
  "table_start d = \<lparr>tr_section = None, tr_current = None, tr_config = \<lparr>nt_default = d, nt_map = [], nt_tables = []\<rparr>\<rparr>"

definition parse_packs :: "string \<Rightarrow> named_tables result" where
  "parse_packs text = rbind (read_lines pack_step (table_start ''development'') (config_lines text)) (\<lambda>s. Inr (tr_config s))"

definition parse_residency :: "string \<Rightarrow> named_tables result" where
  "parse_residency text = rbind (read_lines region_step (table_start ''local'') (config_lines text)) (\<lambda>s. Inr (tr_config s))"

subsection \<open>Packs\<close>

definition resolve_pack_name :: "row \<Rightarrow> named_tables \<Rightarrow> string" where
  "resolve_pack_name rw config =
     (let explicit = py_strip (rw_policy_pack rw) in
      if explicit \<noteq> [] then explicit
      else let mapped = opt_str (map_of (nt_map config) (py_lower (py_strip (rw_environment rw)))) in
        if mapped \<noteq> [] then mapped else nt_default config)"

definition risk_rank :: "string \<Rightarrow> nat option" where
  "risk_rank level = (if level = ''low'' then Some 0 else if level = ''medium'' then Some 1
     else if level = ''high'' then Some 2 else if level = ''critical'' then Some 3 else None)"

text \<open>\<open>_risk_at_least\<close>: an unknown level or minimum is \<open>False\<close>.\<close>

definition risk_at_least :: "string \<Rightarrow> string \<Rightarrow> bool" where
  "risk_at_least level minimum =
     (case (risk_rank level, risk_rank minimum) of (Some a, Some b) \<Rightarrow> b \<le> a | _ \<Rightarrow> False)"

record pack_result =
  pk_pack :: string
  pk_decision :: string
  pk_reasons :: "string list"
  pk_multiplier :: rat
  pk_min_risk :: string

definition pack_reasons :: "row \<Rightarrow> string \<Rightarrow> pyobj \<Rightarrow> string list option \<Rightarrow> string list" where
  "pack_reasons rw name pack models =
     (let says = (\<lambda>text. ''policy pack '' @ name @ text);
          env = get_none pack ''require_environment''; region = get_none pack ''require_region'' in
      reason_if (truthy env \<and> PStr (rw_environment rw) \<noteq> env) (says ('' requires environment '' @ py_str env)) @
      reason_if (truthy (get_none pack ''block_external_providers'') \<and> rw_provider rw \<in> set external_providers)
        (says '' blocks external providers'') @
      reason_if (truthy (get_none pack ''block_unknown_models'') \<and>
          rw_model rw \<notin> set (case models of None \<Rightarrow> [] | Some ms \<Rightarrow> ms))
        (says ('' blocks unregistered model '' @ rw_model rw)) @
      reason_if (truthy (get_none pack ''block_sensitive_data'') \<and> rw_sensitive_data rw)
        (says '' blocks sensitive data workloads'') @
      reason_if (truthy region \<and> PStr (py_strip (rw_region rw)) \<noteq> region)
        (says ('' requires region '' @ py_str region)))"

definition evaluate_pack :: "row \<Rightarrow> named_tables \<Rightarrow> string list option \<Rightarrow> string option \<Rightarrow> pack_result result" where
  "evaluate_pack rw config models risk_level =
     (let name = resolve_pack_name rw config in
      case map_of (nt_tables config) name of
        None \<Rightarrow> Inr \<lparr>pk_pack = name, pk_decision = ''block'', pk_reasons = [''unknown policy pack '' @ name],
                     pk_multiplier = 1, pk_min_risk = ''high''\<rparr>
      | Some pack \<Rightarrow>
          (let reasons = pack_reasons rw name pack models;
               min_risk = py_str (get_default pack ''min_risk_for_approval'' (PStr ''high''));
               required = (case risk_level of None \<Rightarrow> False | Some lv \<Rightarrow> risk_at_least lv min_risk)
           in rbind (py_float (get_default pack ''quota_multiplier'' (PFloat 1))) (\<lambda>m.
              Inr (if reasons \<noteq> []
                then \<lparr>pk_pack = name, pk_decision = ''block'', pk_reasons = reasons, pk_multiplier = m, pk_min_risk = min_risk\<rparr>
                else \<lparr>pk_pack = name, pk_decision = (if required then ''approval_required'' else ''allow''),
                      pk_reasons = (''policy pack '' @ name @ '' checks passed'') #
                        reason_if required (''policy pack '' @ name @ '' requires approval for risk level '' @ opt_str risk_level),
                      pk_multiplier = m, pk_min_risk = min_risk\<rparr>))))"

subsection \<open>Residency\<close>

record region_result =
  rg_region :: string
  rg_forbidden :: bool
  rg_reasons :: "string list"
  rg_external :: bool

definition evaluate_residency :: "row \<Rightarrow> named_tables \<Rightarrow> pyobj option \<Rightarrow> region_result" where
  "evaluate_residency rw config entry =
     (let region = str_or (py_strip (rw_region rw)) (nt_default config);
          rules = get_default (nt_tables config) region [];
          has_entry = (case entry of None \<Rightarrow> False | Some e \<Rightarrow> e \<noteq> []);
          e = (case entry of None \<Rightarrow> [] | Some e \<Rightarrow> e);
          external = (py_lower (py_strip (rw_provider rw)) \<in> set external_providers \<or>
            (has_entry \<and> truthy (get_default e ''external_provider'' (PBool False))));
          regions = (case get_none e ''allowed_regions'' of PList xs \<Rightarrow> xs | _ \<Rightarrow> []);
          reasons =
            reason_if (truthy (get_none rules ''block_external_providers'') \<and> external)
              (''region '' @ region @ '' blocks external model providers for data residency'') @
            reason_if (truthy (get_none rules ''require_local_model'') \<and> external)
              (''region '' @ region @ '' requires local/on-prem models only'') @
            reason_if (regions \<noteq> [] \<and> PStr region \<notin> set regions)
              (''model '' @ rw_model rw @ '' is not approved for region '' @ region)
      in \<lparr>rg_region = region, rg_forbidden = (reasons \<noteq> []), rg_reasons = reasons, rg_external = external\<rparr>)"

subsection \<open>The readers\<close>

definition table_inv :: "table_reader \<Rightarrow> bool" where
  "table_inv s \<longleftrightarrow> keys_distinct (nt_tables (tr_config s)) \<and> distinct (map fst (nt_map (tr_config s))) \<and>
     (\<forall>n. tr_current s = Some n \<longrightarrow> n \<in> fst ` set (nt_tables (tr_config s)))"

lemma table_line_inv: "table_inv s \<Longrightarrow> table_line a b s l = Inr s' \<Longrightarrow> table_inv s'"
  by (auto simp: table_line_def table_inv_def Let_def fst_dict_set split: if_splits option.splits prod.splits)

lemma table_start_inv: "table_inv (table_start d)"
  by (simp add: table_inv_def table_start_def)

interpretation pack_reader: line_reader pack_step "table_start ''development''" table_inv
proof
  fix s l s' assume inv: "table_inv s" and step: "pack_step s l = Inr s'"
  obtain key b val where kv: "partition_char (CHR '':'') (l_text l) = (key, b, val)"
    by (cases "partition_char (CHR '':'') (l_text l)") auto
  note d = pack_step_def kv Let_def prod.case
  consider (top) "l_indent l = 0" | (env) "l_indent l \<noteq> 0" "tr_section s = Some ''environment_map'' \<and> l_indent l = 2"
    | (packs) "l_indent l \<noteq> 0" "\<not> (tr_section s = Some ''environment_map'' \<and> l_indent l = 2)" by blast
  then show "table_inv s'"
  proof cases
    case top with inv step show ?thesis by (auto simp: d table_inv_def split: if_splits)
  next
    case env with inv step show ?thesis by (auto simp: d table_inv_def distinct_dict_set split: if_splits)
  next
    case packs with step have "table_line ''unsupported policy pack line: '' ''unsupported pack entry: '' s l = Inr s'"
      by (auto simp: d split: if_splits)
    with inv show ?thesis by (rule table_line_inv)
  qed
qed (rule table_start_inv)

interpretation region_reader: line_reader region_step "table_start ''local''" table_inv
proof
  fix s l s' assume inv: "table_inv s" and step: "region_step s l = Inr s'"
  obtain key b val where kv: "partition_char (CHR '':'') (l_text l) = (key, b, val)"
    by (cases "partition_char (CHR '':'') (l_text l)") auto
  note d = region_step_def kv Let_def prod.case
  show "table_inv s'"
  proof (cases "l_indent l = 0")
    case True with inv step show ?thesis by (auto simp: d table_inv_def split: if_splits)
  next
    case False with step have "table_line ''unsupported residency line: '' ''unsupported region entry: '' s l = Inr s'"
      by (auto simp: d split: if_splits)
    with inv show ?thesis by (rule table_line_inv)
  qed
qed (rule table_start_inv)

lemma table_line_name: "l_indent l = 2 \<Longrightarrow> ends_with (l_text l) '':'' \<Longrightarrow>
    table_line a b s l = Inr (s\<lparr>tr_current := Some (butlast (l_text l)),
      tr_config := tr_config s\<lparr>nt_tables := dict_set (butlast (l_text l)) [] (nt_tables (tr_config s))\<rparr>\<rparr>)"
  by (simp add: table_line_def Let_def)

lemma table_line_entry: "l_indent l = 4 \<Longrightarrow> partition_char (CHR '':'') (l_text l) = (k, True, v) \<Longrightarrow> k \<noteq> [] \<Longrightarrow> v \<noteq> [] \<Longrightarrow>
    tr_current s = Some n \<Longrightarrow>
    table_line a b s l = Inr (s\<lparr>tr_config := tr_config s\<lparr>nt_tables := set_in n k (parse_scalar v) (nt_tables (tr_config s))\<rparr>\<rparr>)"
  by (simp add: table_line_def Let_def)

interpretation pack_table: table_reading pack_step
  "\<lambda>cur t. \<lparr>tr_section = Some ''packs'', tr_current = cur, tr_config = \<lparr>nt_default = d, nt_map = m, nt_tables = t\<rparr>\<rparr>"
  for d m
  by unfold_locales (simp_all add: pack_step_def Let_def split_beta table_line_name table_line_entry)

interpretation region_table: table_reading region_step
  "\<lambda>cur t. \<lparr>tr_section = Some ''regions'', tr_current = cur, tr_config = \<lparr>nt_default = d, nt_map = m, nt_tables = t\<rparr>\<rparr>"
  for d m
  by unfold_locales (simp_all add: region_step_def Let_def split_beta table_line_name table_line_entry)

text \<open>A pack file: the default, the environments, the packs.\<close>

definition pack_lines :: "named_tables \<Rightarrow> (nat \<times> string) list" where
  "pack_lines c = (0, ''default_pack: '' @ nt_default c) #
     (0, ''environment_map:'') # map (\<lambda>(k, v). (2, k @ '': '' @ v)) (nt_map c) @
     (0, ''packs:'') # concat (map group_lines (nt_tables c))"

definition word_ok :: "string \<Rightarrow> bool" where
  "word_ok s \<longleftrightarrow> s \<noteq> [] \<and> \<not> is_space (hd s) \<and> \<not> is_space (last s) \<and> plain s"

definition packs_ok :: "named_tables \<Rightarrow> bool" where
  "packs_ok c \<longleftrightarrow> word_ok (nt_default c) \<and> distinct (map fst (nt_map c)) \<and>
     list_all (\<lambda>(k, v). name_ok k \<and> word_ok k \<and> word_ok v) (nt_map c) \<and> table_ok (nt_tables c)"

lemma strip_word: "word_ok s \<Longrightarrow> py_strip s = s" "word_ok s \<Longrightarrow> py_strip (CHR '' '' # s) = s"
  using py_strip_clean [of s] py_strip_blanks [of 1 s] by (simp_all add: word_ok_def)

lemma read_environments:
  assumes "list_all (\<lambda>(k, v). name_ok k \<and> word_ok k \<and> word_ok v) e" "distinct (map fst (m @ e))"
  shows "read_lines pack_step \<lparr>tr_section = Some ''environment_map'', tr_current = None, tr_config = \<lparr>nt_default = d, nt_map = m, nt_tables = []\<rparr>\<rparr>
      (map read_line (map (\<lambda>(k, v). (2, k @ '': '' @ v)) e)) =
    Inr \<lparr>tr_section = Some ''environment_map'', tr_current = None, tr_config = \<lparr>nt_default = d, nt_map = m @ e, nt_tables = []\<rparr>\<rparr>"
  using assms
proof (induction e arbitrary: m)
  case (Cons kv e)
  obtain k v where kv: "kv = (k, v)" by (cases kv)
  from Cons.prems kv have k: "name_ok k" "word_ok k" "word_ok v" and fresh: "k \<notin> fst ` set m" by auto
  have add: "dict_set k v m = m @ [(k, v)]" using fresh by (induction m) auto
  have "partition_char (CHR '':'') (k @ CHR '':'' # CHR '' '' # v) = (k, True, CHR '' '' # v)"
    using k(1) by (intro partition_char_found) (simp add: name_ok_def)
  moreover have "k \<noteq> []" using k(2) by (simp add: word_ok_def)
  ultimately have "pack_step \<lparr>tr_section = Some ''environment_map'', tr_current = None, tr_config = \<lparr>nt_default = d, nt_map = m, nt_tables = []\<rparr>\<rparr>
      (read_line (2, k @ '': '' @ v)) =
    Inr \<lparr>tr_section = Some ''environment_map'', tr_current = None, tr_config = \<lparr>nt_default = d, nt_map = m @ [kv], nt_tables = []\<rparr>\<rparr>"
    by (simp add: read_line_def pack_step_def strip_word k add kv)
  with Cons.IH [of "m @ [kv]"] Cons.prems kv show ?case by simp
qed simp

text \<open>The policy pack file is read as it is written: default pack, environment map and the packs with
  their scalars come back unchanged.\<close>

theorem pack_file_roundtrip:
  assumes "packs_ok c"
  shows "parse_packs (file_text (pack_lines c)) = Inr c"
proof -
  obtain d m t where c: "c = \<lparr>nt_default = d, nt_map = m, nt_tables = t\<rparr>" by (cases c)
  have ok: "word_ok d" "list_all (\<lambda>(k, v). name_ok k \<and> word_ok k \<and> word_ok v) m" "distinct (map fst m)" "table_ok t"
    using assms c by (simp_all add: packs_ok_def)
  have "list_all line_ok (map (\<lambda>(k, v). (2, k @ '': '' @ v)) m)"
    using ok(2) by (auto simp: list_all_iff line_ok_def name_ok_def word_ok_def) (auto simp: plain_def is_line_end_def)
  then have "list_all line_ok (pack_lines c)" using line_ok_table [OF ok(4)] ok(1)
    by (simp add: c pack_lines_def line_ok_def word_ok_def is_space_def) (simp add: plain_def is_line_end_def)
  then have lines: "config_lines (file_text (pack_lines c)) = map read_line (pack_lines c)" by (rule config_lines_file_text)
  let ?s = "\<lambda>sec m t. \<lparr>tr_section = sec, tr_current = None, tr_config = \<lparr>nt_default = d, nt_map = m, nt_tables = t\<rparr>\<rparr>"
  have "partition_char (CHR '':'') (''default_pack'' @ CHR '':'' # CHR '' '' # d) = (''default_pack'', True, CHR '' '' # d)"
    by (rule partition_char_found) simp
  then have "pack_step (table_start ''development'') (read_line (0, ''default_pack: '' @ d)) = Inr (?s None [] [])"
    using ok(1) by (simp add: pack_step_def table_start_def read_line_def strip_word)
  moreover have "pack_step (?s None [] []) (read_line (0, ''environment_map:'')) = Inr (?s (Some ''environment_map'') [] [])"
    "pack_step (?s (Some ''environment_map'') m []) (read_line (0, ''packs:'')) = Inr (?s (Some ''packs'') m [])"
    by (simp_all add: pack_step_def read_line_def partition_char_def)
  moreover have "read_lines pack_step (?s (Some ''environment_map'') [] []) (map read_line (map (\<lambda>(k, v). (2, k @ '': '' @ v)) m)) =
      Inr (?s (Some ''environment_map'') m [])"
    using read_environments [of m "[]" d] ok by simp
  moreover obtain cur where "read_lines pack_step (?s (Some ''packs'') m []) (map read_line (concat (map group_lines t))) =
      Inr \<lparr>tr_section = Some ''packs'', tr_current = cur, tr_config = \<lparr>nt_default = d, nt_map = m, nt_tables = t\<rparr>\<rparr>"
    using pack_table.read_table [where d = d and m = m and c = None and t = "[]" and u = t] ok(4) by auto
  ultimately show ?thesis
    by (simp add: parse_packs_def lines del: map_map) (simp add: pack_lines_def c read_lines_append del: map_map)
qed

theorem pack_file_roundtrip_witness:
  "parse_packs (file_text (pack_lines \<lparr>nt_default = ''development'', nt_map = [(''prod'', ''production'')],
      nt_tables = [(''development'', [(''quota_multiplier'', PInt 2)]), (''production'', [(''block_unknown_models'', PBool True)])]\<rparr>))
    = Inr \<lparr>nt_default = ''development'', nt_map = [(''prod'', ''production'')],
      nt_tables = [(''development'', [(''quota_multiplier'', PInt 2)]), (''production'', [(''block_unknown_models'', PBool True)])]\<rparr>"
proof (rule pack_file_roundtrip)
  show "packs_ok \<lparr>nt_default = ''development'', nt_map = [(''prod'', ''production'')],
      nt_tables = [(''development'', [(''quota_multiplier'', PInt 2)]), (''production'', [(''block_unknown_models'', PBool True)])]\<rparr>"
    by code_simp
qed

subsection \<open>Decisions\<close>

lemma risk_at_least_iff:
  "risk_at_least level minimum \<longleftrightarrow> (\<exists>a b. risk_rank level = Some a \<and> risk_rank minimum = Some b \<and> b \<le> a)"
  by (auto simp: risk_at_least_def split: option.splits)

text \<open>The minimum risk of a pack, as the code reads it.\<close>

definition min_risk :: "pyobj \<Rightarrow> string" where
  "min_risk pack = py_str (get_default pack ''min_risk_for_approval'' (PStr ''high''))"

definition pack_named :: "row \<Rightarrow> named_tables \<Rightarrow> pyobj option" where
  "pack_named rw config = map_of (nt_tables config) (resolve_pack_name rw config)"

lemma evaluate_pack_known:
  assumes "evaluate_pack rw config models level = Inr r" "pack_named rw config = Some pack"
  shows "pk_decision r =
    (if pack_reasons rw (resolve_pack_name rw config) pack models \<noteq> [] then ''block''
     else if \<exists>lv. level = Some lv \<and> risk_at_least lv (min_risk pack) then ''approval_required'' else ''allow'')"
  using assms by (auto simp: evaluate_pack_def pack_named_def min_risk_def Let_def rbind_Inr split: if_splits option.splits)

text \<open>The approval rank of a decision.\<close>

definition pack_rank :: "string \<Rightarrow> nat" where
  "pack_rank d = (if d = ''block'' then 2 else if d = ''approval_required'' then 1 else 0)"

text \<open>A higher risk level never gets a more lenient answer from the same policy pack, and a pack whose
  minimum risk is not one of the four level names never requires an approval, whatever the risk.\<close>

theorem pack_risk_escalates:
  assumes "evaluate_pack rw config models (Some l) = Inr r" "evaluate_pack rw config models (Some l') = Inr r'"
    and "risk_rank l = Some a" "risk_rank l' = Some b" "a \<le> b"
  shows "pack_rank (pk_decision r) \<le> pack_rank (pk_decision r') \<and>
    (case pack_named rw config of None \<Rightarrow> pk_decision r = ''block''
     | Some pack \<Rightarrow> if risk_rank (min_risk pack) = None then pk_decision r' \<noteq> ''approval_required'' else True)"
proof (cases "pack_named rw config")
  case None
  then have "r = r'" "pk_decision r = ''block''" using assms(1,2) by (auto simp: evaluate_pack_def pack_named_def Let_def)
  then show ?thesis using None by simp
next
  case (Some pack)
  show ?thesis
    using evaluate_pack_known [OF assms(1) Some] evaluate_pack_known [OF assms(2) Some] assms(3-5) Some
    by (auto simp: pack_rank_def risk_at_least_iff)
qed

definition demo_packs :: named_tables where
  "demo_packs = \<lparr>nt_default = ''development'', nt_map = [], nt_tables = [(''development'', [(''quota_multiplier'', PInt 1)])]\<rparr>"

theorem pack_risk_escalates_witness:
  "\<exists>r r'. evaluate_pack demo_row demo_packs None (Some ''low'') = Inr r \<and>
     evaluate_pack demo_row demo_packs None (Some ''critical'') = Inr r' \<and>
     pack_rank (pk_decision r) \<le> pack_rank (pk_decision r') \<and> pk_decision r' = ''approval_required''"
proof -
  have pack: "evaluate_pack demo_row demo_packs None (Some l) = Inr
      \<lparr>pk_pack = ''development'', pk_decision = (if risk_at_least l ''high'' then ''approval_required'' else ''allow''),
       pk_reasons = ''policy pack development checks passed'' #
         reason_if (risk_at_least l ''high'') (''policy pack development requires approval for risk level '' @ l),
       pk_multiplier = 1, pk_min_risk = ''high''\<rparr>" for l
    using fl_of_int [of 1] by (simp add: evaluate_pack_def demo_packs_def demo_row_def resolve_pack_name_def pack_reasons_def
        get_none_def get_default_def float_of_int_def)
  have ranks: "risk_rank ''low'' = Some 0" "risk_rank ''critical'' = Some 3" by (simp_all add: risk_rank_def)
  have high: "risk_at_least ''critical'' ''high''" by code_simp
  obtain r r' where r: "evaluate_pack demo_row demo_packs None (Some ''low'') = Inr r"
    and r': "evaluate_pack demo_row demo_packs None (Some ''critical'') = Inr r'" using pack by blast
  have "pk_decision r' = ''approval_required''" using r' pack [of "''critical''"] high by auto
  with pack_risk_escalates [OF r r' ranks] r r' show ?thesis by auto
qed

text \<open>The residency rules do not cover a region that the file does not name: for such a region a model
  without a region list of its own is never forbidden, an external provider included.\<close>

theorem residency_unknown_region:
  "if map_of (nt_tables config) (str_or (py_strip (rw_region rw)) (nt_default config)) = None
   then rg_forbidden (evaluate_residency rw config None) = False \<and> rg_reasons (evaluate_residency rw config None) = [] \<and>
     rg_forbidden (evaluate_residency rw config (Some [(''external_provider'', PBool True)])) = False
   else True"
  by (simp add: evaluate_residency_def get_default_def get_none_def Let_def)

text \<open>Data stays in a region that keeps it: when the region forbids external providers or asks for local
  models, a request to an external provider, or for a model the registry marks external, is forbidden,
  and so is a model whose region list omits the region; nothing else is forbidden.\<close>

theorem residency_forbids:
  "rg_forbidden (evaluate_residency rw config entry) \<longleftrightarrow>
    (let region = str_or (py_strip (rw_region rw)) (nt_default config);
         rules = get_default (nt_tables config) region [];
         e = (case entry of None \<Rightarrow> [] | Some e \<Rightarrow> e)
     in ((truthy (get_none rules ''block_external_providers'') \<or> truthy (get_none rules ''require_local_model'')) \<and>
         (py_lower (py_strip (rw_provider rw)) \<in> set external_providers \<or> truthy (get_none e ''external_provider''))) \<or>
        (\<exists>xs. get_none e ''allowed_regions'' = PList xs \<and> xs \<noteq> [] \<and> PStr region \<notin> set xs))"
proof -
  have "truthy (get_default e k (PBool False)) \<longleftrightarrow> truthy (get_none e k)" for e :: pyobj and k
    by (simp add: get_none_def get_default_def split: option.split)
  moreover have "get_none [] k = PNone" for k by (simp add: get_none_def get_default_def)
  moreover have "(case v of PList xs \<Rightarrow> xs | _ \<Rightarrow> []) \<noteq> [] \<and> PStr r \<notin> set (case v of PList xs \<Rightarrow> xs | _ \<Rightarrow> []) \<longleftrightarrow>
      (\<exists>xs. v = PList xs \<and> xs \<noteq> [] \<and> PStr r \<notin> set xs)" for v r by (cases v) auto
  ultimately show ?thesis
    by (cases entry) (auto simp: evaluate_residency_def Let_def)
qed

end
