(* ===== verification/Approval_Engine.thy ===== *)
theory Approval_Engine
  imports Registry_Engine
begin

text \<open>
  Approval rules, \<open>governance/approval/evaluate.py\<close>: which requests are blocked, which need a human. The
  request is the one \<open>build_approval_request\<close> makes of a pipeline row, the cost decision and the risk
  level; its numbers are numbers, so \<open>float()\<close> does not fail on them. \<open>load_requests\<close> reads requests
  from a file of lists.
\<close>

definition forbidden_models :: "string list" where
  "forbidden_models = [''unknown-frontier-model'']"

definition approval_providers :: "string list" where
  "approval_providers = [''anthropic'', ''openai'', ''external'']"

definition high_risk_actions :: "string list" where
  "high_risk_actions = [''deploy_model'', ''enable_external_model'', ''scale_replicas'']"

definition supported_teams :: "string list" where
  "supported_teams = [''platform'', ''search'', ''mlops'', ''finance'']"

record approval_request =
  aq_id :: string
  aq_team :: string
  aq_owner :: "string option"
  aq_environment :: string
  aq_namespace :: string
  aq_action :: string
  aq_model :: string
  aq_provider :: string
  aq_cost_decision :: string
  aq_cost_per_hour_usd :: rat
  aq_forecast_monthly_cost_usd :: rat
  aq_risk :: string

text \<open>\<open>build_approval_request\<close> of \<open>governance_service.py\<close>.\<close>

definition build_approval_request :: "row \<Rightarrow> string \<Rightarrow> string \<Rightarrow> approval_request" where
  "build_approval_request rw cost_decision risk_level =
     \<lparr>aq_id = rw_id rw, aq_team = rw_team rw, aq_owner = (if rw_owner rw = [] then None else Some (rw_owner rw)),
      aq_environment = rw_environment rw, aq_namespace = rw_namespace rw, aq_action = rw_action rw,
      aq_model = rw_model rw, aq_provider = rw_provider rw, aq_cost_decision = cost_decision,
      aq_cost_per_hour_usd = rw_cost_per_hour_usd rw,
      aq_forecast_monthly_cost_usd = rw_forecast_monthly_cost_usd rw, aq_risk = risk_level\<rparr>"

definition approval_block_reasons :: "approval_request \<Rightarrow> table option \<Rightarrow> string list" where
  "approval_block_reasons q registry =
     (let forbidden = ''model '' @ aq_model q @ '' is forbidden'' in
      reason_if (aq_owner q \<in> {None, Some [], Some ''none''}) ''request has no responsible owner'' @
      reason_if (aq_team q \<notin> set supported_teams) (''team '' @ aq_team q @ '' is not onboarded for AI governance'') @
      (case (case registry of None \<Rightarrow> None | Some r \<Rightarrow> map_of r (aq_model q)) of
         Some entry \<Rightarrow>
           reason_if (truthy (get_none entry ''forbidden'')) forbidden @
           reason_if (not_listed (get_none entry ''allowed_namespaces'') (aq_namespace q))
             (''namespace '' @ aq_namespace q @ '' is not allowed for model '' @ aq_model q)
       | None \<Rightarrow> reason_if (aq_model q \<in> set forbidden_models) forbidden) @
      reason_if (aq_cost_decision q = ''block'') ''cost governance returned block'')"

definition approval_review_reasons :: "approval_request \<Rightarrow> string list" where
  "approval_review_reasons q =
     reason_if (aq_cost_decision q = ''warn'') ''cost governance returned warn'' @
     reason_if (aq_environment q = ''production'' \<or> ends_with (aq_namespace q) ''-prod'')
       ''production environment requires human approval'' @
     reason_if (aq_provider q \<in> set approval_providers) ''external model provider requires human approval'' @
     reason_if (aq_action q \<in> set high_risk_actions) (''action '' @ aq_action q @ '' changes serving posture'') @
     reason_if (aq_risk q \<in> {''high'', ''critical''}) (''risk level is '' @ aq_risk q) @
     reason_if (3 / 4 \<le> aq_cost_per_hour_usd q) ''model hourly cost is above approval threshold'' @
     reason_if (1500 \<le> aq_forecast_monthly_cost_usd q) ''forecasted monthly cost is above approval threshold''"

definition evaluate_approval :: "approval_request \<Rightarrow> table option \<Rightarrow> verdict" where
  "evaluate_approval q registry =
     (let block = approval_block_reasons q registry; review = approval_review_reasons q in
      if block \<noteq> [] then verdict_of ''block'' block
      else if review \<noteq> [] then verdict_of ''approval_required'' review
      else verdict_of ''allow'' [''request is low-risk and inside approval limits''])"

lemma evaluate_approval_decision:
  "v_decision (evaluate_approval q registry) =
    (if approval_block_reasons q registry \<noteq> [] then ''block''
     else if approval_review_reasons q \<noteq> [] then ''approval_required'' else ''allow'')"
  by (simp add: evaluate_approval_def Let_def)

subsection \<open>Reading requests\<close>

text \<open>\<open>parse_scalar\<close> of this file knows no booleans but \<open>none\<close>.\<close>

definition parse_approval_scalar :: "string \<Rightarrow> pyval" where
  "parse_approval_scalar value =
     (let s = py_strip value in
      if s = [] then PStr [] else if py_lower s = ''none'' then PNone else number_or_text s)"

definition required_fields :: "string list" where
  "required_fields = [''id'', ''team'', ''owner'', ''environment'', ''namespace'', ''action'', ''model'', ''provider'',
     ''cost_decision'', ''cost_per_hour_usd'', ''forecast_monthly_cost_usd'', ''risk'']"

text \<open>The reader: whether the section is open, the request being read, those finished.\<close>

record request_reader =
  ar_open :: bool
  ar_current :: "pyobj option"
  ar_done :: "pyobj list"

text \<open>\<open>if current: requests.append(current)\<close>: a request without fields is dropped.\<close>

definition finish_request :: "request_reader \<Rightarrow> pyobj list" where
  "finish_request s = (case ar_current s of None \<Rightarrow> ar_done s
     | Some d \<Rightarrow> if d = [] then ar_done s else ar_done s @ [d])"

definition request_step :: "request_reader \<Rightarrow> config_line \<Rightarrow> request_reader result" where
  "request_step s l =
     (if l_indent l = 0 \<and> l_text l = ''requests:'' then Inr (s\<lparr>ar_open := True\<rparr>)
      else if \<not> ar_open s then Inl (ValueError (''unsupported request format line: '' @ l_raw l))
      else if l_indent l = 2 \<and> starts_with (l_text l) ''- ''
      then (let (key, _, value) = partition_char (CHR '':'') (drop 2 (l_text l)) in
            if key = [] \<or> value = [] then Inl (ValueError (''unsupported request list item: '' @ l_raw l))
            else Inr (s\<lparr>ar_done := finish_request s, ar_current := Some [(key, parse_approval_scalar value)]\<rparr>))
      else case ar_current s of
        None \<Rightarrow> Inl (ValueError (''unsupported request format line: '' @ l_raw l))
      | Some d \<Rightarrow>
          if l_indent l = 4
          then (let (key, _, value) = partition_char (CHR '':'') (l_text l) in
                if key = [] \<or> value = [] then Inl (ValueError (''unsupported request field: '' @ l_raw l))
                else Inr (s\<lparr>ar_current := Some (dict_set key (parse_approval_scalar value) d)\<rparr>))
          else Inl (ValueError (''unsupported request format line: '' @ l_raw l)))"

definition request_start :: request_reader where
  "request_start = \<lparr>ar_open = False, ar_current = None, ar_done = []\<rparr>"

definition missing_fields :: "pyobj \<Rightarrow> string list" where
  "missing_fields d = filter (\<lambda>k. k \<notin> fst ` set d) required_fields"

definition check_request :: "pyobj \<Rightarrow> unit result" where
  "check_request d =
     (if missing_fields d = [] then Inr ()
      else Inl (ValueError (''request '' @ py_str (get_default d ''id'' (PStr ''unknown'')) @ '' is missing fields: '' @
        join_with '', '' (sort (missing_fields d)))))"

fun check_requests :: "pyobj list \<Rightarrow> unit result" where
  "check_requests [] = Inr ()"
| "check_requests (d # ds) = rbind (check_request d) (\<lambda>_. check_requests ds)"

definition load_requests :: "string \<Rightarrow> pyobj list result" where
  "load_requests text =
     rbind (read_lines request_step request_start (config_lines text)) (\<lambda>s.
     rbind (check_requests (finish_request s)) (\<lambda>_. Inr (finish_request s)))"

definition requests_inv :: "request_reader \<Rightarrow> bool" where
  "requests_inv s \<longleftrightarrow> (\<forall>d\<in>set (ar_done s). d \<noteq> [] \<and> distinct (map fst d)) \<and>
     (\<forall>d. ar_current s = Some d \<longrightarrow> distinct (map fst d)) \<and> (ar_current s \<noteq> None \<longrightarrow> ar_open s)"

lemma finish_request_in: "d \<in> set (finish_request s) \<longleftrightarrow> d \<in> set (ar_done s) \<or> (ar_current s = Some d \<and> d \<noteq> [])"
  by (auto simp: finish_request_def split: option.split)

interpretation request_lines: line_reader request_step request_start requests_inv
proof
  fix s l s' assume inv: "requests_inv s" and step: "request_step s l = Inr s'"
  obtain k b v where kv: "partition_char (CHR '':'') (drop 2 (l_text l)) = (k, b, v)"
    by (cases "partition_char (CHR '':'') (drop 2 (l_text l))") auto
  obtain k' b' v' where kv': "partition_char (CHR '':'') (l_text l) = (k', b', v')"
    by (cases "partition_char (CHR '':'') (l_text l)") auto
  have "s' = s\<lparr>ar_open := True\<rparr> \<or>
      (ar_open s \<and> s' = s\<lparr>ar_done := finish_request s, ar_current := Some [(k, parse_approval_scalar v)]\<rparr>) \<or>
      (\<exists>d. ar_current s = Some d \<and> s' = s\<lparr>ar_current := Some (dict_set k' (parse_approval_scalar v') d)\<rparr>)"
    using step unfolding request_step_def kv kv' by (auto simp: Let_def split: if_split_asm option.split_asm)
  then show "requests_inv s'" using inv
    by (elim disjE exE conjE) (auto simp: requests_inv_def finish_request_in distinct_dict_set)
qed (simp add: requests_inv_def request_start_def)

lemma check_requests_Inr: "check_requests ds = Inr u \<longleftrightarrow> (\<forall>d\<in>set ds. missing_fields d = [])"
  by (induction ds) (auto simp: check_request_def rbind_Inr)

lemma missing_fields_Nil: "missing_fields d = [] \<longleftrightarrow> set required_fields \<subseteq> fst ` set d"
  by (auto simp: missing_fields_def filter_empty_conv)

text \<open>Every request that \<open>load_requests\<close> returns has every required field, and no key twice.\<close>

theorem loaded_requests_complete:
  assumes "load_requests text = Inr ds" "d \<in> set ds"
  shows "set required_fields \<subseteq> fst ` set d \<and> distinct (map fst d)"
proof -
  obtain s where s: "read_lines request_step request_start (config_lines text) = Inr s"
    "check_requests (finish_request s) = Inr ()" "ds = finish_request s"
    using assms(1) by (auto simp: load_requests_def rbind_Inr)
  have "requests_inv s" by (rule request_lines.read_inv [OF s(1)])
  then show ?thesis using assms(2) s(2,3) unfolding check_requests_Inr missing_fields_Nil
    by (auto simp: requests_inv_def finish_request_in)
qed

definition demo_requests :: "(nat \<times> string) list" where
  "demo_requests = (0, ''requests:'') # (2, ''- id: r1'') #
     map (\<lambda>k. (4, k @ '': x'')) (tl required_fields)"

theorem loaded_requests_complete_witness:
  "\<exists>d. load_requests (file_text demo_requests) = Inr [d] \<and> set required_fields \<subseteq> fst ` set d \<and> distinct (map fst d)"
proof -
  let ?d = "map (\<lambda>k. (k, PStr (if k = ''id'' then ''r1'' else ''x''))) required_fields"
  have "load_requests (file_text demo_requests) = Inr [?d]" by code_simp
  then have "load_requests (file_text demo_requests) = Inr [?d] \<and> set required_fields \<subseteq> fst ` set ?d \<and> distinct (map fst ?d)"
    using loaded_requests_complete [of "file_text demo_requests" "[?d]" ?d] by simp
  then show ?thesis by blast
qed

end
