(* ===== verification/Policy_Bundle.thy ===== *)
theory Policy_Bundle
  imports Quota_Engine Cost_Engine Risk_Engine Pack_Engine Tool_Engine Approval_Engine Prompt_Engine
begin

text \<open>
  A policy bundle, \<open>policy_bundle.py\<close>: the policy files of a directory, read by the engines that ship with
  the control plane. A directory is a map from relative paths to texts. \<open>hash\<close> is SHA-256 as a hexadecimal
  text. The modules of the engines are the code modelled in the engine theories, so loading them is not
  part of the model.
\<close>

type_synonym files = "string \<Rightarrow> string option"

definition policy_yaml :: "string list" where
  "policy_yaml = [''policy-packs/packs.yaml'', ''quota/policies.yaml'', ''registry/models.yaml'',
     ''sovereign/residency.yaml'', ''agents/agents.yaml'', ''tools/tools.yaml'', ''cost/policies.yaml'',
     ''cost/pricing.yaml'', ''risk/rules.yaml'', ''classification/tenants.yaml'']"

text \<open>The bytes that are hashed: each path and each content, closed by a zero byte.\<close>

definition nul :: char where "nul = CHR 0x00"

definition file_bytes :: "files \<Rightarrow> string \<Rightarrow> string" where
  "file_bytes fs path = path @ [nul] @ (case fs path of None \<Rightarrow> [] | Some c \<Rightarrow> c) @ [nul]"

definition content_bytes :: "files \<Rightarrow> string" where
  "content_bytes fs = concat (map (file_bytes fs) policy_yaml)"

definition content_digest :: "(string \<Rightarrow> string) \<Rightarrow> files \<Rightarrow> string" where
  "content_digest hash fs = hash (content_bytes fs)"

record policy_configs =
  pc_packs :: named_tables
  pc_quota :: table
  pc_registry :: table
  pc_residency :: named_tables
  pc_agents :: table
  pc_tools :: table
  pc_cost :: cost_policies
  pc_risk :: risk_rules

record policy_bundle =
  pb_id :: string
  pb_revision :: string
  pb_digest :: string
  pb_loaded_at :: string
  pb_status :: string
  pb_error :: "string option"
  pb_configs :: "policy_configs option"

definition read_file :: "files \<Rightarrow> string \<Rightarrow> string \<Rightarrow> (string \<Rightarrow> 'a result) \<Rightarrow> 'a result" where
  "read_file fs what path parse =
     (case fs path of None \<Rightarrow> Inl (FileNotFoundError (what @ '' does not exist: '' @ path)) | Some text \<Rightarrow> parse text)"

definition load_configs :: "files \<Rightarrow> policy_configs result" where
  "load_configs fs =
     rbind (read_file fs ''policy pack file'' ''policy-packs/packs.yaml'' parse_packs) (\<lambda>packs.
     rbind (read_file fs ''quota policy file'' ''quota/policies.yaml'' parse_policies) (\<lambda>quota.
     rbind (read_file fs ''registry file'' ''registry/models.yaml'' (parse_registry model_format)) (\<lambda>models.
     rbind (read_file fs ''residency file'' ''sovereign/residency.yaml'' parse_residency) (\<lambda>residency.
     rbind (read_file fs ''agent registry file'' ''agents/agents.yaml'' (parse_registry agent_format)) (\<lambda>agents.
     rbind (read_file fs ''tool registry file'' ''tools/tools.yaml'' (parse_registry tool_format)) (\<lambda>tools.
     rbind (read_file fs ''policy file'' ''cost/policies.yaml'' parse_policy_file) (\<lambda>cost.
     rbind (read_file fs ''rules file'' ''risk/rules.yaml'' parse_rules) (\<lambda>risk.
     Inr \<lparr>pc_packs = packs, pc_quota = quota, pc_registry = models, pc_residency = residency, pc_agents = agents,
          pc_tools = tools, pc_cost = cost, pc_risk = risk\<rparr>))))))))"

text \<open>\<open>str(exc)\<close>.\<close>

fun exn_text :: "exn \<Rightarrow> string" where
  "exn_text (KeyError k) = str_repr k"
| "exn_text (ValueError m) = m"
| "exn_text (PermissionError m) = m"
| "exn_text (RuntimeError m) = m"
| "exn_text (RemediationError m) = m"
| "exn_text (AuthenticationError m) = m"
| "exn_text (AuthorizationError m) = m"
| "exn_text (TypeError m) = m"
| "exn_text (AttributeError m) = m"
| "exn_text (FileNotFoundError m) = m"
| "exn_text (CalledProcessError m) = m"
| "exn_text (HttpError n m) = int_str n @ '': '' @ m"
| "exn_text e = []"

text \<open>\<open>PolicyBundle.load\<close>: a failure gives a bundle with the status \<open>error\<close> and a drawn id.\<close>

definition load_bundle :: "(string \<Rightarrow> string) \<Rightarrow> string \<Rightarrow> string \<Rightarrow> string \<Rightarrow> files \<Rightarrow> policy_bundle" where
  "load_bundle hash now revision drawn_id fs =
     (let digest = content_digest hash fs in
      case load_configs fs of
        Inr c \<Rightarrow> \<lparr>pb_id = take 12 digest, pb_revision = revision, pb_digest = digest, pb_loaded_at = now,
                  pb_status = ''ok'', pb_error = None, pb_configs = Some c\<rparr>
      | Inl e \<Rightarrow> \<lparr>pb_id = drawn_id, pb_revision = revision, pb_digest = digest, pb_loaded_at = now,
                  pb_status = ''error'', pb_error = Some (exn_text e), pb_configs = None\<rparr>)"

subsection \<open>What the digest pins\<close>

lemma append_delim_eq:
  "nul \<notin> set a \<Longrightarrow> nul \<notin> set b \<Longrightarrow> a @ nul # x = b @ nul # y \<longleftrightarrow> a = b \<and> x = y"
proof (induction a arbitrary: b)
  case Nil then show ?case by (cases b) auto
next
  case (Cons c a) then show ?case by (cases b) auto
qed

definition text_of :: "files \<Rightarrow> string \<Rightarrow> string" where
  "text_of fs path = (case fs path of None \<Rightarrow> [] | Some c \<Rightarrow> c)"

lemma file_bytes_eq:
  assumes "nul \<notin> set (text_of fs p)" "nul \<notin> set (text_of gs p)"
  shows "file_bytes fs p @ x = file_bytes gs p @ y \<longleftrightarrow> text_of fs p = text_of gs p \<and> x = y"
  using append_delim_eq [OF assms, of x y] by (simp add: file_bytes_def flip: text_of_def)

lemma concat_bytes_eq:
  assumes "\<forall>p\<in>set ps. nul \<notin> set (text_of fs p) \<and> nul \<notin> set (text_of gs p)"
    and "concat (map (file_bytes fs) ps) = concat (map (file_bytes gs) ps)"
  shows "\<forall>p\<in>set ps. text_of fs p = text_of gs p"
  using assms by (induction ps) (auto simp: file_bytes_eq)

lemma load_configs_cong:
  assumes "\<forall>p\<in>set policy_yaml. fs p = gs p" shows "load_configs fs = load_configs gs"
  using assms by (simp add: load_configs_def read_file_def policy_yaml_def)

text \<open>The digest of a bundle pins what is enforced: when two directories of text files that all exist
  have the same digest, and the hash does not collide on the two, then they load the same policies and
  the bundles differ at most in the time and the revision.\<close>

theorem bundle_digest_pins_policies:
  assumes "content_digest hash fs = content_digest hash gs"
    and "hash (content_bytes fs) = hash (content_bytes gs) \<Longrightarrow> content_bytes fs = content_bytes gs"
    and "\<forall>p\<in>set policy_yaml. \<exists>a b. fs p = Some a \<and> gs p = Some b \<and> nul \<notin> set a \<and> nul \<notin> set b"
  shows "load_configs fs = load_configs gs \<and>
    (load_bundle hash now rv did gs)\<lparr>pb_loaded_at := t, pb_revision := r\<rparr> =
    (load_bundle hash now' rv' did fs)\<lparr>pb_loaded_at := t, pb_revision := r\<rparr>"
proof -
  have "content_bytes fs = content_bytes gs" using assms(1,2) by (simp add: content_digest_def)
  then have "\<forall>p\<in>set policy_yaml. text_of fs p = text_of gs p" unfolding content_bytes_def
    by (intro concat_bytes_eq) (use assms(3) in \<open>fastforce simp: text_of_def\<close>)
  then have "\<forall>p\<in>set policy_yaml. fs p = gs p" using assms(3) by (fastforce simp: text_of_def)
  then have "load_configs fs = load_configs gs" by (rule load_configs_cong)
  then show ?thesis using assms(1) by (simp add: load_bundle_def Let_def split: sum.split)
qed

text \<open>An enforced bundle has its policies, read from files that are all there.\<close>

lemma load_bundle_ok:
  "pb_status (load_bundle hash now rv did fs) = ''ok'' \<longleftrightarrow> pb_configs (load_bundle hash now rv did fs) \<noteq> None"
  by (simp add: load_bundle_def Let_def split: sum.split)

definition demo_files :: files where
  "demo_files p = (if p \<in> set policy_yaml then Some [] else None)"

theorem bundle_digest_pins_policies_witness:
  "load_configs demo_files = load_configs demo_files \<and>
    (load_bundle (\<lambda>x. x) ''t1'' ''a'' ''i'' demo_files)\<lparr>pb_loaded_at := [], pb_revision := []\<rparr> =
    (load_bundle (\<lambda>x. x) ''t2'' ''b'' ''i'' demo_files)\<lparr>pb_loaded_at := [], pb_revision := []\<rparr>"
  by (rule bundle_digest_pins_policies [OF refl]) (simp_all add: demo_files_def)

end
