(* ===== verification/Sql.thy ===== *)
theory Sql
  imports Prelude
begin

text \<open>
  The SQL the store issues, as functions on a table: a list of rows in insertion order, each with a
  primary key. Two interfaces are stated as locales and interpreted by the store's UPDATE
  statements: \<open>row_update\<close>, an UPDATE that leaves the primary key alone, and \<open>exclusive_update\<close>, the
  pair of UPDATEs that makes one row of a group active and demotes the others.
\<close>

subsection \<open>Statements\<close>

text \<open>\<open>INSERT\<close>: \<open>None\<close> when the primary key is taken (an \<open>IntegrityError\<close>).\<close>

definition sql_insert :: "('r \<Rightarrow> 'k) \<Rightarrow> 'r \<Rightarrow> 'r list \<Rightarrow> 'r list option" where
  "sql_insert pk r t = (if pk r \<in> set (map pk t) then None else Some (t @ [r]))"

definition sql_update :: "('r \<Rightarrow> bool) \<Rightarrow> ('r \<Rightarrow> 'r) \<Rightarrow> 'r list \<Rightarrow> 'r list" where
  "sql_update p f t = map (\<lambda>r. if p r then f r else r) t"

definition sql_rowcount :: "('r \<Rightarrow> bool) \<Rightarrow> 'r list \<Rightarrow> nat" where
  "sql_rowcount p t = length (filter p t)"

definition sql_delete :: "('r \<Rightarrow> bool) \<Rightarrow> 'r list \<Rightarrow> 'r list" where
  "sql_delete p t = filter (\<lambda>r. \<not> p r) t"

text \<open>\<open>SELECT ... WHERE pk = ?\<close> with \<open>fetchone\<close>.\<close>

definition sql_fetch :: "('r \<Rightarrow> 'k) \<Rightarrow> 'k \<Rightarrow> 'r list \<Rightarrow> 'r option" where
  "sql_fetch pk k t = find (\<lambda>r. pk r = k) t"

text \<open>
  \<open>ORDER BY\<close> is stable here (rows with equal keys keep their insertion order), the order SQLite
  produces; SQL itself leaves it open. \<open>LIMIT n OFFSET m\<close> is \<open>take n (drop m _)\<close>.
\<close>

definition order_asc :: "('r \<Rightarrow> 'k::linorder) \<Rightarrow> 'r list \<Rightarrow> 'r list" where
  "order_asc k t = sort_key k t"

definition order_desc :: "('r \<Rightarrow> 'k::linorder) \<Rightarrow> 'r list \<Rightarrow> 'r list" where
  "order_desc k t = rev (sort_key k (rev t))"

definition limit_offset :: "int \<Rightarrow> int \<Rightarrow> 'r list \<Rightarrow> 'r list" where
  "limit_offset n m t = take (nat n) (drop (nat m) t)"

subsection \<open>Facts\<close>

lemma set_order [simp]: "set (order_asc k t) = set t" "set (order_desc k t) = set t"
  by (simp_all add: order_asc_def order_desc_def)

lemma length_order [simp]:
  "length (order_asc k t) = length t" "length (order_desc k t) = length t"
  by (simp_all add: order_asc_def order_desc_def)

lemma sorted_order_asc: "sorted (map k (order_asc k t))"
  by (simp add: order_asc_def)

lemma set_limit_offset: "set (limit_offset n m t) \<subseteq> set t"
  by (auto simp: limit_offset_def dest: in_set_takeD in_set_dropD)

lemma sql_insert_Some:
  "sql_insert pk r t = Some t' \<longleftrightarrow> pk r \<notin> pk ` set t \<and> t' = t @ [r]"
  by (auto simp: sql_insert_def)

lemma sql_insert_None: "sql_insert pk r t = None \<longleftrightarrow> pk r \<in> pk ` set t"
  by (simp add: sql_insert_def)

lemma set_sql_delete [simp]: "set (sql_delete p t) = {r \<in> set t. \<not> p r}"
  by (auto simp: sql_delete_def)

lemma distinct_sql_delete: "distinct (map pk t) \<Longrightarrow> distinct (map pk (sql_delete p t))"
  by (simp add: sql_delete_def distinct_map_filter)

lemma sql_fetch_Some_in: "sql_fetch pk k t = Some r \<Longrightarrow> r \<in> set t \<and> pk r = k"
  unfolding sql_fetch_def by (rule find_Some_in)

lemma sql_fetch_None: "sql_fetch pk k t = None \<longleftrightarrow> k \<notin> pk ` set t"
  by (auto simp: sql_fetch_def find_None_all)

lemma sql_fetch_append:
  "sql_fetch pk k (t @ [r]) = (case sql_fetch pk k t of Some x \<Rightarrow> Some x
     | None \<Rightarrow> if pk r = k then Some r else None)"
  unfolding sql_fetch_def by (induction t) auto

lemma sql_fetch_in_distinct:
  "distinct (map pk t) \<Longrightarrow> r \<in> set t \<Longrightarrow> sql_fetch pk (pk r) t = Some r"
  unfolding sql_fetch_def by (induction t) force+

lemma sql_fetch_delete:
  "distinct (map pk t) \<Longrightarrow> sql_fetch pk k (sql_delete p t) =
    (case sql_fetch pk k t of None \<Rightarrow> None | Some r \<Rightarrow> if p r then None else Some r)"
proof (induction t)
  case (Cons a t)
  show ?case
  proof (cases "pk a = k")
    case True
    with Cons.prems have "sql_fetch pk k (sql_delete p t) = None"
      by (auto simp: sql_fetch_None)
    with True show ?thesis by (simp add: sql_fetch_def sql_delete_def)
  next
    case False
    with Cons show ?thesis by (simp add: sql_fetch_def sql_delete_def)
  qed
qed (simp add: sql_fetch_def sql_delete_def)

lemma sql_rowcount_key_le_1:
  "distinct (map pk t) \<Longrightarrow> sql_rowcount (\<lambda>r. pk r = k \<and> q r) t \<le> 1"
  unfolding sql_rowcount_def by (rule filter_le_1_if_distinct)

lemma sql_rowcount_fetch:
  assumes "distinct (map pk t)"
  shows "sql_rowcount (\<lambda>r. pk r = k \<and> q r) t = 1 \<longleftrightarrow> (\<exists>r. sql_fetch pk k t = Some r \<and> q r)"
  using assms
proof (induction t)
  case (Cons a t)
  show ?case
  proof (cases "pk a = k")
    case True
    with Cons.prems have "filter (\<lambda>r. pk r = k \<and> q r) t = []"
      by (auto simp: filter_empty_conv image_iff)
    with True show ?thesis by (simp add: sql_rowcount_def sql_fetch_def)
  next
    case False
    with Cons show ?thesis by (simp add: sql_rowcount_def sql_fetch_def)
  qed
qed (simp add: sql_rowcount_def sql_fetch_def)

lemma sql_rowcount_0: "sql_rowcount p t = 0 \<Longrightarrow> sql_update p f t = t"
  unfolding sql_rowcount_def sql_update_def
  by (auto simp: filter_empty_conv intro: map_idI)

subsection \<open>UPDATEs that keep the primary key\<close>

locale row_update =
  fixes pk :: "'r \<Rightarrow> 'k" and upd :: "'r \<Rightarrow> 'r"
  assumes pk_upd: "pk (upd r) = pk r"
begin

lemma keys_update: "map pk (sql_update p upd t) = map pk t"
  by (simp add: sql_update_def pk_upd)

lemma key_set_update: "pk ` set (sql_update p upd t) = pk ` set t"
  using keys_update [of p t] by (metis set_map)

lemma distinct_update: "distinct (map pk (sql_update p upd t)) \<longleftrightarrow> distinct (map pk t)"
  by (simp only: keys_update)

lemma fetch_update:
  "sql_fetch pk k (sql_update p upd t) =
     map_option (\<lambda>r. if p r then upd r else r) (sql_fetch pk k t)"
  unfolding sql_fetch_def sql_update_def by (rule find_map_key) (simp add: pk_upd)

lemma fetch_update_other:
  "sql_fetch pk k t = Some r \<Longrightarrow> \<not> p r \<Longrightarrow> sql_fetch pk k (sql_update p upd t) = Some r"
  by (simp add: fetch_update)

lemma rowcount_key_update:
  assumes "distinct (map pk t)"
  shows "sql_rowcount (\<lambda>r. pk r = k \<and> q r) t = 1 \<Longrightarrow>
    \<exists>r. sql_fetch pk k t = Some r \<and> q r \<and>
        sql_fetch pk k (sql_update (\<lambda>r. pk r = k \<and> q r) upd t) = Some (upd r)"
  using sql_rowcount_fetch [OF assms, of k q] sql_fetch_Some_in by (fastforce simp: fetch_update)

end

subsection \<open>Making one row of a group the active one\<close>

text \<open>
  The contract of an activation: within the group of the activated row every other active row is
  demoted, rows of other groups keep their state, keys and groups do not change.
\<close>

locale exclusive_update =
  fixes pk :: "'r \<Rightarrow> string" and grp :: "'r \<Rightarrow> 'g" and active :: "'r \<Rightarrow> bool"
    and activate :: "string \<Rightarrow> 'g \<Rightarrow> 'r \<Rightarrow> 'r"
  assumes pk_activate: "pk (activate k g r) = pk r"
    and grp_activate: "grp (activate k g r) = grp r"
    and activates: "pk r = k \<Longrightarrow> active (activate k g r)"
    and demotes: "pk r \<noteq> k \<Longrightarrow> grp r = g \<Longrightarrow> \<not> active (activate k g r)"
    and leaves: "pk r \<noteq> k \<Longrightarrow> grp r \<noteq> g \<Longrightarrow> active (activate k g r) = active r"
begin

definition one_active :: "'r list \<Rightarrow> bool" where
  "one_active t \<longleftrightarrow> (\<forall>r\<in>set t. \<forall>r'\<in>set t. active r \<and> active r' \<and> grp r = grp r' \<longrightarrow> pk r = pk r')"

lemma one_active_Nil: "one_active []"
  by (simp add: one_active_def)

lemma one_activeD:
  "one_active t \<Longrightarrow> r \<in> set t \<Longrightarrow> r' \<in> set t \<Longrightarrow> active r \<Longrightarrow> active r' \<Longrightarrow> grp r = grp r' \<Longrightarrow>
    pk r = pk r'"
  unfolding one_active_def by blast

lemma one_activeI:
  "(\<And>r r'. r \<in> set t \<Longrightarrow> r' \<in> set t \<Longrightarrow> active r \<Longrightarrow> active r' \<Longrightarrow> grp r = grp r' \<Longrightarrow>
    pk r = pk r') \<Longrightarrow> one_active t"
  unfolding one_active_def by blast

lemma one_active_append:
  assumes "one_active t" "\<not> active r" shows "one_active (t @ [r])"
proof (rule one_activeI)
  fix a b assume m: "a \<in> set (t @ [r])" "b \<in> set (t @ [r])" and act: "active a" "active b"
    and g: "grp a = grp b"
  from m act assms(2) have "a \<in> set t" "b \<in> set t" by auto
  from one_activeD [OF assms(1) this act g] show "pk a = pk b" .
qed

lemma one_active_map:
  assumes "one_active t" and "\<And>r. r \<in> set t \<Longrightarrow> pk (f r) = pk r \<and> grp (f r) = grp r \<and> (active (f r) \<longrightarrow> active r)"
  shows "one_active (map f t)"
proof (rule one_activeI)
  fix r r' assume "r \<in> set (map f t)" "r' \<in> set (map f t)"
    and act: "active r" "active r'" "grp r = grp r'"
  then obtain a b where ab: "a \<in> set t" "b \<in> set t" "r = f a" "r' = f b" by auto
  note fa = assms(2) [OF ab(1)] and fb = assms(2) [OF ab(2)]
  have "active a" "active b" "grp a = grp b" using fa fb act ab(3,4) by simp_all
  from one_activeD [OF assms(1) ab(1,2) this] fa fb ab(3,4) show "pk r = pk r'" by simp
qed

lemma one_active_activate:
  assumes "one_active t" "target \<in> set t" "distinct (map pk t)"
  shows "one_active (map (activate (pk target) (grp target)) t)"
proof (rule one_activeI)
  fix x y
  assume "x \<in> set (map (activate (pk target) (grp target)) t)"
    "y \<in> set (map (activate (pk target) (grp target)) t)"
    and xy: "active x" "active y" "grp x = grp y"
  then obtain r r' where r: "r \<in> set t" "r' \<in> set t"
    and x: "x = activate (pk target) (grp target) r" and y: "y = activate (pk target) (grp target) r'"
    by auto
  note act = xy(1,2) [unfolded x y] and same = xy(3) [unfolded x y]
  have uniq: "x = target" if "x \<in> set t" "pk x = pk target" for x
    using that assms(2,3) inj_onD [of pk "set t" x target] by (simp add: distinct_map)
  show "pk x = pk y"
  proof (cases "grp r = grp target")
    case True
    with act same demotes r have "pk r = pk target" "pk r' = pk target"
      by (metis grp_activate)+
    then show ?thesis by (simp add: x y pk_activate)
  next
    case False
    then have g: "grp r' \<noteq> grp target" using same by (simp add: grp_activate)
    have "pk r \<noteq> pk target" using uniq [of r] r False by blast
    moreover have "pk r' \<noteq> pk target" using uniq [of r'] r g by blast
    ultimately have "active r" "active r'" using act leaves False g by blast+
    moreover have "grp r = grp r'" using same by (simp add: grp_activate)
    ultimately have "pk r = pk r'" using one_activeD [OF assms(1) r] by blast
    then show ?thesis by (simp add: x y pk_activate)
  qed
qed

lemma active_iff_after_activate:
  assumes "r \<in> set t" "grp r = grp target"
  shows "active (activate (pk target) (grp target) r) \<longleftrightarrow> pk r = pk target"
  using assms activates demotes by blast

end

subsection \<open>Rows with a status that only moves forward\<close>

text \<open>
  The contract of a table whose rows have a lifecycle: a transition relation on statuses, final
  statuses that no transition leaves, and what a freshly inserted row looks like. \<open>evolves\<close> says
  that one operation changed the table within that contract; rows may disappear (retention).
\<close>

locale lifecycle =
  fixes pk :: "'r \<Rightarrow> string" and st :: "'r \<Rightarrow> string"
    and may_step :: "string \<Rightarrow> string \<Rightarrow> bool" and fresh :: "'r \<Rightarrow> bool" and final :: "string set"
  assumes final_stuck: "a \<in> final \<Longrightarrow> \<not> may_step a b"
begin

definition evolves :: "'r list \<Rightarrow> 'r list \<Rightarrow> bool" where
  "evolves t t' \<longleftrightarrow> (\<forall>k r'. sql_fetch pk k t' = Some r' \<longrightarrow>
     (case sql_fetch pk k t of None \<Rightarrow> fresh r'
      | Some r \<Rightarrow> r' = r \<or> may_step (st r) (st r')))"

definition closed :: "string \<Rightarrow> 'r list \<Rightarrow> bool" where
  "closed k t \<longleftrightarrow> (\<forall>r. sql_fetch pk k t = Some r \<longrightarrow> st r \<in> final)"

lemma evolvesD:
  "evolves t t' \<Longrightarrow> sql_fetch pk k t' = Some r' \<Longrightarrow>
    (case sql_fetch pk k t of None \<Rightarrow> fresh r' | Some r \<Rightarrow> r' = r \<or> may_step (st r) (st r'))"
  by (simp add: evolves_def)

lemma evolves_refl [simp]: "evolves t t"
  by (simp add: evolves_def)

lemma evolves_insert:
  assumes "sql_insert pk r t = Some t'" "fresh r"
  shows "evolves t t'"
proof -
  from assms(1) have t': "t' = t @ [r]" and "sql_fetch pk (pk r) t = None"
    by (simp_all add: sql_insert_Some sql_fetch_None)
  then show ?thesis using assms(2)
    by (auto simp: evolves_def sql_fetch_append split: option.splits if_splits)
qed

lemma evolves_delete:
  assumes "distinct (map pk t)" shows "evolves t (sql_delete p t)"
  using assms by (auto simp: evolves_def sql_fetch_delete split: option.splits if_splits)

lemma evolves_then_delete:
  assumes "evolves t t'" "distinct (map pk t')" shows "evolves t (sql_delete p t')"
  using assms by (auto simp: evolves_def sql_fetch_delete split: option.splits if_splits)

lemma evolves_update:
  assumes "\<And>r. pk (f r) = pk r" "\<And>r. p r \<Longrightarrow> may_step (st r) (st (f r))"
  shows "evolves t (sql_update p f t)"
proof -
  have "sql_fetch pk k (sql_update p f t) = map_option (\<lambda>r. if p r then f r else r) (sql_fetch pk k t)" for k
    unfolding sql_fetch_def sql_update_def by (rule find_map_key) (simp add: assms(1))
  with assms(2) show ?thesis by (auto simp: evolves_def split: option.splits)
qed

lemma closed_keeps_row:
  assumes "evolves t t'" "closed k t" "sql_fetch pk k t = Some r" "sql_fetch pk k t' = Some r'"
  shows "r' = r"
proof -
  have "r' = r \<or> may_step (st r) (st r')"
    using evolvesD [OF assms(1,4)] assms(3) by simp
  moreover have "st r \<in> final" using assms(2,3) by (simp add: closed_def)
  ultimately show ?thesis using final_stuck by blast
qed

lemma closed_stays:
  assumes "evolves t t'" "closed k t" "sql_fetch pk k t = None \<Longrightarrow> sql_fetch pk k t' = None"
  shows "closed k t'"
  unfolding closed_def
proof (intro allI impI)
  fix r' assume r': "sql_fetch pk k t' = Some r'"
  with assms(3) obtain r where r: "sql_fetch pk k t = Some r" by fastforce
  with closed_keeps_row [OF assms(1,2) r r'] assms(2) show "st r' \<in> final"
    by (simp add: closed_def)
qed

end

end
