(* ===== verification/Store_Tables.thy ===== *)
theory Store_Tables
  imports Sql Py_Time Py_Value
begin

text \<open>
  The tables of the decision store (\<open>db_schema.py\<close>) and the records the store hands out
  (\<open>decision_store.py\<close>). A column that holds JSON text is modelled by the JSON value it encodes;
  a time stamp column holds the text \<open>isoformat\<close> writes. Columns that a migration added after the
  fact may be NULL in an old row and are options; the columns every INSERT fills are not.
  \<open>db_up\<close> says whether the database answers: when it does not, every operation raises
  \<open>StoreUnavailableError\<close>, as do violated constraints.
\<close>

subsection \<open>Rows\<close>

record dec_row =
  d_id :: string
  d_request_id :: string
  d_final_verdict :: string
  d_policy_bundle_id :: string
  d_policy_digest :: string
  d_team :: string
  d_tenant_id :: "string option"
  d_environment :: string
  d_model :: string
  d_subject :: string
  d_reasons :: "string list"
  d_stages :: pyval
  d_request :: pyobj
  d_request_digest :: "string option"
  d_agent_digest :: "string option"
  d_tools_digest :: "string option"
  d_created_at :: string

record appr_row =
  a_id :: string
  a_decision_id :: string
  a_status :: string
  a_reviewer :: "string option"
  a_comment :: "string option"
  a_created_at :: string
  a_expires_at :: string
  a_resolved_at :: "string option"
  a_used_at :: "string option"

record audit_row =
  e_id :: string
  e_decision_id :: string
  e_type :: string
  e_actor :: string
  e_payload :: pyobj
  e_created_at :: string

record rem_row =
  p_id :: string
  p_tenant_id :: string
  p_status :: string
  p_source :: string
  p_kind :: string
  p_drift :: pyobj
  p_action :: pyobj
  p_decision_id :: "string option"
  p_approval_id :: "string option"
  p_verdict :: "string option"
  p_pr_title :: "string option"
  p_pr_body :: "string option"
  p_pr_url :: "string option"
  p_applied_at :: "string option"
  p_verification :: "pyobj option"
  p_failure :: "string option"
  p_created_at :: string
  p_updated_at :: string

record cap_row =
  c_id :: string
  c_kind :: string
  c_name :: string
  c_tenant_id :: string
  c_status :: string
  c_version :: string
  c_digest :: string
  c_capabilities :: pyobj
  c_source :: string
  c_created_at :: string
  c_updated_at :: string
  c_activated_at :: "string option"

record bundle_row =
  b_id :: string
  b_bundle_id :: string
  b_digest :: string
  b_git_revision :: string
  b_status :: string
  b_generation :: "int option"
  b_source_type :: string
  b_source :: pyobj
  b_validation :: string
  b_error :: "string option"
  b_loaded_at :: string
  b_created_at :: string
  b_updated_at :: string
  b_activated_at :: "string option"

record impact_row =
  i_id :: string
  i_bundle_id :: string
  i_digest :: string
  i_evaluated :: int
  i_unchanged :: int
  i_allow_to_block :: int
  i_allow_to_approval :: int
  i_block_to_allow :: int
  i_approval_to_allow :: int
  i_approval_to_block :: int
  i_other :: int
  i_samples :: "pyobj list"
  i_limit :: int
  i_created_at :: string

subsection \<open>The database\<close>

record db =
  db_up :: bool
  decisions :: "dec_row list"
  approvals :: "appr_row list"
  audit_meta :: "audit_row list"
  remediation_proposals :: "rem_row list"
  capability_contracts :: "cap_row list"
  policy_bundles :: "bundle_row list"
  policy_bundle_impacts :: "impact_row list"

definition empty_db :: db where
  "empty_db = \<lparr>db_up = True, decisions = [], approvals = [], audit_meta = [],
     remediation_proposals = [], capability_contracts = [], policy_bundles = [],
     policy_bundle_impacts = []\<rparr>"

text \<open>
  Every store method runs inside \<open>try ... except\<close> with \<open>_is_operational_db_error\<close> and \<open>_wrap_db\<close>:
  a database that does not answer is \<open>StoreUnavailableError\<close> and nothing is written.
\<close>

definition with_db :: "(db, 'a) opn \<Rightarrow> (db, 'a) opn" where
  "with_db m s = (if db_up s then m s else (Inl StoreUnavailable, s))"

lemma with_db_up [simp]: "db_up s \<Longrightarrow> with_db m s = m s"
  by (simp add: with_db_def)

lemma with_db_down: "\<not> db_up s \<Longrightarrow> with_db m s = (Inl StoreUnavailable, s)"
  by (simp add: with_db_def)

lemma with_db_Inr [simp]: "with_db m s = (Inr x, s') \<longleftrightarrow> db_up s \<and> m s = (Inr x, s')"
  by (simp add: with_db_def)

lemma keeps_with_db [intro]: "(\<And>s. db_up s \<Longrightarrow> P s \<Longrightarrow> P (snd (m s))) \<Longrightarrow> keeps P (with_db m)"
  by (simp add: keeps_def with_db_def)

subsection \<open>Constraints of the schema\<close>

text \<open>
  \<open>PRIMARY KEY\<close>, the two unique indexes, and \<open>REFERENCES decisions(decision_id) ON DELETE CASCADE\<close>
  of approvals and audit events.
\<close>

definition keys_ok :: "db \<Rightarrow> bool" where
  "keys_ok s \<longleftrightarrow> distinct (map d_id (decisions s)) \<and> distinct (map a_id (approvals s)) \<and>
     distinct (map e_id (audit_meta s)) \<and> distinct (map p_id (remediation_proposals s)) \<and>
     distinct (map c_id (capability_contracts s)) \<and> distinct (map b_id (policy_bundles s)) \<and>
     distinct (map i_id (policy_bundle_impacts s))"

definition cap_key :: "cap_row \<Rightarrow> string \<times> string \<times> string \<times> string" where
  "cap_key r = (c_kind r, c_name r, c_tenant_id r, c_digest r)"

definition bundle_key :: "bundle_row \<Rightarrow> string \<times> string" where
  "bundle_key r = (b_bundle_id r, b_digest r)"

definition unique_ok :: "db \<Rightarrow> bool" where
  "unique_ok s \<longleftrightarrow> distinct (map cap_key (capability_contracts s)) \<and>
     distinct (map bundle_key (policy_bundles s))"

definition refs_ok :: "db \<Rightarrow> bool" where
  "refs_ok s \<longleftrightarrow> a_decision_id ` set (approvals s) \<subseteq> d_id ` set (decisions s) \<and>
     e_decision_id ` set (audit_meta s) \<subseteq> d_id ` set (decisions s)"

definition db_ok :: "db \<Rightarrow> bool" where
  "db_ok s \<longleftrightarrow> keys_ok s \<and> unique_ok s \<and> refs_ok s"

lemma db_ok_empty: "db_ok empty_db"
  by (simp add: db_ok_def keys_ok_def unique_ok_def refs_ok_def empty_db_def)

lemma db_ok_keys: "db_ok s \<Longrightarrow> distinct (map a_id (approvals s))"
  "db_ok s \<Longrightarrow> distinct (map d_id (decisions s))"
  by (simp_all add: db_ok_def keys_ok_def)

lemmas db_ok_defs = db_ok_def keys_ok_def unique_ok_def refs_ok_def

subsection \<open>Records handed out\<close>

text \<open>
  \<open>DecisionRecord\<close> and \<open>_decision_from_row\<close>: NULL columns read as the empty string and the tenant
  falls back to the team.
\<close>

record decision_record =
  dr_decision_id :: string
  dr_request_id :: string
  dr_final_verdict :: string
  dr_policy_bundle_id :: string
  dr_policy_digest :: string
  dr_team :: string
  dr_tenant_id :: string
  dr_environment :: string
  dr_model :: string
  dr_subject :: string
  dr_reasons :: "string list"
  dr_stages :: pyval
  dr_request :: pyobj
  dr_request_digest :: string
  dr_created_at :: string
  dr_agent_digest :: string
  dr_tools_digest :: string

definition decision_from_row :: "dec_row \<Rightarrow> decision_record" where
  "decision_from_row r =
     \<lparr>dr_decision_id = d_id r, dr_request_id = d_request_id r,
      dr_final_verdict = d_final_verdict r, dr_policy_bundle_id = d_policy_bundle_id r,
      dr_policy_digest = d_policy_digest r, dr_team = d_team r,
      dr_tenant_id = str_or (opt_str (d_tenant_id r)) (d_team r),
      dr_environment = d_environment r, dr_model = d_model r, dr_subject = d_subject r,
      dr_reasons = d_reasons r, dr_stages = d_stages r, dr_request = d_request r,
      dr_request_digest = opt_str (d_request_digest r), dr_created_at = d_created_at r,
      dr_agent_digest = opt_str (d_agent_digest r), dr_tools_digest = opt_str (d_tools_digest r)\<rparr>"

text \<open>\<open>ApprovalPage\<close> and its kin: one page of a listing, with \<open>has_more\<close>.\<close>

record 'r page =
  pg_items :: "'r list"
  pg_total :: int
  pg_limit :: int
  pg_offset :: int

definition has_more :: "'r page \<Rightarrow> bool" where
  "has_more p \<longleftrightarrow> pg_offset p + int (length (pg_items p)) < pg_total p"

definition clamp :: "int \<Rightarrow> int \<Rightarrow> int \<Rightarrow> int" where
  "clamp lo hi n = max lo (min n hi)"

definition make_page :: "'r list \<Rightarrow> int \<Rightarrow> int \<Rightarrow> 'r page" where
  "make_page rows limit offset =
     \<lparr>pg_items = limit_offset limit offset rows, pg_total = int (length rows),
      pg_limit = limit, pg_offset = offset\<rparr>"

lemma has_more_make_page:
  assumes "0 < limit" "0 \<le> offset"
  shows "has_more (make_page rows limit offset) \<longleftrightarrow> drop (nat offset + nat limit) rows \<noteq> []"
  using assms by (auto simp: has_more_def make_page_def limit_offset_def)

lemma pages_append:
  assumes "0 \<le> limit" "0 \<le> offset"
  shows "take (nat offset) rows @ limit_offset limit offset rows = take (nat (offset + limit)) rows"
  using assms by (simp add: limit_offset_def nat_add_distrib take_add)

end
