(* ===== verification/Capability_Store.thy ===== *)
theory Capability_Store
  imports Store_Tables Json
begin

text \<open>
  Capability contracts: the store methods on \<open>capability_contracts\<close> (\<open>decision_store.py\<close>) and
  \<open>capability_service.py\<close>, which imports the agent and tool registries, activates contracts and
  computes the digests an evaluation is pinned to. SHA-256 is a parameter.
\<close>

subsection \<open>Store methods\<close>

definition get_capability_contract_by_digest ::
  "string \<Rightarrow> string \<Rightarrow> string \<Rightarrow> string \<Rightarrow> (db, cap_row option) opn" where
  "get_capability_contract_by_digest kind name tenant digest = with_db (\<lambda>s.
     (Inr (find (\<lambda>r. cap_key r = (kind, name, tenant, digest)) (capability_contracts s)), s))"

record new_contract =
  nc_kind :: string
  nc_name :: string
  nc_tenant_id :: string
  nc_version :: string
  nc_digest :: string
  nc_capabilities :: pyobj
  nc_source :: string
  nc_status :: string

definition contract_row :: "string \<Rightarrow> instant \<Rightarrow> new_contract \<Rightarrow> cap_row" where
  "contract_row cid now a =
     \<lparr>c_id = cid, c_kind = nc_kind a, c_name = nc_name a, c_tenant_id = nc_tenant_id a,
      c_status = nc_status a, c_version = nc_version a, c_digest = nc_digest a,
      c_capabilities = nc_capabilities a, c_source = nc_source a, c_created_at = isoformat now,
      c_updated_at = isoformat now, c_activated_at = None\<rparr>"

text \<open>A violated unique index is an integrity error, as a taken primary key is.\<close>

definition upsert_capability_contract ::
  "string \<Rightarrow> instant \<Rightarrow> new_contract \<Rightarrow> (db, cap_row) opn" where
  "upsert_capability_contract cid now a =
     bnd (get_capability_contract_by_digest (nc_kind a) (nc_name a) (nc_tenant_id a) (nc_digest a))
       (\<lambda>existing. case existing of
          Some r \<Rightarrow> ret r
        | None \<Rightarrow> (\<lambda>s.
            if cap_key (contract_row cid now a) \<in> cap_key ` set (capability_contracts s)
            then (Inl StoreUnavailable, s)
            else case sql_insert c_id (contract_row cid now a) (capability_contracts s) of
              None \<Rightarrow> (Inl StoreUnavailable, s)
            | Some t \<Rightarrow> (Inr (contract_row cid now a), s\<lparr>capability_contracts := t\<rparr>)))"

definition get_capability_contract :: "string \<Rightarrow> string option \<Rightarrow> (db, cap_row option) opn" where
  "get_capability_contract cid tenant = with_db (\<lambda>s.
     (case sql_fetch c_id cid (capability_contracts s) of
        None \<Rightarrow> Inr None
      | Some r \<Rightarrow> if tenant \<noteq> None \<and> tenant \<noteq> Some (c_tenant_id r) then Inr None else Inr (Some r), s))"

text \<open>The optional filters: an empty text filters nothing, for the tenant only \<open>None\<close> does.\<close>

definition cap_matches :: "string \<Rightarrow> string \<Rightarrow> string \<Rightarrow> string option \<Rightarrow> cap_row \<Rightarrow> bool" where
  "cap_matches kind status name tenant r \<longleftrightarrow>
     (kind \<noteq> [] \<longrightarrow> c_kind r = kind) \<and> (status \<noteq> [] \<longrightarrow> c_status r = status) \<and>
     (name \<noteq> [] \<longrightarrow> c_name r = name) \<and> (case tenant of None \<Rightarrow> True | Some t \<Rightarrow> c_tenant_id r = t)"

definition list_capability_contracts ::
  "string \<Rightarrow> string \<Rightarrow> string \<Rightarrow> string option \<Rightarrow> int \<Rightarrow> int \<Rightarrow> (db, cap_row page) opn" where
  "list_capability_contracts kind status name tenant limit offset = with_db (\<lambda>s.
     (Inr (make_page (order_desc c_updated_at
             (filter (cap_matches kind status name tenant) (capability_contracts s)))
           (clamp 1 500 limit) (max 0 offset)), s))"

text \<open>
  \<open>set_capability_contract_status\<close>: for an activation one UPDATE retires the active contracts of the
  same kind, name and tenant, then the contract itself is written.
\<close>

definition cap_group :: "cap_row \<Rightarrow> string \<times> string \<times> string" where
  "cap_group r = (c_kind r, c_name r, c_tenant_id r)"

definition retire_others :: "string \<Rightarrow> string \<Rightarrow> string \<times> string \<times> string \<Rightarrow> cap_row list \<Rightarrow> cap_row list" where
  "retire_others now cid g t =
     sql_update (\<lambda>r. cap_group r = g \<and> c_status r = ''active'' \<and> c_id r \<noteq> cid)
       (\<lambda>r. r\<lparr>c_status := ''retired'', c_updated_at := now\<rparr>) t"

definition write_status :: "string \<Rightarrow> string \<Rightarrow> string \<Rightarrow> cap_row list \<Rightarrow> cap_row list" where
  "write_status now status cid t =
     sql_update (\<lambda>r. c_id r = cid)
       (\<lambda>r. r\<lparr>c_status := status, c_updated_at := now,
              c_activated_at := (if status = ''active'' then Some now else c_activated_at r)\<rparr>) t"

definition set_capability_contract_status :: "instant \<Rightarrow> string \<Rightarrow> string \<Rightarrow> (db, cap_row) opn" where
  "set_capability_contract_status now cid status =
     (if status \<notin> {''draft'', ''active'', ''retired''}
      then throw (ValueError ''status must be draft, active, or retired'')
      else with_db (\<lambda>s.
        case sql_fetch c_id cid (capability_contracts s) of
          None \<Rightarrow> (Inl (KeyError (''capability contract not found: '' @ cid)), s)
        | Some r \<Rightarrow>
            (let t = (if status = ''active'' then retire_others (isoformat now) cid (cap_group r)
                         (capability_contracts s) else capability_contracts s);
                 t' = write_status (isoformat now) status cid t;
                 s' = s\<lparr>capability_contracts := t'\<rparr>
             in case sql_fetch c_id cid t' of
                  None \<Rightarrow> (Inl AssertionError, s)
                | Some r' \<Rightarrow> (Inr r', s'))))"

subsection \<open>At most one active contract per kind, name and tenant\<close>

definition activate_cap :: "string \<Rightarrow> string \<Rightarrow> string \<times> string \<times> string \<Rightarrow> cap_row \<Rightarrow> cap_row" where
  "activate_cap now k g r =
     (if c_id r = k then r\<lparr>c_status := ''active'', c_updated_at := now, c_activated_at := Some now\<rparr>
      else if cap_group r = g \<and> c_status r = ''active'' then r\<lparr>c_status := ''retired'', c_updated_at := now\<rparr>
      else r)"

interpretation caps: exclusive_update c_id cap_group "\<lambda>r. c_status r = ''active''" "activate_cap now" for now
  by unfold_locales (auto simp: activate_cap_def cap_group_def)

lemma activation_is_map:
  "write_status now ''active'' cid (retire_others now cid g t) = map (activate_cap now cid g) t"
  by (simp add: write_status_def retire_others_def sql_update_def activate_cap_def)

interpretation cap_write: row_update c_id
  "\<lambda>r. r\<lparr>c_status := st, c_updated_at := now, c_activated_at := (if st = ''active'' then Some now else c_activated_at r)\<rparr>"
  for st now by unfold_locales simp

interpretation cap_retire: row_update c_id "\<lambda>r. r\<lparr>c_status := ''retired'', c_updated_at := now\<rparr>" for now
  by unfold_locales simp

lemma cap_fetch_after:
  "sql_fetch c_id cid (write_status now st cid t) =
     map_option (\<lambda>r. r\<lparr>c_status := st, c_updated_at := now,
       c_activated_at := (if st = ''active'' then Some now else c_activated_at r)\<rparr>) (sql_fetch c_id cid t)"
  unfolding write_status_def cap_write.fetch_update
  by (cases "sql_fetch c_id cid t") (auto dest: sql_fetch_Some_in)

lemma cap_fetch_retire:
  "sql_fetch c_id cid (retire_others now cid g t) = sql_fetch c_id cid t"
  unfolding retire_others_def cap_retire.fetch_update
  by (cases "sql_fetch c_id cid t") (auto dest: sql_fetch_Some_in)

abbreviation caps_ok :: "cap_row list \<Rightarrow> bool" where
  "caps_ok t \<equiv> caps.one_active t \<and> distinct (map c_id t)"

lemma caps_ok_write:
  assumes "caps_ok t" "st \<noteq> ''active''" shows "caps_ok (write_status now st cid t)"
proof
  show "caps.one_active (write_status now st cid t)"
    unfolding write_status_def sql_update_def using assms
    by (intro caps.one_active_map) (auto simp: cap_group_def)
  show "distinct (map c_id (write_status now st cid t))"
    using assms(1) unfolding write_status_def by (simp only: cap_write.distinct_update)
qed

lemma caps_ok_activate:
  assumes "caps_ok t" "sql_fetch c_id cid t = Some r"
  shows "caps_ok (write_status now ''active'' cid (retire_others now cid (cap_group r) t))"
proof
  from sql_fetch_Some_in [OF assms(2)] have r: "r \<in> set t" "c_id r = cid" by auto
  with caps.one_active_activate [of t r now] assms(1)
  show "caps.one_active (write_status now ''active'' cid (retire_others now cid (cap_group r) t))"
    by (simp add: activation_is_map)
  show "distinct (map c_id (write_status now ''active'' cid (retire_others now cid (cap_group r) t)))"
    using assms(1) unfolding write_status_def retire_others_def
    by (simp only: cap_write.distinct_update cap_retire.distinct_update)
qed

lemma set_status_cases:
  assumes "set_capability_contract_status now cid status s = (res, s')"
  shows "(\<exists>r. db_up s \<and> status \<in> {''draft'', ''active'', ''retired''} \<and>
      sql_fetch c_id cid (capability_contracts s) = Some r \<and>
      res = Inr (r\<lparr>c_status := status, c_updated_at := isoformat now,
        c_activated_at := (if status = ''active'' then Some (isoformat now) else c_activated_at r)\<rparr>) \<and>
      s' = s\<lparr>capability_contracts := write_status (isoformat now) status cid
        (if status = ''active'' then retire_others (isoformat now) cid (cap_group r) (capability_contracts s)
         else capability_contracts s)\<rparr>)
    \<or> (\<exists>e. res = Inl e \<and> s' = s)"
proof (cases "db_up s \<and> status \<in> {''draft'', ''active'', ''retired''}")
  case True
  then have up: "db_up s" and st: "\<not> status \<notin> {''draft'', ''active'', ''retired''}" by auto
  show ?thesis
  proof (cases "sql_fetch c_id cid (capability_contracts s)")
    case None
    from assms show ?thesis
      unfolding set_capability_contract_status_def if_not_P [OF st] with_db_up [OF up] None by auto
  next
    case (Some r)
    have f: "sql_fetch c_id cid (if status = ''active'' then retire_others (isoformat now) cid (cap_group r)
        (capability_contracts s) else capability_contracts s) = Some r"
      using Some by (simp add: cap_fetch_retire)
    show ?thesis
      using assms unfolding set_capability_contract_status_def if_not_P [OF st] with_db_up [OF up] Some Let_def
        option.case cap_fetch_after f option.map
      using True by blast
  qed
next
  case False
  with assms show ?thesis by (auto simp: set_capability_contract_status_def throw_def with_db_def split: if_splits)
qed

lemma caps_ok_set_status:
  assumes "set_capability_contract_status now cid status s = (res, s')" "caps_ok (capability_contracts s)"
  shows "caps_ok (capability_contracts s')"
  using set_status_cases [OF assms(1)]
proof (elim disjE exE conjE)
  fix r assume f: "sql_fetch c_id cid (capability_contracts s) = Some r"
    and s': "s' = s\<lparr>capability_contracts := write_status (isoformat now) status cid
        (if status = ''active'' then retire_others (isoformat now) cid (cap_group r) (capability_contracts s)
         else capability_contracts s)\<rparr>"
  show ?thesis
  proof (cases "status = ''active''")
    case True
    with caps_ok_activate [OF assms(2) f] show ?thesis by (simp add: s')
  next
    case False
    with caps_ok_write [OF assms(2) False] show ?thesis by (simp add: s')
  qed
qed (use assms(2) in simp)

lemma upsert_contract_cases:
  assumes "upsert_capability_contract cid now a s = (res, s')"
  shows "s' = s \<or> (c_id (contract_row cid now a) \<notin> c_id ` set (capability_contracts s) \<and>
    s' = s\<lparr>capability_contracts := capability_contracts s @ [contract_row cid now a]\<rparr>)"
  using assms
  by (auto simp: upsert_capability_contract_def get_capability_contract_by_digest_def bnd_def with_db_def
      ret_def sql_insert_Some split: if_splits option.splits)

lemma caps_ok_upsert:
  assumes "upsert_capability_contract cid now a s = (res, s')" "nc_status a \<noteq> ''active''"
    "caps_ok (capability_contracts s)"
  shows "caps_ok (capability_contracts s')"
  using upsert_contract_cases [OF assms(1)] assms(2,3)
  by (auto simp: contract_row_def intro!: caps.one_active_append)

text \<open>The status change of a capability contract: on success exactly this contract has the new
  status, an activation retires every other contract of the same kind, name and tenant that was
  active and touches no contract of another name or tenant, and whatever the outcome there is
  never more than one active contract per kind, name and tenant.\<close>

theorem capability_activation:
  assumes "set_capability_contract_status now cid status s = (res, s')"
    "caps_ok (capability_contracts s)"
  shows "caps_ok (capability_contracts s') \<and>
    (case res of Inl e \<Rightarrow> s' = s
     | Inr row \<Rightarrow> c_status row = status \<and> sql_fetch c_id cid (capability_contracts s') = Some row \<and>
         (\<forall>r\<in>set (capability_contracts s). c_id r \<noteq> cid \<longrightarrow>
            sql_fetch c_id (c_id r) (capability_contracts s') =
              Some (if status = ''active'' \<and> cap_group r = cap_group row \<and> c_status r = ''active''
                    then r\<lparr>c_status := ''retired'', c_updated_at := isoformat now\<rparr> else r)))"
proof
  show "caps_ok (capability_contracts s')" using caps_ok_set_status [OF assms] .
  show "case res of Inl e \<Rightarrow> s' = s
     | Inr row \<Rightarrow> c_status row = status \<and> sql_fetch c_id cid (capability_contracts s') = Some row \<and>
         (\<forall>r\<in>set (capability_contracts s). c_id r \<noteq> cid \<longrightarrow>
            sql_fetch c_id (c_id r) (capability_contracts s') =
              Some (if status = ''active'' \<and> cap_group r = cap_group row \<and> c_status r = ''active''
                    then r\<lparr>c_status := ''retired'', c_updated_at := isoformat now\<rparr> else r))"
    using set_status_cases [OF assms(1)]
  proof (elim disjE exE conjE)
    fix r0 :: cap_row
    let ?row = "r0\<lparr>c_status := status, c_updated_at := isoformat now,
        c_activated_at := (if status = ''active'' then Some (isoformat now) else c_activated_at r0)\<rparr>"
    let ?t = "if status = ''active'' then retire_others (isoformat now) cid (cap_group r0) (capability_contracts s)
         else capability_contracts s"
    assume f: "sql_fetch c_id cid (capability_contracts s) = Some r0" and res: "res = Inr ?row"
      and s': "s' = s\<lparr>capability_contracts := write_status (isoformat now) status cid ?t\<rparr>"
    have "sql_fetch c_id cid (capability_contracts s') = Some ?row"
      using f by (simp add: s' cap_fetch_after cap_fetch_retire)
    moreover have "sql_fetch c_id (c_id r) (capability_contracts s') =
        Some (if status = ''active'' \<and> cap_group r = cap_group ?row \<and> c_status r = ''active''
              then r\<lparr>c_status := ''retired'', c_updated_at := isoformat now\<rparr> else r)"
      if r: "r \<in> set (capability_contracts s)" "c_id r \<noteq> cid" for r
    proof -
      have "sql_fetch c_id (c_id r) (capability_contracts s) = Some r"
        using assms(2) r(1) by (simp add: sql_fetch_in_distinct)
      then show ?thesis using r(2) unfolding s' write_status_def retire_others_def
        by (simp add: cap_write.fetch_update cap_retire.fetch_update cap_group_def)
    qed
    ultimately show ?thesis by (simp add: res)
  qed simp
qed

definition demo_contract :: "string \<Rightarrow> string \<Rightarrow> cap_row" where
  "demo_contract cid st = \<lparr>c_id = cid, c_kind = ''agent'', c_name = ''support'', c_tenant_id = ''acme'',
     c_status = st, c_version = cid, c_digest = cid, c_capabilities = [], c_source = ''filesystem'',
     c_created_at = [], c_updated_at = [], c_activated_at = None\<rparr>"

definition demo_caps :: db where
  "demo_caps = empty_db\<lparr>capability_contracts := [demo_contract ''c1'' ''active'', demo_contract ''c2'' ''draft'']\<rparr>"

theorem capability_activation_witness:
  "\<exists>row s'. set_capability_contract_status 0 ''c2'' ''active'' demo_caps = (Inr row, s') \<and>
     caps_ok (capability_contracts s') \<and>
     map c_status (capability_contracts s') = [''retired'', ''active'']"
proof -
  have ok: "caps_ok (capability_contracts demo_caps)"
    by (auto simp: demo_caps_def demo_contract_def empty_db_def caps.one_active_def)
  obtain row s' where m: "set_capability_contract_status 0 ''c2'' ''active'' demo_caps = (Inr row, s')"
    and st: "map c_status (capability_contracts s') = [''retired'', ''active'']"
    by (simp add: set_capability_contract_status_def demo_caps_def demo_contract_def empty_db_def
        sql_fetch_def write_status_def retire_others_def sql_update_def cap_group_def)
  have "caps_ok (capability_contracts s')" using capability_activation [OF m ok] by (rule conjunct1)
  then show ?thesis using m st by (intro exI conjI) simp_all
qed

end
