(* ===== verification/Capability_Service.thy ===== *)
theory Capability_Service
  imports Capability_Store
begin

text \<open>
  \<open>capability_service.py\<close>: the import of the agent and tool registries into durable contracts, the
  overlay of active capabilities, and the digests of the active contracts an evaluation is pinned
  to. \<open>sha\<close> stands for \<open>hashlib.sha256(...).hexdigest()\<close> on the text hashed.
\<close>

definition canonical_digest :: "(string \<Rightarrow> string) \<Rightarrow> pyobj \<Rightarrow> string" where
  "canonical_digest sha payload = ''sha256:'' @ sha (json_canonical (PDict payload))"

text \<open>One entry of a registry: its kind, its name and the dumped model.\<close>

type_synonym registry_entry = "string \<times> string \<times> pyobj"

text \<open>
  One round of the loops of \<open>sync_from_filesystem\<close>: the id an INSERT draws and the clock readings of
  the INSERT and of the activation.
\<close>

definition sync_one ::
  "(string \<Rightarrow> string) \<Rightarrow> string \<Rightarrow> bool \<Rightarrow> (string \<times> instant \<times> instant) \<times> registry_entry \<Rightarrow> (db, cap_row) opn" where
  "sync_one sha tenant activate entry =
     (case entry of ((cid, t1, t2), (kind, name, payload)) \<Rightarrow>
        let digest = canonical_digest sha payload in
        bnd (upsert_capability_contract cid t1
               \<lparr>nc_kind = kind, nc_name = name, nc_tenant_id = tenant,
                nc_version = drop (length digest - 12) digest, nc_digest = digest,
                nc_capabilities = payload, nc_source = ''filesystem'', nc_status = ''draft''\<rparr>)
          (\<lambda>record. if activate \<and> c_status record \<noteq> ''active''
             then set_capability_contract_status t2 (c_id record) ''active'' else ret record))"

fun sync_entries ::
  "(string \<Rightarrow> string) \<Rightarrow> string \<Rightarrow> bool \<Rightarrow> ((string \<times> instant \<times> instant) \<times> registry_entry) list \<Rightarrow> (db, cap_row list) opn" where
  "sync_entries sha tenant activate [] = ret []"
| "sync_entries sha tenant activate (e # es) =
     bnd (sync_one sha tenant activate e)
       (\<lambda>r. bnd (sync_entries sha tenant activate es) (\<lambda>rs. ret (r # rs)))"

text \<open>\<open>sync_from_filesystem\<close>: the agents first, then the tools.\<close>

definition sync_from_filesystem ::
  "(string \<Rightarrow> string) \<Rightarrow> string \<Rightarrow> bool \<Rightarrow> ((string \<times> instant \<times> instant) \<times> string \<times> pyobj) list
     \<Rightarrow> ((string \<times> instant \<times> instant) \<times> string \<times> pyobj) list \<Rightarrow> (db, cap_row list) opn" where
  "sync_from_filesystem sha tenant activate agents tools =
     sync_entries sha tenant activate
       (map (\<lambda>(c, n, p). (c, ''agent'', n, p)) agents @ map (\<lambda>(c, n, p). (c, ''tool'', n, p)) tools)"

definition get_active_capabilities :: "string \<Rightarrow> string option \<Rightarrow> (db, cap_row list) opn" where
  "get_active_capabilities kind tenant =
     bnd (list_capability_contracts kind ''active'' [] tenant 500 0) (\<lambda>p. ret (pg_items p))"

fun dict_of :: "('r \<Rightarrow> 'k) \<Rightarrow> ('r \<Rightarrow> 'v) \<Rightarrow> 'r list \<Rightarrow> ('k \<times> 'v) list \<Rightarrow> ('k \<times> 'v) list" where
  "dict_of k v [] d = d"
| "dict_of k v (r # rs) d = dict_of k v rs (dict_set (k r) (v r) d)"

definition active_capability_map :: "string \<Rightarrow> string option \<Rightarrow> (db, (string \<times> pyobj) list) opn" where
  "active_capability_map kind tenant =
     bnd (get_active_capabilities kind tenant) (\<lambda>rs. ret (dict_of c_name c_capabilities rs []))"

text \<open>The names of the tools an agent contract lists.\<close>

definition agent_tool_names :: "pyobj \<Rightarrow> string list" where
  "agent_tool_names caps =
     (case or_else (or_else (get_none caps ''tools'') (get_none caps ''allowed_tools'')) (PList []) of
        PList xs \<Rightarrow> map py_str (filter truthy xs) | _ \<Rightarrow> [])"

text \<open>The digests selected: those of the named tools that are active, or of all active tools.\<close>

definition select_tools :: "string list \<Rightarrow> (string \<times> string) list \<Rightarrow> pyobj" where
  "select_tools names d =
     map (\<lambda>n. (n, PStr (the (map_of d n))))
       (if names \<noteq> [] then filter (\<lambda>n. n \<in> fst ` set d) (remdups (sort names))
        else sort (map fst d))"

definition resolve_execution_capability_digests ::
  "(string \<Rightarrow> string) \<Rightarrow> string \<Rightarrow> string \<Rightarrow> (db, string \<times> string) opn" where
  "resolve_execution_capability_digests sha agent tenant_id =
     (let agent_name = py_strip agent; t = py_strip tenant_id;
          tenant = (if t = [] then None else Some t)
      in bnd (if agent_name = [] then ret ([], [])
              else bnd (list_capability_contracts ''agent'' ''active'' agent_name tenant 1 0)
                (\<lambda>p. ret (case pg_items p of [] \<Rightarrow> ([], [])
                   | r # _ \<Rightarrow> (c_digest r, agent_tool_names (c_capabilities r)))))
         (\<lambda>(agent_digest, tool_names). bnd (get_active_capabilities ''tool'' tenant)
            (\<lambda>tools. let d = dict_of c_name c_digest (filter (\<lambda>r. c_digest r \<noteq> []) tools) [];
                         selected = select_tools tool_names d
                     in ret (if selected = [] then (agent_digest, [])
                             else (agent_digest, canonical_digest sha selected)))))"

subsection \<open>The reads change nothing\<close>

lemma list_capability_unchanged: "snd (list_capability_contracts k st n t l m s) = s"
  by (simp add: list_capability_contracts_def with_db_def)

lemma resolve_digests_up:
  assumes "db_up s"
  shows "\<exists>d. resolve_execution_capability_digests sha agent tenant s = (Inr d, s)"
  using assms
  by (simp add: resolve_execution_capability_digests_def get_active_capabilities_def
      list_capability_contracts_def bnd_def ret_def Let_def split: prod.split)

lemma resolve_digests_down:
  assumes "\<not> db_up s"
  shows "resolve_execution_capability_digests sha agent tenant s = (Inl StoreUnavailable, s)"
  using assms
  by (simp add: resolve_execution_capability_digests_def get_active_capabilities_def
      list_capability_contracts_def bnd_def ret_def Let_def with_db_down split: prod.split)

lemma resolve_digests_unchanged [simp]: "snd (resolve_execution_capability_digests sha agent tenant s) = s"
  using resolve_digests_up [of s sha agent tenant] resolve_digests_down [of s sha agent tenant]
  by (cases "db_up s") auto

subsection \<open>Synchronisation\<close>

lemma caps_ok_sync_one:
  assumes "sync_one sha tenant activate e s = (res, s')" "caps_ok (capability_contracts s)"
  shows "caps_ok (capability_contracts s')"
proof -
  obtain cid t1 t2 kind name payload where e: "e = ((cid, t1, t2), kind, name, payload)"
    by (metis surj_pair)
  let ?a = "\<lparr>nc_kind = kind, nc_name = name, nc_tenant_id = tenant,
     nc_version = drop (length (canonical_digest sha payload) - 12) (canonical_digest sha payload),
     nc_digest = canonical_digest sha payload, nc_capabilities = payload, nc_source = ''filesystem'', nc_status = ''draft''\<rparr>"
  obtain r s1 where u: "upsert_capability_contract cid t1 ?a s = (r, s1)" by fastforce
  have ok: "caps_ok (capability_contracts s1)" using caps_ok_upsert [OF u _ assms(2)] by simp
  show ?thesis
  proof (cases r)
    case (Inl x)
    with assms(1) u ok show ?thesis by (simp add: sync_one_def e Let_def bnd_def)
  next
    case (Inr row)
    with assms(1) u have "(if activate \<and> c_status row \<noteq> ''active''
        then set_capability_contract_status t2 (c_id row) ''active'' else ret row) s1 = (res, s')"
      by (simp add: sync_one_def e Let_def bnd_def)
    then show ?thesis using ok caps_ok_set_status by (auto simp: ret_def split: if_splits)
  qed
qed

lemma caps_ok_sync_entries:
  "sync_entries sha tenant activate es s = (res, s') \<Longrightarrow> caps_ok (capability_contracts s) \<Longrightarrow>
    caps_ok (capability_contracts s')"
proof (induction es arbitrary: s res s')
  case (Cons e es)
  obtain r s1 where e: "sync_one sha tenant activate e s = (r, s1)" by fastforce
  note ok1 = caps_ok_sync_one [OF e Cons.prems(2)]
  obtain rs s2 where es: "sync_entries sha tenant activate es s1 = (rs, s2)" by fastforce
  from Cons.IH [OF es ok1] Cons.prems(1) ok1 e es show ?case
    by (auto simp: bnd_def ret_def split: sum.splits)
qed (simp add: ret_def)

subsection \<open>What a synchronisation activates\<close>

definition entry_group :: "string \<Rightarrow> (string \<times> instant \<times> instant) \<times> registry_entry \<Rightarrow> string \<times> string \<times> string" where
  "entry_group tenant e = (case e of (_, kind, name, _) \<Rightarrow> (kind, name, tenant))"

definition entry_digest :: "(string \<Rightarrow> string) \<Rightarrow> (string \<times> instant \<times> instant) \<times> registry_entry \<Rightarrow> string" where
  "entry_digest sha e = (case e of (_, _, _, payload) \<Rightarrow> canonical_digest sha payload)"

lemma set_status_other:
  assumes "set_capability_contract_status now cid ''active'' s = (res, s')" "caps_ok (capability_contracts s)"
    "r0 \<in> set (capability_contracts s)" "c_id r0 = cid" "r \<in> set (capability_contracts s)" "cap_group r \<noteq> cap_group r0"
  shows "r \<in> set (capability_contracts s')"
proof -
  have d: "distinct (map c_id (capability_contracts s))" using assms(2) by simp
  have f0: "sql_fetch c_id cid (capability_contracts s) = Some r0"
    using sql_fetch_in_distinct [OF d assms(3)] assms(4) by simp
  have "c_id r \<noteq> cid"
    using sql_fetch_in_distinct [OF d assms(5)] f0 assms(6) by auto
  with assms(6) have "activate_cap now' cid (cap_group r0) r = r" for now' by (simp add: activate_cap_def)
  with imageI [OF assms(5), of "activate_cap (isoformat now) cid (cap_group r0)"]
  have "r \<in> activate_cap (isoformat now) cid (cap_group r0) ` set (capability_contracts s)" by simp
  with set_status_cases [OF assms(1)] assms(5) f0 show ?thesis
    by (auto simp: activation_is_map)
qed

lemma upsert_result:
  assumes "upsert_capability_contract cid now a s = (Inr row, s')" "caps_ok (capability_contracts s)"
  shows "row \<in> set (capability_contracts s') \<and> cap_key row = (nc_kind a, nc_name a, nc_tenant_id a, nc_digest a) \<and>
    set (capability_contracts s) \<subseteq> set (capability_contracts s') \<and> caps_ok (capability_contracts s') \<or>
    nc_status a = ''active''"
proof -
  let ?k = "(nc_kind a, nc_name a, nc_tenant_id a, nc_digest a)"
  have "row \<in> set (capability_contracts s') \<and> cap_key row = (nc_kind a, nc_name a, nc_tenant_id a, nc_digest a) \<and>
    set (capability_contracts s) \<subseteq> set (capability_contracts s')"
  proof (cases "find (\<lambda>r. cap_key r = ?k) (capability_contracts s)")
    case None
    with assms(1) show ?thesis
      by (auto simp: upsert_capability_contract_def get_capability_contract_by_digest_def bnd_def with_db_def
          sql_insert_Some contract_row_def cap_key_def split: if_splits option.splits)
  next
    case (Some r)
    with assms(1) have "row = r \<and> s' = s"
      by (simp add: upsert_capability_contract_def get_capability_contract_by_digest_def bnd_def with_db_def
          ret_def split: if_splits)
    with find_Some_in [OF Some] show ?thesis by simp
  qed
  with caps_ok_upsert [OF assms(1)] assms(2) show ?thesis by blast
qed

lemma sync_one_success:
  assumes "sync_one sha tenant True e s = (Inr row, s')" "caps_ok (capability_contracts s)"
  shows "row \<in> set (capability_contracts s') \<and> c_status row = ''active'' \<and> cap_group row = entry_group tenant e \<and>
    c_digest row = entry_digest sha e \<and>
    (\<forall>r\<in>set (capability_contracts s). cap_group r \<noteq> entry_group tenant e \<longrightarrow> r \<in> set (capability_contracts s'))"
proof -
  obtain cid t1 t2 kind name payload where e: "e = ((cid, t1, t2), kind, name, payload)" by (metis surj_pair)
  let ?d = "canonical_digest sha payload"
  let ?a = "\<lparr>nc_kind = kind, nc_name = name, nc_tenant_id = tenant, nc_version = drop (length ?d - 12) ?d,
     nc_digest = ?d, nc_capabilities = payload, nc_source = ''filesystem'', nc_status = ''draft''\<rparr>"
  from assms(1) obtain r0 s1 where u: "upsert_capability_contract cid t1 ?a s = (Inr r0, s1)"
    and k: "(if c_status r0 \<noteq> ''active'' then set_capability_contract_status t2 (c_id r0) ''active'' else ret r0) s1
      = (Inr row, s')"
    unfolding sync_one_def e prod.case Let_def by (elim bnd_InrE) simp
  from upsert_result [OF u assms(2)] have r0: "r0 \<in> set (capability_contracts s1)"
    and key: "cap_key r0 = (kind, name, tenant, ?d)" and sub: "set (capability_contracts s) \<subseteq> set (capability_contracts s1)"
    and ok: "caps_ok (capability_contracts s1)" by simp_all
  have g: "cap_group r0 = entry_group tenant e" "c_digest r0 = entry_digest sha e"
    using key by (simp_all add: cap_key_def cap_group_def entry_group_def entry_digest_def e)
  show ?thesis
  proof (cases "c_status r0 = ''active''")
    case True
    with k r0 g sub show ?thesis by (auto simp: ret_def)
  next
    case False
    with k have st: "set_capability_contract_status t2 (c_id r0) ''active'' s1 = (Inr row, s')" by simp
    have f0: "sql_fetch c_id (c_id r0) (capability_contracts s1) = Some r0"
      using sql_fetch_in_distinct [OF conjunct2 [OF ok] r0] .
    from set_status_cases [OF st] f0 have row: "row = r0\<lparr>c_status := ''active'', c_updated_at := isoformat t2,
        c_activated_at := Some (isoformat t2)\<rparr>"
      and s': "capability_contracts s' = map (activate_cap (isoformat t2) (c_id r0) (cap_group r0)) (capability_contracts s1)"
      by (auto simp: activation_is_map)
    have "row \<in> set (capability_contracts s')"
      using imageI [OF r0, of "activate_cap (isoformat t2) (c_id r0) (cap_group r0)"] unfolding s' row
      by (simp add: activate_cap_def)
    moreover have "r \<in> set (capability_contracts s')"
      if "r \<in> set (capability_contracts s)" "cap_group r \<noteq> entry_group tenant e" for r
      using set_status_other [OF st ok r0 refl, of r] that sub g(1) by auto
    moreover have "cap_group row = cap_group r0" "c_digest row = c_digest r0" "c_status row = ''active''"
      by (simp_all add: row cap_group_def)
    ultimately show ?thesis using g by auto
  qed
qed

lemma sync_entries_keep:
  assumes "sync_entries sha tenant True es s = (Inr rows, s')" "caps_ok (capability_contracts s)"
    "r \<in> set (capability_contracts s)" "cap_group r \<notin> entry_group tenant ` set es"
  shows "r \<in> set (capability_contracts s')"
  using assms
proof (induction es arbitrary: s rows)
  case (Cons e es)
  from Cons.prems(1) obtain row s1 rs where e: "sync_one sha tenant True e s = (Inr row, s1)"
    and es: "sync_entries sha tenant True es s1 = (Inr rs, s')"
    by (auto elim!: bnd_InrE simp: ret_def)
  have "r \<in> set (capability_contracts s1)" using sync_one_success [OF e Cons.prems(2)] Cons.prems(3,4) by auto
  from Cons.IH [OF es caps_ok_sync_one [OF e Cons.prems(2)] this] Cons.prems(4) show ?case by simp
qed (simp add: ret_def)

text \<open>C31: a synchronisation with activation that returns leaves, for every entry of the imported
  registries, exactly one active contract of that kind, name and tenant, and this contract has
  the digest of the imported entry.\<close>

theorem sync_activates_registry:
  assumes "sync_entries sha tenant True es s = (Inr rows, s')" "caps_ok (capability_contracts s)"
    "distinct (map (entry_group tenant) es)" "e \<in> set es"
  shows "\<exists>r. c_digest r = entry_digest sha e \<and>
    {r \<in> set (capability_contracts s'). c_status r = ''active'' \<and> cap_group r = entry_group tenant e} = {r}"
proof -
  have "\<exists>r\<in>set (capability_contracts s'). c_status r = ''active'' \<and> cap_group r = entry_group tenant e \<and>
      c_digest r = entry_digest sha e"
    using assms
  proof (induction es arbitrary: s rows)
    case (Cons e0 es)
    from Cons.prems(1) obtain row s1 rs where e0: "sync_one sha tenant True e0 s = (Inr row, s1)"
      and es: "sync_entries sha tenant True es s1 = (Inr rs, s')"
      by (auto elim!: bnd_InrE simp: ret_def)
    note ok1 = caps_ok_sync_one [OF e0 Cons.prems(2)] and succ = sync_one_success [OF e0 Cons.prems(2)]
    show ?case
    proof (cases "e = e0")
      case True
      with succ sync_entries_keep [OF es ok1, of row] Cons.prems(3) show ?thesis by auto
    next
      case False
      with Cons.IH [OF es ok1] Cons.prems(3,4) show ?thesis by simp
    qed
  qed simp
  then obtain r where r: "r \<in> set (capability_contracts s')" "c_status r = ''active''"
    "cap_group r = entry_group tenant e" "c_digest r = entry_digest sha e" by blast
  have "caps_ok (capability_contracts s')" using caps_ok_sync_entries [OF assms(1,2)] .
  then have "r' = r" if "r' \<in> set (capability_contracts s')" "c_status r' = ''active''"
    "cap_group r' = entry_group tenant e" for r'
    using caps.one_activeD [of "capability_contracts s'" r r'] that r
    by (metis sql_fetch_in_distinct option.inject)
  then have "{r \<in> set (capability_contracts s'). c_status r = ''active'' \<and> cap_group r = entry_group tenant e} = {r}"
    using r by blast
  with r(4) show ?thesis by blast
qed

definition demo_entry :: "(string \<times> instant \<times> instant) \<times> registry_entry" where
  "demo_entry = ((''k1'', 0, 0), ''agent'', ''support'', [(''name'', PStr ''support'')])"

lemma demo_caps_ok: "caps_ok (capability_contracts demo_caps)"
  by (auto simp: demo_caps_def demo_contract_def empty_db_def caps.one_active_def)

theorem sync_activates_registry_witness:
  "\<exists>rows s'. sync_entries (\<lambda>t. t) ''acme'' True [demo_entry] demo_caps = (Inr rows, s') \<and>
     (\<exists>r. {r \<in> set (capability_contracts s'). c_status r = ''active'' \<and>
        cap_group r = (''agent'', ''support'', ''acme'')} = {r})"
proof -
  have "\<not> Option.is_none (case fst (sync_entries (\<lambda>t. t) ''acme'' True [demo_entry] demo_caps) of
      Inr rows \<Rightarrow> Some rows | Inl _ \<Rightarrow> None)"
    by code_simp
  then obtain rows s' where m: "sync_entries (\<lambda>t. t) ''acme'' True [demo_entry] demo_caps = (Inr rows, s')"
    by (cases "sync_entries (\<lambda>t. t) ''acme'' True [demo_entry] demo_caps") (auto split: sum.splits)
  from sync_activates_registry [OF m demo_caps_ok, of demo_entry] m show ?thesis
    by (auto simp: entry_group_def demo_entry_def)
qed

subsection \<open>The pins of an evaluation\<close>

definition tenant_filter :: "string \<Rightarrow> string option" where
  "tenant_filter tenant = (if py_strip tenant = [] then None else Some (py_strip tenant))"

definition active_contracts :: "string \<Rightarrow> string \<Rightarrow> string option \<Rightarrow> db \<Rightarrow> cap_row list" where
  "active_contracts kind name tenant s =
     order_desc c_updated_at (filter (cap_matches kind ''active'' name tenant) (capability_contracts s))"

definition pinned_agent :: "string \<Rightarrow> string \<Rightarrow> db \<Rightarrow> cap_row option" where
  "pinned_agent agent tenant s =
     (if py_strip agent = [] then None
      else case active_contracts ''agent'' (py_strip agent) (tenant_filter tenant) s of [] \<Rightarrow> None | r # _ \<Rightarrow> Some r)"

definition pinned_tools :: "string \<Rightarrow> string \<Rightarrow> db \<Rightarrow> pyobj" where
  "pinned_tools agent tenant s =
     select_tools (case pinned_agent agent tenant s of None \<Rightarrow> [] | Some r \<Rightarrow> agent_tool_names (c_capabilities r))
       (dict_of c_name c_digest (filter (\<lambda>r. c_digest r \<noteq> [])
          (take 500 (active_contracts ''tool'' [] (tenant_filter tenant) s))) [])"

lemma list_active:
  "db_up s \<Longrightarrow> list_capability_contracts kind ''active'' name tenant n 0 s =
    (Inr (make_page (active_contracts kind name tenant s) (clamp 1 500 n) 0), s)"
  by (simp add: list_capability_contracts_def active_contracts_def)

lemma get_active:
  "db_up s \<Longrightarrow> get_active_capabilities kind tenant s = (Inr (take 500 (active_contracts kind [] tenant s)), s)"
  by (simp add: get_active_capabilities_def bnd_def list_active ret_def make_page_def limit_offset_def clamp_def)

lemma first_active:
  "pg_items (make_page l (clamp 1 500 1) 0) = (case l of [] \<Rightarrow> [] | r # _ \<Rightarrow> [r])"
  by (cases l) (simp_all add: make_page_def limit_offset_def clamp_def)

lemma resolve_digests_eq:
  assumes "db_up s"
  shows "resolve_execution_capability_digests sha agent tenant s =
    (Inr (case pinned_agent agent tenant s of None \<Rightarrow> [] | Some r \<Rightarrow> c_digest r,
          if pinned_tools agent tenant s = [] then []
          else canonical_digest sha (pinned_tools agent tenant s)), s)"
proof (cases "py_strip agent = []")
  case True
  then show ?thesis
    unfolding resolve_execution_capability_digests_def Let_def pinned_tools_def pinned_agent_def
    by (simp add: bnd_def ret_def get_active [OF assms] tenant_filter_def)
next
  case False
  show ?thesis
  proof (cases "active_contracts ''agent'' (py_strip agent) (tenant_filter tenant) s")
    case Nil
    with False show ?thesis
      unfolding resolve_execution_capability_digests_def Let_def pinned_tools_def pinned_agent_def
        tenant_filter_def
      by (simp add: bnd_def ret_def get_active [OF assms] list_active [OF assms] first_active)
  next
    case (Cons r rs)
    with False show ?thesis
      unfolding resolve_execution_capability_digests_def Let_def pinned_tools_def pinned_agent_def
        tenant_filter_def
      by (simp add: bnd_def ret_def get_active [OF assms] list_active [OF assms] first_active)
  qed
qed

lemma sort_key_sorted: "sorted (map k l) \<Longrightarrow> sort_key k l = l"
  by (induction l) (auto intro: insort_is_Cons)

lemma sorted_select: "sorted (map fst (select_tools names d))"
  by (simp add: select_tools_def comp_def sorted_wrt_filter sorted_remdups)

lemma canon_select: "canon (PDict (select_tools names d)) = PDict (select_tools names d)"
proof -
  have "map (\<lambda>(k, v). (k, canon v)) (select_tools names d) = select_tools names d"
    by (auto simp: select_tools_def)
  then show ?thesis by (simp add: sort_key_sorted sorted_select)
qed

lemma floats_select: "floats (PDict (select_tools names d)) = []"
  by (auto simp: select_tools_def)

text \<open>The tools digest pins the tools: two evaluations that get the same non-empty digest were
  pinned to the same tool names with the same content digests, unless SHA-256 collides on the two
  texts it hashed.\<close>

theorem tools_digest_pins_tools:
  assumes "db_up s" "db_up s'"
    "fst (resolve_execution_capability_digests sha agent tenant s) = Inr (a, d)"
    "fst (resolve_execution_capability_digests sha agent' tenant' s') = Inr (a', d)" "d \<noteq> []"
    "sha (json_canonical (PDict (pinned_tools agent tenant s))) =
       sha (json_canonical (PDict (pinned_tools agent' tenant' s'))) \<Longrightarrow>
     json_canonical (PDict (pinned_tools agent tenant s)) = json_canonical (PDict (pinned_tools agent' tenant' s'))"
  shows "pinned_tools agent tenant s = pinned_tools agent' tenant' s'"
proof -
  let ?p = "pinned_tools agent tenant s" and ?p' = "pinned_tools agent' tenant' s'"
  from assms(3-5) have "canonical_digest sha ?p = canonical_digest sha ?p'"
    by (simp add: resolve_digests_eq [OF assms(1)] resolve_digests_eq [OF assms(2)] split: if_splits)
  with assms(6) have "json_canonical (PDict ?p) = json_canonical (PDict ?p')"
    by (simp add: canonical_digest_def)
  moreover have "canon (PDict ?p) = PDict ?p" "canon (PDict ?p') = PDict ?p'"
    "floats (PDict ?p) = []" "floats (PDict ?p') = []"
    unfolding pinned_tools_def by (simp_all only: canon_select floats_select)
  ultimately show ?thesis using json_canonical_inj [of "PDict ?p" "PDict ?p'"] by simp
qed

definition demo_tools :: db where
  "demo_tools = empty_db\<lparr>capability_contracts :=
     [(demo_contract ''c1'' ''active'')\<lparr>c_kind := ''tool'', c_name := ''search''\<rparr>]\<rparr>"

theorem tools_digest_pins_tools_witness:
  "\<exists>d. fst (resolve_execution_capability_digests (\<lambda>t. t) [] ''acme'' demo_tools) = Inr ([], d) \<and> d \<noteq> [] \<and>
     pinned_tools [] ''acme'' demo_tools = pinned_tools ''x'' ''acme'' demo_tools"
proof -
  have p: "fst (resolve_execution_capability_digests (\<lambda>t. t) [] ''acme'' demo_tools) =
      Inr ([], (''sha256:{'' @ json_str ''search'' @ '':'' @ json_str ''c1'' @ ''}''))"
    "fst (resolve_execution_capability_digests (\<lambda>t. t) ''x'' ''acme'' demo_tools) =
      Inr ([], (''sha256:{'' @ json_str ''search'' @ '':'' @ json_str ''c1'' @ ''}''))"
    by code_simp+
  have up: "db_up demo_tools" by (simp add: demo_tools_def empty_db_def)
  from tools_digest_pins_tools [OF up up p] p(1) show ?thesis by simp
qed

end
