(* ===== verification/Governance_Service.thy ===== *)
theory Governance_Service
  imports Policy_Bundle Capability_Service
begin

text \<open>
  The decision on a governance request, \<open>governance_service.py\<close>, and the offline pipeline that joins the
  same engines, \<open>governance/pipeline/run_pipeline.py\<close>. The clock reading, the policy for an unavailable
  quota backend and the signing environment are arguments.
\<close>

subsection \<open>Stages\<close>

text \<open>What a gate (agent, model registry, residency) answers.\<close>

record gate =
  g_forbidden :: bool
  g_reasons :: "string list"
  g_known :: "bool option"

record telemetry =
  tl_quota_source :: string
  tl_requests_last_minute :: int
  tl_tokens_today :: int
  tl_prometheus_enabled :: bool
  tl_gateway_p95_latency_ms :: "rat option"
  tl_gateway_error_rate :: "rat option"
  tl_governance_block_rate :: "rat option"
  tl_tenant_request_rate :: "rat option"
  tl_prometheus_errors :: "string list"
  tl_block_reasons :: "string list"

record stages =
  sg_pre :: pack_result
  sg_post :: pack_result
  sg_prompt :: prompt_result
  sg_agent :: gate
  sg_quota :: verdict
  sg_model :: gate
  sg_tier :: pyval
  sg_region :: string
  sg_residency :: gate
  sg_cost :: verdict
  sg_risk :: risk_result
  sg_approval :: verdict

definition final_verdict :: "stages \<Rightarrow> string \<times> string list" where
  "final_verdict s =
     (if pk_decision (sg_pre s) = ''block'' then (''block'', pk_reasons (sg_pre s))
      else if pr_decision (sg_prompt s) = ''block'' then (''block'', pr_reasons (sg_prompt s))
      else if g_forbidden (sg_agent s) then (''block'', g_reasons (sg_agent s))
      else if v_decision (sg_quota s) = ''block'' then (''block'', v_reasons (sg_quota s))
      else if g_forbidden (sg_model s) then (''block'', g_reasons (sg_model s))
      else if g_forbidden (sg_residency s) then (''block'', g_reasons (sg_residency s))
      else if v_decision (sg_cost s) = ''block'' then (''block'', [''cost governance blocked the request''])
      else if v_decision (sg_approval s) = ''block'' then (''block'', [''approval workflow blocked the request''])
      else if v_decision (sg_quota s) = ''approval_required'' then (''approval_required'', v_reasons (sg_quota s))
      else if pk_decision (sg_post s) = ''approval_required'' then (''approval_required'', pk_reasons (sg_post s))
      else if rk_level (sg_risk s) = ''critical'' then (''approval_required'', [''critical risk score requires human approval''])
      else if v_decision (sg_approval s) = ''approval_required'' then (''approval_required'', [''approval workflow requires human review''])
      else if v_decision (sg_cost s) = ''warn'' then (''approval_required'', [''cost governance warning requires review''])
      else (''allow'', [''all governance stages allow the request'']))"

subsection \<open>Running the engines\<close>

text \<open>The stages after a block by the policy pack: every engine is skipped.\<close>

definition skipped :: "string list" where
  "skipped = [''skipped after policy pack block'']"

definition blocked_stages :: "row \<Rightarrow> pack_result \<Rightarrow> stages" where
  "blocked_stages rw pre =
     \<lparr>sg_pre = pre, sg_post = pre,
      sg_prompt = \<lparr>pr_decision = ''allow'', pr_reasons = skipped, pr_findings = []\<rparr>,
      sg_agent = \<lparr>g_forbidden = False, g_reasons = [], g_known = None\<rparr>,
      sg_quota = verdict_of ''allow'' skipped,
      sg_model = \<lparr>g_forbidden = False, g_reasons = [], g_known = None\<rparr>, sg_tier = PNone,
      sg_region = rw_region rw, sg_residency = \<lparr>g_forbidden = False, g_reasons = [], g_known = None\<rparr>,
      sg_cost = verdict_of ''allow'' [], sg_risk = \<lparr>rk_score = 0, rk_level = ''low'', rk_factors = []\<rparr>,
      sg_approval = verdict_of ''allow'' []\<rparr>"

text \<open>\<open>QUOTA_ON_UNAVAILABLE\<close>: what takes the place of the quota result when the counters are not there.\<close>

definition quota_unavailable_reason :: string where
  "quota_unavailable_reason = ''quota_backend_unavailable_allowed''"

definition quota_on_unavailable :: "string \<Rightarrow> verdict \<Rightarrow> verdict" where
  "quota_on_unavailable policy quota =
     (if policy = ''approval_required'' then verdict_of ''approval_required'' [''quota state unavailable; approval required'']
      else if policy = ''block'' then verdict_of ''block'' [''quota state unavailable; request blocked'']
      else if policy = ''allow''
      then verdict_of ''allow'' (if quota_unavailable_reason \<in> set (v_reasons quota) then v_reasons quota
             else v_reasons quota @ [quota_unavailable_reason])
      else quota)"

definition quota_missing :: "telemetry option \<Rightarrow> bool" where
  "quota_missing t \<longleftrightarrow> (case t of None \<Rightarrow> False | Some x \<Rightarrow> tl_quota_source x = ''unavailable'')"

definition quota_stage :: "string \<Rightarrow> telemetry option \<Rightarrow> row \<Rightarrow> table \<Rightarrow> verdict result" where
  "quota_stage policy t rw policies =
     rbind (evaluate_request rw policies) (\<lambda>quota.
       Inr (if quota_missing t then quota_on_unavailable policy quota else quota))"

definition open_stages ::
  "(string \<Rightarrow> string \<Rightarrow> string) \<Rightarrow> signing_env \<Rightarrow> string \<Rightarrow> telemetry option \<Rightarrow> row \<Rightarrow> policy_configs \<Rightarrow> pack_result \<Rightarrow> stages result" where
  "open_stages mac env policy t row0 c pre =
     (let models = map fst (pc_registry c); rw = row0\<lparr>rw_multiplier := Some (pk_multiplier pre)\<rparr> in
      rbind (evaluate_agent_policy row0 (pc_agents c) (if pc_tools c = [] then None else Some (pc_tools c))) (\<lambda>agent.
      rbind (quota_stage policy t rw (pc_quota c)) (\<lambda>quota.
      rbind (evaluate_model_policy mac env rw (pc_registry c)) (\<lambda>model.
      let residency = evaluate_residency rw (pc_residency c) (map_of (pc_registry c) (rw_model rw)) in
      rbind (evaluate_row rw (pc_cost c)) (\<lambda>cost.
      rbind (evaluate_risk rw (pc_risk c) (Some (pc_registry c))) (\<lambda>risk.
      let approval = evaluate_approval (build_approval_request rw (v_decision cost) (rk_level risk)) (Some (pc_registry c)) in
      rbind (evaluate_pack rw (pc_packs c) (Some models) (Some (rk_level risk))) (\<lambda>post.
      Inr \<lparr>sg_pre = pre, sg_post = post, sg_prompt = evaluate_prompt_security row0,
           sg_agent = \<lparr>g_forbidden = ap_forbidden agent, g_reasons = ap_reasons agent, g_known = Some (ap_known agent)\<rparr>,
           sg_quota = quota,
           sg_model = \<lparr>g_forbidden = mp_forbidden model, g_reasons = mp_reasons model, g_known = Some (mp_known model)\<rparr>,
           sg_tier = mp_tier model, sg_region = rg_region residency,
           sg_residency = \<lparr>g_forbidden = rg_forbidden residency, g_reasons = rg_reasons residency, g_known = None\<rparr>,
           sg_cost = cost, sg_risk = risk, sg_approval = approval\<rparr>)))))))"

definition run_stages ::
  "(string \<Rightarrow> string \<Rightarrow> string) \<Rightarrow> signing_env \<Rightarrow> string \<Rightarrow> telemetry option \<Rightarrow> row \<Rightarrow> policy_configs \<Rightarrow> stages result" where
  "run_stages mac env policy t rw c =
     rbind (evaluate_pack rw (pc_packs c) (Some (map fst (pc_registry c))) None) (\<lambda>pre.
       if pk_decision pre = ''block'' then Inr (blocked_stages rw pre)
       else open_stages mac env policy t rw c pre)"

text \<open>The verdict of the response: the marker of a failed quota backend comes first on an allow, and
  reasons of the telemetry block.\<close>

definition response_verdict :: "telemetry option \<Rightarrow> stages \<Rightarrow> string \<times> string list" where
  "response_verdict t s =
     (let (verdict, reasons) = final_verdict s;
          reasons' = (if verdict = ''allow'' \<and> quota_unavailable_reason \<in> set (v_reasons (sg_quota s)) \<and>
              quota_unavailable_reason \<notin> set reasons then quota_unavailable_reason # reasons else reasons)
      in case t of None \<Rightarrow> (verdict, reasons')
         | Some x \<Rightarrow> if tl_block_reasons x \<noteq> [] then (''block'', tl_block_reasons x @ reasons') else (verdict, reasons'))"

subsection \<open>The response\<close>

text \<open>A stage as it is shown and stored: the dump of \<open>GovernanceStageResult\<close>.\<close>

definition stage_value ::
  "pyval \<Rightarrow> string list \<Rightarrow> pyval \<Rightarrow> pyval \<Rightarrow> pyval \<Rightarrow> pyval list \<Rightarrow> pyval \<Rightarrow> bool option \<Rightarrow> pyval" where
  "stage_value decision reasons score level pack factors tier known =
     PDict [(''decision'', decision), (''reasons'', PList (map PStr reasons)), (''score'', score), (''level'', level),
       (''pack'', pack), (''factors'', PList factors), (''risk_tier'', tier),
       (''known_model'', (case known of None \<Rightarrow> PNone | Some b \<Rightarrow> PBool b))]"

definition plain_stage :: "string \<Rightarrow> string list \<Rightarrow> pyval" where
  "plain_stage decision reasons = stage_value (PStr decision) reasons PNone PNone PNone [] PNone None"

definition gate_decision :: "gate \<Rightarrow> string" where
  "gate_decision g = (if g_forbidden g then ''block'' else ''allow'')"

definition factor_value :: "factor \<Rightarrow> pyval" where
  "factor_value f = (case f of (name, n, reason) \<Rightarrow>
     PDict [(''name'', PStr name), (''points'', PInt n), (''reason'', PStr reason)])"

definition pack_stage :: "stages \<Rightarrow> string \<times> string list" where
  "pack_stage s =
     (if pk_decision (sg_pre s) \<noteq> ''block'' \<and> pk_decision (sg_post s) = ''approval_required''
      then (''approval_required'', pk_reasons (sg_post s)) else (pk_decision (sg_pre s), pk_reasons (sg_pre s)))"

definition stages_value :: "stages \<Rightarrow> pyobj" where
  "stages_value s =
     (let (pack_decision, reasons) = pack_stage s in
     [(''policy_pack'', stage_value (PStr pack_decision) reasons PNone PNone (PStr (pk_pack (sg_pre s))) [] PNone None),
      (''prompt_security'', plain_stage (pr_decision (sg_prompt s)) (pr_reasons (sg_prompt s))),
      (''agent'', stage_value (PStr (gate_decision (sg_agent s))) (g_reasons (sg_agent s)) PNone PNone PNone [] PNone (g_known (sg_agent s))),
      (''quota'', plain_stage (v_decision (sg_quota s)) (v_reasons (sg_quota s))),
      (''registry'', stage_value (PStr (gate_decision (sg_model s))) (g_reasons (sg_model s)) PNone PNone PNone [] (sg_tier s) (g_known (sg_model s))),
      (''sovereign'', stage_value (PStr (gate_decision (sg_residency s))) (g_reasons (sg_residency s)) PNone PNone (PStr (sg_region s)) [] PNone None),
      (''cost'', plain_stage (v_decision (sg_cost s)) (v_reasons (sg_cost s))),
      (''risk'', stage_value PNone [] (PInt (rk_score (sg_risk s))) (PStr (rk_level (sg_risk s))) PNone
         (map factor_value (rk_factors (sg_risk s))) PNone None),
      (''approval'', plain_stage (v_decision (sg_approval s)) (v_reasons (sg_approval s)))])"

record governance_response =
  ge_verdict :: string
  ge_pack :: string
  ge_reasons :: "string list"
  ge_stages :: pyobj
  ge_telemetry :: "telemetry option"
  ge_decision_id :: "string option"
  ge_bundle_id :: "string option"
  ge_policy_digest :: "string option"
  ge_agent_digest :: "string option"
  ge_tools_digest :: "string option"
  ge_approval_id :: "string option"

definition non_empty :: "string \<Rightarrow> string option" where
  "non_empty s = (if s = [] then None else Some s)"

text \<open>The response model refuses a risk tier that is neither a text nor missing.\<close>

definition tier_ok :: "pyval \<Rightarrow> bool" where
  "tier_ok v = (case v of PNone \<Rightarrow> True | PStr _ \<Rightarrow> True | _ \<Rightarrow> False)"

definition evaluate_governance_request ::
  "(string \<Rightarrow> string) \<Rightarrow> (string \<Rightarrow> string \<Rightarrow> string) \<Rightarrow> signing_env \<Rightarrow> string \<Rightarrow> string \<Rightarrow> telemetry option \<Rightarrow>
   policy_bundle \<Rightarrow> eval_request \<Rightarrow> (db, governance_response) opn" where
  "evaluate_governance_request sha mac env policy now t bundle q =
     (case pb_configs bundle of
        None \<Rightarrow> throw (RuntimeError (''policy bundle is not valid: '' @ str_or (opt_str (pb_error bundle)) ''unknown error''))
      | Some c \<Rightarrow>
          if pb_status bundle \<noteq> ''ok''
          then throw (RuntimeError (''policy bundle is not valid: '' @ str_or (opt_str (pb_error bundle)) ''unknown error''))
          else (case run_stages mac env policy t (to_pipeline_row now q) c of
            Inl e \<Rightarrow> throw e
          | Inr s \<Rightarrow>
              (let (verdict, reasons) = response_verdict t s in
               bnd (resolve_execution_capability_digests sha (q_agent q) (str_or (q_tenant_id q) (q_team q)))
                 (\<lambda>(agent_digest, tools_digest).
                   if \<not> tier_ok (sg_tier s) then throw (ValueError ''risk_tier'')
                   else ret \<lparr>ge_verdict = verdict, ge_pack = pk_pack (sg_pre s), ge_reasons = reasons,
                     ge_stages = stages_value s, ge_telemetry = t, ge_decision_id = None,
                     ge_bundle_id = Some (pb_id bundle), ge_policy_digest = Some (pb_digest bundle),
                     ge_agent_digest = non_empty agent_digest, ge_tools_digest = non_empty tools_digest,
                     ge_approval_id = None\<rparr>))))"

text \<open>An evaluation only reads the store.\<close>

lemma evaluate_governance_unchanged: "snd (evaluate_governance_request sha mac env policy now t bundle q s) = s"
proof -
  have "snd (bnd (resolve_execution_capability_digests sha (q_agent q) (str_or (q_tenant_id q) (q_team q))) f s) = s"
    if "\<And>x s. snd (f x s) = s" for f :: "_ \<Rightarrow> (db, governance_response) opn"
    using that resolve_digests_unchanged [of sha "q_agent q" "str_or (q_tenant_id q) (q_team q)" s]
    by (cases "resolve_execution_capability_digests sha (q_agent q) (str_or (q_tenant_id q) (q_team q)) s")
      (auto simp: bnd_def split: sum.split)
  then show ?thesis
    by (simp add: evaluate_governance_request_def throw_def ret_def split: option.split sum.split prod.split)
qed

subsection \<open>The order of the stages\<close>

definition some_block :: "stages \<Rightarrow> bool" where
  "some_block s \<longleftrightarrow> pk_decision (sg_pre s) = ''block'' \<or> pr_decision (sg_prompt s) = ''block'' \<or>
     g_forbidden (sg_agent s) \<or> v_decision (sg_quota s) = ''block'' \<or> g_forbidden (sg_model s) \<or>
     g_forbidden (sg_residency s) \<or> v_decision (sg_cost s) = ''block'' \<or> v_decision (sg_approval s) = ''block''"

definition some_review :: "stages \<Rightarrow> bool" where
  "some_review s \<longleftrightarrow> v_decision (sg_quota s) = ''approval_required'' \<or> pk_decision (sg_post s) = ''approval_required'' \<or>
     rk_level (sg_risk s) = ''critical'' \<or> v_decision (sg_approval s) = ''approval_required'' \<or> v_decision (sg_cost s) = ''warn''"

lemma final_verdict_cases:
  "fst (final_verdict s) = (if some_block s then ''block'' else if some_review s then ''approval_required'' else ''allow'')"
  by (simp add: final_verdict_def some_block_def some_review_def)

lemma response_verdict_cases:
  "fst (response_verdict t s) = (if (\<exists>x. t = Some x \<and> tl_block_reasons x \<noteq> []) then ''block'' else fst (final_verdict s))"
  by (cases "final_verdict s") (auto simp: response_verdict_def Let_def split: option.split)

lemma run_stages_Inr:
  assumes "run_stages mac env policy t rw c = Inr s" "pk_decision (sg_pre s) \<noteq> ''block''"
  obtains pre where "evaluate_pack rw (pc_packs c) (Some (map fst (pc_registry c))) None = Inr pre"
    "open_stages mac env policy t rw c pre = Inr s"
proof -
  obtain pre where pre: "evaluate_pack rw (pc_packs c) (Some (map fst (pc_registry c))) None = Inr pre"
    and s: "(if pk_decision pre = ''block'' then Inr (blocked_stages rw pre) else open_stages mac env policy t rw c pre) = Inr s"
    using assms(1) by (auto simp: run_stages_def rbind_Inr)
  have "pk_decision pre \<noteq> ''block''"
  proof
    assume "pk_decision pre = ''block''"
    with s assms(2) show False by (auto simp: blocked_stages_def)
  qed
  with s pre that show thesis by simp
qed

text \<open>The row after the pack has set its multiplier.\<close>

definition scaled_row :: "row \<Rightarrow> pack_result \<Rightarrow> row" where
  "scaled_row rw pre = rw\<lparr>rw_multiplier := Some (pk_multiplier pre)\<rparr>"

lemma open_stages_Inr:
  assumes "open_stages mac env policy t rw c pre = Inr s"
  obtains agent quota model cost risk post where
    "evaluate_agent_policy rw (pc_agents c) (if pc_tools c = [] then None else Some (pc_tools c)) = Inr agent"
    "quota_stage policy t (scaled_row rw pre) (pc_quota c) = Inr quota"
    "evaluate_model_policy mac env (scaled_row rw pre) (pc_registry c) = Inr model"
    "evaluate_row (scaled_row rw pre) (pc_cost c) = Inr cost"
    "evaluate_risk (scaled_row rw pre) (pc_risk c) (Some (pc_registry c)) = Inr risk"
    "evaluate_pack (scaled_row rw pre) (pc_packs c) (Some (map fst (pc_registry c))) (Some (rk_level risk)) = Inr post"
    "sg_pre s = pre" "sg_post s = post" "sg_prompt s = evaluate_prompt_security rw"
    "g_forbidden (sg_agent s) = ap_forbidden agent" "sg_quota s = quota" "g_forbidden (sg_model s) = mp_forbidden model"
    "g_forbidden (sg_residency s) = rg_forbidden (evaluate_residency (scaled_row rw pre) (pc_residency c) (map_of (pc_registry c) (rw_model rw)))"
    "sg_cost s = cost" "sg_risk s = risk"
    "sg_approval s = evaluate_approval (build_approval_request (scaled_row rw pre) (v_decision cost) (rk_level risk)) (Some (pc_registry c))"
  using assms unfolding open_stages_def Let_def scaled_row_def [symmetric]
  by (auto simp: rbind_Inr scaled_row_def)

lemma evaluate_governance_Inr:
  assumes "evaluate_governance_request sha mac env policy now t bundle q d = (Inr r, d')"
  obtains c s where "pb_configs bundle = Some c" "pb_status bundle = ''ok''"
    "run_stages mac env policy t (to_pipeline_row now q) c = Inr s"
    "ge_verdict r = fst (response_verdict t s)" "ge_reasons r = snd (response_verdict t s)"
proof -
  obtain c where c: "pb_configs bundle = Some c" "pb_status bundle = ''ok''"
    using assms by (auto simp: evaluate_governance_request_def throw_def split: option.splits if_splits)
  obtain s where s: "run_stages mac env policy t (to_pipeline_row now q) c = Inr s"
    using assms c by (cases "run_stages mac env policy t (to_pipeline_row now q) c")
      (simp_all add: evaluate_governance_request_def throw_def)
  obtain v rs where v: "response_verdict t s = (v, rs)" by (cases "response_verdict t s")
  have "ge_verdict r = v \<and> ge_reasons r = rs"
    using assms unfolding evaluate_governance_request_def
    by (auto simp: c s v ret_def throw_def split: if_splits elim!: bnd_InrE)
  with c s v that show thesis by simp
qed

lemma to_pipeline_row_simps [simp]:
  "rw_team (to_pipeline_row now q) = q_team q" "rw_owner (to_pipeline_row now q) = q_owner q"
  "rw_environment (to_pipeline_row now q) = q_environment q" "rw_namespace (to_pipeline_row now q) = q_namespace q"
  "rw_provider (to_pipeline_row now q) = q_provider q" "rw_action (to_pipeline_row now q) = q_action q"
  "rw_model (to_pipeline_row now q) = q_model q" "rw_prompt_text (to_pipeline_row now q) = q_prompt_text q"
  "rw_agent (to_pipeline_row now q) = q_agent q" "rw_sensitive_data (to_pipeline_row now q) = q_sensitive_data q"
  by (simp_all add: to_pipeline_row_def)

lemma scaled_row_simps [simp]:
  "rw_team (scaled_row rw pre) = rw_team rw" "rw_owner (scaled_row rw pre) = rw_owner rw"
  "rw_environment (scaled_row rw pre) = rw_environment rw" "rw_namespace (scaled_row rw pre) = rw_namespace rw"
  "rw_provider (scaled_row rw pre) = rw_provider rw" "rw_action (scaled_row rw pre) = rw_action rw"
  "rw_model (scaled_row rw pre) = rw_model rw" "rw_sensitive_data (scaled_row rw pre) = rw_sensitive_data rw"
  by (simp_all add: scaled_row_def)

lemma approval_clean:
  assumes "v_decision (evaluate_approval q registry) \<noteq> ''block''" "v_decision (evaluate_approval q registry) \<noteq> ''approval_required''"
  shows "aq_owner q \<notin> {None, Some [], Some ''none''}" "aq_team q \<in> set supported_teams"
    "aq_environment q \<noteq> ''production''" "aq_provider q \<notin> set approval_providers"
    "aq_action q \<notin> set high_risk_actions" "aq_risk q \<notin> {''high'', ''critical''}"
proof -
  have "approval_block_reasons q registry = []" "approval_review_reasons q = []"
    using assms by (simp_all add: evaluate_approval_decision split: if_splits)
  then show "aq_owner q \<notin> {None, Some [], Some ''none''}" "aq_team q \<in> set supported_teams"
    "aq_environment q \<noteq> ''production''" "aq_provider q \<notin> set approval_providers"
    "aq_action q \<notin> set high_risk_actions" "aq_risk q \<notin> {''high'', ''critical''}"
    by (simp_all add: approval_block_reasons_def approval_review_reasons_def Let_def)
qed

lemma model_sensitive:
  assumes "evaluate_model_policy mac env rw registry = Inr r" "\<not> mp_forbidden r" "rw_sensitive_data rw"
    "map_of registry (rw_model rw) = Some entry"
  shows "truthy (get_default entry ''pii_allowed'' (PBool False))"
  using assms by (auto simp: evaluate_model_policy_def Let_def rbind_Inr entry_reasons_def)

lemma prompt_clean:
  assumes "pr_decision (evaluate_prompt_security rw) \<noteq> ''block''"
  shows "find_matches (py_strip (rw_prompt_text rw)) secret_patterns = [] \<and>
    find_matches (py_strip (rw_prompt_text rw)) injection_patterns = [] \<or> py_strip (rw_prompt_text rw) = []"
  using secret_or_injection_blocks [of rw] assms by blast

lemma agent_clean:
  assumes "evaluate_agent_policy rw registry tools = Inr a" "\<not> ap_forbidden a"
  shows "py_strip (rw_agent rw) = [] \<or> map_of registry (py_strip (rw_agent rw)) \<noteq> None"
  using assms by (auto simp: evaluate_agent_policy_def Let_def split: if_splits option.splits)


text \<open>With \<open>QUOTA_ON_UNAVAILABLE=allow\<close> a missing counter backend switches off all of the quota engine, not
  the rate limits only: whatever the quota policies of the bundle say about the budget, about sensitive data or
  about teams that are not onboarded, the verdict is the same.\<close>

theorem quota_fail_open:
  assumes "run_stages mac env ''allow'' t rw c = Inr s" "quota_missing t"
    and "run_stages mac env ''allow'' t rw (c\<lparr>pc_quota := other\<rparr>) = Inr s'"
  shows "fst (response_verdict t s') = fst (response_verdict t s)"
proof (cases "pk_decision (sg_pre s) = ''block''")
  case True
  obtain pre where pre: "evaluate_pack rw (pc_packs c) (Some (map fst (pc_registry c))) None = Inr pre"
    using assms(1) by (auto simp: run_stages_def rbind_Inr)
  have "pk_decision pre = ''block''"
  proof (rule ccontr)
    assume "pk_decision pre \<noteq> ''block''"
    with assms(1) pre have "open_stages mac env ''allow'' t rw c pre = Inr s" by (simp add: run_stages_def)
    then have "sg_pre s = pre" by (rule open_stages_Inr)
    with True \<open>pk_decision pre \<noteq> ''block''\<close> show False by simp
  qed
  with assms pre have "s' = s" by (simp add: run_stages_def)
  then show ?thesis by simp
next
  case False
  obtain pre where pre: "evaluate_pack rw (pc_packs c) (Some (map fst (pc_registry c))) None = Inr pre"
    and o: "open_stages mac env ''allow'' t rw c pre = Inr s" by (rule run_stages_Inr [OF assms(1) False]) (rule that)
  have "pk_decision pre \<noteq> ''block''" using False o by (auto elim: open_stages_Inr)
  with assms(3) pre have o': "open_stages mac env ''allow'' t rw (c\<lparr>pc_quota := other\<rparr>) pre = Inr s'" by (simp add: run_stages_def)
  have allow: "v_decision q = ''allow''" if "quota_stage ''allow'' t rw' p = Inr q" for rw' p q
    using that assms(2) by (auto simp: quota_stage_def rbind_Inr quota_on_unavailable_def)
  have "\<exists>q q'. s' = s\<lparr>sg_quota := q'\<rparr> \<and> sg_quota s = q \<and> v_decision q = ''allow'' \<and> v_decision q' = ''allow''"
    using o o' unfolding open_stages_def Let_def by (auto simp: rbind_Inr cong: if_cong dest!: allow)
  then obtain q' where s': "s' = s\<lparr>sg_quota := q'\<rparr>" "v_decision (sg_quota s) = ''allow''" "v_decision q' = ''allow''" by blast
  have "some_block s' = some_block s" "some_review s' = some_review s"
    using s' by (simp_all add: some_block_def some_review_def)
  then show ?thesis by (simp add: response_verdict_cases final_verdict_cases)
qed

subsection \<open>The offline pipeline\<close>

definition pipeline_verdict :: "verdict \<Rightarrow> model_policy \<Rightarrow> verdict \<Rightarrow> risk_result \<Rightarrow> verdict \<Rightarrow> string \<times> string list" where
  "pipeline_verdict quota model cost risk approval =
     (if v_decision quota = ''block'' then (''block'', v_reasons quota)
      else if mp_forbidden model then (''block'', mp_reasons model)
      else if v_decision cost = ''block'' then (''block'', [''cost governance blocked the request''])
      else if v_decision approval = ''block'' then (''block'', [''approval workflow blocked the request''])
      else if rk_level risk = ''critical'' then (''approval_required'', [''critical risk score requires human approval''])
      else if v_decision approval = ''approval_required'' then (''approval_required'', [''approval workflow requires human review''])
      else if v_decision cost = ''warn'' then (''approval_required'', [''cost governance warning requires review''])
      else (''allow'', [''all governance stages allow the request'']))"

record pipeline_decision =
  pd_id :: string
  pd_verdict :: string
  pd_reasons :: "string list"
  pd_quota :: verdict
  pd_model :: model_policy
  pd_cost :: verdict
  pd_risk :: risk_result
  pd_approval :: verdict

definition pipeline_decide ::
  "(string \<Rightarrow> string \<Rightarrow> string) \<Rightarrow> signing_env \<Rightarrow> table \<Rightarrow> table \<Rightarrow> cost_policies \<Rightarrow> risk_rules \<Rightarrow> row \<Rightarrow> pipeline_decision result" where
  "pipeline_decide mac env quotas registry costs rules rw =
     rbind (evaluate_request rw quotas) (\<lambda>quota.
     rbind (evaluate_model_policy mac env rw registry) (\<lambda>model.
     rbind (evaluate_row rw costs) (\<lambda>cost.
     rbind (evaluate_risk rw rules (Some registry)) (\<lambda>risk.
     let approval = evaluate_approval (build_approval_request rw (v_decision cost) (rk_level risk)) (Some registry);
         (verdict, reasons) = pipeline_verdict quota model cost risk approval
     in Inr \<lparr>pd_id = rw_id rw, pd_verdict = verdict, pd_reasons = reasons, pd_quota = quota, pd_model = model,
          pd_cost = cost, pd_risk = risk, pd_approval = approval\<rparr>))))"

fun pipeline_rows ::
  "(row \<Rightarrow> pipeline_decision result) \<Rightarrow> row list \<Rightarrow> pipeline_decision list result" where
  "pipeline_rows decide [] = Inr []"
| "pipeline_rows decide (rw # rws) = rbind (decide rw) (\<lambda>d. rbind (pipeline_rows decide rws) (\<lambda>ds. Inr (d # ds)))"

definition verdict_count :: "string \<Rightarrow> pipeline_decision list \<Rightarrow> nat" where
  "verdict_count v ds = length (filter (\<lambda>d. pd_verdict d = v) ds)"

definition evaluate_pipeline ::
  "(string \<Rightarrow> string \<Rightarrow> string) \<Rightarrow> signing_env \<Rightarrow> table \<Rightarrow> table \<Rightarrow> cost_policies \<Rightarrow> risk_rules \<Rightarrow> row list \<Rightarrow>
   (pipeline_decision list \<times> (string \<times> nat) list) result" where
  "evaluate_pipeline mac env quotas registry costs rules rws =
     rbind (pipeline_rows (pipeline_decide mac env quotas registry costs rules) rws) (\<lambda>ds.
       Inr (ds, map (\<lambda>v. (v, verdict_count v ds)) [''allow'', ''approval_required'', ''block'']))"


subsection \<open>Example\<close>

definition demo_request :: eval_request where
  "demo_request =
     \<lparr>q_subject = ''bob'', q_groups = [], q_policy_pack = [], q_team = ''platform'', q_tenant_id = [],
      q_owner = ''alice'', q_environment = ''development'', q_namespace = ''ai-dev'', q_action = ''invoke_model'',
      q_model = ''llama3.1:8b'', q_provider = ''ollama'', q_input_tokens = 1000, q_output_tokens = 500,
      q_cost_per_request_usd = 0, q_cost_per_hour_usd = 0, q_month_to_date_cost_usd = 100,
      q_forecast_monthly_cost_usd = 400, q_sensitive_data = False, q_tool_access = False,
      q_write_permission = False, q_requests_last_minute = 0, q_tokens_today = 0, q_model_revision = [],
      q_model_artifact_digest = [], q_prompt_text = [], q_agent = [], q_region = []\<rparr>"

definition demo_configs :: policy_configs where
  "demo_configs = \<lparr>pc_packs = demo_packs, pc_quota = [(''platform'', [])], pc_registry = [],
     pc_residency = \<lparr>nt_default = ''local'', nt_map = [], nt_tables = []\<rparr>, pc_agents = [], pc_tools = [],
     pc_cost = demo_costs, pc_risk = demo_rules\<rparr>"

definition demo_bundle_ok :: policy_bundle where
  "demo_bundle_ok = \<lparr>pb_id = ''b1'', pb_revision = [], pb_digest = ''d1'', pb_loaded_at = [], pb_status = ''ok'',
     pb_error = None, pb_configs = Some demo_configs\<rparr>"

lemma demo_half: "fl (1 / 2) = (1 / 2 :: rat)"
  by code_simp

lemma demo_float: "fl 1 = 1" "fl 500 = 500"
  and demo_int: "numeral n < (2 ^ 53 :: int) \<Longrightarrow> float_of_int (numeral n) = numeral n"
  using fl_of_int [of 1] fl_of_int [of 500] fl_of_int [of "numeral n"] by (simp_all add: float_of_int_def)

definition demo_pack_result :: pack_result where
  "demo_pack_result = \<lparr>pk_pack = ''development'', pk_decision = ''allow'', pk_reasons = [''policy pack development checks passed''],
     pk_multiplier = 1, pk_min_risk = ''high''\<rparr>"

lemma demo_engines:
  fixes rw :: row defines "rw \<equiv> to_pipeline_row [] demo_request"
  shows "evaluate_pack rw demo_packs models None = Inr demo_pack_result"
    "evaluate_pack (scaled_row rw demo_pack_result) demo_packs models (Some ''low'') = Inr demo_pack_result"
    "evaluate_agent_policy rw [] tools = Inr \<lparr>ap_known = False, ap_forbidden = False, ap_reasons = [], ap_tools = []\<rparr>"
    "evaluate_request (scaled_row rw demo_pack_result) [(''platform'', [])] = Inr (verdict_of ''allow'' [''tenant quota checks passed''])"
    "evaluate_model_policy mac env (scaled_row rw demo_pack_result) [] = Inr (unknown_model ''llama3.1:8b'')"
    "evaluate_row (scaled_row rw demo_pack_result) demo_costs = Inr (verdict_of ''allow'' [''usage is within governance limits''])"
    "\<exists>fs. evaluate_risk (scaled_row rw demo_pack_result) demo_rules (Some []) = Inr \<lparr>rk_score = 10, rk_level = ''low'', rk_factors = fs\<rparr>"
    "evaluate_approval (build_approval_request (scaled_row rw demo_pack_result) ''allow'' ''low'') (Some []) =
       verdict_of ''allow'' [''request is low-risk and inside approval limits'']"
    "evaluate_residency (scaled_row rw demo_pack_result) (pc_residency demo_configs) None =
       \<lparr>rg_region = ''local'', rg_forbidden = False, rg_reasons = [], rg_external = False\<rparr>"
    "evaluate_prompt_security rw = \<lparr>pr_decision = ''allow'', pr_reasons = [''no prompt text to scan''], pr_findings = []\<rparr>"
proof -
  have r: "\<not> risk_at_least ''low'' ''high''" by code_simp
  have i: "float_of_int 1 = 1" using demo_float by (simp add: float_of_int_def)
  note d = rw_def to_pipeline_row_def demo_request_def scaled_row_def demo_pack_result_def
  show "evaluate_pack rw demo_packs models None = Inr demo_pack_result"
    "evaluate_pack (scaled_row rw demo_pack_result) demo_packs models (Some ''low'') = Inr demo_pack_result"
    by (simp_all add: d evaluate_pack_def demo_packs_def resolve_pack_name_def pack_reasons_def get_none_def get_default_def i r)
  show "evaluate_agent_policy rw [] tools = Inr \<lparr>ap_known = False, ap_forbidden = False, ap_reasons = [], ap_tools = []\<rparr>"
    by (simp add: d evaluate_agent_policy_def)
  show "evaluate_request (scaled_row rw demo_pack_result) [(''platform'', [])] = Inr (verdict_of ''allow'' [''tenant quota checks passed''])"
    by (simp add: d evaluate_request_def scaled_limit_def budget_reason_def get_none_def get_default_def)
  show "evaluate_model_policy mac env (scaled_row rw demo_pack_result) [] = Inr (unknown_model ''llama3.1:8b'')"
    by (simp add: d evaluate_model_policy_def)
  show "evaluate_row (scaled_row rw demo_pack_result) demo_costs = Inr (verdict_of ''allow'' [''usage is within governance limits''])"
    by (simp add: d evaluate_row_def demo_costs_def get_attr_def item_of_def item_def get_default_def
        team_findings_def global_findings_def limit_findings_def demo_int fmul_def fdiv_def demo_float demo_half)
  show "\<exists>fs. evaluate_risk (scaled_row rw demo_pack_result) demo_rules (Some []) = Inr \<lparr>rk_score = 10, rk_level = ''low'', rk_factors = fs\<rparr>"
    by (simp add: d evaluate_risk_def request_factors_def registry_factors_def factor_if_def demo_rules_def int_item_def item_def
        ends_with_def deploy_actions_def risk_level_def weight_def weight_default_def get_default_def demo_int)
  show "evaluate_approval (build_approval_request (scaled_row rw demo_pack_result) ''allow'' ''low'') (Some []) =
       verdict_of ''allow'' [''request is low-risk and inside approval limits'']"
    by (simp add: d evaluate_approval_def build_approval_request_def approval_block_reasons_def approval_review_reasons_def
        supported_teams_def forbidden_models_def ends_with_def approval_providers_def high_risk_actions_def)
  show "evaluate_residency (scaled_row rw demo_pack_result) (pc_residency demo_configs) None =
       \<lparr>rg_region = ''local'', rg_forbidden = False, rg_reasons = [], rg_external = False\<rparr>"
    by (simp add: d demo_configs_def) code_simp
  show "evaluate_prompt_security rw = \<lparr>pr_decision = ''allow'', pr_reasons = [''no prompt text to scan''], pr_findings = []\<rparr>"
    by (simp add: d evaluate_prompt_security_def)
qed

lemma demo_run_with:
  assumes "evaluate_request (scaled_row (to_pipeline_row [] demo_request) demo_pack_result) p = Inr v"
    and "if quota_missing t then policy \<in> {''allow'', ''approval_required''} else v_decision v = ''allow''"
  obtains s where "run_stages mac env policy t (to_pipeline_row [] demo_request) (demo_configs\<lparr>pc_quota := p\<rparr>) = Inr s"
    "open_stages mac env policy t (to_pipeline_row [] demo_request) (demo_configs\<lparr>pc_quota := p\<rparr>) demo_pack_result = Inr s"
    "\<not> some_block s" "some_review s \<longleftrightarrow> quota_missing t \<and> policy = ''approval_required''"
    "sg_post s = demo_pack_result" "tier_ok (sg_tier s)"
proof -
  let ?rw = "to_pipeline_row [] demo_request" and ?c = "demo_configs\<lparr>pc_quota := p\<rparr>"
  obtain fs where risk: "evaluate_risk (scaled_row ?rw demo_pack_result) demo_rules (Some []) = Inr \<lparr>rk_score = 10, rk_level = ''low'', rk_factors = fs\<rparr>"
    using demo_engines(7) by blast
  let ?s = "\<lparr>sg_pre = demo_pack_result, sg_post = demo_pack_result,
     sg_prompt = \<lparr>pr_decision = ''allow'', pr_reasons = [''no prompt text to scan''], pr_findings = []\<rparr>,
     sg_agent = \<lparr>g_forbidden = False, g_reasons = [], g_known = Some False\<rparr>,
     sg_quota = if quota_missing t then quota_on_unavailable policy v else v,
     sg_model = \<lparr>g_forbidden = False, g_reasons = mp_reasons (unknown_model ''llama3.1:8b''), g_known = Some False\<rparr>,
     sg_tier = PNone, sg_region = ''local'', sg_residency = \<lparr>g_forbidden = False, g_reasons = [], g_known = None\<rparr>,
     sg_cost = verdict_of ''allow'' [''usage is within governance limits''],
     sg_risk = \<lparr>rk_score = 10, rk_level = ''low'', rk_factors = fs\<rparr>,
     sg_approval = verdict_of ''allow'' [''request is low-risk and inside approval limits'']\<rparr>"
  have c: "pc_packs ?c = demo_packs" "pc_quota ?c = p" "pc_registry ?c = []" "pc_residency ?c = pc_residency demo_configs"
    "pc_agents ?c = []" "pc_cost ?c = demo_costs" "pc_risk ?c = demo_rules"
    by (simp_all add: demo_configs_def)
  have o: "open_stages mac env policy t ?rw ?c demo_pack_result = Inr ?s"
    unfolding open_stages_def Let_def scaled_row_def [symmetric] c
    by (simp add: demo_engines risk quota_stage_def assms(1)) (simp add: unknown_model_def)
  have "pk_decision demo_pack_result \<noteq> ''block''" by (simp add: demo_pack_result_def)
  then have r: "run_stages mac env policy t ?rw ?c = Inr ?s"
    unfolding run_stages_def c by (simp add: demo_engines o)
  show thesis by (rule that [OF r o]) (use assms(2) in \<open>auto simp: some_block_def some_review_def demo_pack_result_def
      quota_on_unavailable_def tier_ok_def split: if_splits\<close>)
qed

lemmas demo_run = demo_run_with [OF demo_engines(4)]

lemma demo_configs_quota: "demo_configs\<lparr>pc_quota := [(''platform'', [])]\<rparr> = demo_configs"
  by (simp add: demo_configs_def)

definition demo_signing :: signing_env where
  "demo_signing = \<lparr>se_key = None, se_verify = None\<rparr>"


theorem quota_fail_open_witness:
  "\<exists>t s s'. quota_missing t \<and> run_stages demo_mac demo_signing ''allow'' t (to_pipeline_row [] demo_request) demo_configs = Inr s \<and>
     run_stages demo_mac demo_signing ''allow'' t (to_pipeline_row [] demo_request) (demo_configs\<lparr>pc_quota := []\<rparr>) = Inr s' \<and>
     fst (response_verdict t s') = fst (response_verdict t s)"
proof -
  define t where "t = Some \<lparr>tl_quota_source = ''unavailable'', tl_requests_last_minute = 0, tl_tokens_today = 0,
    tl_prometheus_enabled = False, tl_gateway_p95_latency_ms = None, tl_gateway_error_rate = None, tl_governance_block_rate = None,
    tl_tenant_request_rate = None, tl_prometheus_errors = [], tl_block_reasons = []\<rparr>"
  have t: "quota_missing t" by (simp add: t_def quota_missing_def)
  let ?rw = "to_pipeline_row [] demo_request"
  have e: "evaluate_request (scaled_row ?rw demo_pack_result) [] = Inr (verdict_of ''block'' [''team '' @ rw_team ?rw @ '' is not onboarded for tenant quotas''])"
    by (simp add: evaluate_request_def)
  obtain s where s: "run_stages demo_mac demo_signing ''allow'' t ?rw demo_configs = Inr s"
    using demo_run [of t "''allow''" demo_mac demo_signing] t by (auto simp: demo_configs_quota)
  obtain s' where s': "run_stages demo_mac demo_signing ''allow'' t ?rw (demo_configs\<lparr>pc_quota := []\<rparr>) = Inr s'"
    using demo_run_with [OF e, of t "''allow''" demo_mac demo_signing] t by auto
  show ?thesis using quota_fail_open [OF s t s'] s s' t by blast
qed


end
