(* ===== verification/Governance_Inputs.thy ===== *)
theory Governance_Inputs
  imports Server_Signals Live_Signals Quota_State Governance_Service
begin

text \<open>
  \<open>governance_inputs.py\<close>: what the server puts in the place of the figures a client sent, and the telemetry stage of
  the response. The environment of a call is a record: Redis with the readings of the clock, the two files and the
  signals of Prometheus.
\<close>

record input_env =
  in_quota :: quota_env
  in_redis :: redis
  in_day :: instant
  in_now :: instant
  in_pricing :: pricing
  in_classes :: classification
  in_prom :: "(string \<times> string) list"
  in_ask :: "string \<Rightarrow> prom_answer"

text \<open>The counters of the request, the snapshot that goes on and the spending of the month.\<close>

definition with_quota ::
  "bool \<Rightarrow> snapshot option \<Rightarrow> eval_request \<Rightarrow> eval_request \<times> snapshot option \<times> rat option" where
  "with_quota simulate snap q =
     (case snap of
        Some s \<Rightarrow> if \<not> sn_unavailable s
          then (q\<lparr>q_requests_last_minute := sn_rpm s, q_tokens_today := sn_tokens s\<rparr>, snap, Some (sn_month_cost s))
          else (q, snap, None)
      | None \<Rightarrow> if simulate then (q, None, None) else (q, Some (unavailable_snapshot (q_team q)), None))"

definition with_cost :: "request_cost \<Rightarrow> eval_request \<Rightarrow> eval_request" where
  "with_cost c q = q\<lparr>q_cost_per_request_usd := rc_per_request c, q_cost_per_hour_usd := rc_per_hour c,
     q_month_to_date_cost_usd := rc_month c, q_forecast_monthly_cost_usd := rc_forecast c\<rparr>"

definition with_sensitivity :: "bool \<times> bool \<Rightarrow> eval_request \<Rightarrow> eval_request" where
  "with_sensitivity sw q = q\<lparr>q_sensitive_data := fst sw, q_write_permission := snd sw\<rparr>"

definition enrich_governance_request ::
  "access_env \<Rightarrow> input_env \<Rightarrow> names \<Rightarrow> eval_request \<Rightarrow> (eval_request \<times> snapshot option \<times> signals) result" where
  "enrich_governance_request ac ie headers q =
     (let simulate = allow_client_governance_signals ac headers;
          (counted, snap, month) = with_quota simulate (read_quota_state (in_quota ie) (in_day ie) (in_now ie) (q_team q) (in_redis ie)) q;
          live = fetch_prometheus_signals (in_prom ie) (in_ask ie) (q_team q) (q_model q)
      in if simulate then Inr (counted, snap, live)
         else rbind (derive_request_cost (in_pricing ie) (q_model q) (q_input_tokens q) (q_output_tokens q) month) (\<lambda>cost.
           Inr (with_sensitivity (derive_sensitivity ac (in_classes ie) (q_team q) (q_namespace q) headers) (with_cost cost counted),
             snap, live)))"

definition quota_source :: "snapshot option \<Rightarrow> string" where
  "quota_source snap =
     (case snap of None \<Rightarrow> ''request'' | Some s \<Rightarrow> if sn_unavailable s then ''unavailable'' else sn_source s)"

definition build_telemetry_stage :: "(string \<times> string) list \<Rightarrow> eval_request \<Rightarrow> snapshot option \<Rightarrow> signals \<Rightarrow> telemetry result" where
  "build_telemetry_stage env q snap s =
     rbind (prometheus_block_reasons env s) (\<lambda>reasons. Inr
       \<lparr>tl_quota_source = quota_source snap, tl_requests_last_minute = q_requests_last_minute q, tl_tokens_today = q_tokens_today q,
        tl_prometheus_enabled = ps_enabled s, tl_gateway_p95_latency_ms = ps_p95 s, tl_gateway_error_rate = ps_error_rate s,
        tl_governance_block_rate = ps_block_rate s, tl_tenant_request_rate = ps_tenant_rate s,
        tl_prometheus_errors = ps_errors s, tl_block_reasons = reasons\<rparr>)"

record inputs_status =
  is_quota :: quota_status
  is_prometheus :: prom_status

definition governance_inputs_status :: "quota_env \<Rightarrow> string option \<Rightarrow> (string \<times> string) list \<Rightarrow> inputs_status result" where
  "governance_inputs_status qe setting prom =
     rbind (prometheus_status prom) (\<lambda>p. Inr \<lparr>is_quota = quota_state_status qe setting, is_prometheus = p\<rparr>)"

definition apply_prometheus_row_fields :: "pyobj \<Rightarrow> signals \<Rightarrow> pyobj" where
  "apply_prometheus_row_fields rw s = fold (\<lambda>(k, v). dict_set k v) (signals_to_row_fields s) rw"

subsection \<open>The server's word\<close>

text \<open>A request as a client may embellish it: the figures the server knows better.\<close>

record client_figures =
  cf_rpm :: int
  cf_tokens :: int
  cf_cost :: request_cost
  cf_sensitive :: bool
  cf_writes :: bool

definition embellished :: "client_figures \<Rightarrow> eval_request \<Rightarrow> eval_request" where
  "embellished f q = with_sensitivity (cf_sensitive f, cf_writes f) (with_cost (cf_cost f)
     (q\<lparr>q_requests_last_minute := cf_rpm f, q_tokens_today := cf_tokens f\<rparr>))"

lemma embellished_same [simp]:
  "q_team (embellished f q) = q_team q" "q_model (embellished f q) = q_model q" "q_namespace (embellished f q) = q_namespace q"
  "q_input_tokens (embellished f q) = q_input_tokens q" "q_output_tokens (embellished f q) = q_output_tokens q"
  by (simp_all add: embellished_def with_sensitivity_def with_cost_def)

definition counters_missing :: "snapshot option \<Rightarrow> bool" where
  "counters_missing snap \<longleftrightarrow> quota_source snap = ''unavailable''"

lemma read_source: "read_quota_state env d now team r = Some s \<Longrightarrow> \<not> sn_unavailable s \<Longrightarrow> sn_source s = ''redis''"
  by (auto simp: read_quota_state_def unavailable_snapshot_def rbind_Inr split: if_splits sum.splits prod.splits)

lemma embellished_counters:
  "(embellished f q)\<lparr>q_requests_last_minute := a, q_tokens_today := b\<rparr> =
     with_sensitivity (cf_sensitive f, cf_writes f) (with_cost (cf_cost f) (q\<lparr>q_requests_last_minute := a, q_tokens_today := b\<rparr>))"
  by (simp add: embellished_def with_sensitivity_def with_cost_def)

lemma with_quota_embellished:
  assumes "with_quota False taken q = (x, snap, month)" "\<And>s. taken = Some s \<Longrightarrow> \<not> sn_unavailable s \<Longrightarrow> sn_source s = ''redis''"
  shows "with_quota False taken (embellished f q) = (with_sensitivity (cf_sensitive f, cf_writes f) (with_cost (cf_cost f)
      (if counters_missing snap then x\<lparr>q_requests_last_minute := cf_rpm f, q_tokens_today := cf_tokens f\<rparr> else x)), snap, month)"
proof (cases taken)
  case None
  have "x = q" "snap = Some (unavailable_snapshot (q_team q))" "month = None" using assms(1) None by (auto simp: with_quota_def)
  then show ?thesis
    using embellished_same(1) [of f q]
    by (simp add: None with_quota_def counters_missing_def quota_source_def unavailable_snapshot_def embellished_def)
next
  case (Some s)
  show ?thesis
  proof (cases "sn_unavailable s")
    case True
    then have "x = q" "snap = Some s" "month = None" using assms(1) by (simp_all add: Some with_quota_def)
    with True show ?thesis by (simp add: Some with_quota_def counters_missing_def quota_source_def embellished_def)
  next
    case False
    then have "x = q\<lparr>q_requests_last_minute := sn_rpm s, q_tokens_today := sn_tokens s\<rparr>" "snap = Some s" "month = Some (sn_month_cost s)"
      using assms(1) by (simp_all add: Some with_quota_def)
    with False show ?thesis using assms(2) [OF Some False]
      by (simp add: Some with_quota_def counters_missing_def quota_source_def embellished_counters)
  qed
qed



text \<open>A deployment that verifies tokens, with Redis away.\<close>

definition demo_inputs :: input_env where
  "demo_inputs = \<lparr>in_quota = \<lparr>qe_url = ''redis'', qe_up = False\<rparr>, in_redis = (\<lambda>_. None), in_day = 0, in_now = 0,
     in_pricing = demo_pricing, in_classes = demo_classification, in_prom = [], in_ask = (\<lambda>_. Inr None)\<rparr>"

definition demo_figures :: client_figures where
  "demo_figures = \<lparr>cf_rpm = 0, cf_tokens = 0, cf_cost = \<lparr>rc_per_request = 0, rc_per_hour = 0, rc_month = 0, rc_forecast = 0\<rparr>,
     cf_sensitive = False, cf_writes = True\<rparr>"

lemma demo_no_signals: "\<not> allow_client_governance_signals (demo_access ''true'') demo_headers"
  by code_simp


end
