(* ===== verification/Approval_Binding.thy ===== *)
theory Approval_Binding
  imports Gov_Request Json
begin

text \<open>
  What an approval authorizes (\<open>approval_binding.py\<close>): the fields of a request that are bound, their
  normal form, and the digest over its canonical JSON text. SHA-256 is the parameter \<open>sha\<close>, from the
  text to the hexadecimal digest.
\<close>

subsection \<open>The payload\<close>

definition binding_fields :: "string list" where
  "binding_fields = [''subject'', ''groups'', ''policy_pack'', ''team'', ''tenant_id'', ''owner'', ''environment'',
     ''namespace'', ''action'', ''model'', ''provider'', ''input_tokens'', ''output_tokens'', ''cost_per_request_usd'',
     ''cost_per_hour_usd'', ''month_to_date_cost_usd'', ''forecast_monthly_cost_usd'', ''sensitive_data'',
     ''tool_access'', ''write_permission'', ''model_revision'', ''model_artifact_digest'', ''agent'', ''region'']"

definition binding_value :: "pyobj \<Rightarrow> string \<Rightarrow> pyval result" where
  "binding_value raw key =
     (let v = get_none raw key in
      if key = ''groups'' then
        rbind (py_iter (or_else v (PList []))) (\<lambda>items. Inr (PList (map PStr (sort (map py_str items)))))
      else if key = ''tenant_id'' then Inr (PStr (py_str (or_else (or_else v (get_none raw ''team'')) (PStr []))))
      else (case v of PNone \<Rightarrow> Inr (PStr []) | _ \<Rightarrow> Inr v))"

fun binding_entries :: "pyobj \<Rightarrow> string list \<Rightarrow> pyobj result" where
  "binding_entries raw [] = Inr []"
| "binding_entries raw (k # ks) =
     rbind (binding_value raw k) (\<lambda>v. rbind (binding_entries raw ks) (\<lambda>rest. Inr ((k, v) # rest)))"

definition binding_payload :: "pyobj \<Rightarrow> pyobj result" where
  "binding_payload raw = binding_entries raw binding_fields"

definition compute_request_digest :: "(string \<Rightarrow> string) \<Rightarrow> pyobj \<Rightarrow> string result" where
  "compute_request_digest sha raw = rbind (binding_payload raw) (\<lambda>p. Inr (sha (json_canonical (PDict p))))"

subsection \<open>The payload of a request\<close>

text \<open>What of a request the approval is bound to, in normal form: groups as a sorted list, the tenant
  resolved, telemetry and prompt text left out.\<close>

definition authorized :: "eval_request \<Rightarrow> eval_request" where
  "authorized q = q\<lparr>q_groups := sort (q_groups q), q_tenant_id := str_or (q_tenant_id q) (q_team q),
     q_requests_last_minute := 0, q_tokens_today := 0, q_prompt_text := []\<rparr>"

definition request_payload :: "eval_request \<Rightarrow> pyobj" where
  "request_payload q =
     [(''subject'', PStr (q_subject q)), (''groups'', PList (map PStr (sort (q_groups q)))),
      (''policy_pack'', PStr (q_policy_pack q)), (''team'', PStr (q_team q)),
      (''tenant_id'', PStr (str_or (q_tenant_id q) (q_team q))), (''owner'', PStr (q_owner q)),
      (''environment'', PStr (q_environment q)), (''namespace'', PStr (q_namespace q)),
      (''action'', PStr (q_action q)), (''model'', PStr (q_model q)), (''provider'', PStr (q_provider q)),
      (''input_tokens'', PInt (q_input_tokens q)), (''output_tokens'', PInt (q_output_tokens q)),
      (''cost_per_request_usd'', PFloat (q_cost_per_request_usd q)),
      (''cost_per_hour_usd'', PFloat (q_cost_per_hour_usd q)),
      (''month_to_date_cost_usd'', PFloat (q_month_to_date_cost_usd q)),
      (''forecast_monthly_cost_usd'', PFloat (q_forecast_monthly_cost_usd q)),
      (''sensitive_data'', PBool (q_sensitive_data q)), (''tool_access'', PBool (q_tool_access q)),
      (''write_permission'', PBool (q_write_permission q)), (''model_revision'', PStr (q_model_revision q)),
      (''model_artifact_digest'', PStr (q_model_artifact_digest q)), (''agent'', PStr (q_agent q)),
      (''region'', PStr (q_region q))]"

lemma dump_lookup:
  "get_none (request_dump q) ''subject'' = PStr (q_subject q)"
  "get_none (request_dump q) ''groups'' = PList (map PStr (q_groups q))"
  "get_none (request_dump q) ''policy_pack'' = PStr (q_policy_pack q)"
  "get_none (request_dump q) ''team'' = PStr (q_team q)"
  "get_none (request_dump q) ''tenant_id'' = PStr (q_tenant_id q)"
  "get_none (request_dump q) ''owner'' = PStr (q_owner q)"
  "get_none (request_dump q) ''environment'' = PStr (q_environment q)"
  "get_none (request_dump q) ''namespace'' = PStr (q_namespace q)"
  "get_none (request_dump q) ''action'' = PStr (q_action q)"
  "get_none (request_dump q) ''model'' = PStr (q_model q)"
  "get_none (request_dump q) ''provider'' = PStr (q_provider q)"
  "get_none (request_dump q) ''input_tokens'' = PInt (q_input_tokens q)"
  "get_none (request_dump q) ''output_tokens'' = PInt (q_output_tokens q)"
  "get_none (request_dump q) ''cost_per_request_usd'' = PFloat (q_cost_per_request_usd q)"
  "get_none (request_dump q) ''cost_per_hour_usd'' = PFloat (q_cost_per_hour_usd q)"
  "get_none (request_dump q) ''month_to_date_cost_usd'' = PFloat (q_month_to_date_cost_usd q)"
  "get_none (request_dump q) ''forecast_monthly_cost_usd'' = PFloat (q_forecast_monthly_cost_usd q)"
  "get_none (request_dump q) ''sensitive_data'' = PBool (q_sensitive_data q)"
  "get_none (request_dump q) ''tool_access'' = PBool (q_tool_access q)"
  "get_none (request_dump q) ''write_permission'' = PBool (q_write_permission q)"
  "get_none (request_dump q) ''model_revision'' = PStr (q_model_revision q)"
  "get_none (request_dump q) ''model_artifact_digest'' = PStr (q_model_artifact_digest q)"
  "get_none (request_dump q) ''agent'' = PStr (q_agent q)"
  "get_none (request_dump q) ''region'' = PStr (q_region q)"
  by (simp_all add: get_none_def get_default_def request_dump_def)

lemma binding_value_groups: "binding_value (request_dump q) ''groups'' = Inr (PList (map PStr (sort (q_groups q))))"
  by (cases "q_groups q") (simp_all add: binding_value_def dump_lookup or_else_def Let_def comp_def)

lemma binding_value_tenant:
  "binding_value (request_dump q) ''tenant_id'' = Inr (PStr (str_or (q_tenant_id q) (q_team q)))"
  by (simp add: binding_value_def dump_lookup or_else_def str_or_def Let_def)

lemma binding_value_plain:
  "k \<noteq> ''groups'' \<Longrightarrow> k \<noteq> ''tenant_id'' \<Longrightarrow>
    binding_value raw k = Inr (case get_none raw k of PNone \<Rightarrow> PStr [] | v \<Rightarrow> v)"
  by (simp add: binding_value_def Let_def split: pyval.split)

lemma binding_payload_dump: "binding_payload (request_dump q) = Inr (request_payload q)"
  by (simp add: binding_payload_def binding_fields_def binding_value_groups binding_value_tenant binding_value_plain
      dump_lookup request_payload_def)

lemma digest_dump: "compute_request_digest sha (request_dump q) = Inr (sha (json_canonical (PDict (request_payload q))))"
  by (simp add: compute_request_digest_def binding_payload_dump)

lemma keys_request_payload: "map fst (request_payload q) = binding_fields"
  by (simp add: request_payload_def binding_fields_def)

lemma distinct_binding_fields: "distinct binding_fields"
  by (simp add: binding_fields_def)

lemma map_PStr_eq: "map PStr xs = map PStr ys \<longleftrightarrow> xs = ys"
  by (simp add: inj_map_eq_map inj_def)

lemma payload_authorized: "request_payload q = request_payload q' \<longleftrightarrow> authorized q = authorized q'"
  unfolding request_payload_def authorized_def
  by (cases q; cases q') (auto simp: map_PStr_eq)

lemma by_keys: "distinct (map fst p) \<Longrightarrow> map (\<lambda>k. (k, the (map_of p k))) (map fst p) = p"
  by (auto simp: comp_def intro!: map_idI)

text \<open>Two objects with the same keys in the same order are equal when they are equal sorted.\<close>

lemma sort_key_unique:
  assumes "sort_key fst p = sort_key fst p'" "map fst p = map fst p'" "distinct (map fst p)"
  shows "p = p'"
proof -
  have "set p = set p'" using arg_cong [OF assms(1), of set] by simp
  then have "map_of p = map_of p'" using assms(2,3) by (metis map_of_inject_set)
  then show ?thesis using by_keys [OF assms(3)] by_keys [of p'] assms(2,3) by simp
qed

lemma canon_payload: "canon (PDict (request_payload q)) = PDict (sort_key fst (request_payload q))"
  by (simp add: request_payload_def comp_def del: sort_key_simps)

lemma floats_payload:
  "set (floats (canon (PDict (request_payload q)))) = {q_cost_per_request_usd q, q_cost_per_hour_usd q,
     q_month_to_date_cost_usd q, q_forecast_monthly_cost_usd q}"
proof -
  have "set (floats (canon (PDict p))) = (\<Union>(k, v) \<in> set p. set (floats v))" if "canon (PDict p) = PDict (sort_key fst p)" for p
    by (simp only: that) (auto simp: case_prod_beta)
  from this [OF canon_payload] show ?thesis by (simp add: request_payload_def insert_commute comp_def)
qed

text \<open>C9: the digest an approval is bound to determines everything the approval authorizes: two requests have the same
  digest exactly when they agree on all bound fields, up to the order of the groups and with the tenant
  defaulting to the team. Only live telemetry and the prompt text are free. (SHA-256 must not collide on
  the two texts, and \<open>repr\<close> must tell the costs of the two requests apart.)\<close>

theorem request_digest_binds:
  assumes "sha (json_canonical (PDict (request_payload q))) = sha (json_canonical (PDict (request_payload q'))) \<Longrightarrow>
      json_canonical (PDict (request_payload q)) = json_canonical (PDict (request_payload q'))"
    and "inj_on float_repr ({q_cost_per_request_usd q, q_cost_per_hour_usd q, q_month_to_date_cost_usd q,
      q_forecast_monthly_cost_usd q} \<union> {q_cost_per_request_usd q', q_cost_per_hour_usd q',
      q_month_to_date_cost_usd q', q_forecast_monthly_cost_usd q'})"
  shows "compute_request_digest sha (request_dump q) = compute_request_digest sha (request_dump q') \<longleftrightarrow>
    authorized q = authorized q'"
proof
  let ?p = "request_payload q" and ?p' = "request_payload q'"
  assume "compute_request_digest sha (request_dump q) = compute_request_digest sha (request_dump q')"
  then have "json_canonical (PDict ?p) = json_canonical (PDict ?p')"
    using assms(1) unfolding digest_dump by simp
  then have "canon (PDict ?p) = canon (PDict ?p')"
    using assms(2) unfolding floats_payload [symmetric] by (rule json_canonical_inj)
  then have "sort_key fst ?p = sort_key fst ?p'" by (simp only: canon_payload pyval.inject)
  then have "?p = ?p'"
    by (rule sort_key_unique) (simp_all add: keys_request_payload distinct_binding_fields)
  then show "authorized q = authorized q'" by (simp add: payload_authorized)
next
  assume "authorized q = authorized q'"
  then show "compute_request_digest sha (request_dump q) = compute_request_digest sha (request_dump q')"
    by (simp add: digest_dump flip: payload_authorized)
qed

definition demo_binding :: eval_request where
  "demo_binding = default_request\<lparr>q_cost_per_request_usd := 0, q_cost_per_hour_usd := 0,
     q_month_to_date_cost_usd := 0, q_forecast_monthly_cost_usd := 0\<rparr>"

theorem request_digest_binds_witness:
  "compute_request_digest id (request_dump demo_binding) =
     compute_request_digest id (request_dump (demo_binding\<lparr>q_prompt_text := ''x''\<rparr>)) \<and>
   compute_request_digest id (request_dump demo_binding) \<noteq>
     compute_request_digest id (request_dump (demo_binding\<lparr>q_model := ''m''\<rparr>))"
proof -
  have b: "compute_request_digest id (request_dump demo_binding) = compute_request_digest id (request_dump q') \<longleftrightarrow>
      authorized demo_binding = authorized q'"
    if "q_cost_per_request_usd q' = 0" "q_cost_per_hour_usd q' = 0" "q_month_to_date_cost_usd q' = 0"
      "q_forecast_monthly_cost_usd q' = 0" for q'
    by (rule request_digest_binds) (simp_all add: that demo_binding_def)
  have demo: "q_cost_per_request_usd demo_binding = 0" "q_cost_per_hour_usd demo_binding = 0"
    "q_month_to_date_cost_usd demo_binding = 0" "q_forecast_monthly_cost_usd demo_binding = 0"
    by (simp_all add: demo_binding_def)
  have "authorized demo_binding = authorized (demo_binding\<lparr>q_prompt_text := ''x''\<rparr>)"
    "authorized demo_binding \<noteq> authorized (demo_binding\<lparr>q_model := ''m''\<rparr>)"
    by (simp_all add: authorized_def demo_binding_def default_request_def)
  then show ?thesis
    using b [of "demo_binding\<lparr>q_prompt_text := ''x''\<rparr>"] b [of "demo_binding\<lparr>q_model := ''m''\<rparr>"] by (simp add: demo)
qed

end
