(* ===== verification/Approval_Store.thy ===== *)
theory Approval_Store
  imports Store_Tables
begin

text \<open>
  Decisions, approvals and the audit trail of \<open>DecisionStore\<close> (\<open>decision_store.py\<close>): every method is
  an operation on the database. The clock readings of a method (\<open>_utcnow()\<close>) and the ids it draws
  (\<open>uuid.uuid4()\<close>) are arguments, one per reading, so that time may pass within a method.
\<close>

subsection \<open>Writing\<close>

text \<open>The keyword arguments of \<open>create_decision\<close>.\<close>

record new_decision =
  nd_final_verdict :: string
  nd_request_id :: string
  nd_policy_bundle_id :: string
  nd_policy_digest :: string
  nd_team :: string
  nd_tenant_id :: string
  nd_environment :: string
  nd_model :: string
  nd_subject :: string
  nd_reasons :: "string list"
  nd_stages :: pyval
  nd_request :: pyobj
  nd_request_digest :: string
  nd_agent_digest :: string
  nd_tools_digest :: string

definition decision_row :: "string \<Rightarrow> instant \<Rightarrow> new_decision \<Rightarrow> dec_row" where
  "decision_row did now a =
     \<lparr>d_id = did, d_request_id = nd_request_id a, d_final_verdict = nd_final_verdict a,
      d_policy_bundle_id = nd_policy_bundle_id a, d_policy_digest = nd_policy_digest a,
      d_team = nd_team a,
      d_tenant_id = Some (py_strip (str_or (nd_tenant_id a) (nd_team a))),
      d_environment = nd_environment a, d_model = nd_model a, d_subject = nd_subject a,
      d_reasons = nd_reasons a, d_stages = nd_stages a, d_request = nd_request a,
      d_request_digest = Some (nd_request_digest a), d_agent_digest = Some (nd_agent_digest a),
      d_tools_digest = Some (nd_tools_digest a), d_created_at = isoformat now\<rparr>"

definition create_decision :: "string \<Rightarrow> instant \<Rightarrow> new_decision \<Rightarrow> (db, string) opn" where
  "create_decision did now a = with_db (\<lambda>s.
     case sql_insert d_id (decision_row did now a) (decisions s) of
       None \<Rightarrow> (Inl StoreUnavailable, s)
     | Some t \<Rightarrow> (Inr did, s\<lparr>decisions := t\<rparr>))"

text \<open>
  \<open>create_approval\<close>: the time to live is added before the database is asked, and a sum that is no
  \<open>datetime\<close> raises \<open>OverflowError\<close>. The foreign key makes an unknown decision an integrity error.
\<close>

definition approval_row :: "string \<Rightarrow> string \<Rightarrow> instant \<Rightarrow> instant \<Rightarrow> appr_row" where
  "approval_row aid did now expires =
     \<lparr>a_id = aid, a_decision_id = did, a_status = ''pending'', a_reviewer = None, a_comment = None,
      a_created_at = isoformat now, a_expires_at = isoformat expires, a_resolved_at = None,
      a_used_at = None\<rparr>"

definition create_approval :: "string \<Rightarrow> instant \<Rightarrow> string \<Rightarrow> int \<Rightarrow> (db, string) opn" where
  "create_approval aid now did ttl =
     (case add_seconds now ttl of
        None \<Rightarrow> throw OverflowError
      | Some expires \<Rightarrow> with_db (\<lambda>s.
          if did \<notin> set (map d_id (decisions s)) then (Inl StoreUnavailable, s)
          else case sql_insert a_id (approval_row aid did now expires) (approvals s) of
            None \<Rightarrow> (Inl StoreUnavailable, s)
          | Some t \<Rightarrow> (Inr aid, s\<lparr>approvals := t\<rparr>)))"

definition append_audit_meta ::
  "string \<Rightarrow> instant \<Rightarrow> string \<Rightarrow> string \<Rightarrow> string \<Rightarrow> pyobj \<Rightarrow> (db, string) opn" where
  "append_audit_meta eid now did etype actor payload = with_db (\<lambda>s.
     if did \<notin> set (map d_id (decisions s)) then (Inl StoreUnavailable, s)
     else case sql_insert e_id \<lparr>e_id = eid, e_decision_id = did, e_type = etype, e_actor = actor,
                               e_payload = payload, e_created_at = isoformat now\<rparr> (audit_meta s) of
       None \<Rightarrow> (Inl StoreUnavailable, s)
     | Some t \<Rightarrow> (Inr eid, s\<lparr>audit_meta := t\<rparr>))"

subsection \<open>Consuming and expiring\<close>

definition consumable :: "appr_row \<Rightarrow> bool" where
  "consumable r \<longleftrightarrow> a_status r = ''approved'' \<and> (a_used_at r = None \<or> a_used_at r = Some [])"

definition mark_consumed :: "instant \<Rightarrow> appr_row \<Rightarrow> appr_row" where
  "mark_consumed now r = r\<lparr>a_status := ''consumed'', a_used_at := Some (isoformat now)\<rparr>"

text \<open>\<open>consume_approval\<close>: one conditional UPDATE; the row count tells whether it applied.\<close>

definition consume_approval :: "instant \<Rightarrow> string \<Rightarrow> (db, bool) opn" where
  "consume_approval now aid = with_db (\<lambda>s.
     (Inr (sql_rowcount (\<lambda>r. a_id r = aid \<and> consumable r) (approvals s) = 1),
      s\<lparr>approvals := sql_update (\<lambda>r. a_id r = aid \<and> consumable r) (mark_consumed now) (approvals s)\<rparr>))"

definition mark_expired :: "instant \<Rightarrow> appr_row \<Rightarrow> appr_row" where
  "mark_expired now r = r\<lparr>a_status := ''expired'', a_resolved_at := Some (isoformat now)\<rparr>"

text \<open>\<open>_expire_stale\<close>: every pending row whose expiry text is at most the text of the clock.\<close>

definition stale :: "instant \<Rightarrow> appr_row \<Rightarrow> bool" where
  "stale now r \<longleftrightarrow> a_status r = ''pending'' \<and> a_expires_at r \<le> isoformat now"

definition expire_stale :: "instant \<Rightarrow> db \<Rightarrow> nat \<times> db" where
  "expire_stale now s =
     (sql_rowcount (stale now) (approvals s),
      s\<lparr>approvals := sql_update (stale now) (mark_expired now) (approvals s)\<rparr>)"

definition expire_stale_approvals :: "instant \<Rightarrow> (db, nat) opn" where
  "expire_stale_approvals now = with_db (\<lambda>s. let (n, s') = expire_stale now s in (Inr n, s'))"

text \<open>
  \<open>_expire_if_needed\<close>: one row, comparing the parsed expiry with the clock (first reading); the
  second reading is the time written.
\<close>

definition expire_if_needed :: "instant \<Rightarrow> instant \<Rightarrow> string \<Rightarrow> db \<Rightarrow> db" where
  "expire_if_needed t1 t2 aid s =
     (case sql_fetch a_id aid (approvals s) of
        None \<Rightarrow> s
      | Some r \<Rightarrow>
          if a_status r \<noteq> ''pending'' \<or> a_expires_at r = [] then s
          else if t1 < parse_iso (a_expires_at r) then s
          else s\<lparr>approvals := sql_update (\<lambda>r. a_id r = aid \<and> a_status r = ''pending'')
                                (mark_expired t2) (approvals s)\<rparr>)"

subsection \<open>Reading\<close>

definition list_recent_decisions :: "int \<Rightarrow> string option \<Rightarrow> (db, decision_record list) opn" where
  "list_recent_decisions limit tenant = with_db (\<lambda>s.
     (Inr (map decision_from_row (limit_offset (clamp 1 5000 limit) 0
        (order_desc d_created_at
          (case tenant of None \<Rightarrow> decisions s
           | Some t \<Rightarrow> filter (\<lambda>r. d_tenant_id r = Some t) (decisions s))))), s))"

definition get_decision :: "string \<Rightarrow> string option \<Rightarrow> (db, decision_record option) opn" where
  "get_decision did tenant = with_db (\<lambda>s.
     case sql_fetch d_id did (decisions s) of
       None \<Rightarrow> (Inr None, s)
     | Some row \<Rightarrow>
         (let rec = decision_from_row row
          in (Inr (if tenant \<noteq> None \<and> tenant \<noteq> Some (dr_tenant_id rec) then None else Some rec), s)))"

text \<open>The tenant that owns an approval: \<open>tenant_id or team\<close> of its decision.\<close>

definition owner_tenant :: "dec_row \<Rightarrow> string" where
  "owner_tenant d = str_or (opt_str (d_tenant_id d)) (d_team d)"

definition get_approval ::
  "instant \<Rightarrow> instant \<Rightarrow> string \<Rightarrow> string option \<Rightarrow> (db, appr_row option) opn" where
  "get_approval t1 t2 aid tenant = with_db (\<lambda>s0.
     let s = expire_if_needed t1 t2 aid s0 in
     case sql_fetch a_id aid (approvals s) of
       None \<Rightarrow> (Inr None, s)
     | Some a \<Rightarrow>
         (case tenant of
            None \<Rightarrow> (Inr (Some a), s)
          | Some tid \<Rightarrow>
              (case sql_fetch d_id (a_decision_id a) (decisions s) of
                 None \<Rightarrow> (Inr None, s)
               | Some d \<Rightarrow> (Inr (if owner_tenant d \<noteq> tid then None else Some a), s))))"

definition in_listing :: "string \<Rightarrow> string option \<Rightarrow> db \<Rightarrow> appr_row \<Rightarrow> bool" where
  "in_listing status tenant s a \<longleftrightarrow> a_status a = status \<and>
     (case tenant of None \<Rightarrow> True
      | Some tid \<Rightarrow> (case sql_fetch d_id (a_decision_id a) (decisions s) of
                      None \<Rightarrow> False | Some d \<Rightarrow> d_tenant_id d = Some tid))"

definition list_approvals ::
  "instant \<Rightarrow> string \<Rightarrow> int \<Rightarrow> int \<Rightarrow> string option \<Rightarrow> (db, appr_row page) opn" where
  "list_approvals now status limit offset tenant = with_db (\<lambda>s0.
     let s = snd (expire_stale now s0)
     in (Inr (make_page (order_asc a_created_at (filter (in_listing status tenant s) (approvals s)))
               (clamp 1 500 limit) (max 0 offset)), s))"

definition count_approvals :: "instant \<Rightarrow> string \<Rightarrow> (db, int) opn" where
  "count_approvals now status = with_db (\<lambda>s0.
     let s = snd (expire_stale now s0)
     in (Inr (int (sql_rowcount (\<lambda>a. a_status a = status) (approvals s))), s))"

subsection \<open>Resolving\<close>

text \<open>
  The requester of a decision: its subject, else the \<open>subject\<close> or the \<open>owner\<close> of the stored request.
\<close>

definition requester_of :: "dec_row option \<Rightarrow> string" where
  "requester_of d =
     (let direct = py_strip (case d of None \<Rightarrow> [] | Some r \<Rightarrow> d_subject r);
          req = (case d of None \<Rightarrow> [] | Some r \<Rightarrow> d_request r)
      in if direct \<noteq> [] then direct
         else py_strip (py_str (or_else (or_else (get_none req ''subject'') (get_none req ''owner''))
                (PStr []))))"

definition self_approval :: "string \<Rightarrow> string \<Rightarrow> bool" where
  "self_approval requester reviewer \<longleftrightarrow>
     requester \<noteq> [] \<and> py_lower (py_strip reviewer) = py_lower requester"

definition mark_resolved :: "string \<Rightarrow> string \<Rightarrow> string \<Rightarrow> instant \<Rightarrow> appr_row \<Rightarrow> appr_row" where
  "mark_resolved status reviewer comment now r =
     r\<lparr>a_status := status, a_reviewer := Some reviewer, a_comment := Some comment,
       a_resolved_at := Some (isoformat now)\<rparr>"

text \<open>
  The checks of \<open>resolve_approval\<close> after the expiry step, in the code's order: the joined row
  (\<open>JOIN\<close> with a tenant, \<open>LEFT JOIN\<close> without), the tenant, the status, the requester. \<open>None\<close>
  means the resolution may go on.
\<close>

definition resolve_guard ::
  "string \<Rightarrow> string \<Rightarrow> string option \<Rightarrow> bool \<Rightarrow> db \<Rightarrow> exn option" where
  "resolve_guard aid reviewer tenant forbid_self s =
     (case sql_fetch a_id aid (approvals s) of
        None \<Rightarrow> Some (KeyError (''approval not found: '' @ aid))
      | Some a \<Rightarrow>
          (let d = sql_fetch d_id (a_decision_id a) (decisions s) in
           if tenant \<noteq> None \<and> d = None then Some (KeyError (''approval not found: '' @ aid))
           else if tenant \<noteq> None \<and> tenant \<noteq> Some (case d of None \<Rightarrow> [] | Some r \<Rightarrow> owner_tenant r)
             then Some (KeyError (''approval not found: '' @ aid))
           else if a_status a = ''expired'' then Some (ValueError ''approval expired'')
           else if a_status a \<noteq> ''pending''
             then Some (ValueError (''approval is not pending (status='' @ a_status a @ '')''))
           else if forbid_self \<and> self_approval (requester_of d) reviewer
             then Some (PermissionError
               ''self-approval is forbidden; approver must differ from requester'')
           else None))"

text \<open>
  The second half of \<open>resolve_approval\<close>: the UPDATE conditional on \<open>status = 'pending'\<close>, the check of
  its row count and the read back. It is an operation of its own because on PostgreSQL another
  session may write between the guard's SELECT and this UPDATE.
\<close>

definition pending_row :: "string \<Rightarrow> appr_row \<Rightarrow> bool" where
  "pending_row aid r \<longleftrightarrow> a_id r = aid \<and> a_status r = ''pending''"

definition resolve_commit ::
  "instant \<Rightarrow> string \<Rightarrow> string \<Rightarrow> string \<Rightarrow> string \<Rightarrow> (db, appr_row) opn" where
  "resolve_commit t3 aid status reviewer comment s =
     (let s' = s\<lparr>approvals := sql_update (pending_row aid)
                   (mark_resolved status reviewer comment t3) (approvals s)\<rparr>
      in if sql_rowcount (pending_row aid) (approvals s) \<noteq> 1
         then (Inl (ValueError
                ''approval is not pending (concurrent resolve or status=pending)''), s')
         else case sql_fetch a_id aid (approvals s') of
           None \<Rightarrow> (Inl (RuntimeError (''approval missing after resolve: '' @ aid)), s')
         | Some a \<Rightarrow> (Inr a, s'))"

definition resolve_approval ::
  "instant \<Rightarrow> instant \<Rightarrow> instant \<Rightarrow> string \<Rightarrow> string \<Rightarrow> string \<Rightarrow> string \<Rightarrow> string option \<Rightarrow> bool
     \<Rightarrow> (db, appr_row) opn" where
  "resolve_approval t1 t2 t3 aid status reviewer comment tenant forbid_self =
     (if status \<notin> {''approved'', ''rejected''}
      then throw (ValueError (''status must be '' @ str_repr ''approved'' @ '' or '' @
                              str_repr ''rejected''))
      else with_db (\<lambda>s0.
        let s = expire_if_needed t1 t2 aid s0 in
        case resolve_guard aid reviewer tenant forbid_self s of
          Some e \<Rightarrow> (Inl e, s)
        | None \<Rightarrow> resolve_commit t3 aid status reviewer comment s))"

subsection \<open>The UPDATEs keep the primary key\<close>

interpretation consumed: row_update a_id "mark_consumed now" for now
  by unfold_locales (simp add: mark_consumed_def)

interpretation expired: row_update a_id "mark_expired now" for now
  by unfold_locales (simp add: mark_expired_def)

interpretation resolved: row_update a_id "mark_resolved st rv cm now" for st rv cm now
  by unfold_locales (simp add: mark_resolved_def)

lemmas approval_updates =
  consumed.fetch_update expired.fetch_update resolved.fetch_update
  consumed.keys_update expired.keys_update resolved.keys_update

lemma mark_simps [simp]:
  "a_id (mark_consumed t r) = a_id r" "a_decision_id (mark_consumed t r) = a_decision_id r"
  "a_status (mark_consumed t r) = ''consumed''" "a_used_at (mark_consumed t r) = Some (isoformat t)"
  "a_id (mark_expired t r) = a_id r" "a_decision_id (mark_expired t r) = a_decision_id r"
  "a_status (mark_expired t r) = ''expired''" "a_used_at (mark_expired t r) = a_used_at r"
  "a_id (mark_resolved st rv cm t r) = a_id r"
  "a_decision_id (mark_resolved st rv cm t r) = a_decision_id r"
  "a_status (mark_resolved st rv cm t r) = st" "a_used_at (mark_resolved st rv cm t r) = a_used_at r"
  by (simp_all add: mark_consumed_def mark_expired_def mark_resolved_def)

subsection \<open>What changes and what does not\<close>

lemma expire_if_needed_frame [simp]:
  "db_up (expire_if_needed t1 t2 aid s) = db_up s"
  "decisions (expire_if_needed t1 t2 aid s) = decisions s"
  "audit_meta (expire_if_needed t1 t2 aid s) = audit_meta s"
  "remediation_proposals (expire_if_needed t1 t2 aid s) = remediation_proposals s"
  "capability_contracts (expire_if_needed t1 t2 aid s) = capability_contracts s"
  "policy_bundles (expire_if_needed t1 t2 aid s) = policy_bundles s"
  "policy_bundle_impacts (expire_if_needed t1 t2 aid s) = policy_bundle_impacts s"
  by (simp_all add: expire_if_needed_def split: option.splits)

definition due :: "instant \<Rightarrow> appr_row \<Rightarrow> bool" where
  "due now r \<longleftrightarrow> a_status r = ''pending'' \<and> a_expires_at r \<noteq> [] \<and> parse_iso (a_expires_at r) \<le> now"

lemma expire_if_needed_due:
  "expire_if_needed t1 t2 aid s =
     (case sql_fetch a_id aid (approvals s) of
        None \<Rightarrow> s
      | Some r \<Rightarrow> if due t1 r then s\<lparr>approvals := sql_update (pending_row aid) (mark_expired t2) (approvals s)\<rparr>
                  else s)"
  unfolding expire_if_needed_def due_def pending_row_def
  by (simp add: not_less split: option.split)

lemma expire_if_needed_fetch:
  "sql_fetch a_id k (approvals (expire_if_needed t1 t2 aid s)) =
     map_option (\<lambda>r. if k = aid \<and> due t1 r then mark_expired t2 r else r)
       (sql_fetch a_id k (approvals s))"
proof (cases "sql_fetch a_id k (approvals s)")
  case None
  then show ?thesis
    by (simp add: expire_if_needed_due expired.fetch_update split: option.split)
next
  case (Some r)
  then have k: "a_id r = k" using sql_fetch_Some_in by metis
  show ?thesis
  proof (cases "k = aid")
    case True
    with Some k show ?thesis
      by (simp add: expire_if_needed_due expired.fetch_update pending_row_def due_def)
  next
    case False
    with Some k show ?thesis
      by (simp add: expire_if_needed_due expired.fetch_update pending_row_def split: option.split)
  qed
qed

text \<open>A row's time stamps are texts \<open>isoformat\<close> writes: what every INSERT of the store stores.\<close>

definition stamped :: "db \<Rightarrow> bool" where
  "stamped s \<longleftrightarrow> (\<forall>r\<in>set (approvals s). \<exists>e<instant_limit. a_expires_at r = isoformat e)"

lemma isoformat_nonempty: "isoformat t \<noteq> []"
  by (simp add: isoformat_def fraction_def)

lemma due_iff_stale:
  assumes "a_expires_at r = isoformat e" "e < instant_limit" "now < instant_limit"
  shows "due now r \<longleftrightarrow> stale now r"
  using assms by (simp add: due_def stale_def parse_isoformat isoformat_le_iff isoformat_nonempty)

end
