(* ===== verification/Retention.thy ===== *)
theory Retention
  imports Approval_Store
begin

text \<open>
  Retention: \<open>DecisionStore.purge_retained\<close> expires stale approvals and deletes the oldest decisions
  created before a cutoff, at most \<open>limit\<close> of them, together with their approvals and audit
  events, in one transaction.
\<close>

record purge_result =
  pr_retention_days :: int
  pr_cutoff :: string
  pr_dry_run :: bool
  pr_expired :: nat
  pr_deleted_audit :: nat
  pr_deleted_approvals :: nat
  pr_deleted_decisions :: nat

text \<open>\<open>SELECT decision_id FROM decisions WHERE created_at < ? ORDER BY created_at ASC LIMIT ?\<close>.\<close>

definition purge_rows :: "string \<Rightarrow> int \<Rightarrow> db \<Rightarrow> dec_row list" where
  "purge_rows cutoff limit s =
     limit_offset limit 0 (order_asc d_created_at (filter (\<lambda>r. d_created_at r < cutoff) (decisions s)))"

definition delete_decisions :: "string list \<Rightarrow> db \<Rightarrow> db" where
  "delete_decisions ids s =
     s\<lparr>audit_meta := sql_delete (\<lambda>e. e_decision_id e \<in> set ids) (audit_meta s),
       approvals := sql_delete (\<lambda>a. a_decision_id a \<in> set ids) (approvals s),
       decisions := sql_delete (\<lambda>d. d_id d \<in> set ids) (decisions s)\<rparr>"

definition purge_retained :: "instant \<Rightarrow> instant \<Rightarrow> int \<Rightarrow> bool \<Rightarrow> int \<Rightarrow> (db, purge_result) opn" where
  "purge_retained t1 t2 days dry_run limit =
     (if limit < 1 \<or> limit > 50000
      then throw (ValueError ''limit must be between 1 and 50000'')
      else case sub_days t1 days of
        None \<Rightarrow> throw OverflowError
      | Some cut_at \<Rightarrow> rollback_on_error (with_db (\<lambda>s0.
          let (expired, s) = expire_stale t2 s0;
              cutoff = isoformat cut_at;
              none = \<lparr>pr_retention_days = days, pr_cutoff = cutoff, pr_dry_run = dry_run,
                      pr_expired = expired, pr_deleted_audit = 0, pr_deleted_approvals = 0,
                      pr_deleted_decisions = 0\<rparr>;
              ids = map d_id (purge_rows cutoff limit s)
          in if days \<le> 0 then (Inr none, s)
             else if ids = [] then (Inr none, s)
             else (Inr (none\<lparr>
                    pr_deleted_audit := sql_rowcount (\<lambda>e. e_decision_id e \<in> set ids) (audit_meta s),
                    pr_deleted_approvals := sql_rowcount (\<lambda>a. a_decision_id a \<in> set ids) (approvals s),
                    pr_deleted_decisions := length ids\<rparr>),
                   if dry_run then s else delete_decisions ids s))))"

subsection \<open>Facts\<close>

lemma purge_Inr:
  assumes "purge_retained t1 t2 days dry_run limit s0 = (Inr res, s')"
  obtains cut_at where "sub_days t1 days = Some cut_at" "db_up s0" "1 \<le> limit" "limit \<le> 50000"
    "let s = snd (expire_stale t2 s0); rows = purge_rows (isoformat cut_at) limit s in
      s' = (if days \<le> 0 \<or> dry_run then s else delete_decisions (map d_id rows) s) \<and>
      pr_deleted_decisions res = (if days \<le> 0 then 0 else length rows) \<and>
      pr_expired res = fst (expire_stale t2 s0) \<and> pr_cutoff res = isoformat cut_at"
proof -
  obtain e s where e: "expire_stale t2 s0 = (e, s)" by (cases "expire_stale t2 s0")
  have nil: "delete_decisions [] s = s"
    by (simp add: delete_decisions_def sql_delete_def)
  from assms obtain cut_at where cut_at: "sub_days t1 days = Some cut_at" "db_up s0" "1 \<le> limit" "limit \<le> 50000"
    by (auto simp: purge_retained_def throw_def split: if_splits option.splits)
  then show thesis
    using assms e nil
    by (intro that [OF cut_at])
      (auto simp: purge_retained_def throw_def Let_def split: if_splits option.splits)
qed

lemma purge_error_unchanged:
  "purge_retained t1 t2 days dry_run limit s0 = (Inl e, s') \<Longrightarrow> s' = s0"
  by (auto simp: purge_retained_def throw_def split: if_splits option.splits)

lemma purge_rows_old: "r \<in> set (purge_rows cutoff limit s) \<Longrightarrow> r \<in> set (decisions s) \<and> d_created_at r < cutoff"
  using set_limit_offset [of limit 0 "order_asc d_created_at (filter (\<lambda>r. d_created_at r < cutoff) (decisions s))"]
  by (auto simp: purge_rows_def)

lemma length_purge_rows: "length (purge_rows cutoff limit s) \<le> nat limit"
  by (simp add: purge_rows_def limit_offset_def)

text \<open>The rows picked are the oldest: an old row left out is no older than a row picked.\<close>

lemma purge_rows_oldest:
  assumes "r \<in> set (decisions s)" "d_created_at r < cutoff" "r \<notin> set (purge_rows cutoff limit s)"
    "r' \<in> set (purge_rows cutoff limit s)"
  shows "d_created_at r' \<le> d_created_at r \<and> length (purge_rows cutoff limit s) = nat limit"
proof -
  let ?l = "order_asc d_created_at (filter (\<lambda>r. d_created_at r < cutoff) (decisions s))"
  have rows: "purge_rows cutoff limit s = take (nat limit) ?l"
    by (simp add: purge_rows_def limit_offset_def)
  have "r \<in> set ?l" using assms by simp
  then have drop: "r \<in> set (drop (nat limit) ?l)"
    using assms(3) unfolding rows by (metis append_take_drop_id Un_iff set_append)
  have "sorted (map d_created_at (take (nat limit) ?l @ drop (nat limit) ?l))"
    using sorted_order_asc by simp
  then have "d_created_at r' \<le> d_created_at r"
    using assms(4) drop unfolding rows map_append sorted_append by auto
  moreover have "nat limit < length ?l"
    using drop by (metis drop_all empty_iff list.set(1) not_le)
  ultimately show ?thesis by (simp add: rows)
qed

lemma refs_ok_iff:
  "refs_ok s \<longleftrightarrow> (\<forall>a\<in>set (approvals s). a_decision_id a \<in> d_id ` set (decisions s)) \<and>
     (\<forall>e\<in>set (audit_meta s). e_decision_id e \<in> d_id ` set (decisions s))"
  by (simp add: refs_ok_def image_subset_iff)

lemma refs_ok_delete:
  assumes "refs_ok s" shows "refs_ok (delete_decisions ids s)"
proof -
  have kept: "d_id ` set (decisions (delete_decisions ids s)) = d_id ` set (decisions s) - set ids"
    by (auto simp: delete_decisions_def)
  show ?thesis
    using assms unfolding refs_ok_iff kept by (simp add: delete_decisions_def)
qed

lemma db_ok_delete: "db_ok s \<Longrightarrow> db_ok (delete_decisions ids s)"
  using refs_ok_delete [of s ids]
  by (simp add: db_ok_def keys_ok_def unique_ok_def delete_decisions_def distinct_sql_delete)

lemma db_ok_approvals_mapped:
  assumes "db_ok s" "map a_id t = map a_id (approvals s)" "map a_decision_id t = map a_decision_id (approvals s)"
  shows "db_ok (s\<lparr>approvals := t\<rparr>)"
proof -
  have "a_decision_id ` set t = a_decision_id ` set (approvals s)"
    using assms(3) by (metis set_map)
  with assms show ?thesis by (simp add: db_ok_def keys_ok_def unique_ok_def refs_ok_def)
qed

lemma db_ok_approvals_update:
  assumes "db_ok s" "\<And>r. a_id (f r) = a_id r" "\<And>r. a_decision_id (f r) = a_decision_id r"
  shows "db_ok (s\<lparr>approvals := sql_update p f (approvals s)\<rparr>)"
  using assms(1) by (rule db_ok_approvals_mapped) (auto simp: sql_update_def assms(2,3))

lemma db_ok_expire_stale: "db_ok s \<Longrightarrow> db_ok (snd (expire_stale now s))"
  by (simp add: expire_stale_def db_ok_approvals_update)

lemma db_ok_purge: "keeps db_ok (purge_retained t1 t2 days dry_run limit)"
proof (rule keepsI)
  fix s0 assume ok: "db_ok s0"
  obtain r s' where m: "purge_retained t1 t2 days dry_run limit s0 = (r, s')" by fastforce
  show "db_ok (snd (purge_retained t1 t2 days dry_run limit s0))"
  proof (cases r)
    case (Inl e)
    with m have "s' = s0" by (blast intro: purge_error_unchanged)
    with m ok show ?thesis by simp
  next
    case (Inr res)
    with m show ?thesis using ok db_ok_delete db_ok_expire_stale
      by (auto elim!: purge_Inr simp: Let_def)
  qed
qed

end
