(* ===== verification/Approval_Lifecycle.thy ===== *)
theory Approval_Lifecycle
  imports Retention
begin

text \<open>
  The lifecycle of an approval over the operations of the store: pending, then approved, rejected
  or expired; approved, then consumed. The labelled step relation \<open>store_step\<close> has one rule per store
  method (its outcome may be an exception) and one for the second half of a resolution, which
  another session may run late; its traces are the interleavings of all sessions.
\<close>

subsection \<open>The automaton\<close>

definition appr_step :: "string \<Rightarrow> string \<Rightarrow> bool" where
  "appr_step a b \<longleftrightarrow> a = ''pending'' \<and> b \<in> {''approved'', ''rejected'', ''expired''} \<or>
     a = ''approved'' \<and> b = ''consumed''"

definition appr_final :: "string set" where
  "appr_final = {''rejected'', ''expired'', ''consumed''}"

interpretation appr: lifecycle a_id a_status appr_step "\<lambda>r. a_status r = ''pending''" appr_final
  by unfold_locales (auto simp: appr_step_def appr_final_def)

subsection \<open>Every operation stays within the automaton\<close>

lemma evolves_expire_if_needed: "appr.evolves (approvals s) (approvals (expire_if_needed t1 t2 aid s))"
  by (auto simp: expire_if_needed_due pending_row_def appr_step_def
      intro!: appr.evolves_update split: option.split)

lemma evolves_expire_stale: "appr.evolves (approvals s) (approvals (snd (expire_stale now s)))"
  by (auto simp: expire_stale_def stale_def appr_step_def intro!: appr.evolves_update)

lemma evolves_consume: "appr.evolves (approvals s) (approvals (snd (consume_approval now aid s)))"
  by (auto simp: consume_approval_def with_db_def consumable_def appr_step_def
      intro!: appr.evolves_update)

lemma evolves_resolve_commit:
  assumes "status \<in> {''approved'', ''rejected''}"
  shows "appr.evolves (approvals s) (approvals (snd (resolve_commit t3 aid status rv cm s)))"
proof -
  have "appr.evolves (approvals s)
      (sql_update (pending_row aid) (mark_resolved status rv cm t3) (approvals s))"
    using assms by (intro appr.evolves_update) (auto simp: pending_row_def appr_step_def)
  then show ?thesis by (simp add: resolve_commit_def Let_def split: option.split)
qed

text \<open>A resolution that passes its guard has found the row unexpired, so its expiry step did nothing.\<close>

lemma guard_passes_unexpired:
  assumes "resolve_guard aid rv tenant forbid (expire_if_needed t1 t2 aid s) = None"
  shows "expire_if_needed t1 t2 aid s = s"
proof (rule ccontr)
  assume "expire_if_needed t1 t2 aid s \<noteq> s"
  then obtain r where r: "sql_fetch a_id aid (approvals s) = Some r" "due t1 r"
    by (auto simp: expire_if_needed_due split: option.splits if_splits)
  then have "sql_fetch a_id aid (approvals (expire_if_needed t1 t2 aid s)) = Some (mark_expired t2 r)"
    by (simp add: expire_if_needed_fetch)
  with assms show False by (simp add: resolve_guard_def Let_def split: if_splits)
qed

lemma evolves_resolve:
  "appr.evolves (approvals s)
     (approvals (snd (resolve_approval t1 t2 t3 aid status rv cm tenant forbid s)))"
proof (cases "status \<in> {''approved'', ''rejected''} \<and> db_up s")
  case False
  then show ?thesis by (auto simp: resolve_approval_def throw_def with_db_def)
next
  case True
  let ?s = "expire_if_needed t1 t2 aid s"
  have eq: "resolve_approval t1 t2 t3 aid status rv cm tenant forbid s =
      (case resolve_guard aid rv tenant forbid ?s of Some e \<Rightarrow> (Inl e, ?s)
       | None \<Rightarrow> resolve_commit t3 aid status rv cm ?s)"
    using True by (auto simp: resolve_approval_def Let_def)
  show ?thesis
  proof (cases "resolve_guard aid rv tenant forbid ?s")
    case None
    with guard_passes_unexpired [OF this] True show ?thesis
      by (simp add: eq evolves_resolve_commit)
  next
    case (Some e)
    then show ?thesis by (simp add: eq evolves_expire_if_needed)
  qed
qed

lemma evolves_create_approval:
  "appr.evolves (approvals s) (approvals (snd (create_approval aid now did ttl s)))"
  by (auto simp: create_approval_def throw_def with_db_def approval_row_def
      intro!: appr.evolves_insert split: option.split)

lemma create_approval_other:
  assumes "create_approval aid now did ttl s = (r, s')" "\<not> (k = aid \<and> r = Inr aid)"
  shows "sql_fetch a_id k (approvals s) = None \<Longrightarrow> sql_fetch a_id k (approvals s') = None"
  using assms by (auto simp: create_approval_def throw_def with_db_def sql_insert_Some
      sql_fetch_append approval_row_def split: option.splits if_splits)

lemma approvals_unchanged [simp]:
  "approvals (snd (create_decision did now a s)) = approvals s"
  "approvals (snd (append_audit_meta eid now did ty actor pl s)) = approvals s"
  "approvals (snd (get_decision did tenant s)) = approvals s"
  "approvals (snd (list_recent_decisions n tenant s)) = approvals s"
  by (simp_all add: create_decision_def append_audit_meta_def get_decision_def
      list_recent_decisions_def with_db_def Let_def split: option.split)

lemma approvals_get:
  "approvals (snd (get_approval t1 t2 aid tenant s)) =
     (if db_up s then approvals (expire_if_needed t1 t2 aid s) else approvals s)"
  by (simp add: get_approval_def with_db_def Let_def split: option.split)

lemma approvals_list:
  "approvals (snd (list_approvals now st n m tenant s)) =
     (if db_up s then approvals (snd (expire_stale now s)) else approvals s)"
  by (simp add: list_approvals_def with_db_def Let_def)

lemma approvals_count:
  "approvals (snd (count_approvals now st s)) =
     (if db_up s then approvals (snd (expire_stale now s)) else approvals s)"
  by (simp add: count_approvals_def with_db_def Let_def)

lemma approvals_expire_stale:
  "approvals (snd (expire_stale_approvals now s)) =
     (if db_up s then approvals (snd (expire_stale now s)) else approvals s)"
  by (simp add: expire_stale_approvals_def with_db_def split: prod.split)

lemmas approvals_after = approvals_get approvals_list approvals_count approvals_expire_stale

lemma evolves_purge:
  assumes "db_ok s"
  shows "appr.evolves (approvals s) (approvals (snd (purge_retained t1 t2 days dry_run n s)))"
proof -
  obtain r s' where m: "purge_retained t1 t2 days dry_run n s = (r, s')" by fastforce
  have d: "distinct (map a_id (approvals (snd (expire_stale t2 s))))"
    using db_ok_expire_stale [OF assms] by (rule db_ok_keys)
  have "appr.evolves (approvals s) (approvals s')"
  proof (cases r)
    case (Inl e)
    with m have "s' = s" by (blast intro: purge_error_unchanged)
    then show ?thesis by simp
  next
    case (Inr res)
    with m evolves_expire_stale appr.evolves_then_delete [OF evolves_expire_stale d] show ?thesis
      by (auto elim!: purge_Inr simp: Let_def delete_decisions_def)
  qed
  with m show ?thesis by simp
qed

subsection \<open>Integrity of the database\<close>

lemma db_ok_expire_if_needed: "db_ok s \<Longrightarrow> db_ok (expire_if_needed t1 t2 aid s)"
  by (simp add: expire_if_needed_due db_ok_approvals_update split: option.split)

lemma keeps_db_ok_create_decision: "keeps db_ok (create_decision did now a)"
  unfolding create_decision_def
  by (rule keeps_with_db)
    (auto simp: db_ok_def keys_ok_def unique_ok_def refs_ok_def sql_insert_Some decision_row_def
      split: option.split)

lemma keeps_db_ok_create_approval: "keeps db_ok (create_approval aid now did ttl)"
proof (cases "add_seconds now ttl")
  case (Some e)
  show ?thesis unfolding create_approval_def Some option.case
    by (rule keeps_with_db)
      (auto simp: db_ok_def keys_ok_def unique_ok_def refs_ok_def sql_insert_Some approval_row_def
        split: option.split)
qed (auto simp: create_approval_def)

lemma keeps_db_ok_audit: "keeps db_ok (append_audit_meta eid now did ty actor pl)"
  unfolding append_audit_meta_def
  by (rule keeps_with_db)
    (auto simp: db_ok_def keys_ok_def unique_ok_def refs_ok_def sql_insert_Some split: option.split)

lemma keeps_db_ok_consume: "keeps db_ok (consume_approval now aid)"
  unfolding consume_approval_def by (rule keeps_with_db) (simp add: db_ok_approvals_update)

lemma db_ok_resolve_commit: "db_ok s \<Longrightarrow> db_ok (snd (resolve_commit t3 aid status rv cm s))"
  by (simp add: resolve_commit_def Let_def db_ok_approvals_update split: option.split)

lemma keeps_db_ok_resolve: "keeps db_ok (resolve_approval t1 t2 t3 aid status rv cm tenant forbid)"
proof (cases "status \<in> {''approved'', ''rejected''}")
  case True
  show ?thesis unfolding resolve_approval_def if_not_P [OF iffD2 [OF not_not True]]
    by (rule keeps_with_db)
      (simp add: Let_def db_ok_expire_if_needed db_ok_resolve_commit split: option.split)
qed (auto simp: resolve_approval_def)

lemma keeps_db_ok_reads:
  "keeps db_ok (get_decision did tenant)" "keeps db_ok (list_recent_decisions n tenant)"
  "keeps db_ok (get_approval t1 t2 aid tenant)" "keeps db_ok (list_approvals now st n m tenant)"
  "keeps db_ok (count_approvals now st)" "keeps db_ok (expire_stale_approvals now)"
  unfolding get_decision_def list_recent_decisions_def get_approval_def list_approvals_def
    count_approvals_def expire_stale_approvals_def
  by (rule keeps_with_db; simp add: Let_def db_ok_expire_if_needed db_ok_expire_stale
      split: option.split prod.split; metis db_ok_expire_stale snd_conv)+

lemmas keeps_db_ok = keeps_db_ok_create_decision keeps_db_ok_create_approval keeps_db_ok_audit
  keeps_db_ok_consume keeps_db_ok_resolve keeps_db_ok_reads db_ok_purge

subsection \<open>Interleavings of all sessions\<close>

text \<open>
  One rule per method. A label tells the two events that matter for one-time use: an approval row
  was created, an approval was consumed.
\<close>

datatype label = Tau | Created string | Consumed string

inductive store_step :: "db \<Rightarrow> label \<Rightarrow> db \<Rightarrow> bool" where
  decide: "create_decision did now a s = (r, s') \<Longrightarrow> store_step s Tau s'"
| create: "create_approval aid now did ttl s = (r, s') \<Longrightarrow>
    store_step s (if r = Inr aid then Created aid else Tau) s'"
| audit: "append_audit_meta eid now did ty actor pl s = (r, s') \<Longrightarrow> store_step s Tau s'"
| consume: "consume_approval now aid s = (r, s') \<Longrightarrow>
    store_step s (if r = Inr True then Consumed aid else Tau) s'"
| expire: "expire_stale_approvals now s = (r, s') \<Longrightarrow> store_step s Tau s'"
| get: "get_approval t1 t2 aid tenant s = (r, s') \<Longrightarrow> store_step s Tau s'"
| list: "list_approvals now st n m tenant s = (r, s') \<Longrightarrow> store_step s Tau s'"
| count: "count_approvals now st s = (r, s') \<Longrightarrow> store_step s Tau s'"
| resolve: "resolve_approval t1 t2 t3 aid status rv cm tenant forbid s = (r, s') \<Longrightarrow> store_step s Tau s'"
| resolve_late: "status \<in> {''approved'', ''rejected''} \<Longrightarrow>
    resolve_commit t3 aid status rv cm s = (r, s') \<Longrightarrow> store_step s Tau s'"
| purge: "purge_retained t1 t2 days dry_run n s = (r, s') \<Longrightarrow> store_step s Tau s'"

inductive store_run :: "db \<Rightarrow> label list \<Rightarrow> db \<Rightarrow> bool" where
  run_nil: "store_run s [] s"
| run_step: "store_step s l s' \<Longrightarrow> store_run s' ls s'' \<Longrightarrow> store_run s (l # ls) s''"

inductive_simps store_run_Nil [simp]: "store_run s [] s'"
inductive_cases store_run_ConsE: "store_run s (l # ls) s''"
inductive_cases created_stepE: "store_step s (Created k) s'"
inductive_cases consumed_stepE: "store_step s (Consumed k) s'"

lemma store_step_db_ok:
  assumes "store_step s l s'" "db_ok s" shows "db_ok s'"
  using assms keeps_db_ok [THEN keepsD] db_ok_resolve_commit
  by (induction rule: store_step.induct) (metis snd_conv)+

lemma store_step_evolves:
  assumes "store_step s l s'" "db_ok s"
  shows "appr.evolves (approvals s) (approvals s')"
  using assms
proof (induction rule: store_step.induct)
  case (create aid now did ttl s r s')
  then show ?case using evolves_create_approval by (metis snd_conv)
next
  case (consume now aid s r s')
  then show ?case using evolves_consume by (metis snd_conv)
next
  case (expire now s r s')
  then show ?case using approvals_expire_stale [of now s] evolves_expire_stale [of s now]
    by (auto split: if_splits)
next
  case (get t1 t2 aid tenant s r s')
  then show ?case using approvals_get [of t1 t2 aid tenant s] evolves_expire_if_needed [of s t1 t2 aid]
    by (auto split: if_splits)
next
  case (list now st n m tenant s r s')
  then show ?case using approvals_list [of now st n m tenant s] evolves_expire_stale [of s now]
    by (auto split: if_splits)
next
  case (count now st s r s')
  then show ?case using approvals_count [of now st s] evolves_expire_stale [of s now]
    by (auto split: if_splits)
next
  case (resolve t1 t2 t3 aid status rv cm tenant forbid s r s')
  then show ?case using evolves_resolve by (metis snd_conv)
next
  case (resolve_late status t3 aid rv cm s r s')
  then show ?case using evolves_resolve_commit by (metis snd_conv)
next
  case (purge t1 t2 days dry_run n s r s')
  then show ?case using evolves_purge by (metis snd_conv)
qed (metis approvals_unchanged appr.evolves_refl snd_conv)+

text \<open>Only a \<open>Created\<close> step brings an id into the table.\<close>

lemma keys_after_update:
  assumes "\<And>r. a_id (f r) = a_id r"
  shows "a_id ` set (sql_update p f t) = a_id ` set t"
  using row_update.key_set_update [of a_id f p t] assms by (simp add: row_update_def)

lemma keys_expire: "a_id ` set (approvals (expire_if_needed t1 t2 aid s)) = a_id ` set (approvals s)"
  "a_id ` set (approvals (snd (expire_stale now s))) = a_id ` set (approvals s)"
  by (simp_all add: expire_if_needed_due expire_stale_def keys_after_update split: option.split)

lemma keys_resolve_commit:
  "a_id ` set (approvals (snd (resolve_commit t3 aid st rv cm s))) = a_id ` set (approvals s)"
  by (simp add: resolve_commit_def Let_def keys_after_update split: option.split)

lemma keys_resolve:
  "a_id ` set (approvals (snd (resolve_approval t1 t2 t3 aid st rv cm tn fb s))) = a_id ` set (approvals s)"
  by (simp add: resolve_approval_def with_db_def throw_def Let_def keys_resolve_commit keys_expire
      split: option.split)

lemma keys_consume:
  "a_id ` set (approvals (snd (consume_approval now aid s))) = a_id ` set (approvals s)"
  by (simp add: consume_approval_def with_db_def keys_after_update)

lemma keys_purge:
  "a_id ` set (approvals (snd (purge_retained t1 t2 days dry_run n s))) \<subseteq> a_id ` set (approvals s)"
proof -
  obtain r s' where m: "purge_retained t1 t2 days dry_run n s = (r, s')" by fastforce
  show ?thesis
  proof (cases r)
    case (Inl e)
    with m have "s' = s" by (blast intro: purge_error_unchanged)
    with m show ?thesis by simp
  next
    case (Inr res)
    with m have "set (approvals s') \<subseteq> set (approvals (snd (expire_stale t2 s)))"
      by (auto elim!: purge_Inr simp: Let_def delete_decisions_def split: if_splits)
    then have "a_id ` set (approvals s') \<subseteq> a_id ` set (approvals (snd (expire_stale t2 s)))" by auto
    with m show ?thesis by (simp add: keys_expire)
  qed
qed

lemma store_step_new_key:
  assumes "store_step s l s'" "l \<noteq> Created k" "k \<in> a_id ` set (approvals s')"
  shows "k \<in> a_id ` set (approvals s)"
  using assms
proof (induction rule: store_step.induct)
  case (create aid now did ttl s r s')
  then show ?case using create_approval_other [of aid now did ttl s r s' k]
    by (auto simp: sql_fetch_None split: if_splits)
next
  case (consume now aid s r s')
  then show ?case using keys_consume [of now aid s] by simp
next
  case (expire now s r s')
  then show ?case using approvals_expire_stale [of now s] by (auto simp: keys_expire split: if_splits)
next
  case (get t1 t2 aid tenant s r s')
  then show ?case using approvals_get [of t1 t2 aid tenant s] by (auto simp: keys_expire split: if_splits)
next
  case (list now st n m tenant s r s')
  then show ?case using approvals_list [of now st n m tenant s]
    by (auto simp: keys_expire split: if_splits)
next
  case (count now st s r s')
  then show ?case using approvals_count [of now st s] by (auto simp: keys_expire split: if_splits)
next
  case (resolve t1 t2 t3 aid status rv cm tenant forbid s r s')
  then show ?case using keys_resolve [of t1 t2 t3 aid status rv cm tenant forbid s] by simp
next
  case (resolve_late status t3 aid rv cm s r s')
  then show ?case using keys_resolve_commit [of t3 aid status rv cm s] by simp
next
  case (purge t1 t2 days dry_run n s r s')
  then show ?case using keys_purge [of t1 t2 days dry_run n s] by auto
qed (metis approvals_unchanged snd_conv)+

subsection \<open>One-time use\<close>

text \<open>
  The uses an approval id still has: 1 while a row with that id is pending or approved, else 0. A
  step that consumes pays with it, only a step that creates adds to it.
\<close>

definition uses_left :: "string \<Rightarrow> db \<Rightarrow> nat" where
  "uses_left k s = (case sql_fetch a_id k (approvals s) of None \<Rightarrow> 0
     | Some r \<Rightarrow> if a_status r \<in> appr_final then 0 else 1)"

lemma uses_left_closed: "uses_left k s = 0 \<longleftrightarrow> appr.closed k (approvals s)"
  by (simp add: uses_left_def appr.closed_def split: option.split)

lemma uses_left_le_1: "uses_left k s \<le> 1"
  by (simp add: uses_left_def split: option.split)

lemma consumed_step_effect:
  assumes "store_step s (Consumed k) s'" "db_ok s"
  shows "uses_left k s = 1 \<and> uses_left k s' = 0"
proof -
  from assms(1) obtain now where "consume_approval now k s = (Inr True, s')"
    by (auto elim!: consumed_stepE split: if_splits)
  then have rc: "sql_rowcount (\<lambda>r. a_id r = k \<and> consumable r) (approvals s) = 1"
    and s': "s' = s\<lparr>approvals := sql_update (\<lambda>r. a_id r = k \<and> consumable r) (mark_consumed now) (approvals s)\<rparr>"
    by (auto simp: consume_approval_def)
  from consumed.rowcount_key_update [OF db_ok_keys(1) [OF assms(2)] rc]
  obtain r where "sql_fetch a_id k (approvals s) = Some r" "consumable r"
    "sql_fetch a_id k (approvals s') = Some (mark_consumed now r)" unfolding s' by auto
  then show ?thesis by (simp add: uses_left_def consumable_def appr_final_def)
qed

lemma uses_left_step:
  assumes "store_step s l s'" "db_ok s"
  shows "uses_left k s' + (if l = Consumed k then 1 else 0) \<le> uses_left k s + (if l = Created k then 1 else 0)"
proof (cases "l = Consumed k")
  case True
  with consumed_step_effect assms show ?thesis by simp
next
  case False
  show ?thesis
  proof (cases "l = Created k \<or> uses_left k s = 1")
    case True
    with False uses_left_le_1 [of k s'] show ?thesis by auto
  next
    case nc: False
    with uses_left_le_1 [of k s] have "uses_left k s = 0" by simp
    then have closed: "appr.closed k (approvals s)" by (simp only: uses_left_closed)
    have "sql_fetch a_id k (approvals s') = None" if "sql_fetch a_id k (approvals s) = None"
      using that store_step_new_key [OF assms(1), of k] nc by (simp add: sql_fetch_None) blast
    from appr.closed_stays [OF store_step_evolves [OF assms] closed this]
    have "uses_left k s' = 0" by (simp only: uses_left_closed)
    with False show ?thesis by simp
  qed
qed

text \<open>C1: over any interleaving of the store's operations by any number of sessions, an approval id
  is consumed at most as often as a row with this id was created in the run, plus once for a row
  already there: each approval row grants one request.\<close>

theorem approval_consumed_at_most_once:
  assumes "store_run s ls s'" "db_ok s"
  shows "count_list ls (Consumed k) \<le> count_list ls (Created k) +
    (if k \<in> a_id ` set (approvals s) then 1 else 0)"
proof -
  have "count_list ls (Consumed k) + uses_left k s' \<le> count_list ls (Created k) + uses_left k s"
    using assms
  proof (induction rule: store_run.induct)
    case (run_step s l s' ls s'')
    have "count_list ls (Consumed k) + uses_left k s'' \<le> count_list ls (Created k) + uses_left k s'"
      using run_step store_step_db_ok by blast
    with uses_left_step [OF run_step(1,4), of k] show ?case by (auto split: if_splits)
  qed simp
  moreover have "uses_left k s \<le> (if k \<in> a_id ` set (approvals s) then 1 else 0)"
  proof (cases "k \<in> a_id ` set (approvals s)")
    case False
    then have "sql_fetch a_id k (approvals s) = None" by (simp only: sql_fetch_None not_False_eq_True)
    then show ?thesis by (simp add: uses_left_def)
  qed (simp add: uses_left_le_1 [simplified])
  ultimately show ?thesis by linarith
qed

end
