(* ===== verification/Approval_Spec.thy ===== *)
theory Approval_Spec
  imports Approval_Lifecycle
begin

text \<open>
  What the methods on approvals promise: resolution on every branch, the race of two reviewers, the
  agreement of the two expiry paths, paging, retention. \<open>demo_db\<close> is a small database the
  witnesses evaluate on: decision \<open>d1\<close> of tenant \<open>acme\<close> with an open approval \<open>a1\<close>.
\<close>

subsection \<open>A concrete database\<close>

definition demo_decision :: dec_row where
  "demo_decision =
     \<lparr>d_id = ''d1'', d_request_id = ''r1'', d_final_verdict = ''approval_required'',
      d_policy_bundle_id = ''b'', d_policy_digest = ''pd'', d_team = ''acme'',
      d_tenant_id = Some ''acme'', d_environment = ''production'', d_model = ''m'',
      d_subject = ''alice'', d_reasons = [], d_stages = PDict [], d_request = [],
      d_request_digest = Some ''rq'', d_agent_digest = Some [], d_tools_digest = Some [],
      d_created_at = isoformat 0\<rparr>"

definition demo_approval :: "string \<Rightarrow> appr_row" where
  "demo_approval st =
     \<lparr>a_id = ''a1'', a_decision_id = ''d1'', a_status = st, a_reviewer = None, a_comment = None,
      a_created_at = isoformat 0, a_expires_at = isoformat 3600000000, a_resolved_at = None,
      a_used_at = None\<rparr>"

definition demo_db :: "string \<Rightarrow> db" where
  "demo_db st = empty_db\<lparr>decisions := [demo_decision], approvals := [demo_approval st]\<rparr>"

lemmas demo_defs = demo_db_def demo_decision_def demo_approval_def empty_db_def

lemma demo_db_ok: "db_ok (demo_db st)"
  by (simp add: demo_defs db_ok_defs)

lemma demo_limit: "3600000000 < instant_limit" "(0 :: nat) < instant_limit"
  by (simp_all add: instant_limit_def day_us_def)

lemma demo_not_due: "expire_if_needed 0 t2 ''a1'' (demo_db st) = demo_db st"
  by (simp add: expire_if_needed_due due_def demo_defs sql_fetch_def parse_isoformat demo_limit)

lemma final_row_frozen:
  assumes "store_run s ls s'" "db_ok s" "Created k \<notin> set ls"
    "sql_fetch a_id k (approvals s) = Some r" "a_status r \<in> appr_final"
    "sql_fetch a_id k (approvals s') = Some r'"
  shows "r' = r"
  using assms
proof (induction rule: store_run.induct)
  case (run_step s l s1 ls s')
  have "sql_fetch a_id k (approvals s1) \<noteq> None"
  proof
    assume "sql_fetch a_id k (approvals s1) = None"
    moreover have "sql_fetch a_id k (approvals v) = None"
      if "store_run u ms v" "Created k \<notin> set ms" "sql_fetch a_id k (approvals u) = None" for u ms v
      using that
    proof (induction rule: store_run.induct)
      case (run_step u l v ms w)
      then show ?case using store_step_new_key [of u l v k] by (auto simp: sql_fetch_None)
    qed
    ultimately show False using run_step.hyps(2) run_step.prems by simp
  qed
  then obtain r1 where r1: "sql_fetch a_id k (approvals s1) = Some r1" by blast
  have "appr.closed k (approvals s)" using run_step.prems by (simp add: appr.closed_def)
  from appr.closed_keeps_row [OF store_step_evolves [OF run_step.hyps(1) run_step.prems(1)] this
      run_step.prems(3) r1]
  have "r1 = r" .
  with run_step r1 store_step_db_ok show ?case by simp
qed simp

text \<open>C15: an approval row that is rejected, expired or consumed is never changed again by any
  operation of any session: as long as the row exists it is the same row.\<close>

theorem final_approval_frozen:
  assumes "store_run s ls s'" "db_ok s" "Created k \<notin> set ls"
    "sql_fetch a_id k (approvals s) = Some r" "a_status r \<in> appr_final"
    "sql_fetch a_id k (approvals s') = Some r'"
  shows "r' = r"
  by (rule final_row_frozen [OF assms])

theorem final_approval_frozen_witness:
  "sql_fetch a_id ''a1'' (approvals (demo_db ''rejected'')) = Some (demo_approval ''rejected'')"
proof -
  let ?s = "demo_db ''rejected''"
  have f: "sql_fetch a_id ''a1'' (approvals ?s) = Some (demo_approval ''rejected'')"
    by (simp add: demo_defs sql_fetch_def)
  have nochange: "sql_update (\<lambda>r. a_id r = ''a1'' \<and> consumable r) (mark_consumed 5) (approvals ?s) = approvals ?s"
    by (simp add: sql_update_def consumable_def demo_defs)
  then have "consume_approval 5 ''a1'' ?s = (Inr False, ?s)"
    by (simp add: consume_approval_def sql_rowcount_def consumable_def demo_defs with_db_def)
  then have "store_run ?s [Tau] ?s"
    using store_step.consume store_run.intros by fastforce
  from final_approval_frozen [OF this demo_db_ok _ f _ f] show ?thesis
    using f by simp
qed

subsection \<open>Resolution\<close>

lemma resolve_cases:
  assumes "db_up s" "status \<in> {''approved'', ''rejected''}"
  shows "resolve_approval t1 t2 t3 aid status rv cm tenant forbid s =
    (case resolve_guard aid rv tenant forbid (expire_if_needed t1 t2 aid s) of
       Some e \<Rightarrow> (Inl e, expire_if_needed t1 t2 aid s)
     | None \<Rightarrow> resolve_commit t3 aid status rv cm s)"
  using assms guard_passes_unexpired [of aid rv tenant forbid t1 t2 s]
  by (auto simp: resolve_approval_def Let_def split: option.split)

lemma guard_None:
  assumes "resolve_guard aid rv tenant forbid s = None"
  obtains a where "sql_fetch a_id aid (approvals s) = Some a" "a_status a = ''pending''"
    "forbid \<Longrightarrow> \<not> self_approval (requester_of (sql_fetch d_id (a_decision_id a) (decisions s))) rv"
    "\<And>t. tenant = Some t \<Longrightarrow> \<exists>d. sql_fetch d_id (a_decision_id a) (decisions s) = Some d \<and> owner_tenant d = t"
  using assms by (auto simp: resolve_guard_def Let_def split: option.splits if_splits)

lemma commit_pending:
  assumes "db_ok s" "sql_fetch a_id aid (approvals s) = Some a" "a_status a = ''pending''"
  shows "resolve_commit t3 aid status rv cm s =
    (Inr (mark_resolved status rv cm t3 a),
     s\<lparr>approvals := sql_update (pending_row aid) (mark_resolved status rv cm t3) (approvals s)\<rparr>)"
proof -
  have "sql_rowcount (pending_row aid) (approvals s) = 1"
    using sql_rowcount_fetch [OF db_ok_keys(1) [OF assms(1)], of aid "\<lambda>r. a_status r = ''pending''"] assms
    by (simp add: pending_row_def [abs_def])
  moreover have "pending_row aid a"
    using sql_fetch_Some_in [OF assms(2)] assms(3) by (simp add: pending_row_def)
  ultimately show ?thesis using assms(2) by (simp add: resolve_commit_def Let_def resolved.fetch_update)
qed

lemma fetch_mark_pending:
  assumes "sql_fetch a_id aid t = Some a" "a_status a = ''pending''"
  shows "sql_fetch a_id k (sql_update (pending_row aid) (mark_resolved status rv cm t3) t) =
    (if k = aid then Some (mark_resolved status rv cm t3 a) else sql_fetch a_id k t)"
proof (cases "k = aid")
  case True
  have "pending_row aid a"
    using sql_fetch_Some_in [OF assms(1)] assms(2) by (simp add: pending_row_def)
  with True assms show ?thesis by (simp add: resolved.fetch_update)
next
  case False
  show ?thesis
  proof (cases "sql_fetch a_id k t")
    case (Some x)
    with sql_fetch_Some_in [OF Some] have "\<not> pending_row aid x" using False by (simp add: pending_row_def)
    with Some False show ?thesis by (simp add: resolved.fetch_update)
  qed (use False in \<open>simp add: resolved.fetch_update\<close>)
qed

lemma commit_not_pending:
  assumes "db_ok s" "\<And>a. sql_fetch a_id aid (approvals s) = Some a \<Longrightarrow> a_status a \<noteq> ''pending''"
  shows "resolve_commit t3 aid status rv cm s =
    (Inl (ValueError ''approval is not pending (concurrent resolve or status=pending)''), s)"
proof -
  have "sql_rowcount (pending_row aid) (approvals s) \<noteq> 1"
    using sql_rowcount_fetch [OF db_ok_keys(1) [OF assms(1)], of aid "\<lambda>r. a_status r = ''pending''"] assms(2)
    by (auto simp: pending_row_def [abs_def])
  moreover have "sql_rowcount (pending_row aid) (approvals s) \<le> 1"
    unfolding pending_row_def [abs_def] by (rule sql_rowcount_key_le_1 [OF db_ok_keys(1) [OF assms(1)]])
  ultimately have "sql_rowcount (pending_row aid) (approvals s) = 0" by simp
  from sql_rowcount_0 [OF this] show ?thesis
    using \<open>sql_rowcount (pending_row aid) (approvals s) \<noteq> 1\<close> by (simp add: resolve_commit_def Let_def)
qed

lemma resolve_effect:
  assumes "resolve_approval t1 t2 t3 aid status rv cm tenant forbid s = (Inr row, s')" "db_ok s"
  shows "\<exists>old. sql_fetch a_id aid (approvals s) = Some old \<and> a_status old = ''pending'' \<and> \<not> due t1 old \<and>
    status \<in> {''approved'', ''rejected''} \<and>
    (forbid \<longrightarrow> \<not> self_approval (requester_of (sql_fetch d_id (a_decision_id old) (decisions s))) rv) \<and>
    (\<forall>t. tenant = Some t \<longrightarrow> (\<exists>d. sql_fetch d_id (a_decision_id old) (decisions s) = Some d \<and> owner_tenant d = t)) \<and>
    row = mark_resolved status rv cm t3 old \<and>
    (\<forall>k. sql_fetch a_id k (approvals s') = (if k = aid then Some row else sql_fetch a_id k (approvals s))) \<and>
    s' = s\<lparr>approvals := approvals s'\<rparr>"
proof -
  have st: "status \<in> {''approved'', ''rejected''}" and up: "db_up s"
    using assms(1) by (auto simp: resolve_approval_def throw_def with_db_def split: if_splits)
  let ?e = "expire_if_needed t1 t2 aid s"
  have g: "resolve_guard aid rv tenant forbid ?e = None"
    using assms(1) by (simp add: resolve_cases [OF up st] split: option.splits)
  note e = guard_passes_unexpired [OF g]
  from g [unfolded e] obtain a where a: "sql_fetch a_id aid (approvals s) = Some a" "a_status a = ''pending''"
    "forbid \<Longrightarrow> \<not> self_approval (requester_of (sql_fetch d_id (a_decision_id a) (decisions s))) rv"
    "\<And>t. tenant = Some t \<Longrightarrow> \<exists>d. sql_fetch d_id (a_decision_id a) (decisions s) = Some d \<and> owner_tenant d = t"
    by (rule guard_None) blast
  have nd: "\<not> due t1 a"
  proof
    assume "due t1 a"
    then have "sql_fetch a_id aid (approvals ?e) = Some (mark_expired t2 a)"
      by (simp add: expire_if_needed_fetch a(1))
    then have "mark_expired t2 a = a" by (simp add: e a(1))
    then have "a_status (mark_expired t2 a) = a_status a" by (rule arg_cong)
    with a(2) show False by simp
  qed
  have "resolve_commit t3 aid status rv cm s = (Inr row, s')"
    using assms(1) g by (simp add: resolve_cases [OF up st] e)
  then have row: "row = mark_resolved status rv cm t3 a"
    and s': "s' = s\<lparr>approvals := sql_update (pending_row aid) (mark_resolved status rv cm t3) (approvals s)\<rparr>"
    by (simp_all add: commit_pending [OF assms(2) a(1,2)])
  have app: "approvals s' = sql_update (pending_row aid) (mark_resolved status rv cm t3) (approvals s)"
    by (simp add: s')
  have f: "sql_fetch a_id k (approvals s') = (if k = aid then Some row else sql_fetch a_id k (approvals s))" for k
    unfolding app row by (rule fetch_mark_pending [OF a(1,2)])
  have "s' = s\<lparr>approvals := approvals s'\<rparr>" by (simp add: s')
  with a nd st row f show ?thesis by blast
qed

text \<open>C13: a resolution succeeds only on an approval that is pending and unexpired, of the caller's
  tenant, and (when self-approval is forbidden) by a reviewer other than the requester; it then
  stores the status, the reviewer, the comment and the time in that row and touches no other
  row and no other table.\<close>

theorem resolve_approval_success:
  assumes "resolve_approval t1 t2 t3 aid status rv cm tenant forbid s = (Inr row, s')" "db_ok s"
  shows "\<exists>old. sql_fetch a_id aid (approvals s) = Some old \<and> a_status old = ''pending'' \<and> \<not> due t1 old \<and>
    status \<in> {''approved'', ''rejected''} \<and>
    (forbid \<longrightarrow> \<not> self_approval (requester_of (sql_fetch d_id (a_decision_id old) (decisions s))) rv) \<and>
    (\<forall>t. tenant = Some t \<longrightarrow> (\<exists>d. sql_fetch d_id (a_decision_id old) (decisions s) = Some d \<and> owner_tenant d = t)) \<and>
    row = mark_resolved status rv cm t3 old \<and>
    (\<forall>k. sql_fetch a_id k (approvals s') = (if k = aid then Some row else sql_fetch a_id k (approvals s))) \<and>
    s' = s\<lparr>approvals := approvals s'\<rparr>"
  by (rule resolve_effect [OF assms])

lemma demo_fetch:
  "sql_fetch a_id ''a1'' (approvals (demo_db st)) = Some (demo_approval st)"
  "sql_fetch d_id ''d1'' (decisions (demo_db st)) = Some demo_decision"
  "a_status (demo_approval st) = st" "db_up (demo_db st)"
  by (simp_all add: demo_defs sql_fetch_def)

lemma demo_resolve:
  "resolve_approval 0 0 5 ''a1'' ''approved'' ''bob'' [] (Some ''acme'') True (demo_db ''pending'') =
    resolve_commit 5 ''a1'' ''approved'' ''bob'' [] (demo_db ''pending'')"
proof -
  have "resolve_guard ''a1'' ''bob'' (Some ''acme'') True (demo_db ''pending'') = None"
    by code_simp
  then show ?thesis by (simp add: resolve_cases demo_fetch demo_not_due)
qed

theorem resolve_approval_success_witness:
  "\<exists>row s'. resolve_approval 0 0 5 ''a1'' ''approved'' ''bob'' [] (Some ''acme'') True (demo_db ''pending'')
     = (Inr row, s') \<and> sql_fetch a_id ''a1'' (approvals s') = Some row"
proof -
  obtain row s' where r: "resolve_commit 5 ''a1'' ''approved'' ''bob'' [] (demo_db ''pending'') = (Inr row, s')"
    using commit_pending [OF demo_db_ok demo_fetch(1,3)] by blast
  then have m: "resolve_approval 0 0 5 ''a1'' ''approved'' ''bob'' [] (Some ''acme'') True (demo_db ''pending'')
     = (Inr row, s')" by (simp only: demo_resolve)
  with resolve_approval_success [OF m demo_db_ok] show ?thesis by auto
qed

theorem approval_consumed_at_most_once_witness:
  "\<exists>s'. store_run (demo_db ''approved'') [Consumed ''a1''] s' \<and>
     count_list [Consumed ''a1''] (Consumed ''a1'') \<le> 1"
proof -
  let ?s = "demo_db ''approved''"
  obtain s' where "consume_approval 5 ''a1'' ?s = (Inr True, s')"
    by (simp add: consume_approval_def sql_rowcount_def consumable_def demo_defs)
  then have "store_step ?s (Consumed ''a1'') s'"
    using store_step.consume [of 5 "''a1''" ?s "Inr True"] by simp
  then have "store_run ?s [Consumed ''a1''] s'" by (blast intro: store_run.intros)
  with approval_consumed_at_most_once [OF this demo_db_ok, of "''a1''"] show ?thesis
    by (auto simp: demo_defs)
qed



end
