(* ===== verification/Durable_Governance.thy ===== *)
theory Durable_Governance
  imports Approval_Binding Approval_Spec Governance_Service
begin

text \<open>
  Durable decisions (\<open>durable_governance.py\<close>): an evaluation is stored with its decision, its approval
  and its audit events in one transaction, and an approval that was granted lets one later request
  pass. The ids and clock readings a call draws are arguments; \<open>ttl\<close> is the setting
  \<open>approval_ttl_seconds\<close>.
\<close>

subsection \<open>Storing an evaluation\<close>

record persist_draws =
  pd_decision_id :: string
  pd_decided_at :: instant
  pd_approval_id :: string
  pd_approval_at :: instant
  pd_created_event :: string
  pd_created_at :: instant
  pd_recorded_event :: string
  pd_recorded_at :: instant

definition text_or_none :: "string option \<Rightarrow> pyval" where
  "text_or_none v = (case v of None \<Rightarrow> PNone | Some t \<Rightarrow> PStr t)"

definition evaluation_digests ::
  "(string \<Rightarrow> string) \<Rightarrow> governance_response \<Rightarrow> eval_request \<Rightarrow> (db, string \<times> string) opn" where
  "evaluation_digests sha r q =
     (if opt_str (ge_agent_digest r) = [] \<and> opt_str (ge_tools_digest r) = []
      then resolve_execution_capability_digests sha (q_agent q) (str_or (q_tenant_id q) (q_team q))
      else ret (opt_str (ge_agent_digest r), opt_str (ge_tools_digest r)))"

definition evaluation_decision ::
  "governance_response \<Rightarrow> eval_request \<Rightarrow> string \<Rightarrow> string \<Rightarrow> string \<times> string \<Rightarrow> new_decision" where
  "evaluation_decision r q request_id digest digests =
     \<lparr>nd_final_verdict = ge_verdict r, nd_request_id = request_id, nd_policy_bundle_id = opt_str (ge_bundle_id r),
      nd_policy_digest = opt_str (ge_policy_digest r), nd_team = q_team q,
      nd_tenant_id = str_or (q_tenant_id q) (q_team q), nd_environment = q_environment q, nd_model = q_model q,
      nd_subject = str_or (q_subject q) (q_owner q), nd_reasons = ge_reasons r, nd_stages = PDict (ge_stages r),
      nd_request = request_dump q, nd_request_digest = digest, nd_agent_digest = fst digests,
      nd_tools_digest = snd digests\<rparr>"

definition request_actor :: "eval_request \<Rightarrow> string" where
  "request_actor q = str_or (q_owner q) (str_or (q_subject q) ''system'')"

text \<open>The transaction: the decision, the approval when one is required, and the audit events.\<close>

definition persist_records ::
  "int \<Rightarrow> persist_draws \<Rightarrow> governance_response \<Rightarrow> eval_request \<Rightarrow> string \<Rightarrow> string \<Rightarrow> string \<times> string \<Rightarrow>
   (db, string \<times> string option) opn" where
  "persist_records ttl dr r q request_id digest digests =
     bnd (create_decision (pd_decision_id dr) (pd_decided_at dr) (evaluation_decision r q request_id digest digests))
       (\<lambda>did. bnd
         (if ge_verdict r = ''approval_required'' \<and> opt_str (ge_approval_id r) = []
          then bnd (create_approval (pd_approval_id dr) (pd_approval_at dr) did ttl)
            (\<lambda>aid. bnd (append_audit_meta (pd_created_event dr) (pd_created_at dr) did ''approval_created''
                (request_actor q) [(''approval_id'', PStr aid), (''request_digest'', PStr digest)])
              (\<lambda>_. ret (Some aid)))
          else ret (ge_approval_id r))
         (\<lambda>aid. bnd (append_audit_meta (pd_recorded_event dr) (pd_recorded_at dr) did ''decision_recorded''
             (request_actor q)
             [(''final_verdict'', PStr (ge_verdict r)), (''request_id'', PStr request_id),
              (''approval_id'', text_or_none aid), (''request_digest'', PStr digest)])
           (\<lambda>_. ret (did, aid))))"

definition persist_evaluation ::
  "(string \<Rightarrow> string) \<Rightarrow> int \<Rightarrow> persist_draws \<Rightarrow> governance_response \<Rightarrow> eval_request \<Rightarrow> string \<Rightarrow>
   (db, governance_response) opn" where
  "persist_evaluation sha ttl dr r q request_id =
     (case compute_request_digest sha (request_dump q) of
        Inl e \<Rightarrow> throw e
      | Inr digest \<Rightarrow>
          bnd (evaluation_digests sha r q) (\<lambda>digests.
            bnd (rollback_on_error (persist_records ttl dr r q request_id digest digests)) (\<lambda>(did, aid).
              ret (r\<lparr>ge_decision_id := Some did, ge_approval_id := aid,
                     ge_agent_digest := non_empty (fst digests), ge_tools_digest := non_empty (snd digests)\<rparr>))))"

subsection \<open>Using an approval\<close>

text \<open>Two pins are compared when both sides have one.\<close>

definition pins_agree :: "string \<Rightarrow> string \<Rightarrow> bool" where
  "pins_agree x y \<longleftrightarrow> x = [] \<or> y = [] \<or> x = y"

definition approved_digest :: "(string \<Rightarrow> string) \<Rightarrow> decision_record \<Rightarrow> string result" where
  "approved_digest sha d =
     (if dr_request_digest d \<noteq> [] then Inr (dr_request_digest d) else compute_request_digest sha (dr_request d))"

record grant_draws =
  gd_read_at :: instant
  gd_expired_at :: instant
  gd_used_at :: instant
  gd_event :: string
  gd_event_at :: instant

definition use_approval ::
  "grant_draws \<Rightarrow> string \<Rightarrow> string \<Rightarrow> eval_request \<Rightarrow> string \<Rightarrow> (db, bool) opn" where
  "use_approval g aid did q digest =
     rollback_on_error (bnd (consume_approval (gd_used_at g) aid) (\<lambda>used.
       if \<not> used then ret False
       else bnd (append_audit_meta (gd_event g) (gd_event_at g) did ''approval_consumed'' (request_actor q)
             [(''approval_id'', PStr aid), (''request_digest'', PStr digest)])
           (\<lambda>_. ret True)))"

definition approval_grants_allow ::
  "(string \<Rightarrow> string) \<Rightarrow> grant_draws \<Rightarrow> string \<Rightarrow> eval_request \<Rightarrow> string \<Rightarrow> (db, bool) opn" where
  "approval_grants_allow sha g aid q policy_digest =
     bnd (get_approval (gd_read_at g) (gd_expired_at g) aid None) (\<lambda>approval.
       case approval of
         None \<Rightarrow> ret False
       | Some a \<Rightarrow>
           if a_status a \<noteq> ''approved'' \<or> opt_str (a_used_at a) \<noteq> [] then ret False
           else bnd (get_decision (a_decision_id a) None) (\<lambda>decision.
             case decision of
               None \<Rightarrow> ret False
             | Some d \<Rightarrow>
                 (case compute_request_digest sha (request_dump q) of
                    Inl e \<Rightarrow> throw e
                  | Inr current \<Rightarrow>
                      (case approved_digest sha d of
                         Inl e \<Rightarrow> throw e
                       | Inr approved \<Rightarrow>
                           if approved = [] \<or> current \<noteq> approved then ret False
                           else if \<not> pins_agree policy_digest (dr_policy_digest d) then ret False
                           else bnd (resolve_execution_capability_digests sha (q_agent q) (str_or (q_tenant_id q) (q_team q)))
                             (\<lambda>(agent, tools).
                               if \<not> pins_agree agent (dr_agent_digest d) then ret False
                               else if \<not> pins_agree tools (dr_tools_digest d) then ret False
                               else use_approval g aid (dr_decision_id d) q current)))))"

definition decision_to_dict :: "string \<Rightarrow> string option \<Rightarrow> (db, pyobj) opn" where
  "decision_to_dict did tenant =
     bnd (get_decision did tenant) (\<lambda>rec.
       case rec of
         None \<Rightarrow> throw (KeyError did)
       | Some d \<Rightarrow> ret
           [(''decision_id'', PStr (dr_decision_id d)), (''request_id'', PStr (dr_request_id d)),
            (''final_verdict'', PStr (dr_final_verdict d)), (''policy_bundle_id'', PStr (dr_policy_bundle_id d)),
            (''policy_digest'', PStr (dr_policy_digest d)), (''agent_capability_digest'', PStr (dr_agent_digest d)),
            (''tools_capability_digest'', PStr (dr_tools_digest d)), (''team'', PStr (dr_team d)),
            (''tenant_id'', PStr (dr_tenant_id d)), (''environment'', PStr (dr_environment d)),
            (''model'', PStr (dr_model d)), (''subject'', PStr (dr_subject d)),
            (''reasons'', PList (map PStr (dr_reasons d))), (''stages'', dr_stages d),
            (''request'', PDict (dr_request d)), (''request_digest'', PStr (dr_request_digest d)),
            (''created_at'', PStr (dr_created_at d))])"

subsection \<open>What a stored evaluation leaves\<close>

definition needs_approval :: "governance_response \<Rightarrow> bool" where
  "needs_approval r \<longleftrightarrow> ge_verdict r = ''approval_required'' \<and> opt_str (ge_approval_id r) = []"

lemma create_decision_Inr:
  "create_decision did now a s = (Inr x, s') \<longleftrightarrow>
     db_up s \<and> did \<notin> d_id ` set (decisions s) \<and> x = did \<and> s' = s\<lparr>decisions := decisions s @ [decision_row did now a]\<rparr>"
  by (auto simp: create_decision_def sql_insert_Some sql_insert_None decision_row_def split: option.splits)

lemma create_approval_Inr:
  "create_approval aid now did ttl s = (Inr x, s') \<longleftrightarrow>
     (\<exists>expires. add_seconds now ttl = Some expires \<and> db_up s \<and> did \<in> d_id ` set (decisions s) \<and>
        aid \<notin> a_id ` set (approvals s) \<and> x = aid \<and>
        s' = s\<lparr>approvals := approvals s @ [approval_row aid did now expires]\<rparr>)"
  by (auto simp: create_approval_def throw_def sql_insert_Some sql_insert_None approval_row_def split: option.splits if_splits)

definition audit_row_of :: "string \<Rightarrow> instant \<Rightarrow> string \<Rightarrow> string \<Rightarrow> string \<Rightarrow> pyobj \<Rightarrow> audit_row" where
  "audit_row_of eid now did etype actor payload =
     \<lparr>e_id = eid, e_decision_id = did, e_type = etype, e_actor = actor, e_payload = payload, e_created_at = isoformat now\<rparr>"

lemma append_audit_Inr:
  "append_audit_meta eid now did etype actor payload s = (Inr x, s') \<longleftrightarrow>
     db_up s \<and> did \<in> d_id ` set (decisions s) \<and> eid \<notin> e_id ` set (audit_meta s) \<and> x = eid \<and>
     s' = s\<lparr>audit_meta := audit_meta s @ [audit_row_of eid now did etype actor payload]\<rparr>"
  by (auto simp: append_audit_meta_def sql_insert_Some sql_insert_None audit_row_of_def split: option.splits if_splits)

text \<open>The events of a stored evaluation, in the order they are written.\<close>

definition evaluation_events :: "persist_draws \<Rightarrow> governance_response \<Rightarrow> eval_request \<Rightarrow> string \<Rightarrow> string \<Rightarrow> audit_row list" where
  "evaluation_events dr r q request_id digest =
     (let aid = (if needs_approval r then Some (pd_approval_id dr) else ge_approval_id r) in
     (if needs_approval r then [audit_row_of (pd_created_event dr) (pd_created_at dr) (pd_decision_id dr) ''approval_created''
        (request_actor q) [(''approval_id'', text_or_none aid), (''request_digest'', PStr digest)]] else []) @
     [audit_row_of (pd_recorded_event dr) (pd_recorded_at dr) (pd_decision_id dr) ''decision_recorded'' (request_actor q)
        [(''final_verdict'', PStr (ge_verdict r)), (''request_id'', PStr request_id), (''approval_id'', text_or_none aid),
         (''request_digest'', PStr digest)]])"

lemma persist_records_Inr:
  assumes "persist_records ttl dr r q rid digest digests s = (Inr (did, aid), s')"
  obtains rows where "did = pd_decision_id dr" "aid = (if needs_approval r then Some (pd_approval_id dr) else ge_approval_id r)"
    "if needs_approval r then \<exists>expires. add_seconds (pd_approval_at dr) ttl = Some expires \<and>
         rows = [approval_row (pd_approval_id dr) did (pd_approval_at dr) expires] else rows = []"
    "pd_decision_id dr \<notin> d_id ` set (decisions s)" "needs_approval r \<Longrightarrow> pd_approval_id dr \<notin> a_id ` set (approvals s)"
    "s' = s\<lparr>decisions := decisions s @ [decision_row did (pd_decided_at dr) (evaluation_decision r q rid digest digests)],
       approvals := approvals s @ rows, audit_meta := audit_meta s @ evaluation_events dr r q rid digest\<rparr>"
proof (cases "needs_approval r")
  case True
  then have n: "ge_verdict r = ''approval_required'' \<and> opt_str (ge_approval_id r) = []" by (simp add: needs_approval_def)
  from assms obtain expires where "add_seconds (pd_approval_at dr) ttl = Some expires" "did = pd_decision_id dr"
    "aid = Some (pd_approval_id dr)" "pd_decision_id dr \<notin> d_id ` set (decisions s)" "pd_approval_id dr \<notin> a_id ` set (approvals s)"
    "s' = s\<lparr>decisions := decisions s @ [decision_row did (pd_decided_at dr) (evaluation_decision r q rid digest digests)],
       approvals := approvals s @ [approval_row (pd_approval_id dr) did (pd_approval_at dr) expires],
       audit_meta := audit_meta s @ evaluation_events dr r q rid digest\<rparr>"
    unfolding persist_records_def if_P [OF n]
    by (auto elim!: bnd_InrE simp: create_decision_Inr create_approval_Inr append_audit_Inr ret_def evaluation_events_def True
        text_or_none_def)
  with True that [of "[approval_row (pd_approval_id dr) did (pd_approval_at dr) expires]"] show thesis by simp
next
  case False
  then have n: "\<not> (ge_verdict r = ''approval_required'' \<and> opt_str (ge_approval_id r) = [])" by (simp add: needs_approval_def)
  from assms have "did = pd_decision_id dr" "aid = ge_approval_id r" "pd_decision_id dr \<notin> d_id ` set (decisions s)"
    "s' = s\<lparr>decisions := decisions s @ [decision_row did (pd_decided_at dr) (evaluation_decision r q rid digest digests)],
       audit_meta := audit_meta s @ evaluation_events dr r q rid digest\<rparr>"
    unfolding persist_records_def if_not_P [OF n]
    by (auto elim!: bnd_InrE simp: create_decision_Inr append_audit_Inr ret_def evaluation_events_def False)
  with False that [of "[]"] show thesis by simp
qed

lemma keeps_persist_records: "keeps db_ok (persist_records ttl dr r q rid digest digests)"
  unfolding persist_records_def by (intro keeps_bnd) (auto intro: keeps_db_ok)

lemma evaluation_digests_state: "snd (evaluation_digests sha r q s) = s"
  by (simp add: evaluation_digests_def ret_def)

lemma evaluation_digests_up: "db_up s \<Longrightarrow> \<exists>d. evaluation_digests sha r q s = (Inr d, s)"
  using resolve_digests_up [of s] by (auto simp: evaluation_digests_def ret_def)

lemma persist_evaluation_cases:
  assumes "persist_evaluation sha ttl dr r q rid s = (res, s')"
  obtains (failed) e where "res = Inl e" "s' = s"
  | (stored) digest digests aid r' where "compute_request_digest sha (request_dump q) = Inr digest"
      "evaluation_digests sha r q s = (Inr digests, s)" "res = Inr r'"
      "r' = r\<lparr>ge_decision_id := Some (pd_decision_id dr), ge_approval_id := aid,
         ge_agent_digest := non_empty (fst digests), ge_tools_digest := non_empty (snd digests)\<rparr>"
      "persist_records ttl dr r q rid digest digests s = (Inr (pd_decision_id dr, aid), s')"
proof -
  obtain digest where d: "compute_request_digest sha (request_dump q) = Inr digest" by (auto simp: digest_dump)
  obtain x where x: "evaluation_digests sha r q s = (x, s)"
    using evaluation_digests_state [of sha r q s] by (metis prod.collapse)
  show thesis
  proof (cases x)
    case (Inl e)
    with assms d x have "res = Inl e" "s' = s" by (simp_all add: persist_evaluation_def bnd_def)
    then show thesis by (rule failed)
  next
    case (Inr digests)
    note e = x [unfolded Inr]
    obtain y s1 where y: "rollback_on_error (persist_records ttl dr r q rid digest digests) s = (y, s1)" by fastforce
    show thesis
    proof (cases y)
      case (Inl e')
      have "s1 = s" by (rule rollback_Inl [OF y [unfolded Inl]])
      with assms d e y Inl have "res = Inl e'" "s' = s" by (simp_all add: persist_evaluation_def bnd_def)
      then show thesis by (rule failed)
    next
      case (Inr p)
      obtain did aid where p: "p = (did, aid)" by (cases p)
      with y Inr have r: "persist_records ttl dr r q rid digest digests s = (Inr (did, aid), s1)" by simp
      have did: "did = pd_decision_id dr" using r by (rule persist_records_Inr)
      have "res = Inr (r\<lparr>ge_decision_id := Some did, ge_approval_id := aid, ge_agent_digest := non_empty (fst digests),
          ge_tools_digest := non_empty (snd digests)\<rparr>)" "s' = s1"
        using assms d e y unfolding Inr p by (simp_all add: persist_evaluation_def bnd_def ret_def)
      with d e r did show thesis by (intro stored [OF d e]) simp_all
    qed
  qed
qed

text \<open>C16: storing an evaluation is all or nothing. A call that fails leaves the database as it was; one that
  succeeds appends the decision with its digests, one pending approval of that decision exactly when the
  verdict asks for one and none was given, and the audit events of both.\<close>

theorem evaluation_stored_atomically:
  assumes "persist_evaluation sha ttl dr r q rid s = (res, s')"
  shows "case res of
      Inl e \<Rightarrow> s' = s
    | Inr r' \<Rightarrow> \<exists>digests rows. evaluation_digests sha r q s = (Inr digests, s) \<and>
        s' = s\<lparr>decisions := decisions s @ [decision_row (pd_decision_id dr) (pd_decided_at dr)
               (evaluation_decision r q rid (sha (json_canonical (PDict (request_payload q)))) digests)],
             approvals := approvals s @ rows,
             audit_meta := audit_meta s @ evaluation_events dr r q rid (sha (json_canonical (PDict (request_payload q))))\<rparr> \<and>
        map a_id rows = (if needs_approval r then [pd_approval_id dr] else []) \<and>
        (\<forall>a \<in> set rows. a_status a = ''pending'' \<and> a_decision_id a = pd_decision_id dr \<and> ge_approval_id r' = Some (a_id a)) \<and>
        ge_decision_id r' = Some (pd_decision_id dr)"
  using assms
proof (cases rule: persist_evaluation_cases)
  case (stored digest digests aid r')
  from stored(1) have dg: "digest = sha (json_canonical (PDict (request_payload q)))" by (simp add: digest_dump)
  from stored(5) show ?thesis
  proof (rule persist_records_Inr)
    fix rows
    assume r: "aid = (if needs_approval r then Some (pd_approval_id dr) else ge_approval_id r)"
      "if needs_approval r then \<exists>expires. add_seconds (pd_approval_at dr) ttl = Some expires \<and>
         rows = [approval_row (pd_approval_id dr) (pd_decision_id dr) (pd_approval_at dr) expires] else rows = []"
      "s' = s\<lparr>decisions := decisions s @ [decision_row (pd_decision_id dr) (pd_decided_at dr) (evaluation_decision r q rid digest digests)],
       approvals := approvals s @ rows, audit_meta := audit_meta s @ evaluation_events dr r q rid digest\<rparr>"
    have "map a_id rows = (if needs_approval r then [pd_approval_id dr] else [])"
      "\<forall>a \<in> set rows. a_status a = ''pending'' \<and> a_decision_id a = pd_decision_id dr \<and> ge_approval_id r' = Some (a_id a)"
      using r(1,2) by (auto simp: stored(4) approval_row_def split: if_splits)
    with r(3) stored(2-4) dg show ?thesis by auto
  qed
qed simp


subsection \<open>What a grant needs and does\<close>

definition pins_current :: "(string \<Rightarrow> string) \<Rightarrow> eval_request \<Rightarrow> decision_record \<Rightarrow> db \<Rightarrow> bool" where
  "pins_current sha q d s =
     (case fst (resolve_execution_capability_digests sha (q_agent q) (str_or (q_tenant_id q) (q_team q)) s) of
        Inl _ \<Rightarrow> False
      | Inr (agent, tools) \<Rightarrow> pins_agree agent (dr_agent_digest d) \<and> pins_agree tools (dr_tools_digest d))"

definition same_request :: "(string \<Rightarrow> string) \<Rightarrow> eval_request \<Rightarrow> decision_record \<Rightarrow> bool" where
  "same_request sha q d \<longleftrightarrow> approved_digest sha d \<noteq> Inr [] \<and>
     approved_digest sha d = compute_request_digest sha (request_dump q)"

definition grantable :: "(string \<Rightarrow> string) \<Rightarrow> string \<Rightarrow> eval_request \<Rightarrow> string \<Rightarrow> db \<Rightarrow> bool" where
  "grantable sha aid q policy_digest s =
     (case sql_fetch a_id aid (approvals s) of
        None \<Rightarrow> False
      | Some a \<Rightarrow> consumable a \<and>
          (case sql_fetch d_id (a_decision_id a) (decisions s) of
             None \<Rightarrow> False
           | Some row \<Rightarrow> (let d = decision_from_row row in
               same_request sha q d \<and> pins_agree policy_digest (dr_policy_digest d) \<and> pins_current sha q d s)))"

definition granted_db :: "grant_draws \<Rightarrow> string \<Rightarrow> string \<Rightarrow> eval_request \<Rightarrow> string \<Rightarrow> db \<Rightarrow> db" where
  "granted_db g aid did q digest s =
     s\<lparr>approvals := sql_update (\<lambda>r. a_id r = aid \<and> consumable r) (mark_consumed (gd_used_at g)) (approvals s),
       audit_meta := audit_meta s @ [audit_row_of (gd_event g) (gd_event_at g) did ''approval_consumed'' (request_actor q)
         [(''approval_id'', PStr aid), (''request_digest'', PStr digest)]]\<rparr>"

lemma use_approval_eq:
  assumes "db_up s" "db_ok s" "sql_fetch a_id aid (approvals s) = Some a" "consumable a" "did \<in> d_id ` set (decisions s)"
  shows "use_approval g aid did q digest s =
    (if gd_event g \<in> e_id ` set (audit_meta s) then (Inl StoreUnavailable, s) else (Inr True, granted_db g aid did q digest s))"
proof -
  have "sql_rowcount (\<lambda>r. a_id r = aid \<and> consumable r) (approvals s) = 1"
    using sql_rowcount_fetch [OF db_ok_keys(1) [OF assms(2)]] assms(3,4) by blast
  then have c: "consume_approval (gd_used_at g) aid s = (Inr True,
      s\<lparr>approvals := sql_update (\<lambda>r. a_id r = aid \<and> consumable r) (mark_consumed (gd_used_at g)) (approvals s)\<rparr>)"
    using assms(1) by (simp add: consume_approval_def)
  show ?thesis
    using assms(1,5)
    by (simp add: use_approval_def rollback_on_error_def bnd_def c append_audit_meta_def sql_insert_def granted_db_def
        audit_row_of_def ret_def)
qed

lemma keeps_use_approval: "keeps db_ok (use_approval g aid did q digest)"
  unfolding use_approval_def by (intro keeps_rollback keeps_bnd) (auto intro: keeps_db_ok)

lemma get_approval_any:
  assumes "db_up s"
  shows "get_approval t1 t2 aid None s =
    (Inr (sql_fetch a_id aid (approvals (expire_if_needed t1 t2 aid s))), expire_if_needed t1 t2 aid s)"
  using assms by (simp add: get_approval_def Let_def split: option.split)

lemma approved_unexpired:
  assumes "sql_fetch a_id aid (approvals (expire_if_needed t1 t2 aid s)) = Some a" "a_status a = ''approved''"
  shows "expire_if_needed t1 t2 aid s = s"
proof -
  from assms obtain r where r: "sql_fetch a_id aid (approvals s) = Some r" "a = (if due t1 r then mark_expired t2 r else r)"
    by (auto simp: expire_if_needed_fetch)
  with assms(2) have "\<not> due t1 r" by (auto split: if_splits)
  with r(1) show ?thesis by (simp add: expire_if_needed_due)
qed

lemma consumable_iff: "consumable a \<longleftrightarrow> \<not> (a_status a \<noteq> ''approved'' \<or> opt_str (a_used_at a) \<noteq> [])"
  by (cases "a_used_at a") (auto simp: consumable_def)

lemma consumable_unexpired:
  "sql_fetch a_id aid (approvals s) = Some a \<Longrightarrow> consumable a \<Longrightarrow> expire_if_needed t1 t2 aid s = s"
  by (auto simp: expire_if_needed_due due_def consumable_def)

lemma get_decision_any:
  "db_up s \<Longrightarrow> get_decision did None s = (Inr (map_option decision_from_row (sql_fetch d_id did (decisions s))), s)"
  by (simp add: get_decision_def Let_def split: option.split)

lemma consumableD: "consumable a \<Longrightarrow> a_status a = ''approved''" "consumable a \<Longrightarrow> opt_str (a_used_at a) = []"
  by (simp_all add: consumable_iff)

lemma grantableE:
  assumes "grantable sha aid q pd s"
  obtains a row where "sql_fetch a_id aid (approvals s) = Some a" "consumable a"
    "sql_fetch d_id (a_decision_id a) (decisions s) = Some row" "a_decision_id a \<in> d_id ` set (decisions s)"
    "same_request sha q (decision_from_row row)" "pins_agree pd (dr_policy_digest (decision_from_row row))"
    "pins_current sha q (decision_from_row row) s"
proof -
  obtain a where a: "sql_fetch a_id aid (approvals s) = Some a"
    using assms by (cases "sql_fetch a_id aid (approvals s)") (simp_all add: grantable_def)
  obtain row where row: "sql_fetch d_id (a_decision_id a) (decisions s) = Some row"
    using assms by (cases "sql_fetch d_id (a_decision_id a) (decisions s)") (simp_all add: grantable_def a)
  have "a_decision_id a \<in> d_id ` set (decisions s)"
    using row sql_fetch_None [of d_id "a_decision_id a" "decisions s"] by simp
  with assms row show thesis by (intro that [OF a _ row]) (simp_all add: grantable_def a Let_def)
qed

lemma grant_uses:
  assumes "db_up s" "grantable sha aid q pd s" "sql_fetch a_id aid (approvals s) = Some a"
  shows "approval_grants_allow sha g aid q pd s =
    use_approval g aid (a_decision_id a) q (sha (json_canonical (PDict (request_payload q)))) s"
proof -
  from assms(2) obtain row where row: "sql_fetch d_id (a_decision_id a) (decisions s) = Some row"
    and same: "same_request sha q (decision_from_row row)" "pins_agree pd (dr_policy_digest (decision_from_row row))"
      "pins_current sha q (decision_from_row row) s" and a: "consumable a"
    by (rule grantableE) (simp add: assms(3))
  obtain ag tl where digests: "resolve_execution_capability_digests sha (q_agent q) (str_or (q_tenant_id q) (q_team q)) s = (Inr (ag, tl), s)"
    using resolve_digests_up [OF assms(1)] by (metis prod.collapse)
  have pins: "pins_agree ag (dr_agent_digest (decision_from_row row))" "pins_agree tl (dr_tools_digest (decision_from_row row))"
    using same(3) by (simp_all add: pins_current_def digests)
  have id: "dr_decision_id (decision_from_row row) = a_decision_id a"
    using sql_fetch_Some_in [OF row] by (simp add: decision_from_row_def)
  have app: "approved_digest sha (decision_from_row row) = Inr (sha (json_canonical (PDict (request_payload q))))"
    "sha (json_canonical (PDict (request_payload q))) \<noteq> []"
    using same(1) by (auto simp: same_request_def digest_dump)
  show ?thesis
    unfolding approval_grants_allow_def
    by (simp add: bnd_def get_approval_any [OF assms(1)] consumable_unexpired [OF assms(3) a] assms(3)
        consumableD [OF a] get_decision_any [OF assms(1)] row digest_dump app same(2) digests pins id)
qed

lemma grant_refused:
  assumes "db_up s" "\<not> grantable sha aid q pd s"
  shows "fst (approval_grants_allow sha g aid q pd s) \<noteq> Inr True"
proof (cases "sql_fetch a_id aid (approvals (expire_if_needed (gd_read_at g) (gd_expired_at g) aid s))")
  case None
  then show ?thesis by (simp add: approval_grants_allow_def bnd_def get_approval_any [OF assms(1)] ret_def)
next
  case (Some a)
  show ?thesis
  proof (cases "consumable a")
    case False
    then show ?thesis
      using Some by (simp add: approval_grants_allow_def bnd_def get_approval_any [OF assms(1)] ret_def consumable_iff)
  next
    case True
    then have e: "expire_if_needed (gd_read_at g) (gd_expired_at g) aid s = s"
      using approved_unexpired [OF Some] by (simp add: consumable_def)
    note a = Some [unfolded e]
    obtain ag tl where digests: "resolve_execution_capability_digests sha (q_agent q) (str_or (q_tenant_id q) (q_team q)) s = (Inr (ag, tl), s)"
      using resolve_digests_up [OF assms(1)] by (metis prod.collapse)
    show ?thesis
    proof (cases "sql_fetch d_id (a_decision_id a) (decisions s)")
      case None
      then show ?thesis
        by (simp add: approval_grants_allow_def bnd_def get_approval_any [OF assms(1)] e a consumableD [OF True]
            get_decision_any [OF assms(1)] ret_def)
    next
      case (Some row)
      have "\<not> (same_request sha q (decision_from_row row) \<and> pins_agree pd (dr_policy_digest (decision_from_row row)) \<and>
          pins_agree ag (dr_agent_digest (decision_from_row row)) \<and> pins_agree tl (dr_tools_digest (decision_from_row row)))"
        using assms(2) a True Some by (simp add: grantable_def Let_def pins_current_def digests)
      then show ?thesis
        by (auto simp: approval_grants_allow_def bnd_def get_approval_any [OF assms(1)] e a consumableD [OF True]
            get_decision_any [OF assms(1)] Some ret_def throw_def digest_dump digests same_request_def split: sum.splits if_splits)
    qed
  qed
qed

lemma grant_step:
  assumes "db_up s" "db_ok s"
  shows "fst (approval_grants_allow sha g aid q pd s) = Inr True \<longleftrightarrow>
      grantable sha aid q pd s \<and> gd_event g \<notin> e_id ` set (audit_meta s)"
    and "fst (approval_grants_allow sha g aid q pd s) = Inr True \<Longrightarrow>
      snd (approval_grants_allow sha g aid q pd s) = granted_db g aid (a_decision_id (the (sql_fetch a_id aid (approvals s)))) q
        (sha (json_canonical (PDict (request_payload q)))) s"
proof -
  let ?digest = "sha (json_canonical (PDict (request_payload q)))"
  have "approval_grants_allow sha g aid q pd s = (if gd_event g \<in> e_id ` set (audit_meta s) then (Inl StoreUnavailable, s)
      else (Inr True, granted_db g aid (a_decision_id (the (sql_fetch a_id aid (approvals s)))) q ?digest s))"
    if g: "grantable sha aid q pd s"
  proof -
    from g obtain a where a: "sql_fetch a_id aid (approvals s) = Some a" "consumable a"
      "a_decision_id a \<in> d_id ` set (decisions s)"
      by (rule grantableE)
    show ?thesis
      unfolding grant_uses [OF assms(1) g a(1)] using use_approval_eq [OF assms a] by (simp add: a(1))
  qed
  then show "fst (approval_grants_allow sha g aid q pd s) = Inr True \<longleftrightarrow>
      grantable sha aid q pd s \<and> gd_event g \<notin> e_id ` set (audit_meta s)"
    "fst (approval_grants_allow sha g aid q pd s) = Inr True \<Longrightarrow>
      snd (approval_grants_allow sha g aid q pd s) = granted_db g aid (a_decision_id (the (sql_fetch a_id aid (approvals s)))) q ?digest s"
    using grant_refused [OF assms(1)] by (fastforce split: if_splits)+
qed


text \<open>C5: a grant is used up. Once an approval has let a request pass, no request passes with it again, at no
  later time and in no interleaving with other sessions, unless an approval with its id is created anew.\<close>

theorem grant_used_once:
  assumes "approval_grants_allow sha g aid q pd s = (Inr True, s')" "db_up s" "db_ok s" "store_run s' ls s''" "db_up s''"
    "Created aid \<notin> set ls"
  shows "fst (approval_grants_allow sha g' aid q' pd' s'') \<noteq> Inr True"
proof -
  have s': "s' = granted_db g aid (a_decision_id (the (sql_fetch a_id aid (approvals s)))) q
      (sha (json_canonical (PDict (request_payload q)))) s" and g: "grantable sha aid q pd s"
    using grant_step [OF assms(2,3), of sha g aid q pd] assms(1) by simp_all
  from g obtain a where a: "sql_fetch a_id aid (approvals s) = Some a" "consumable a" by (rule grantableE)
  have f: "sql_fetch a_id aid (approvals s') = Some (mark_consumed (gd_used_at g) a)"
    using a by (auto simp: s' granted_db_def consumed.fetch_update dest: sql_fetch_Some_in)
  have "snd (use_approval g aid (a_decision_id a) q (sha (json_canonical (PDict (request_payload q)))) s) = s'"
    using assms(1) by (simp add: grant_uses [OF assms(2) g a(1)])
  then have ok: "db_ok s'" using keepsD [OF keeps_use_approval assms(3)] by metis
  show ?thesis
  proof (rule grant_refused [OF assms(5)])
    show "\<not> grantable sha aid q' pd' s''"
    proof (cases "sql_fetch a_id aid (approvals s'')")
      case (Some b)
      have "b = mark_consumed (gd_used_at g) a"
        by (rule final_row_frozen [OF assms(4) ok assms(6) f _ Some]) (simp add: appr_final_def)
      then show ?thesis by (simp add: grantable_def Some consumable_def)
    qed (simp add: grantable_def)
  qed
qed

subsection \<open>From the evaluation to the grant\<close>

lemma resolve_digests_cong:
  assumes "db_up s" "db_up s'" "capability_contracts s' = capability_contracts s"
  shows "fst (resolve_execution_capability_digests sha agent tenant s') = fst (resolve_execution_capability_digests sha agent tenant s)"
  using assms by (simp add: resolve_digests_eq pinned_tools_def pinned_agent_def active_contracts_def)

lemma evaluate_governance_digests:
  assumes "evaluate_governance_request sha mac env policy now t bundle q s = (Inr r, s')"
  obtains ag tl where "s' = s" "resolve_execution_capability_digests sha (q_agent q) (str_or (q_tenant_id q) (q_team q)) s = (Inr (ag, tl), s)"
    "ge_agent_digest r = non_empty ag" "ge_tools_digest r = non_empty tl" "ge_policy_digest r = Some (pb_digest bundle)"
    "ge_approval_id r = None"
proof -
  obtain c x where c: "pb_configs bundle = Some c" "run_stages mac env policy t (to_pipeline_row now q) c = Inr x" "pb_status bundle = ''ok''"
    using evaluate_governance_Inr [OF assms] by metis
  obtain v rs where v: "response_verdict t x = (v, rs)" by (cases "response_verdict t x")
  let ?d = "resolve_execution_capability_digests sha (q_agent q) (str_or (q_tenant_id q) (q_team q))"
  have "bnd ?d (\<lambda>(ag, tl). if \<not> tier_ok (sg_tier x) then throw (ValueError ''risk_tier'')
      else ret \<lparr>ge_verdict = v, ge_pack = pk_pack (sg_pre x), ge_reasons = rs, ge_stages = stages_value x, ge_telemetry = t,
        ge_decision_id = None, ge_bundle_id = Some (pb_id bundle), ge_policy_digest = Some (pb_digest bundle),
        ge_agent_digest = non_empty ag, ge_tools_digest = non_empty tl, ge_approval_id = None\<rparr>) s = (Inr r, s')"
    using assms by (simp add: evaluate_governance_request_def c v)
  then obtain ag tl s1 where "?d s = (Inr (ag, tl), s1)" "s' = s1" "ge_agent_digest r = non_empty ag" "ge_tools_digest r = non_empty tl"
    "ge_policy_digest r = Some (pb_digest bundle)" "ge_approval_id r = None"
    by (auto elim!: bnd_InrE simp: ret_def throw_def split: if_splits)
  moreover have "s1 = s" using calculation(1) resolve_digests_unchanged [of sha "q_agent q" "str_or (q_tenant_id q) (q_team q)" s] by simp
  ultimately show thesis using that by simp
qed

lemma opt_str_non_empty [simp]: "opt_str (non_empty t) = t"
  by (simp add: non_empty_def)

text \<open>C6: the approval workflow reaches its goal. When an evaluation asked for an approval, was stored, and another
  person approved it, then the next request with the same bound fields, under the same policy, is let pass.
  (The ids drawn are new and SHA-256 is never empty.)\<close>

theorem approved_request_is_granted:
  assumes "evaluate_governance_request sha mac env policy now t bundle q s = (Inr r, s0)" "ge_verdict r = ''approval_required''"
    and "persist_evaluation sha ttl dr r q rid s0 = (Inr r', s1)" "db_ok s"
    and "resolve_approval t1 t2 t3 (pd_approval_id dr) ''approved'' reviewer comment tenant forbid s1 = (Inr row, s2)"
    and "authorized q' = authorized q" "gd_event g \<notin> e_id ` set (audit_meta s2)" "sha (json_canonical (PDict (request_payload q))) \<noteq> []"
  shows "fst (approval_grants_allow sha g (pd_approval_id dr) q' (pb_digest bundle) s2) = Inr True"
proof -
  obtain ag tl where r: "s0 = s" "resolve_execution_capability_digests sha (q_agent q) (str_or (q_tenant_id q) (q_team q)) s = (Inr (ag, tl), s)"
    "ge_agent_digest r = non_empty ag" "ge_tools_digest r = non_empty tl" "ge_policy_digest r = Some (pb_digest bundle)" "ge_approval_id r = None"
    by (rule evaluate_governance_digests [OF assms(1)])
  have n: "needs_approval r" using assms(2) r(6) by (simp add: needs_approval_def)
  from assms(3) obtain aid where p: "persist_records ttl dr r q rid (sha (json_canonical (PDict (request_payload q)))) (ag, tl) s =
      (Inr (pd_decision_id dr, aid), s1)"
  proof (cases rule: persist_evaluation_cases)
    case (stored digest digests aid r')
    have "digests = (ag, tl)" using stored(2) r(2-4) by (auto simp: evaluation_digests_def r(1) ret_def split: if_splits)
    with stored(1,5) r(1) that show thesis by (simp add: digest_dump)
  qed simp
  let ?row = "decision_row (pd_decision_id dr) (pd_decided_at dr)
    (evaluation_decision r q rid (sha (json_canonical (PDict (request_payload q)))) (ag, tl))"
  from p obtain expires where s1: "approvals s1 = approvals s @ [approval_row (pd_approval_id dr) (pd_decision_id dr) (pd_approval_at dr) expires]"
      "decisions s1 = decisions s @ [?row]" "capability_contracts s1 = capability_contracts s" "db_up s1 = db_up s"
    and new: "pd_decision_id dr \<notin> d_id ` set (decisions s)" "pd_approval_id dr \<notin> a_id ` set (approvals s)"
    by (rule persist_records_Inr) (auto simp: n)
  have up: "db_up s" using assms(5) s1(4) by (auto simp: resolve_approval_def throw_def split: if_splits)
  have ok: "db_ok s1" using keepsD [OF keeps_persist_records assms(4)] p by (metis snd_conv)
  have old: "sql_fetch a_id (pd_approval_id dr) (approvals s1) = Some (approval_row (pd_approval_id dr) (pd_decision_id dr) (pd_approval_at dr) expires)"
    using new(2) by (simp add: s1 sql_fetch_append sql_fetch_None [THEN iffD2] approval_row_def)
  obtain a where a: "sql_fetch a_id (pd_approval_id dr) (approvals s2) = Some a" "consumable a" "a_decision_id a = pd_decision_id dr"
    and s2: "decisions s2 = decisions s1" "capability_contracts s2 = capability_contracts s1" "db_up s2 = db_up s1"
    using resolve_effect [OF assms(5) ok] old
    by (auto simp: consumable_def approval_row_def) (metis db.select_convs db.surjective db.update_convs)+
  have d: "sql_fetch d_id (pd_decision_id dr) (decisions s2) = Some ?row"
    using new(1) by (simp add: s1 s2 sql_fetch_append sql_fetch_None [THEN iffD2] decision_row_def)
  have same: "request_payload q' = request_payload q" using assms(6) by (simp add: payload_authorized)
  have "q_agent q' = q_agent q" "str_or (q_tenant_id q') (q_team q') = str_or (q_tenant_id q) (q_team q)"
    using assms(6) by (auto simp: authorized_def eval_request.ext_inject dest: arg_cong [where f = q_agent] arg_cong [where f = q_tenant_id])
  then have "grantable sha (pd_approval_id dr) q' (pb_digest bundle) s2"
    using a d assms(8) r(2,5) resolve_digests_cong [of s s2] up s1(3,4) s2(2,3)
    by (simp add: grantable_def same_request_def approved_digest_def digest_dump same pins_current_def decision_from_row_def
        decision_row_def evaluation_decision_def pins_agree_def)
  moreover have "db_ok s2" using keepsD [OF keeps_db_ok_resolve ok] assms(5) by (metis snd_conv)
  ultimately show ?thesis using grant_step(1) [of s2] up s1(4) s2(3) assms(7) by blast
qed

text \<open>A small database in which approval \<open>a1\<close> is approved, and the grant of it.\<close>

definition demo_grant :: grant_draws where
  "demo_grant = \<lparr>gd_read_at = 0, gd_expired_at = 0, gd_used_at = 7, gd_event = ''e1'', gd_event_at = 8\<rparr>"

lemma demo_grantable: "grantable (\<lambda>_. ''rq'') ''a1'' default_request ''pd'' (demo_db ''approved'')"
  by (simp add: grantable_def demo_fetch consumable_def demo_approval_def demo_decision_def same_request_def approved_digest_def
      digest_dump decision_from_row_def pins_agree_def pins_current_def resolve_digests_eq pinned_tools_def)


theorem grant_used_once_witness:
  "\<exists>s'. approval_grants_allow (\<lambda>_. ''rq'') demo_grant ''a1'' default_request ''pd'' (demo_db ''approved'') = (Inr True, s') \<and>
     fst (approval_grants_allow (\<lambda>_. ''rq'') demo_grant ''a1'' default_request ''pd'' s') \<noteq> Inr True"
proof -
  have "fst (approval_grants_allow (\<lambda>_. ''rq'') demo_grant ''a1'' default_request ''pd'' (demo_db ''approved'')) = Inr True"
    using grant_step(1) [of "demo_db ''approved''"] demo_grantable demo_db_ok
    by (simp add: demo_fetch) (simp add: demo_defs demo_grant_def)
  then obtain s' where s': "approval_grants_allow (\<lambda>_. ''rq'') demo_grant ''a1'' default_request ''pd'' (demo_db ''approved'') = (Inr True, s')"
    by (metis prod.collapse)
  then have "db_up s'"
    using grant_step(2) [of "demo_db ''approved''" "\<lambda>_. ''rq''" demo_grant "''a1''" default_request "''pd''"] demo_db_ok
    by (simp add: demo_fetch granted_db_def)
  from grant_used_once [OF s' demo_fetch(4) demo_db_ok run_nil this] s' show ?thesis by auto
qed

text \<open>A store that has none of the drawn ids takes the records.\<close>

lemma persist_records_new:
  assumes "needs_approval r" "db_up s" "add_seconds (pd_approval_at dr) ttl = Some expires"
    "pd_decision_id dr \<notin> d_id ` set (decisions s)" "pd_approval_id dr \<notin> a_id ` set (approvals s)"
    "pd_created_event dr \<notin> e_id ` set (audit_meta s)" "pd_recorded_event dr \<notin> e_id ` set (audit_meta s)"
    "pd_created_event dr \<noteq> pd_recorded_event dr"
  shows "persist_records ttl dr r q rid digest digests s = (Inr (pd_decision_id dr, Some (pd_approval_id dr)),
    s\<lparr>decisions := decisions s @ [decision_row (pd_decision_id dr) (pd_decided_at dr) (evaluation_decision r q rid digest digests)],
      approvals := approvals s @ [approval_row (pd_approval_id dr) (pd_decision_id dr) (pd_approval_at dr) expires],
      audit_meta := audit_meta s @ evaluation_events dr r q rid digest\<rparr>)"
proof -
  have n: "ge_verdict r = ''approval_required'' \<and> opt_str (ge_approval_id r) = []"
    using assms(1) by (simp add: needs_approval_def)
  show ?thesis
    unfolding persist_records_def if_P [OF n] using assms(2-8)
    by (simp add: bnd_def create_decision_def create_approval_def append_audit_meta_def sql_insert_def decision_row_def approval_row_def
        ret_def evaluation_events_def assms(1) audit_row_of_def text_or_none_def)
qed

definition demo_draws :: persist_draws where
  "demo_draws = \<lparr>pd_decision_id = ''d1'', pd_decided_at = 0, pd_approval_id = ''a1'', pd_approval_at = 0, pd_created_event = ''e1'',
     pd_created_at = 0, pd_recorded_event = ''e2'', pd_recorded_at = 0\<rparr>"

definition demo_missing :: telemetry where
  "demo_missing = \<lparr>tl_quota_source = ''unavailable'', tl_requests_last_minute = 0, tl_tokens_today = 0,
    tl_prometheus_enabled = False, tl_gateway_p95_latency_ms = None, tl_gateway_error_rate = None, tl_governance_block_rate = None,
    tl_tenant_request_rate = None, tl_prometheus_errors = [], tl_block_reasons = []\<rparr>"

text \<open>With the quota backend down and the policy to ask, the request of the example needs an approval.\<close>

lemma demo_asks:
  obtains r where "evaluate_governance_request sha demo_mac demo_signing ''approval_required'' [] (Some demo_missing) demo_bundle_ok demo_request empty_db
      = (Inr r, empty_db)" "ge_verdict r = ''approval_required''" "ge_approval_id r = None"
proof -
  have m: "quota_missing (Some demo_missing)" by (simp add: quota_missing_def demo_missing_def)
  obtain x where x: "run_stages demo_mac demo_signing ''approval_required'' (Some demo_missing) (to_pipeline_row [] demo_request) demo_configs = Inr x"
    "\<not> some_block x" "some_review x" "tier_ok (sg_tier x)"
    using demo_run [of "Some demo_missing" "''approval_required''" demo_mac demo_signing] m by (auto simp: demo_configs_quota)
  obtain rs where v: "response_verdict (Some demo_missing) x = (''approval_required'', rs)"
    using response_verdict_cases [of "Some demo_missing" x] x(2,3)
    by (cases "response_verdict (Some demo_missing) x") (simp add: final_verdict_cases demo_missing_def)
  have digests: "resolve_execution_capability_digests sha [] ''platform'' empty_db = (Inr ([], []), empty_db)" by code_simp
  from that show thesis
    by (simp add: evaluate_governance_request_def demo_bundle_ok_def x v bnd_def)
      (simp add: demo_request_def digests ret_def)
qed

lemma empty_up: "db_up empty_db"
  by (simp add: empty_db_def)

lemma demo_added: "add_seconds 0 3600 = Some 3600000000"
  by code_simp

definition demo_stored_db :: "governance_response \<Rightarrow> string \<times> string \<Rightarrow> db" where
  "demo_stored_db r digests = empty_db\<lparr>
     decisions := [decision_row ''d1'' 0 (evaluation_decision r demo_request ''q1'' ''rq'' digests)],
     approvals := [approval_row ''a1'' ''d1'' 0 3600000000],
     audit_meta := evaluation_events demo_draws r demo_request ''q1'' ''rq''\<rparr>"

lemma demo_stored:
  assumes "needs_approval r"
  obtains digests r' where "persist_evaluation (\<lambda>_. ''rq'') 3600 demo_draws r demo_request ''q1'' empty_db = (Inr r', demo_stored_db r digests)"
proof -
  obtain digests where d: "evaluation_digests (\<lambda>_. ''rq'') r demo_request empty_db = (Inr digests, empty_db)"
    using evaluation_digests_up [OF empty_up] by blast
  have "persist_records 3600 demo_draws r demo_request ''q1'' ''rq'' digests empty_db = (Inr (''d1'', Some ''a1''), demo_stored_db r digests)"
    using persist_records_new [OF assms empty_up, of demo_draws 3600 3600000000] demo_added
    by (simp add: demo_draws_def demo_stored_db_def) (simp add: empty_db_def)
  then have rb: "rollback_on_error (persist_records 3600 demo_draws r demo_request ''q1'' ''rq'' digests) empty_db = (Inr (''d1'', Some ''a1''), demo_stored_db r digests)"
    by simp
  show thesis by (rule that) (simp add: persist_evaluation_def digest_dump bnd_def d ret_def rb)
qed

theorem evaluation_stored_atomically_witness:
  "\<exists>r r' s'. ge_verdict r = ''approval_required'' \<and>
     persist_evaluation (\<lambda>_. ''rq'') 3600 demo_draws r demo_request ''q1'' empty_db = (Inr r', s') \<and>
     map a_status (approvals s') = [''pending'']"
proof -
  obtain r where r: "evaluate_governance_request (\<lambda>_. ''rq'') demo_mac demo_signing ''approval_required'' [] (Some demo_missing) demo_bundle_ok
      demo_request empty_db = (Inr r, empty_db)" "ge_verdict r = ''approval_required''" "ge_approval_id r = None" by (rule demo_asks)
  then have n: "needs_approval r" by (simp add: needs_approval_def)
  obtain digests r' where p: "persist_evaluation (\<lambda>_. ''rq'') 3600 demo_draws r demo_request ''q1'' empty_db = (Inr r', demo_stored_db r digests)"
    by (rule demo_stored [OF n])
  from evaluation_stored_atomically [OF p] n have "map a_status (approvals (demo_stored_db r digests)) = [''pending'']"
    by (auto simp: demo_stored_db_def approval_row_def)
  with r p show ?thesis by auto
qed

text \<open>The workflow on the empty store: asked, stored, approved by another person, granted.\<close>

theorem approved_request_is_granted_witness:
  "\<exists>s2. fst (approval_grants_allow (\<lambda>_. ''rq'') (demo_grant\<lparr>gd_event := ''e3''\<rparr>) ''a1'' demo_request (pb_digest demo_bundle_ok) s2) = Inr True"
proof -
  let ?sha = "\<lambda>_ :: string. ''rq''"
  obtain r where r: "evaluate_governance_request ?sha demo_mac demo_signing ''approval_required'' [] (Some demo_missing) demo_bundle_ok demo_request empty_db
      = (Inr r, empty_db)" "ge_verdict r = ''approval_required''" "ge_approval_id r = None" by (rule demo_asks)
  then have n: "needs_approval r" by (simp add: needs_approval_def)
  obtain digests r' where p: "persist_evaluation ?sha 3600 demo_draws r demo_request ''q1'' empty_db = (Inr r', demo_stored_db r digests)"
    by (rule demo_stored [OF n])
  let ?s1 = "demo_stored_db r digests" and ?row = "decision_row ''d1'' 0 (evaluation_decision r demo_request ''q1'' ''rq'' digests)"
  have f: "sql_fetch a_id ''a1'' (approvals ?s1) = Some (approval_row ''a1'' ''d1'' 0 3600000000)"
    "sql_fetch d_id ''d1'' (decisions ?s1) = Some ?row" "db_up ?s1"
    by (simp_all add: demo_stored_db_def sql_fetch_def approval_row_def decision_row_def empty_db_def)
  have "d_subject ?row = ''bob''" "owner_tenant ?row = ''platform''"
    by (simp_all add: decision_row_def evaluation_decision_def demo_request_def owner_tenant_def, code_simp)
  then have g: "resolve_guard ''a1'' ''carol'' (Some ''platform'') True ?s1 = None"
    by (simp add: resolve_guard_def f requester_of_def self_approval_def) (simp add: approval_row_def f, code_simp)
  have "expire_if_needed 0 0 ''a1'' ?s1 = ?s1"
    by (simp add: expire_if_needed_due f due_def approval_row_def parse_isoformat demo_limit)
  then obtain row s2 where s2: "resolve_approval 0 0 5 ''a1'' ''approved'' ''carol'' [] (Some ''platform'') True ?s1 = (Inr row, s2)"
    "audit_meta s2 = audit_meta ?s1"
    using g f(1,3)
    by (simp add: resolve_cases resolve_commit_def Let_def)
      (simp add: demo_stored_db_def sql_rowcount_def sql_update_def sql_fetch_def pending_row_def approval_row_def mark_resolved_def)
  have ids: "pd_approval_id demo_draws = ''a1''" by (simp add: demo_draws_def)
  have new: "gd_event (demo_grant\<lparr>gd_event := ''e3''\<rparr>) \<notin> e_id ` set (audit_meta s2)"
    by (simp add: s2(2) demo_stored_db_def demo_draws_def evaluation_events_def audit_row_of_def n Let_def)
  from approved_request_is_granted [OF r(1,2) p db_ok_empty s2(1) [folded ids] refl new] show ?thesis by (auto simp: ids)
qed

end
