(* ===== verification/Approval_Api.thy ===== *)
theory Approval_Api
  imports Access Durable_Governance
begin

text \<open>
  The approval endpoints (\<open>routers/approvals.py\<close>): the tenant scope of the caller, the identity of the reviewer, the
  call of the store, the audit event, and exceptions as HTTP answers.
\<close>

subsection \<open>Exceptions as answers\<close>

definition lift_result :: "'a result \<Rightarrow> ('s, 'a) opn" where
  "lift_result r = (case r of Inl e \<Rightarrow> throw e | Inr x \<Rightarrow> ret x)"

definition rethrow :: "(exn \<Rightarrow> exn) \<Rightarrow> ('s, 'a) opn \<Rightarrow> ('s, 'a) opn" where
  "rethrow f m s = (case m s of (Inl e, s') \<Rightarrow> (Inl (f e), s') | (Inr x, s') \<Rightarrow> (Inr x, s'))"

lemma lift_result_apply [simp]: "lift_result r s = (r, s)"
  by (cases r) (simp_all add: lift_result_def throw_def ret_def)

lemma rethrow_Inr [simp]: "rethrow f m s = (Inr x, s') \<longleftrightarrow> m s = (Inr x, s')"
  by (auto simp: rethrow_def split: prod.splits sum.splits)

lemma rethrow_state [simp]: "snd (rethrow f m s) = snd (m s)"
  by (simp add: rethrow_def split: prod.split sum.split)

definition store_unavailable :: exn where
  "store_unavailable = HttpError 503 ''authoritative store unavailable''"

definition http_503 :: "exn \<Rightarrow> exn" where
  "http_503 e = (case e of StoreUnavailable \<Rightarrow> store_unavailable | _ \<Rightarrow> e)"

text \<open>\<open>str(exc)\<close> of a \<open>KeyError\<close> is the representation of its key. \<open>RemediationError\<close> is a \<open>ValueError\<close>.\<close>

definition http_resolve :: "exn \<Rightarrow> exn" where
  "http_resolve e =
     (case e of StoreUnavailable \<Rightarrow> store_unavailable | PermissionError m \<Rightarrow> HttpError 403 m | KeyError m \<Rightarrow> HttpError 404 (str_repr m)
      | ValueError m \<Rightarrow> HttpError 409 m | RemediationError m \<Rightarrow> HttpError 409 m | _ \<Rightarrow> e)"

subsection \<open>Scope and reviewer\<close>

definition tenant_scope :: "access_env \<Rightarrow> bool \<Rightarrow> names \<Rightarrow> string option result" where
  "tenant_scope ac isolation headers =
     (if \<not> isolation then Inr None
      else rbind (map_error http_auth (resolve_request_tenant ac headers)) (\<lambda>tenant.
        if tenant = [] then Inl (HttpError 400 ''tenant required'') else Inr (Some tenant)))"

definition reviewer_of_request :: "access_env \<Rightarrow> names \<Rightarrow> string \<Rightarrow> string result" where
  "reviewer_of_request ac headers body_reviewer = map_error http_auth (resolve_approver_identity ac headers body_reviewer)"

subsection \<open>The endpoints\<close>

definition api_list_approvals ::
  "access_env \<Rightarrow> bool \<Rightarrow> names \<Rightarrow> instant \<Rightarrow> string \<Rightarrow> int \<Rightarrow> int \<Rightarrow> (db, appr_row page) opn" where
  "api_list_approvals ac isolation headers now status limit offset =
     bnd (lift_result (tenant_scope ac isolation headers)) (\<lambda>tenant.
       rethrow http_503 (list_approvals now status limit offset tenant))"

definition api_get_approval :: "access_env \<Rightarrow> bool \<Rightarrow> names \<Rightarrow> instant \<Rightarrow> instant \<Rightarrow> string \<Rightarrow> (db, appr_row) opn" where
  "api_get_approval ac isolation headers t1 t2 aid =
     bnd (lift_result (tenant_scope ac isolation headers)) (\<lambda>tenant.
     bnd (rethrow http_503 (get_approval t1 t2 aid tenant)) (\<lambda>rec.
       case rec of None \<Rightarrow> throw (HttpError 404 ''approval not found'') | Some r \<Rightarrow> ret r))"

record api_draws =
  ad_expiry_read :: instant
  ad_expiry_write :: instant
  ad_resolved_at :: instant
  ad_event :: string
  ad_event_at :: instant

definition tenant_value :: "string option \<Rightarrow> pyval" where
  "tenant_value t = (case t of None \<Rightarrow> PNone | Some x \<Rightarrow> PStr x)"

text \<open>Approve and reject: the decision of the store and the audit event are two transactions.\<close>

definition api_resolve ::
  "access_env \<Rightarrow> bool \<Rightarrow> names \<Rightarrow> api_draws \<Rightarrow> string \<Rightarrow> string \<Rightarrow> string \<Rightarrow> string \<Rightarrow> (db, appr_row) opn" where
  "api_resolve ac isolation headers g aid status body_reviewer comment =
     bnd (lift_result (tenant_scope ac isolation headers)) (\<lambda>tenant.
     bnd (lift_result (reviewer_of_request ac headers body_reviewer)) (\<lambda>reviewer.
       rethrow http_resolve
         (bnd (resolve_approval (ad_expiry_read g) (ad_expiry_write g) (ad_resolved_at g) aid status reviewer comment tenant True)
           (\<lambda>rec. bnd (append_audit_meta (ad_event g) (ad_event_at g) (a_decision_id rec) (''approval_'' @ status) reviewer
               [(''approval_id'', PStr aid), (''comment'', PStr comment), (''tenant_id'', tenant_value tenant)])
             (\<lambda>_. ret rec)))))"

definition approve_request :: "access_env \<Rightarrow> bool \<Rightarrow> names \<Rightarrow> api_draws \<Rightarrow> string \<Rightarrow> string \<Rightarrow> string \<Rightarrow> (db, appr_row) opn" where
  "approve_request ac isolation headers g aid body_reviewer comment =
     api_resolve ac isolation headers g aid ''approved'' body_reviewer comment"

definition reject_request :: "access_env \<Rightarrow> bool \<Rightarrow> names \<Rightarrow> api_draws \<Rightarrow> string \<Rightarrow> string \<Rightarrow> string \<Rightarrow> (db, appr_row) opn" where
  "reject_request ac isolation headers g aid body_reviewer comment =
     api_resolve ac isolation headers g aid ''rejected'' body_reviewer comment"

definition http_decision :: "exn \<Rightarrow> exn" where
  "http_decision e = (case e of StoreUnavailable \<Rightarrow> store_unavailable | KeyError _ \<Rightarrow> HttpError 404 ''decision not found'' | _ \<Rightarrow> e)"

definition api_get_decision :: "access_env \<Rightarrow> bool \<Rightarrow> names \<Rightarrow> string \<Rightarrow> (db, pyobj) opn" where
  "api_get_decision ac isolation headers did =
     bnd (lift_result (tenant_scope ac isolation headers)) (\<lambda>tenant.
       rethrow http_decision (decision_to_dict did tenant))"

definition policy_bundle_status :: "policy_bundle \<Rightarrow> pyobj" where
  "policy_bundle_status b =
     [(''bundle_id'', PStr (pb_id b)), (''git_revision'', PStr (pb_revision b)), (''content_digest'', PStr (pb_digest b)),
      (''loaded_at'', PStr (pb_loaded_at b)), (''validation_status'', PStr (pb_status b)),
      (''error'', case pb_error b of None \<Rightarrow> PNone | Some e \<Rightarrow> PStr e)]"

subsection \<open>Four eyes\<close>

lemma scope_isolated:
  assumes "tenant_scope ac True headers = Inr tenant"
  obtains t where "tenant = Some t" "t \<noteq> []" "resolve_request_tenant ac headers = Inr t"
  using assms by (auto simp: tenant_scope_def rbind_Inr split: if_splits)


text \<open>The two names that are compared come from different claims: the requester is recorded under \<open>sub\<close> (or
  \<open>email\<close>), the reviewer under \<open>preferred_username\<close> (or \<open>sub\<close>). One token with both names passes for two persons.\<close>

lemma self_approval_missed:
  assumes "claim_text claims [''sub'', ''email''] = sub" "claim_text claims [''preferred_username'', ''sub''] = user"
    "py_lower (py_strip user) \<noteq> py_lower sub" "py_strip (d_subject d) = sub" "sub \<noteq> []"
  shows "\<not> self_approval (requester_of (Some d)) user"
  using assms by (simp add: self_approval_def requester_of_def Let_def)

definition demo_approver :: access_env where
  "demo_approver = \<lparr>ac_env = [(''OIDC_JWT_VERIFY'', ''true''), (''OIDC_JWKS_URL'', ''u'')],
     tk_verified = (\<lambda>t. if t = ''tok'' then Some [(''sub'', PStr ''bob''), (''tenant'', PStr ''acme''), (''groups'', PList [PStr ''secops''])] else None),
     tk_unsigned = (\<lambda>_. None)\<rparr>"


end
