(* ===== verification/Remediation_Store.thy ===== *)
theory Remediation_Store
  imports Approval_Spec
begin

text \<open>
  Remediation proposals in \<open>DecisionStore\<close> (\<open>decision_store.py\<close>): create, get, list and the partial
  update. A \<open>rem_row\<close> is also the record handed out (\<open>_remediation_from_row\<close>): its JSON columns are
  modelled by their values.
\<close>

definition proposal_row ::
  "string \<Rightarrow> instant \<Rightarrow> string \<Rightarrow> string \<Rightarrow> string \<Rightarrow> string \<Rightarrow> pyobj \<Rightarrow> pyobj \<Rightarrow> rem_row" where
  "proposal_row pid now tenant status source kind drift action =
     \<lparr>p_id = pid, p_tenant_id = tenant, p_status = status, p_source = source, p_kind = kind, p_drift = drift,
      p_action = action, p_decision_id = None, p_approval_id = None, p_verdict = None, p_pr_title = None,
      p_pr_body = None, p_pr_url = None, p_applied_at = None, p_verification = None, p_failure = None,
      p_created_at = isoformat now, p_updated_at = isoformat now\<rparr>"

definition create_remediation_proposal ::
  "string \<Rightarrow> instant \<Rightarrow> string \<Rightarrow> string \<Rightarrow> string \<Rightarrow> string \<Rightarrow> pyobj \<Rightarrow> pyobj \<Rightarrow> (db, string) opn" where
  "create_remediation_proposal pid now tenant status source kind drift action = with_db (\<lambda>s.
     case sql_insert p_id (proposal_row pid now tenant status source kind drift action) (remediation_proposals s) of
       None \<Rightarrow> (Inl StoreUnavailable, s)
     | Some t \<Rightarrow> (Inr pid, s\<lparr>remediation_proposals := t\<rparr>))"

definition get_remediation_proposal :: "string \<Rightarrow> string option \<Rightarrow> (db, rem_row option) opn" where
  "get_remediation_proposal pid tenant = with_db (\<lambda>s.
     (Inr (case sql_fetch p_id pid (remediation_proposals s) of
        None \<Rightarrow> None
      | Some r \<Rightarrow> if tenant \<noteq> None \<and> tenant \<noteq> Some (p_tenant_id r) then None else Some r), s))"

definition proposal_matches :: "string option \<Rightarrow> string option \<Rightarrow> rem_row \<Rightarrow> bool" where
  "proposal_matches status tenant r \<longleftrightarrow>
     (opt_str status = [] \<or> p_status r = opt_str status) \<and> (tenant = None \<or> tenant = Some (p_tenant_id r))"

definition list_remediation_proposals ::
  "string option \<Rightarrow> int \<Rightarrow> int \<Rightarrow> string option \<Rightarrow> (db, rem_row page) opn" where
  "list_remediation_proposals status limit offset tenant = with_db (\<lambda>s.
     (Inr (make_page (order_asc p_created_at (filter (proposal_matches status tenant) (remediation_proposals s)))
        (clamp 1 500 limit) (max 0 offset)), s))"

text \<open>The keyword arguments of the update: \<open>None\<close> leaves a column alone.\<close>

record proposal_update =
  pu_status :: "string option"
  pu_kind :: "string option"
  pu_action :: "pyobj option"
  pu_decision_id :: "string option"
  pu_approval_id :: "string option"
  pu_verdict :: "string option"
  pu_pr_title :: "string option"
  pu_pr_body :: "string option"
  pu_pr_url :: "string option"
  pu_applied_at :: "string option"
  pu_verification :: "pyobj option"
  pu_failure :: "string option"

definition no_update :: proposal_update where
  "no_update = \<lparr>pu_status = None, pu_kind = None, pu_action = None, pu_decision_id = None, pu_approval_id = None,
     pu_verdict = None, pu_pr_title = None, pu_pr_body = None, pu_pr_url = None, pu_applied_at = None,
     pu_verification = None, pu_failure = None\<rparr>"

definition or_keep :: "'a option \<Rightarrow> 'a option \<Rightarrow> 'a option" where
  "or_keep new old = (case new of None \<Rightarrow> old | Some v \<Rightarrow> Some v)"

definition write_update :: "instant \<Rightarrow> proposal_update \<Rightarrow> rem_row \<Rightarrow> rem_row" where
  "write_update now u r =
     r\<lparr>p_updated_at := isoformat now, p_status := the (or_keep (pu_status u) (Some (p_status r))),
       p_kind := the (or_keep (pu_kind u) (Some (p_kind r))), p_action := the (or_keep (pu_action u) (Some (p_action r))),
       p_decision_id := or_keep (pu_decision_id u) (p_decision_id r),
       p_approval_id := or_keep (pu_approval_id u) (p_approval_id r), p_verdict := or_keep (pu_verdict u) (p_verdict r),
       p_pr_title := or_keep (pu_pr_title u) (p_pr_title r), p_pr_body := or_keep (pu_pr_body u) (p_pr_body r),
       p_pr_url := or_keep (pu_pr_url u) (p_pr_url r), p_applied_at := or_keep (pu_applied_at u) (p_applied_at r),
       p_verification := or_keep (pu_verification u) (p_verification r), p_failure := or_keep (pu_failure u) (p_failure r)\<rparr>"

definition update_remediation_proposal :: "instant \<Rightarrow> string \<Rightarrow> proposal_update \<Rightarrow> (db, rem_row) opn" where
  "update_remediation_proposal now pid u = with_db (\<lambda>s.
     if sql_rowcount (\<lambda>r. p_id r = pid) (remediation_proposals s) \<noteq> 1
     then (Inl (KeyError (''remediation proposal not found: '' @ pid)), s)
     else let s' = s\<lparr>remediation_proposals := sql_update (\<lambda>r. p_id r = pid) (write_update now u) (remediation_proposals s)\<rparr>
          in case sql_fetch p_id pid (remediation_proposals s') of
               None \<Rightarrow> (Inl AssertionError, s)
             | Some r \<Rightarrow> (Inr r, s'))"

subsection \<open>Facts\<close>

lemma or_keep_simps [simp]: "or_keep None x = x" "or_keep (Some v) x = Some v"
  by (simp_all add: or_keep_def)

interpretation proposals: row_update p_id "write_update now u" for now u
  by unfold_locales (simp add: write_update_def)

lemma write_update_simps [simp]:
  "p_id (write_update now u r) = p_id r" "p_tenant_id (write_update now u r) = p_tenant_id r"
  "p_drift (write_update now u r) = p_drift r" "p_created_at (write_update now u r) = p_created_at r"
  "p_status (write_update now u r) = (case pu_status u of None \<Rightarrow> p_status r | Some v \<Rightarrow> v)"
  "p_approval_id (write_update now u r) = or_keep (pu_approval_id u) (p_approval_id r)"
  "p_decision_id (write_update now u r) = or_keep (pu_decision_id u) (p_decision_id r)"
  "p_verdict (write_update now u r) = or_keep (pu_verdict u) (p_verdict r)"
  by (simp_all add: write_update_def split: option.split)

lemma get_proposal_Inr:
  "get_remediation_proposal pid tenant s = (Inr (Some r), s') \<longleftrightarrow>
     db_up s \<and> s' = s \<and> sql_fetch p_id pid (remediation_proposals s) = Some r \<and> (tenant = None \<or> tenant = Some (p_tenant_id r))"
  by (auto simp: get_remediation_proposal_def split: option.splits if_splits)

lemma get_proposal_unchanged [simp]: "snd (get_remediation_proposal pid tenant s) = s"
  by (simp add: get_remediation_proposal_def with_db_def)

lemma list_proposals_unchanged [simp]: "snd (list_remediation_proposals status n m tenant s) = s"
  by (simp add: list_remediation_proposals_def with_db_def)

lemma db_ok_proposals: "db_ok s \<Longrightarrow> distinct (map p_id (remediation_proposals s))"
  by (simp add: db_ok_defs)

text \<open>The update of an existing proposal, and of a missing one.\<close>

lemma update_proposal_found:
  assumes "db_up s" "distinct (map p_id (remediation_proposals s))" "sql_fetch p_id pid (remediation_proposals s) = Some r"
  shows "update_remediation_proposal now pid u s = (Inr (write_update now u r),
    s\<lparr>remediation_proposals := sql_update (\<lambda>r. p_id r = pid) (write_update now u) (remediation_proposals s)\<rparr>)"
proof -
  have "sql_rowcount (\<lambda>r. p_id r = pid) (remediation_proposals s) = 1"
    using sql_rowcount_fetch [OF assms(2), of pid "\<lambda>_. True"] assms(3) by simp
  moreover have "sql_fetch p_id pid (sql_update (\<lambda>r. p_id r = pid) (write_update now u) (remediation_proposals s)) =
      Some (write_update now u r)"
    using assms(3) sql_fetch_Some_in [OF assms(3)] by (simp add: proposals.fetch_update)
  ultimately show ?thesis using assms(1) by (simp add: update_remediation_proposal_def Let_def)
qed

lemma update_proposal_state:
  "snd (update_remediation_proposal now pid u s) = s \<or>
   snd (update_remediation_proposal now pid u s) =
     s\<lparr>remediation_proposals := sql_update (\<lambda>r. p_id r = pid) (write_update now u) (remediation_proposals s)\<rparr>"
  by (simp add: update_remediation_proposal_def with_db_def Let_def split: option.split)

lemma update_proposal_Inr:
  assumes "update_remediation_proposal now pid u s = (Inr r', s')"
  obtains r where "db_up s" "sql_fetch p_id pid (remediation_proposals s) = Some r" "r' = write_update now u r"
    "s' = s\<lparr>remediation_proposals := sql_update (\<lambda>r. p_id r = pid) (write_update now u) (remediation_proposals s)\<rparr>"
proof -
  from assms have f: "db_up s" "s' = s\<lparr>remediation_proposals := sql_update (\<lambda>r. p_id r = pid) (write_update now u) (remediation_proposals s)\<rparr>"
    "sql_fetch p_id pid (sql_update (\<lambda>r. p_id r = pid) (write_update now u) (remediation_proposals s)) = Some r'"
    by (auto simp: update_remediation_proposal_def Let_def split: if_splits option.splits)
  from f(3) obtain r where r: "sql_fetch p_id pid (remediation_proposals s) = Some r" "r' = (if p_id r = pid then write_update now u r else r)"
    by (auto simp: proposals.fetch_update)
  with f(1,2) sql_fetch_Some_in [OF r(1)] that show thesis by simp
qed

end
