(* ===== verification/Drift.thy ===== *)
theory Drift
  imports Py_Value
begin

text \<open>
  Inventory drift: the comparison of the configured models with what the backends serve
  (\<open>drift_service.py\<close>) and the actions it suggests (\<open>drift_actions.py\<close>). A probe is the triple it
  returns: the models, whether it was healthy, the error.
\<close>

subsection \<open>Comparison\<close>

record backend_drift =
  bd_backend :: string
  bd_probe_healthy :: bool
  bd_probe_error :: "string option"
  bd_desired :: "string list"
  bd_actual :: "string list"
  bd_missing :: "string list"
  bd_unexpected :: "string list"
  bd_in_sync :: bool

record drift_status =
  ds_updated_at :: string
  ds_in_sync :: bool
  ds_summary :: string
  ds_backends :: "backend_drift list"

text \<open>\<open>re.sub(r"[^a-z0-9]", "", name.lower())\<close>.\<close>

definition is_alnum_lower :: "char \<Rightarrow> bool" where
  "is_alnum_lower c \<longleftrightarrow> is_digit c \<or> (let n = (of_char c :: nat) in 97 \<le> n \<and> n \<le> 122)"

definition normalize_model_name :: "string \<Rightarrow> string" where
  "normalize_model_name name = filter is_alnum_lower (py_lower name)"

definition match_names :: "string \<Rightarrow> string \<Rightarrow> bool" where
  "match_names desired actual =
     (let left = normalize_model_name desired; right = normalize_model_name actual
      in left = right \<or> contains right left \<or> contains left right)"

definition diff_models :: "string list \<Rightarrow> string list \<Rightarrow> string list \<times> string list" where
  "diff_models desired actual =
     (filter (\<lambda>name. \<not> list_ex (match_names name) actual) desired,
      filter (\<lambda>name. \<not> list_ex (match_names name) desired) actual)"

text \<open>\<open>sorted({...})\<close>.\<close>

definition sorted_unique :: "string list \<Rightarrow> string list" where
  "sorted_unique xs = sort (remdups xs)"

text \<open>The inventory as pairs of model name and backend.\<close>

definition build_backend_drift ::
  "string \<Rightarrow> (string \<times> string) list \<Rightarrow> string list \<times> bool \<times> string option \<Rightarrow> backend_drift" where
  "build_backend_drift backend inventory probe =
     (case probe of (actual_models, probe_healthy, probe_error) \<Rightarrow>
      let desired = sorted_unique (map fst (filter (\<lambda>m. snd m = backend) inventory));
          actual = sorted_unique actual_models;
          (missing, unexpected) = (if probe_healthy then diff_models desired actual else (desired, []))
      in \<lparr>bd_backend = backend, bd_probe_healthy = probe_healthy, bd_probe_error = probe_error,
          bd_desired = desired, bd_actual = actual, bd_missing = missing, bd_unexpected = unexpected,
          bd_in_sync = (probe_healthy \<and> missing = [] \<and> unexpected = [])\<rparr>)"

definition build_drift_status ::
  "string \<Rightarrow> (string \<times> string) list \<Rightarrow> string list \<times> bool \<times> string option \<Rightarrow>
     string list \<times> bool \<times> string option \<Rightarrow> drift_status" where
  "build_drift_status now inventory ollama_probe vllm_probe =
     (let backends = [build_backend_drift ''ollama'' inventory ollama_probe,
                      build_backend_drift ''vllm'' inventory vllm_probe];
          in_sync = list_all bd_in_sync backends
      in \<lparr>ds_updated_at = now, ds_in_sync = in_sync,
          ds_summary = (if in_sync then ''configured inventory matches live backend probes''
            else if list_ex (\<lambda>b. \<not> bd_probe_healthy b) backends
              then ''inventory drift or unreachable backend probes detected''
            else ''configured inventory differs from live backend probes''),
          ds_backends = backends\<rparr>)"

subsection \<open>Suggested actions\<close>

record drift_action =
  da_kind :: string
  da_title :: string
  da_description :: string
  da_backend :: "string option"
  da_model :: "string option"
  da_command :: "string option"
  da_issue_title :: "string option"
  da_issue_body :: "string option"
  da_pr_title :: "string option"
  da_pr_body :: "string option"

definition action0 :: "string \<Rightarrow> string \<Rightarrow> string \<Rightarrow> drift_action" where
  "action0 kind title descr =
     \<lparr>da_kind = kind, da_title = title, da_description = descr, da_backend = None, da_model = None,
      da_command = None, da_issue_title = None, da_issue_body = None, da_pr_title = None, da_pr_body = None\<rparr>"

definition nl :: string where "nl = [CHR 0x0A]"
definition quote2 :: "string \<Rightarrow> string" where "quote2 s = [CHR 0x22] @ s @ [CHR 0x22]"
definition quote1 :: "string \<Rightarrow> string" where "quote1 s = [CHR 0x27] @ s @ [CHR 0x27]"
definition tick :: "string \<Rightarrow> string" where "tick s = [CHR 0x60] @ s @ [CHR 0x60]"

definition reprobe_action :: "backend_drift \<Rightarrow> drift_action" where
  "reprobe_action b =
     (action0 ''reprobe'' (''Restore '' @ bd_backend b @ '' probe connectivity'')
        (bd_backend b @ '' probe failed'' @
          (if opt_str (bd_probe_error b) \<noteq> [] then '': '' @ opt_str (bd_probe_error b) else [])))
     \<lparr>da_backend := Some (bd_backend b),
      da_command := Some (''curl -fsS '' @
        (if bd_backend b = ''ollama'' then quote2 ''$OLLAMA_BASE_URL/api/tags''
         else quote2 ''$VLLM_BASE_URL/v1/models''))\<rparr>"

definition pull_action :: "backend_drift \<Rightarrow> string \<Rightarrow> drift_action" where
  "pull_action b m =
     (action0 ''pull_model'' (''Provision missing model '' @ m)
        (''Inventory expects '' @ m @ '' on '' @ bd_backend b @ '', but the live probe does not expose it.''))
     \<lparr>da_backend := Some (bd_backend b), da_model := Some m,
      da_command := Some (if bd_backend b = ''ollama'' then ''ollama pull '' @ m
        else ''# ensure vLLM serves '' @ quote1 m @ '' or remove it from inventory'')\<rparr>"

definition unexpected_action :: "backend_drift \<Rightarrow> string \<Rightarrow> drift_action" where
  "unexpected_action b m =
     (action0 ''update_inventory'' (''Reconcile unexpected model '' @ m)
        (bd_backend b @ '' exposes '' @ m @ '', which is not in configured inventory. Add it to MODEL_INVENTORY or unload it.''))
     \<lparr>da_backend := Some (bd_backend b), da_model := Some m,
      da_command := Some ''# edit fleet/model inventory ConfigMap / MODEL_INVENTORY_PATH''\<rparr>"

text \<open>One round of the loop over the backends: a failed probe suggests only to restore it.\<close>

definition backend_actions :: "backend_drift \<Rightarrow> drift_action list" where
  "backend_actions b =
     (if \<not> bd_probe_healthy b then [reprobe_action b]
      else map (pull_action b) (bd_missing b) @ map (unexpected_action b) (bd_unexpected b))"

definition tagged :: "(backend_drift \<Rightarrow> string list) \<Rightarrow> drift_status \<Rightarrow> string list" where
  "tagged f s = concat (map (\<lambda>b. map (\<lambda>m. bd_backend b @ '':'' @ m) (f b)) (ds_backends s))"

definition issue_body :: "drift_status \<Rightarrow> string" where
  "issue_body s =
     ''## Inventory drift detected'' @ nl @ nl @
     ''**Summary:** '' @ ds_summary s @ nl @ nl @
     ''**Missing on backend:** '' @ str_or (join_with '', '' (tagged bd_missing s)) ''none'' @ nl @
     ''**Unexpected on backend:** '' @ str_or (join_with '', '' (tagged bd_unexpected s)) ''none'' @ nl @ nl @
     ''### Suggested next steps'' @ nl @
     ''1. Confirm probe health for Ollama/vLLM.'' @ nl @
     ''2. Pull or unload models, or update inventory.'' @ nl @
     ''3. Re-check '' @ tick ''GET /drift'' @ '' until '' @ tick ''in_sync=true'' @ ''.'' @ nl"

definition pr_body :: "drift_status \<Rightarrow> string" where
  "pr_body s =
     ''## Why'' @ nl @ nl @ ds_summary s @ nl @ nl @
     ''## Changes'' @ nl @ nl @
     ''- Update model inventory to match approved live backends'' @ nl @
     ''- Or document intentional removals'' @ nl @ nl @
     ''## Validation'' @ nl @ nl @
     ''- [ ] '' @ tick ''GET /drift'' @ '' returns '' @ tick ''in_sync: true'' @ nl"

definition issue_action :: "drift_status \<Rightarrow> drift_action" where
  "issue_action s =
     (action0 ''open_github_issue'' ''Open GitHub issue for drift''
        ''Track remediation with operators via GitOps issue.'')
     \<lparr>da_issue_title := Some (''Inventory drift: '' @ ds_summary s), da_issue_body := Some (issue_body s)\<rparr>"

definition pr_action :: "drift_status \<Rightarrow> drift_action" where
  "pr_action s =
     (action0 ''open_github_pr'' ''Open inventory reconciliation PR''
        ''Propose inventory ConfigMap changes when unexpected models should become desired state.'')
     \<lparr>da_pr_title := Some ''fix: reconcile model inventory with live probes'', da_pr_body := Some (pr_body s)\<rparr>"

record drift_actions_response =
  das_in_sync :: bool
  das_summary :: string
  das_actions :: "drift_action list"

definition build_drift_actions :: "drift_status \<Rightarrow> drift_actions_response" where
  "build_drift_actions s =
     (if ds_in_sync s then \<lparr>das_in_sync = True, das_summary = ds_summary s, das_actions = []\<rparr>
      else \<lparr>das_in_sync = False, das_summary = ds_summary s,
            das_actions = concat (map backend_actions (ds_backends s)) @ [issue_action s, pr_action s]\<rparr>)"

subsection \<open>Facts\<close>

lemma match_names_sym: "match_names a b = match_names b a"
  by (auto simp: match_names_def Let_def)

lemma set_sorted_unique [simp]: "set (sorted_unique xs) = set xs"
  by (simp add: sorted_unique_def)

lemma distinct_sorted_unique [simp]: "distinct (sorted_unique xs)"
  by (simp add: sorted_unique_def)

lemma diff_models_none:
  "diff_models desired actual = ([], []) \<longleftrightarrow>
     (\<forall>d\<in>set desired. \<exists>a\<in>set actual. match_names d a) \<and> (\<forall>a\<in>set actual. \<exists>d\<in>set desired. match_names a d)"
  by (auto simp: diff_models_def filter_empty_conv list_ex_iff)

definition serves :: "string \<Rightarrow> (string \<times> string) list \<Rightarrow> string list \<times> bool \<times> string option \<Rightarrow> bool" where
  "serves backend inventory probe \<longleftrightarrow> (case probe of (models, healthy, _) \<Rightarrow> healthy \<and>
     (\<forall>(d, b)\<in>set inventory. b = backend \<longrightarrow> (\<exists>a\<in>set models. match_names d a)) \<and>
     (\<forall>a\<in>set models. \<exists>(d, b)\<in>set inventory. b = backend \<and> match_names a d))"

lemma backend_in_sync:
  "bd_in_sync (build_backend_drift backend inventory probe) \<longleftrightarrow> serves backend inventory probe"
proof -
  obtain models healthy err where p: "probe = (models, healthy, err)" by (metis surj_pair)
  let ?d = "sorted_unique (map fst (filter (\<lambda>m. snd m = backend) inventory))" and ?a = "sorted_unique models"
  have "bd_in_sync (build_backend_drift backend inventory probe) \<longleftrightarrow> healthy \<and> diff_models ?d ?a = ([], [])"
    by (auto simp: build_backend_drift_def p Let_def split: prod.splits)
  also have "diff_models ?d ?a = ([], []) \<longleftrightarrow>
      (\<forall>d\<in>{d. (d, backend) \<in> set inventory}. \<exists>a\<in>set models. match_names d a) \<and>
      (\<forall>a\<in>set models. \<exists>d\<in>{d. (d, backend) \<in> set inventory}. match_names a d)"
  proof -
    have "set ?d = {d. (d, backend) \<in> set inventory}" by force
    then show ?thesis by (simp only: diff_models_none set_sorted_unique [of models])
  qed
  finally have *: "bd_in_sync (build_backend_drift backend inventory probe) \<longleftrightarrow> healthy \<and> \<dots>" .
  have "(\<exists>(d, b)\<in>set inventory. b = backend \<and> match_names a d) \<longleftrightarrow>
      (\<exists>d\<in>{d. (d, backend) \<in> set inventory}. match_names a d)" for a by force
  then show ?thesis unfolding * by (auto simp: serves_def p)
qed

lemma backend_unhealthy:
  "\<not> bd_probe_healthy (build_backend_drift backend inventory probe) \<Longrightarrow>
    bd_missing (build_backend_drift backend inventory probe) = bd_desired (build_backend_drift backend inventory probe) \<and>
    bd_unexpected (build_backend_drift backend inventory probe) = []"
  by (auto simp: build_backend_drift_def Let_def split: prod.splits if_splits)

text \<open>The inventory is reported in sync exactly when both backends answered, every configured model of
  a backend matches a model it serves, and every served model matches a configured one.\<close>

theorem drift_in_sync_iff:
  "ds_in_sync (build_drift_status now inventory ollama vllm) \<longleftrightarrow>
     serves ''ollama'' inventory ollama \<and> serves ''vllm'' inventory vllm"
  by (simp add: build_drift_status_def Let_def backend_in_sync)

text \<open>Nothing is suggested when the inventory is in sync; otherwise each missing and each unexpected
  model of an answering backend gets its own action, a backend that did not answer only a
  reprobe, and an issue and a pull request are always offered.\<close>

theorem drift_actions_cover:
  "das_in_sync (build_drift_actions s) = ds_in_sync s \<and>
   set (das_actions (build_drift_actions s)) =
     (if ds_in_sync s then {} else
        {issue_action s, pr_action s} \<union>
        {reprobe_action b |b. b \<in> set (ds_backends s) \<and> \<not> bd_probe_healthy b} \<union>
        {pull_action b m |b m. b \<in> set (ds_backends s) \<and> bd_probe_healthy b \<and> m \<in> set (bd_missing b)} \<union>
        {unexpected_action b m |b m. b \<in> set (ds_backends s) \<and> bd_probe_healthy b \<and> m \<in> set (bd_unexpected b)})"
  by (auto simp: build_drift_actions_def backend_actions_def split: if_splits)

text \<open>The names are compared loosely, so a backend that serves another variant of a configured model
  counts as in sync.\<close>

theorem drift_accepts_other_variant:
  "ds_in_sync (build_drift_status [] [(''llama3'', ''ollama'')] ([''llama3.1:70b''], True, None) ([], True, None))"
  by code_simp

end
