(* ===== verification/Verification_Contract.thy ===== *)
theory Verification_Contract
  imports Drift Approval_Binding
begin

text \<open>
  The runtime verification of a remediation (\<open>verification_contract.py\<close>): the checks on a fresh drift
  status against the snapshot the proposal was opened with, the closure of the models that were
  missing then, the envelope that is stored; and drift statuses and actions as JSON values
  (\<open>model_dump\<close>, \<open>model_validate\<close>).
\<close>

subsection \<open>Drift statuses as JSON\<close>

definition none_or_text :: "string option \<Rightarrow> pyval" where
  "none_or_text v = (case v of None \<Rightarrow> PNone | Some t \<Rightarrow> PStr t)"

definition texts :: "string list \<Rightarrow> pyval" where
  "texts xs = PList (map PStr xs)"

definition backend_value :: "backend_drift \<Rightarrow> pyval" where
  "backend_value b = PDict
     [(''backend'', PStr (bd_backend b)), (''probe_healthy'', PBool (bd_probe_healthy b)),
      (''probe_error'', none_or_text (bd_probe_error b)), (''desired_models'', texts (bd_desired b)),
      (''actual_models'', texts (bd_actual b)), (''missing_on_backend'', texts (bd_missing b)),
      (''unexpected_on_backend'', texts (bd_unexpected b)), (''in_sync'', PBool (bd_in_sync b))]"

definition drift_value :: "drift_status \<Rightarrow> pyobj" where
  "drift_value s =
     [(''updated_at'', PStr (ds_updated_at s)), (''in_sync'', PBool (ds_in_sync s)), (''summary'', PStr (ds_summary s)),
      (''backends'', PList (map backend_value (ds_backends s)))]"

definition action_value :: "drift_action \<Rightarrow> pyobj" where
  "action_value a =
     [(''kind'', PStr (da_kind a)), (''title'', PStr (da_title a)), (''description'', PStr (da_description a)),
      (''backend'', none_or_text (da_backend a)), (''model'', none_or_text (da_model a)),
      (''command'', none_or_text (da_command a)), (''issue_title'', none_or_text (da_issue_title a)),
      (''issue_body'', none_or_text (da_issue_body a)), (''pr_title'', none_or_text (da_pr_title a)),
      (''pr_body'', none_or_text (da_pr_body a))]"

text \<open>
  \<open>DriftStatus.model_validate\<close>: a field of the wrong type, or a missing one without a default, is a
  \<open>ValueError\<close>. A \<open>bool\<close> field also takes the numbers 0 and 1 and the usual words, as pydantic does.
\<close>

definition validation_error :: "string \<Rightarrow> 'a result" where
  "validation_error key = Inl (ValueError (''validation error: '' @ key))"

definition text_field :: "pyobj \<Rightarrow> string \<Rightarrow> string result" where
  "text_field d key = (case map_of d key of Some (PStr t) \<Rightarrow> Inr t | _ \<Rightarrow> validation_error key)"

definition optional_text_field :: "pyobj \<Rightarrow> string \<Rightarrow> string option result" where
  "optional_text_field d key =
     (case map_of d key of None \<Rightarrow> Inr None | Some PNone \<Rightarrow> Inr None | Some (PStr t) \<Rightarrow> Inr (Some t)
      | _ \<Rightarrow> validation_error key)"

definition bool_field :: "pyobj \<Rightarrow> string \<Rightarrow> bool result" where
  "bool_field d key =
     (case map_of d key of
        Some (PBool b) \<Rightarrow> Inr b
      | Some (PInt i) \<Rightarrow> if i = 0 then Inr False else if i = 1 then Inr True else validation_error key
      | Some (PFloat q) \<Rightarrow> if q = 0 then Inr False else if q = 1 then Inr True else validation_error key
      | Some (PStr t) \<Rightarrow>
          if py_lower t \<in> {''1'', ''on'', ''t'', ''true'', ''y'', ''yes''} then Inr True
          else if py_lower t \<in> {''0'', ''off'', ''f'', ''false'', ''n'', ''no''} then Inr False
          else validation_error key
      | _ \<Rightarrow> validation_error key)"

fun text_items :: "string \<Rightarrow> pyval list \<Rightarrow> string list result" where
  "text_items key [] = Inr []"
| "text_items key (PStr t # xs) = rbind (text_items key xs) (\<lambda>ts. Inr (t # ts))"
| "text_items key _ = validation_error key"

definition texts_field :: "pyobj \<Rightarrow> string \<Rightarrow> string list result" where
  "texts_field d key = (case map_of d key of Some (PList xs) \<Rightarrow> text_items key xs | _ \<Rightarrow> validation_error key)"

definition validate_backend :: "pyval \<Rightarrow> backend_drift result" where
  "validate_backend v =
     (case v of
        PDict d \<Rightarrow>
          rbind (text_field d ''backend'') (\<lambda>backend.
          if backend \<notin> {''ollama'', ''vllm''} then validation_error ''backend'' else
          rbind (bool_field d ''probe_healthy'') (\<lambda>healthy.
          rbind (optional_text_field d ''probe_error'') (\<lambda>error.
          rbind (texts_field d ''desired_models'') (\<lambda>desired.
          rbind (texts_field d ''actual_models'') (\<lambda>actual.
          rbind (texts_field d ''missing_on_backend'') (\<lambda>missing.
          rbind (texts_field d ''unexpected_on_backend'') (\<lambda>unexpected.
          rbind (bool_field d ''in_sync'') (\<lambda>in_sync.
          Inr \<lparr>bd_backend = backend, bd_probe_healthy = healthy, bd_probe_error = error, bd_desired = desired,
            bd_actual = actual, bd_missing = missing, bd_unexpected = unexpected, bd_in_sync = in_sync\<rparr>))))))))
      | _ \<Rightarrow> validation_error ''backends'')"

fun validate_backends :: "pyval list \<Rightarrow> backend_drift list result" where
  "validate_backends [] = Inr []"
| "validate_backends (v # vs) = rbind (validate_backend v) (\<lambda>b. rbind (validate_backends vs) (\<lambda>bs. Inr (b # bs)))"

definition validate_drift :: "pyobj \<Rightarrow> drift_status result" where
  "validate_drift d =
     rbind (text_field d ''updated_at'') (\<lambda>updated_at.
     rbind (bool_field d ''in_sync'') (\<lambda>in_sync.
     rbind (text_field d ''summary'') (\<lambda>summary.
     rbind (case map_of d ''backends'' of None \<Rightarrow> Inr [] | Some (PList vs) \<Rightarrow> validate_backends vs | _ \<Rightarrow> validation_error ''backends'')
       (\<lambda>backends. Inr \<lparr>ds_updated_at = updated_at, ds_in_sync = in_sync, ds_summary = summary, ds_backends = backends\<rparr>))))"

lemma text_items_map [simp]: "text_items key (map PStr ts) = Inr ts"
  by (induction ts) simp_all

lemma validate_backend_value:
  assumes "bd_backend b \<in> {''ollama'', ''vllm''}"
  shows "validate_backend (backend_value b) = Inr b"
  using assms
  by (simp add: validate_backend_def backend_value_def text_field_def bool_field_def texts_field_def texts_def
      optional_text_field_def none_or_text_def split: option.split) auto

lemma validate_backends_values:
  "(\<And>b. b \<in> set bs \<Longrightarrow> bd_backend b \<in> {''ollama'', ''vllm''}) \<Longrightarrow> validate_backends (map backend_value bs) = Inr bs"
  by (induction bs) (simp_all add: validate_backend_value)

text \<open>The snapshot a proposal stores is read back as the drift status it was taken from.\<close>

theorem drift_snapshot_roundtrip:
  "validate_drift (drift_value (build_drift_status now inventory ollama_probe vllm_probe)) =
     Inr (build_drift_status now inventory ollama_probe vllm_probe)"
proof -
  have v: "validate_drift (drift_value s) = Inr s"
    if "\<And>b. b \<in> set (ds_backends s) \<Longrightarrow> bd_backend b \<in> {''ollama'', ''vllm''}" for s
    using validate_backends_values [OF that]
    by (simp add: validate_drift_def drift_value_def text_field_def bool_field_def)
  show ?thesis
    by (rule v) (auto simp: build_drift_status_def build_backend_drift_def Let_def split: prod.splits)
qed

subsection \<open>What was missing\<close>

text \<open>\<open>if name and name not in missing: missing.append(str(name))\<close>.\<close>

definition add_missing :: "string list \<Rightarrow> pyval \<Rightarrow> string list" where
  "add_missing missing name =
     (if truthy name \<and> name \<notin> set (map PStr missing) then missing @ [py_str name] else missing)"

fun missing_of_backends :: "pyval list \<Rightarrow> string list \<Rightarrow> string list result" where
  "missing_of_backends [] missing = Inr missing"
| "missing_of_backends (PDict b # bs) missing =
     rbind (py_iter (or_else (get_none b ''missing_on_backend'') (PList [])))
       (\<lambda>names. missing_of_backends bs (foldl add_missing missing names))"
| "missing_of_backends (_ # bs) missing = missing_of_backends bs missing"

definition missing_from_drift_snapshot :: "pyobj \<Rightarrow> string list result" where
  "missing_from_drift_snapshot snapshot =
     (if snapshot = [] then Inr []
      else case or_else (get_none snapshot ''backends'') (PList []) of
        PList bs \<Rightarrow> missing_of_backends bs []
      | _ \<Rightarrow> Inr [])"

definition add_name :: "string list \<Rightarrow> string \<Rightarrow> string list" where
  "add_name missing name = (if name \<noteq> [] \<and> name \<notin> set missing then missing @ [name] else missing)"

definition missing_from_status :: "drift_status \<Rightarrow> string list" where
  "missing_from_status s = foldl (\<lambda>m b. foldl add_name m (bd_missing b)) [] (ds_backends s)"

subsection \<open>The checks\<close>

record verification_check =
  vc_name :: string
  vc_status :: string
  vc_detail :: string

record baseline_closure =
  bc_missing :: "string list"
  bc_still :: "string list"
  bc_resolved :: "string list"
  bc_closed :: bool

record verification_snapshot =
  vs_verified_at :: string
  vs_proposal_id :: string
  vs_outcome :: string
  vs_inventory :: drift_status
  vs_checks :: "verification_check list"
  vs_closure :: baseline_closure

definition build_baseline_closure :: "pyobj \<Rightarrow> drift_status \<Rightarrow> baseline_closure result" where
  "build_baseline_closure baseline current =
     rbind (missing_from_drift_snapshot baseline) (\<lambda>missing.
       let now = missing_from_status current in
       Inr (if missing = [] then \<lparr>bc_missing = [], bc_still = [], bc_resolved = [], bc_closed = True\<rparr>
         else \<lparr>bc_missing = missing, bc_still = filter (\<lambda>n. n \<in> set now) missing,
           bc_resolved = filter (\<lambda>n. n \<notin> set now) missing, bc_closed = (filter (\<lambda>n. n \<in> set now) missing = [])\<rparr>))"

definition verification_checks :: "bool \<Rightarrow> drift_status \<Rightarrow> baseline_closure \<Rightarrow> verification_check list" where
  "verification_checks probe_fresh inventory closure =
     [\<lparr>vc_name = ''probe_freshness'', vc_status = (if probe_fresh then ''pass'' else ''skipped''),
        vc_detail = (if probe_fresh then ''fresh probes'' else ''injected drift fixture'')\<rparr>,
      \<lparr>vc_name = ''inventory_drift'', vc_status = (if ds_in_sync inventory then ''pass'' else ''fail''),
        vc_detail = str_or (ds_summary inventory) (if ds_in_sync inventory then ''inventory in sync'' else ''inventory drifting'')\<rparr>,
      (if bc_missing closure = []
       then \<lparr>vc_name = ''baseline_closure'', vc_status = ''skipped'', vc_detail = ''no baseline missing models''\<rparr>
       else \<lparr>vc_name = ''baseline_closure'', vc_status = (if bc_closed closure then ''pass'' else ''fail''),
          vc_detail = (if bc_closed closure then ''baseline missing models resolved''
            else ''still missing: '' @ join_with '', '' (bc_still closure))\<rparr>)]"

definition build_verification_snapshot ::
  "string \<Rightarrow> string \<Rightarrow> drift_status \<Rightarrow> pyobj \<Rightarrow> bool \<Rightarrow> verification_snapshot result" where
  "build_verification_snapshot now pid inventory baseline probe_fresh =
     rbind (build_baseline_closure baseline inventory) (\<lambda>closure.
       let checks = verification_checks probe_fresh inventory closure in
       Inr \<lparr>vs_verified_at = now, vs_proposal_id = pid,
         vs_outcome = (if filter (\<lambda>c. vc_status c = ''fail'') checks \<noteq> [] then ''failed'' else ''verified''),
         vs_inventory = inventory, vs_checks = checks, vs_closure = closure\<rparr>)"

definition to_persist_dict :: "verification_snapshot \<Rightarrow> pyobj" where
  "to_persist_dict v =
     [(''schema_version'', PStr ''runtime-verification/2.3''), (''verified_at'', PStr (vs_verified_at v)),
      (''proposal_id'', PStr (vs_proposal_id v)), (''outcome'', PStr (vs_outcome v)),
      (''inventory'', PDict (drift_value (vs_inventory v))),
      (''checks'', PList (map (\<lambda>c. PDict [(''name'', PStr (vc_name c)), (''status'', PStr (vc_status c)), (''detail'', PStr (vc_detail c))])
         (vs_checks v))),
      (''baseline_closure'', PDict [(''baseline_missing'', texts (bc_missing (vs_closure v))), (''still_missing'', texts (bc_still (vs_closure v))),
         (''resolved'', texts (bc_resolved (vs_closure v))), (''closed'', PBool (bc_closed (vs_closure v)))]),
      (''gitops_sync'', PStr ''not_checked'')] @ drift_value (vs_inventory v)"

lemma closed_iff:
  "build_baseline_closure baseline current = Inr c \<Longrightarrow>
    (bc_closed c \<longleftrightarrow> set (bc_missing c) \<inter> set (missing_from_status current) = {}) \<and>
    missing_from_drift_snapshot baseline = Inr (bc_missing c)"
  by (auto simp: build_baseline_closure_def rbind_Inr Let_def filter_empty_conv split: if_splits)

lemma failed_check_iff:
  "filter (\<lambda>c. vc_status c = ''fail'') (verification_checks fresh inventory closure) = [] \<longleftrightarrow>
    ds_in_sync inventory \<and> (bc_missing closure = [] \<or> bc_closed closure)"
  by (simp add: verification_checks_def)

text \<open>A remediation is verified exactly when the fresh status is in sync and none of the models that were
  missing when the proposal was opened is missing now; how the probe was obtained does not matter.\<close>

theorem verification_outcome:
  assumes "build_verification_snapshot now pid inventory baseline fresh = Inr v"
  shows "vs_outcome v = ''verified'' \<longleftrightarrow> ds_in_sync inventory \<and>
    (\<exists>missing. missing_from_drift_snapshot baseline = Inr missing \<and> set missing \<inter> set (missing_from_status inventory) = {})"
proof -
  obtain c where c: "build_baseline_closure baseline inventory = Inr c"
    and v: "v = \<lparr>vs_verified_at = now, vs_proposal_id = pid,
         vs_outcome = (if filter (\<lambda>c. vc_status c = ''fail'') (verification_checks fresh inventory c) \<noteq> [] then ''failed'' else ''verified''),
         vs_inventory = inventory, vs_checks = verification_checks fresh inventory c, vs_closure = c\<rparr>"
    using assms by (auto simp: build_verification_snapshot_def rbind_Inr Let_def)
  show ?thesis using closed_iff [OF c] by (auto simp: v failed_check_iff)
qed

text \<open>Against a status the comparison computed, the closure adds nothing: in sync means nothing is missing.\<close>

lemma in_sync_none_missing:
  "ds_in_sync (build_drift_status now inventory p1 p2) \<Longrightarrow> missing_from_status (build_drift_status now inventory p1 p2) = []"
  by (auto simp: build_drift_status_def build_backend_drift_def missing_from_status_def Let_def split: prod.splits if_splits)

theorem verification_outcome_witness:
  "\<exists>v. build_verification_snapshot [] ''p1'' (build_drift_status [] [(''m'', ''ollama'')] ([''m''], True, None) ([], True, None))
       (drift_value (build_drift_status [] [(''m'', ''ollama'')] ([], True, None) ([], True, None))) True = Inr v \<and>
     vs_outcome v = ''verified''"
proof -
  let ?now = "build_drift_status [] [(''m'', ''ollama'')] ([''m''], True, None) ([], True, None)"
  let ?then = "drift_value (build_drift_status [] [(''m'', ''ollama'')] ([], True, None) ([], True, None))"
  have "missing_from_drift_snapshot ?then = Inr [''m'']" "ds_in_sync ?now" by code_simp+
  moreover then obtain v where "build_verification_snapshot [] ''p1'' ?now ?then True = Inr v"
    by (simp add: build_verification_snapshot_def build_baseline_closure_def Let_def)
  ultimately show ?thesis
    using verification_outcome [of "[]" "''p1''" ?now ?then True v] in_sync_none_missing by auto
qed

end
