(* ===== verification/Remediation_Service.thy ===== *)
theory Remediation_Service
  imports Remediation_Store Verification_Contract Durable_Governance
begin

text \<open>
  The closed loop of remediation proposals (\<open>remediation_service.py\<close>): opened from an inventory drift,
  evaluated by policy, approved or rejected, turned into a draft pull request, applied by an operator and
  verified. What a call draws (ids, clock readings) and what it reads from outside (the drift probe, the
  policy bundle, the GitOps provider) are arguments.
\<close>

subsection \<open>Transitions\<close>

definition terminal_statuses :: "string list" where
  "terminal_statuses = [''rejected'', ''verified'', ''failed'']"

definition allowed_targets :: "string \<Rightarrow> string list" where
  "allowed_targets current =
     (if current = ''detected'' then [''proposed'']
      else if current = ''proposed'' then [''policy_evaluated'']
      else if current = ''policy_evaluated'' then [''approved'', ''rejected'']
      else if current = ''approved'' then [''pr_created'']
      else if current = ''pr_created'' then [''applied'']
      else if current = ''applied'' then [''verifying'', ''verified'', ''failed'']
      else if current = ''verifying'' then [''verified'', ''failed'']
      else [])"

definition require_transition :: "string \<Rightarrow> string \<Rightarrow> (db, unit) opn" where
  "require_transition current target =
     (if target \<in> set (allowed_targets current) then ret ()
      else throw (RemediationError (''cannot transition remediation from '' @ current @ '' to '' @ target)))"

subsection \<open>Opening a proposal\<close>

definition actionable_kinds :: "string list" where
  "actionable_kinds = [''pull_model'', ''update_inventory'', ''open_github_pr'', ''reprobe'']"

definition preferred_kinds :: "string list" where
  "preferred_kinds = [''pull_model'', ''update_inventory'', ''reprobe'', ''open_github_pr'']"

fun first_preferred :: "string list \<Rightarrow> drift_action list \<Rightarrow> drift_action option" where
  "first_preferred [] as = None"
| "first_preferred (k # ks) as =
     (case find (\<lambda>a. da_kind a = k) as of Some a \<Rightarrow> Some a | None \<Rightarrow> first_preferred ks as)"

definition select_action :: "drift_status \<Rightarrow> int option \<Rightarrow> string option \<Rightarrow> drift_action result" where
  "select_action status index kind =
     (let actionable = filter (\<lambda>a. da_kind a \<in> set actionable_kinds) (das_actions (build_drift_actions status)) in
      case actionable of
        [] \<Rightarrow> Inl (RemediationError ''no actionable drift remediations available'')
      | a0 # _ \<Rightarrow>
          (case index of
             Some i \<Rightarrow> if i < 0 \<or> int (length actionable) \<le> i then Inl (RemediationError ''action_index out of range'')
               else Inr (actionable ! nat i)
           | None \<Rightarrow>
               if opt_str kind \<noteq> [] then
                 (case find (\<lambda>a. da_kind a = opt_str kind) actionable of
                    Some a \<Rightarrow> Inr a
                  | None \<Rightarrow> Inl (RemediationError (''no remediation action with kind='' @ opt_str kind)))
               else (case first_preferred preferred_kinds actionable of Some a \<Rightarrow> Inr a | None \<Rightarrow> Inr a0)))"

definition create_from_drift ::
  "string \<Rightarrow> instant \<Rightarrow> string \<Rightarrow> int option \<Rightarrow> string option \<Rightarrow> drift_status \<Rightarrow> (db, rem_row) opn" where
  "create_from_drift pid now tenant index kind status =
     (if ds_in_sync status then throw (RemediationError ''inventory is in sync; no remediation needed'')
      else case select_action status index kind of
        Inl e \<Rightarrow> throw e
      | Inr action \<Rightarrow>
          bnd (create_remediation_proposal pid now (str_or tenant ''platform'') ''proposed'' ''inventory_drift'' (da_kind action)
                (drift_value status) (action_value action))
            (\<lambda>new. bnd (get_remediation_proposal new None)
              (\<lambda>rec. case rec of None \<Rightarrow> throw AssertionError | Some r \<Rightarrow> ret r)))"

subsection \<open>The policy decision\<close>

text \<open>What an evaluation reads from the configuration.\<close>

record runtime =
  rt_sha :: "string \<Rightarrow> string"
  rt_mac :: "string \<Rightarrow> string \<Rightarrow> string"
  rt_signing :: signing_env
  rt_quota_policy :: string
  rt_bundle :: policy_bundle
  rt_ttl :: int

definition find_proposal :: "string \<Rightarrow> string option \<Rightarrow> (db, rem_row) opn" where
  "find_proposal pid tenant =
     bnd (get_remediation_proposal pid tenant) (\<lambda>rec. case rec of None \<Rightarrow> throw (KeyError pid) | Some r \<Rightarrow> ret r)"

definition remediation_request :: "rem_row \<Rightarrow> string \<Rightarrow> string option \<Rightarrow> eval_request" where
  "remediation_request r environment team =
     default_request\<lparr>q_team := str_or (opt_str team) (str_or (p_tenant_id r) ''platform''),
       q_tenant_id := str_or (p_tenant_id r) (str_or (opt_str team) ''platform''),
       q_owner := ''remediation-bot'', q_subject := ''remediation-bot'', q_environment := environment,
       q_action := ''remediate_inventory'',
       q_model := py_str (or_else (get_none (p_action r) ''model'') (PStr ''inventory-remediation'')),
       q_provider := py_str (or_else (get_none (p_action r) ''backend'') (PStr ''ollama'')),
       q_tool_access := True, q_write_permission := True,
       q_prompt_text := ''Remediate inventory drift via '' @ p_kind r @ '': '' @ py_str (get_default (p_action r) ''title'' (PStr []))\<rparr>"

definition verdict_status :: "string \<Rightarrow> string" where
  "verdict_status v = (if v = ''allow'' then ''approved'' else if v = ''block'' then ''rejected'' else ''policy_evaluated'')"

text \<open>The last step of an evaluation: the verdict is written, whatever the proposal has become meanwhile.\<close>

definition record_verdict :: "instant \<Rightarrow> string \<Rightarrow> governance_response \<Rightarrow> (db, rem_row) opn" where
  "record_verdict now pid persisted =
     update_remediation_proposal now pid (no_update\<lparr>pu_status := Some (verdict_status (ge_verdict persisted)),
       pu_decision_id := ge_decision_id persisted, pu_approval_id := ge_approval_id persisted,
       pu_verdict := Some (ge_verdict persisted)\<rparr>)"

definition evaluate_policy ::
  "runtime \<Rightarrow> string \<Rightarrow> persist_draws \<Rightarrow> string \<Rightarrow> instant \<Rightarrow> string \<Rightarrow> string option \<Rightarrow> string \<Rightarrow> string option \<Rightarrow> (db, rem_row) opn" where
  "evaluate_policy rt clock dr request_id now pid tenant environment team =
     bnd (find_proposal pid tenant) (\<lambda>r.
     bnd (require_transition (p_status r) ''policy_evaluated'') (\<lambda>_.
       let request = remediation_request r environment team in
       bnd (evaluate_governance_request (rt_sha rt) (rt_mac rt) (rt_signing rt) (rt_quota_policy rt) clock None (rt_bundle rt) request)
         (\<lambda>evaluated. bnd (persist_evaluation (rt_sha rt) (rt_ttl rt) dr evaluated request request_id)
           (\<lambda>persisted. record_verdict now pid persisted))))"

subsection \<open>Resolving\<close>

record resolve_draws =
  rd_expiry_read :: instant
  rd_expiry_write :: instant
  rd_resolved_at :: instant
  rd_event :: string
  rd_event_at :: instant
  rd_updated_at :: instant

definition resolve_linked_approval :: "resolve_draws \<Rightarrow> rem_row \<Rightarrow> string \<Rightarrow> string \<Rightarrow> string \<Rightarrow> (db, unit) opn" where
  "resolve_linked_approval g r target reviewer comment =
     (if opt_str (p_approval_id r) = [] then ret ()
      else bnd (resolve_approval (rd_expiry_read g) (rd_expiry_write g) (rd_resolved_at g) (opt_str (p_approval_id r)) target
              reviewer comment None True) (\<lambda>_.
        if opt_str (p_decision_id r) = [] then ret ()
        else bnd (append_audit_meta (rd_event g) (rd_event_at g) (opt_str (p_decision_id r)) ''remediation_resolved'' reviewer
                [(''proposal_id'', PStr (p_id r)), (''status'', PStr target), (''comment'', PStr comment)]) (\<lambda>_. ret ())))"

definition resolve_proposal ::
  "resolve_draws \<Rightarrow> string \<Rightarrow> bool \<Rightarrow> string \<Rightarrow> string \<Rightarrow> string option \<Rightarrow> (db, rem_row) opn" where
  "resolve_proposal g pid approved reviewer comment tenant =
     bnd (find_proposal pid tenant) (\<lambda>r.
       let target = (if approved then ''approved'' else ''rejected'') in
       bnd (require_transition (p_status r) target) (\<lambda>_.
       bnd (resolve_linked_approval g r target reviewer comment) (\<lambda>_.
         update_remediation_proposal (rd_updated_at g) pid (no_update\<lparr>pu_status := Some target\<rparr>))))"

subsection \<open>The pull request\<close>

record pr_request =
  pq_proposal_id :: string
  pq_title :: string
  pq_body :: string
  pq_tenant_id :: string
  pq_kind :: string
  pq_action :: "pyobj option"

definition text_of :: "pyobj \<Rightarrow> string \<Rightarrow> string" where
  "text_of action key = py_str (or_else (get_none action key) (PStr []))"

definition fallback_body :: "drift_status \<Rightarrow> string \<Rightarrow> string \<Rightarrow> string" where
  "fallback_body drift title pid =
     ''## Why'' @ nl @ nl @ ds_summary drift @ nl @ nl @ ''Selected action: '' @ title @ nl @ nl @
     ''## Validation'' @ nl @ nl @ ''- [ ] '' @ tick ''GET /drift'' @ '' returns '' @ tick ''in_sync: true'' @ nl @
     ''- [ ] Remediation proposal '' @ tick pid @ '' reaches '' @ tick ''verified'' @ nl"

definition pr_text :: "rem_row \<Rightarrow> drift_status \<Rightarrow> string \<times> string" where
  "pr_text r drift =
     (let pr = find (\<lambda>a. da_kind a = ''open_github_pr'') (das_actions (build_drift_actions drift)) in
      (str_or (text_of (p_action r) ''pr_title'')
         (str_or (case pr of None \<Rightarrow> [] | Some a \<Rightarrow> opt_str (da_pr_title a))
            (''fix: remediate inventory drift ('' @ p_kind r @ '')'')),
       str_or (text_of (p_action r) ''pr_body'')
         (str_or (case pr of None \<Rightarrow> [] | Some a \<Rightarrow> opt_str (da_pr_body a))
            (fallback_body drift (py_str (get_default (p_action r) ''title'' (PStr (p_kind r)))) (p_id r)))))"

text \<open>The provider returns the address of the pull request, if there is one; its \<open>RuntimeError\<close> stands for
  \<open>GitOpsProviderError\<close> and becomes a \<open>RemediationError\<close>.\<close>

definition request_pr :: "(pr_request \<Rightarrow> string option result) \<Rightarrow> rem_row \<Rightarrow> string \<times> string \<Rightarrow> string result" where
  "request_pr provider r wording =
     (case provider \<lparr>pq_proposal_id = p_id r, pq_title = fst wording, pq_body = snd wording, pq_tenant_id = p_tenant_id r,
         pq_kind = p_kind r, pq_action = (if p_action r = [] then None else Some (p_action r))\<rparr> of
        Inl (RuntimeError m) \<Rightarrow> Inl (RemediationError m)
      | Inl e \<Rightarrow> Inl e
      | Inr url \<Rightarrow> Inr (py_strip (opt_str url)))"

definition prepare_pr_draft ::
  "(pr_request \<Rightarrow> string option result) \<Rightarrow> instant \<Rightarrow> string \<Rightarrow> string option \<Rightarrow> string option \<Rightarrow> (db, rem_row) opn" where
  "prepare_pr_draft provider now pid tenant pr_url =
     bnd (find_proposal pid tenant) (\<lambda>r.
     bnd (require_transition (p_status r) ''pr_created'') (\<lambda>_.
       case validate_drift (p_drift r) of
         Inl e \<Rightarrow> throw e
       | Inr drift \<Rightarrow>
           (let wording = pr_text r drift; given = py_strip (opt_str pr_url) in
            case (if given = [] then request_pr provider r wording else Inr given) of
              Inl e \<Rightarrow> throw e
            | Inr url \<Rightarrow> update_remediation_proposal now pid (no_update\<lparr>pu_status := Some ''pr_created'',
                pu_pr_title := Some (fst wording), pu_pr_body := Some (snd wording), pu_pr_url := Some url\<rparr>))))"

subsection \<open>Applied and verified\<close>

definition mark_applied :: "instant \<Rightarrow> instant \<Rightarrow> string \<Rightarrow> string option \<Rightarrow> string option \<Rightarrow> (db, rem_row) opn" where
  "mark_applied applied_at now pid tenant pr_url =
     bnd (find_proposal pid tenant) (\<lambda>r.
     bnd (require_transition (p_status r) ''applied'') (\<lambda>_.
       update_remediation_proposal now pid (no_update\<lparr>pu_status := Some ''applied'',
         pu_applied_at := Some (isoformat applied_at), pu_pr_url := pr_url\<rparr>)))"

definition failure_reason :: "verification_snapshot \<Rightarrow> string" where
  "failure_reason v =
     str_or (case find (\<lambda>c. vc_status c = ''fail'') (vs_checks v) of None \<Rightarrow> [] | Some c \<Rightarrow> vc_detail c)
       (str_or (ds_summary (vs_inventory v)) ''runtime verification failed'')"

definition start_verifying :: "instant \<Rightarrow> rem_row \<Rightarrow> (db, unit) opn" where
  "start_verifying now r =
     (if p_status r = ''applied''
      then bnd (require_transition (p_status r) ''verifying'')
        (\<lambda>_. bnd (update_remediation_proposal now (p_id r) (no_update\<lparr>pu_status := Some ''verifying''\<rparr>)) (\<lambda>_. ret ()))
      else if p_status r \<noteq> ''verifying'' then require_transition (p_status r) ''verified''
      else ret ())"

definition verify_runtime ::
  "instant \<Rightarrow> string \<Rightarrow> instant \<Rightarrow> string \<Rightarrow> string option \<Rightarrow> drift_status option \<Rightarrow> drift_status \<Rightarrow> (db, rem_row) opn" where
  "verify_runtime t1 verified_at t2 pid tenant injected probed =
     bnd (find_proposal pid tenant) (\<lambda>r.
     bnd (start_verifying t1 r) (\<lambda>_.
       case build_verification_snapshot verified_at pid (case injected of None \<Rightarrow> probed | Some d \<Rightarrow> d) (p_drift r) (injected = None) of
         Inl e \<Rightarrow> throw e
       | Inr v \<Rightarrow> update_remediation_proposal t2 pid (no_update\<lparr>
           pu_status := Some (if vs_outcome v = ''verified'' then ''verified'' else ''failed''),
           pu_verification := Some (to_persist_dict v),
           pu_failure := Some (if vs_outcome v = ''verified'' then [] else failure_reason v)\<rparr>)))"

definition proposal_to_dict :: "rem_row \<Rightarrow> pyobj" where
  "proposal_to_dict r =
     [(''proposal_id'', PStr (p_id r)), (''tenant_id'', PStr (p_tenant_id r)), (''status'', PStr (p_status r)),
      (''source'', PStr (p_source r)), (''remediation_kind'', PStr (p_kind r)), (''drift_snapshot'', PDict (p_drift r)),
      (''selected_action'', PDict (p_action r)), (''decision_id'', none_or_text (p_decision_id r)),
      (''approval_id'', none_or_text (p_approval_id r)), (''policy_verdict'', none_or_text (p_verdict r)),
      (''pr_title'', none_or_text (p_pr_title r)), (''pr_body'', none_or_text (p_pr_body r)),
      (''pr_url'', none_or_text (p_pr_url r)), (''applied_at'', none_or_text (p_applied_at r)),
      (''verification_snapshot'', case p_verification r of None \<Rightarrow> PNone | Some v \<Rightarrow> PDict v),
      (''failure_reason'', none_or_text (p_failure r)), (''created_at'', PStr (p_created_at r)),
      (''updated_at'', PStr (p_updated_at r)), (''terminal'', PBool (p_status r \<in> set terminal_statuses))]"

end
