(* ===== verification/Remediation_Lifecycle.thy ===== *)
theory Remediation_Lifecycle
  imports Remediation_Service
begin

text \<open>
  The lifecycle of a proposal over the calls of the service and the other operations of the store:
  which status follows which, that a closed proposal stays closed, and that nothing goes out as a pull request
  that policy did not allow and nobody approved.
\<close>

subsection \<open>The automaton\<close>

definition rem_edge :: "string \<Rightarrow> string \<Rightarrow> bool" where
  "rem_edge a b \<longleftrightarrow> a = ''proposed'' \<and> b \<in> {''policy_evaluated'', ''approved'', ''rejected''} \<or> b \<in> set (allowed_targets a)"

interpretation rem: lifecycle p_id p_status rem_edge "\<lambda>r. p_status r = ''proposed''" "set terminal_statuses"
  by unfold_locales (auto simp: rem_edge_def terminal_statuses_def allowed_targets_def)

text \<open>One proposal is replaced by another row, the others stay.\<close>

definition replaced :: "string \<Rightarrow> rem_row \<Rightarrow> db \<Rightarrow> db \<Rightarrow> bool" where
  "replaced pid r' s s' \<longleftrightarrow>
     (\<forall>k. sql_fetch p_id k (remediation_proposals s') = (if k = pid then Some r' else sql_fetch p_id k (remediation_proposals s)))"

lemma replaced_update:
  assumes "sql_fetch p_id pid (remediation_proposals s) = Some r"
  shows "replaced pid (write_update now u r) s
    (s\<lparr>remediation_proposals := sql_update (\<lambda>r. p_id r = pid) (write_update now u) (remediation_proposals s)\<rparr>)"
proof -
  have "p_id x = k" if "sql_fetch p_id k (remediation_proposals s) = Some x" for k x using sql_fetch_Some_in [OF that] by simp
  then have "map_option (\<lambda>r. if p_id r = pid then write_update now u r else r) (sql_fetch p_id k (remediation_proposals s)) =
      (if k = pid then Some (write_update now u r) else sql_fetch p_id k (remediation_proposals s))" for k
    using assms by (cases "sql_fetch p_id k (remediation_proposals s)") auto
  then show ?thesis by (simp add: replaced_def proposals.fetch_update)
qed

lemma replaced_trans: "replaced pid r s s1 \<Longrightarrow> replaced pid r' s1 s' \<Longrightarrow> replaced pid r' s s'"
  by (simp add: replaced_def)

lemma evolves_replaced:
  assumes "replaced pid r' s s'" "sql_fetch p_id pid (remediation_proposals s) = Some r" "r' = r \<or> rem_edge (p_status r) (p_status r')"
  shows "rem.evolves (remediation_proposals s) (remediation_proposals s')"
  using assms by (auto simp: rem.evolves_def replaced_def split: option.split)

subsection \<open>The guards of a call\<close>

lemma find_proposal_cases:
  obtains (missing) e where "find_proposal pid tenant s = (Inl e, s)"
  | (found) r where "find_proposal pid tenant s = (Inr r, s)" "db_up s" "sql_fetch p_id pid (remediation_proposals s) = Some r"
    "tenant = None \<or> tenant = Some (p_tenant_id r)"
proof (cases "fst (get_remediation_proposal pid tenant s)")
  case (Inl e)
  then have "get_remediation_proposal pid tenant s = (Inl e, s)" by (metis get_proposal_unchanged prod.collapse)
  then show thesis by (intro missing [of e]) (simp add: find_proposal_def bnd_def)
next
  case (Inr x)
  then have x: "get_remediation_proposal pid tenant s = (Inr x, s)" by (metis get_proposal_unchanged prod.collapse)
  show thesis
  proof (cases x)
    case None
    with x show thesis by (intro missing) (simp add: find_proposal_def bnd_def throw_def)
  next
    case (Some r)
    with x have "get_remediation_proposal pid tenant s = (Inr (Some r), s)" by simp
    then show thesis using get_proposal_Inr [of pid tenant s r s]
      by (intro found [of r]) (auto simp: find_proposal_def bnd_def ret_def)
  qed
qed

lemma guarded_cases:
  assumes "bnd (find_proposal pid tenant) (\<lambda>r. bnd (require_transition (p_status r) (target r)) (\<lambda>_. body r)) s = (res, s')"
  obtains (refused) e where "res = Inl e" "s' = s"
  | (passed) r where "db_up s" "sql_fetch p_id pid (remediation_proposals s) = Some r" "p_id r = pid"
    "tenant = None \<or> tenant = Some (p_tenant_id r)" "target r \<in> set (allowed_targets (p_status r))" "body r s = (res, s')"
proof (cases rule: find_proposal_cases [of pid tenant s])
  case (missing e)
  with assms show thesis by (intro refused) (auto simp: bnd_def)
next
  case (found r)
  show thesis
  proof (cases "target r \<in> set (allowed_targets (p_status r))")
    case True
    have "p_id r = pid" using sql_fetch_Some_in [OF found(3)] by simp
    moreover have "body r s = (res, s')" using assms True by (simp add: bnd_def found require_transition_def ret_def)
    ultimately show thesis using True found by (intro passed)
  next
    case False
    with assms found show thesis by (intro refused) (auto simp: bnd_def require_transition_def throw_def)
  qed
qed

subsection \<open>Tables the calls leave alone\<close>

lemma store_step_proposals:
  assumes "store_step s l s'"
  shows "remediation_proposals s' = remediation_proposals s"
  using assms
proof (induction rule: store_step.induct)
  case (purge t1 t2 days dry_run n s r s')
  have "remediation_proposals (snd (expire_stale t2 s)) = remediation_proposals s" by (simp add: expire_stale_def)
  with purge show ?case
    by (cases r) (auto simp: delete_decisions_def Let_def split: if_splits dest: purge_error_unchanged elim!: purge_Inr)
qed (auto simp: create_decision_def create_approval_def append_audit_meta_def consume_approval_def expire_stale_approvals_def
    expire_stale_def get_approval_def list_approvals_def count_approvals_def resolve_approval_def resolve_commit_def
    throw_def with_db_def Let_def split: option.splits if_splits)

lemma write_outcome:
  assumes "update_remediation_proposal now pid u s = (res, s')" "sql_fetch p_id pid (remediation_proposals s) = Some r"
  shows "s' = s \<or> replaced pid (write_update now u r) s s' \<and> approvals s' = approvals s"
  using update_proposal_state [of now pid u s] assms(1) replaced_update [OF assms(2), of now u] by auto

lemma persist_approvals:
  assumes "persist_evaluation sha ttl dr r q rid s = (res, s')"
  shows "remediation_proposals s' = remediation_proposals s"
    and "k \<noteq> pd_approval_id dr \<Longrightarrow> sql_fetch a_id k (approvals s') = sql_fetch a_id k (approvals s)"
    and "res = Inr r' \<Longrightarrow> ge_verdict r' = ge_verdict r \<and>
      ge_approval_id r' = (if needs_approval r then Some (pd_approval_id dr) else ge_approval_id r)"
proof -
  have "remediation_proposals s' = remediation_proposals s \<and>
    (k \<noteq> pd_approval_id dr \<longrightarrow> sql_fetch a_id k (approvals s') = sql_fetch a_id k (approvals s)) \<and>
    (res = Inr r' \<longrightarrow> ge_verdict r' = ge_verdict r \<and>
      ge_approval_id r' = (if needs_approval r then Some (pd_approval_id dr) else ge_approval_id r))"
    using assms
  proof (cases rule: persist_evaluation_cases)
    case (stored digest digests aid r'')
    from stored(5) obtain rows where rows: "if needs_approval r then \<exists>expires. add_seconds (pd_approval_at dr) ttl = Some expires \<and>
         rows = [approval_row (pd_approval_id dr) (pd_decision_id dr) (pd_approval_at dr) expires] else rows = []"
      and s': "remediation_proposals s' = remediation_proposals s" "approvals s' = approvals s @ rows"
      and aid: "aid = (if needs_approval r then Some (pd_approval_id dr) else ge_approval_id r)"
      by (rule persist_records_Inr) simp
    have "sql_fetch a_id k (approvals s') = sql_fetch a_id k (approvals s)" if "k \<noteq> pd_approval_id dr"
      using rows that by (auto simp: s'(2) sql_fetch_append approval_row_def split: if_splits option.split)
    with s' aid stored(3,4) show ?thesis by auto
  qed simp
  then show "remediation_proposals s' = remediation_proposals s"
    "k \<noteq> pd_approval_id dr \<Longrightarrow> sql_fetch a_id k (approvals s') = sql_fetch a_id k (approvals s)"
    "res = Inr r' \<Longrightarrow> ge_verdict r' = ge_verdict r \<and>
      ge_approval_id r' = (if needs_approval r then Some (pd_approval_id dr) else ge_approval_id r)"
    by blast+
qed

text \<open>An evaluation answers with one of three verdicts.\<close>

lemma evaluated_verdict:
  assumes "evaluate_governance_request sha mac env policy now t bundle q s = (Inr r, s')"
  shows "s' = s" "ge_verdict r \<in> {''block'', ''approval_required'', ''allow''}" "ge_approval_id r = None"
proof -
  show "s' = s" by (rule evaluate_governance_digests [OF assms])
  show "ge_approval_id r = None" by (rule evaluate_governance_digests [OF assms])
  obtain x where "ge_verdict r = fst (response_verdict t x)" by (rule evaluate_governance_Inr [OF assms])
  then show "ge_verdict r \<in> {''block'', ''approval_required'', ''allow''}"
    by (simp add: response_verdict_cases final_verdict_cases)
qed

text \<open>Resolving the linked approval runs as steps of the store.\<close>

lemma linked_steps:
  assumes "resolve_linked_approval g r target reviewer comment s = (res, s')"
  shows "\<exists>ls. store_run s ls s' \<and> set ls \<subseteq> {Tau}"
proof (cases "opt_str (p_approval_id r) = []")
  case True
  with assms have "s' = s" by (simp add: resolve_linked_approval_def ret_def)
  then show ?thesis by (intro exI [of _ "[]"]) simp
next
  case False
  obtain x s1 where x: "resolve_approval (rd_expiry_read g) (rd_expiry_write g) (rd_resolved_at g) (opt_str (p_approval_id r)) target
      reviewer comment None True s = (x, s1)" by fastforce
  have step1: "store_step s Tau s1" by (rule store_step.resolve [OF x])
  show ?thesis
  proof (cases "\<exists>a. x = Inr a \<and> opt_str (p_decision_id r) \<noteq> []")
    case True
    obtain y s2 where y: "append_audit_meta (rd_event g) (rd_event_at g) (opt_str (p_decision_id r)) ''remediation_resolved'' reviewer
        [(''proposal_id'', PStr (p_id r)), (''status'', PStr target), (''comment'', PStr comment)] s1 = (y, s2)" by fastforce
    with True x False assms have "s' = s2"
      by (auto simp: resolve_linked_approval_def bnd_def ret_def split: sum.splits)
    with store_step.audit [OF y] step1 show ?thesis
      by (intro exI [of _ "[Tau, Tau]"]) (auto intro: store_run.intros)
  next
    case no: False
    with x False assms have "s' = s1"
      by (cases x) (auto simp: resolve_linked_approval_def bnd_def ret_def)
    with step1 show ?thesis by (intro exI [of _ "[Tau]"]) (auto intro: store_run.intros)
  qed
qed

lemma linked_resolved:
  assumes "resolve_linked_approval g r target reviewer comment s = (Inr u, s')" "db_ok s" "opt_str (p_approval_id r) \<noteq> []"
  shows "\<exists>a. sql_fetch a_id (opt_str (p_approval_id r)) (approvals s') = Some a \<and> a_status a = target"
proof -
  from assms(1,3) obtain a s1 where a: "resolve_approval (rd_expiry_read g) (rd_expiry_write g) (rd_resolved_at g)
      (opt_str (p_approval_id r)) target reviewer comment None True s = (Inr a, s1)" and s': "approvals s' = approvals s1"
    by (auto simp: resolve_linked_approval_def append_audit_Inr ret_def elim!: bnd_InrE split: if_splits)
  from resolve_effect [OF a assms(2)] show ?thesis by (auto simp: s')
qed

lemma store_run_proposals: "store_run s ls s' \<Longrightarrow> remediation_proposals s' = remediation_proposals s"
  by (induction rule: store_run.induct) (simp_all add: store_step_proposals)

subsection \<open>What backs a proposal\<close>

definition past_approval :: "string set" where
  "past_approval = {''approved'', ''pr_created'', ''applied'', ''verifying'', ''verified'', ''failed''}"

definition given :: "string set" where
  "given = {''approved'', ''consumed''}"

text \<open>Policy allowed it, or its approval was given; an approval that retention removed no longer tells.\<close>

definition backed :: "db \<Rightarrow> rem_row \<Rightarrow> bool" where
  "backed s r \<longleftrightarrow> p_verdict r = Some ''allow'' \<or>
     (\<exists>aid. p_approval_id r = Some aid \<and> (\<forall>a. sql_fetch a_id aid (approvals s) = Some a \<longrightarrow> a_status a \<in> given))"

definition row_ok :: "db \<Rightarrow> rem_row \<Rightarrow> bool" where
  "row_ok s r \<longleftrightarrow> (p_status r \<in> past_approval \<longrightarrow> backed s r) \<and>
     (p_status r = ''policy_evaluated'' \<longrightarrow> opt_str (p_approval_id r) \<noteq> [])"

definition all_backed :: "db \<Rightarrow> bool" where
  "all_backed s \<longleftrightarrow> (\<forall>k r. sql_fetch p_id k (remediation_proposals s) = Some r \<longrightarrow> row_ok s r)"

definition linked :: "db \<Rightarrow> string set" where
  "linked s = {aid. \<exists>k r. sql_fetch p_id k (remediation_proposals s) = Some r \<and> p_approval_id r = Some aid}"

text \<open>Approvals that proposals point to are not created anew, and a given one stays given.\<close>

definition approvals_kept :: "db \<Rightarrow> db \<Rightarrow> bool" where
  "approvals_kept s s' \<longleftrightarrow> (\<forall>aid \<in> linked s. \<forall>a'. sql_fetch a_id aid (approvals s') = Some a' \<longrightarrow>
     (\<exists>a. sql_fetch a_id aid (approvals s) = Some a \<and> (a_status a \<in> given \<longrightarrow> a_status a' \<in> given)))"

lemma approvals_kept_refl: "approvals s' = approvals s \<Longrightarrow> approvals_kept s s'"
  by (simp add: approvals_kept_def)

lemma row_ok_kept:
  assumes "approvals_kept s s'" "sql_fetch p_id k (remediation_proposals s) = Some r" "row_ok s r"
  shows "row_ok s' r"
proof -
  have "backed s' r" if b: "backed s r"
  proof (cases "p_verdict r = Some ''allow''")
    case False
    with b obtain aid where aid: "p_approval_id r = Some aid"
      "\<And>a. sql_fetch a_id aid (approvals s) = Some a \<Longrightarrow> a_status a \<in> given" by (auto simp: backed_def)
    with assms(2) have "aid \<in> linked s" by (auto simp: linked_def)
    with assms(1) aid show ?thesis unfolding backed_def approvals_kept_def by blast
  qed (simp add: backed_def)
  with assms(3) show ?thesis by (simp add: row_ok_def)
qed

text \<open>The effect of one call: the approvals are kept, and one proposal moves along the automaton to a row that is
  backed, if any moves at all.\<close>

definition call_effect :: "db \<Rightarrow> db \<Rightarrow> bool" where
  "call_effect s s' \<longleftrightarrow> approvals_kept s s' \<and>
     (remediation_proposals s' = remediation_proposals s \<or>
      (\<exists>pid r r'. sql_fetch p_id pid (remediation_proposals s) = Some r \<and> replaced pid r' s s' \<and>
         rem_edge (p_status r) (p_status r') \<and> (row_ok s r \<longrightarrow> row_ok s' r')))"

lemma call_effect_refl [simp]: "call_effect s s"
  by (simp add: call_effect_def approvals_kept_refl)

lemma call_effect_backed:
  assumes "call_effect s s'" "all_backed s" shows "all_backed s'"
proof -
  have kept: "approvals_kept s s'" using assms(1) by (simp add: call_effect_def)
  have old: "row_ok s' r" if "sql_fetch p_id k (remediation_proposals s) = Some r" for k r
    using row_ok_kept [OF kept that] that assms(2) by (auto simp: all_backed_def)
  from assms(1) consider (same) "remediation_proposals s' = remediation_proposals s"
    | (moved) pid r r' where "sql_fetch p_id pid (remediation_proposals s) = Some r" "replaced pid r' s s'" "row_ok s r \<longrightarrow> row_ok s' r'"
    by (auto simp: call_effect_def)
  then show ?thesis
  proof cases
    case same
    with old show ?thesis by (simp add: all_backed_def)
  next
    case moved
    then have "row_ok s' r'" using assms(2) by (auto simp: all_backed_def)
    with moved(2) old show ?thesis by (auto simp: all_backed_def replaced_def split: if_splits)
  qed
qed

lemma call_effect_evolves:
  assumes "call_effect s s'" shows "rem.evolves (remediation_proposals s) (remediation_proposals s')"
  using assms evolves_replaced [of _ _ s s'] unfolding call_effect_def by force

lemma call_effect_replaced:
  assumes "sql_fetch p_id pid (remediation_proposals s) = Some r" "replaced pid r' s s'" "approvals s' = approvals s"
    "rem_edge (p_status r) (p_status r')" "row_ok s r \<Longrightarrow> row_ok s r'"
  shows "call_effect s s'"
proof -
  have "row_ok s' x \<longleftrightarrow> row_ok s x" for x using assms(3) by (simp add: row_ok_def backed_def)
  with assms show ?thesis unfolding call_effect_def using approvals_kept_refl by blast
qed

text \<open>A single write on a proposal.\<close>

lemma call_effect_write:
  assumes "update_remediation_proposal now pid u s = (res, s')" "sql_fetch p_id pid (remediation_proposals s) = Some r"
    "rem_edge (p_status r) (p_status (write_update now u r))" "row_ok s r \<Longrightarrow> row_ok s (write_update now u r)"
  shows "call_effect s s'"
  using write_outcome [OF assms(1,2)]
proof
  assume "replaced pid (write_update now u r) s s' \<and> approvals s' = approvals s"
  then show ?thesis using call_effect_replaced [OF assms(2) _ _ assms(3,4)] by blast
qed simp

lemma row_ok_past:
  assumes "row_ok s r" "p_status r \<in> past_approval" "p_verdict r' = p_verdict r" "p_approval_id r' = p_approval_id r"
    "p_status r' \<noteq> ''policy_evaluated''"
  shows "row_ok s r'"
  using assms by (simp add: row_ok_def backed_def)

subsection \<open>The effect of each call\<close>

lemmas write_fields = or_keep_simps no_update_def

lemma prepare_effect:
  assumes "prepare_pr_draft provider now pid tenant pr_url s = (res, s')"
  shows "call_effect s s'"
  using assms unfolding prepare_pr_draft_def
proof (cases rule: guarded_cases)
  case (passed r)
  from passed(5) have st: "p_status r = ''approved''" by (auto simp: allowed_targets_def split: if_splits)
  show ?thesis
  proof (cases "validate_drift (p_drift r)")
    case (Inl e)
    with passed(6) show ?thesis by (simp add: throw_def)
  next
    case (Inr drift)
    let ?url = "if py_strip (opt_str pr_url) = [] then request_pr provider r (pr_text r drift) else Inr (py_strip (opt_str pr_url))"
    show ?thesis
    proof (cases ?url)
      case (Inl e)
      with passed(6) \<open>validate_drift (p_drift r) = Inr drift\<close> show ?thesis by (simp add: Let_def throw_def)
    next
      case (Inr url)
      with passed(6) \<open>validate_drift (p_drift r) = Inr drift\<close>
      have u: "update_remediation_proposal now pid (no_update\<lparr>pu_status := Some ''pr_created'', pu_pr_title := Some (fst (pr_text r drift)),
          pu_pr_body := Some (snd (pr_text r drift)), pu_pr_url := Some url\<rparr>) s = (res, s')" by (simp add: Let_def)
      show ?thesis
        by (rule call_effect_write [OF u passed(2)])
          (auto simp: rem_edge_def allowed_targets_def st write_fields past_approval_def elim!: row_ok_past)
    qed
  qed
qed simp

lemma applied_effect:
  assumes "mark_applied applied_at now pid tenant pr_url s = (res, s')"
  shows "call_effect s s'"
  using assms unfolding mark_applied_def
proof (cases rule: guarded_cases)
  case (passed r)
  from passed(5) have st: "p_status r = ''pr_created''" by (auto simp: allowed_targets_def split: if_splits)
  show ?thesis
    by (rule call_effect_write [OF passed(6,2)])
      (auto simp: rem_edge_def allowed_targets_def st write_fields past_approval_def elim!: row_ok_past)
qed simp

text \<open>Verification writes twice: the start, then the outcome.\<close>

lemma start_verifying_cases:
  assumes "start_verifying t1 r s = (x, s1)" "sql_fetch p_id (p_id r) (remediation_proposals s) = Some r"
  obtains (same) "s1 = s" "x = Inr () \<Longrightarrow> p_status r \<in> {''applied'', ''verifying''}"
  | (started) "p_status r = ''applied''"
      "replaced (p_id r) (write_update t1 (no_update\<lparr>pu_status := Some ''verifying''\<rparr>) r) s s1" "approvals s1 = approvals s"
proof (cases "p_status r = ''applied''")
  case True
  obtain y s2 where y: "update_remediation_proposal t1 (p_id r) (no_update\<lparr>pu_status := Some ''verifying''\<rparr>) s = (y, s2)" by fastforce
  then have "s2 = s1" using assms(1) True
    by (cases y) (auto simp: start_verifying_def require_transition_def allowed_targets_def bnd_def ret_def)
  with write_outcome [OF y assms(2)] True show thesis by (auto intro: same started)
next
  case False
  then have "s1 = s" "x = Inr () \<Longrightarrow> p_status r = ''verifying''"
    using assms(1) by (auto simp: start_verifying_def require_transition_def allowed_targets_def throw_def ret_def split: if_splits)
  then show thesis by (intro same) auto
qed

lemma verify_effect:
  assumes "verify_runtime t1 verified_at t2 pid tenant injected probed s = (res, s')"
  shows "call_effect s s'"
proof (cases rule: find_proposal_cases [of pid tenant s])
  case (missing e)
  with assms show ?thesis by (simp add: verify_runtime_def bnd_def)
next
  case (found r)
  have pid: "p_id r = pid" using sql_fetch_Some_in [OF found(3)] by simp
  obtain x s1 where x: "start_verifying t1 r s = (x, s1)" by fastforce
  note start = start_verifying_cases [OF x, unfolded pid, OF found(3)]
  let ?start = "no_update\<lparr>pu_status := Some ''verifying''\<rparr>"
  obtain r1 where r1: "sql_fetch p_id pid (remediation_proposals s1) = Some r1" "p_verdict r1 = p_verdict r" "p_approval_id r1 = p_approval_id r"
    and reach: "\<And>r2 s2. replaced pid r2 s1 s2 \<Longrightarrow> replaced pid r2 s s2" "approvals s1 = approvals s"
    and st: "x = Inr () \<Longrightarrow> p_status r \<in> {''applied'', ''verifying''}"
  proof (cases rule: start)
    case 1
    with found(3) show thesis by (intro that [of r]) simp_all
  next
    case 2
    then show thesis by (intro that [of "write_update t1 ?start r"]) (auto simp: write_fields replaced_def)
  qed
  have first: "call_effect s s1"
  proof (cases rule: start)
    case 2
    show ?thesis
      by (rule call_effect_replaced [OF found(3) 2(2,3)])
        (auto simp: 2(1) rem_edge_def allowed_targets_def write_fields past_approval_def elim!: row_ok_past)
  qed simp
  show ?thesis
  proof (cases "s' = s1")
    case False
    obtain v where x': "x = Inr ()" and u: "update_remediation_proposal t2 pid (no_update\<lparr>
           pu_status := Some (if vs_outcome v = ''verified'' then ''verified'' else ''failed''),
           pu_verification := Some (to_persist_dict v),
           pu_failure := Some (if vs_outcome v = ''verified'' then [] else failure_reason v)\<rparr>) s1 = (res, s')"
      using assms False found(1) x by (cases x) (auto simp: verify_runtime_def bnd_def throw_def split: sum.splits)
    from write_outcome [OF u r1(1)] False
    have w: "replaced pid (write_update t2 (no_update\<lparr>
           pu_status := Some (if vs_outcome v = ''verified'' then ''verified'' else ''failed''),
           pu_verification := Some (to_persist_dict v),
           pu_failure := Some (if vs_outcome v = ''verified'' then [] else failure_reason v)\<rparr>) r1) s1 s'" "approvals s' = approvals s1" by auto
    have "p_status r \<in> past_approval" using st [OF x'] by (auto simp: past_approval_def)
    with st [OF x'] r1(2,3) show ?thesis
      by (intro call_effect_replaced [OF found(3) reach(1) [OF w(1)]])
        (auto simp: w(2) reach(2) rem_edge_def allowed_targets_def write_fields elim!: row_ok_past)
  qed (use first in simp)
qed

text \<open>A write after steps that touched approvals only.\<close>

lemma call_effect_after:
  assumes "approvals_kept s s1" "remediation_proposals s1 = remediation_proposals s"
    "update_remediation_proposal now pid u s1 = (res, s')" "sql_fetch p_id pid (remediation_proposals s) = Some r"
    "rem_edge (p_status r) (p_status (write_update now u r))" "row_ok s1 r \<Longrightarrow> row_ok s1 (write_update now u r)"
  shows "call_effect s s'"
  using write_outcome [OF assms(3) assms(4) [folded assms(2)]]
proof
  assume "s' = s1"
  with assms(1,2) show ?thesis by (simp add: call_effect_def)
next
  assume w: "replaced pid (write_update now u r) s1 s' \<and> approvals s' = approvals s1"
  then have same: "row_ok s' x \<longleftrightarrow> row_ok s1 x" for x by (simp add: row_ok_def backed_def)
  have "replaced pid (write_update now u r) s s'" using w assms(2) by (simp add: replaced_def)
  moreover have "approvals_kept s s'" using assms(1) w by (simp add: approvals_kept_def)
  moreover have "row_ok s r \<longrightarrow> row_ok s' (write_update now u r)"
    using row_ok_kept [OF assms(1,4)] assms(6) by (simp add: same)
  ultimately show ?thesis using assms(4,5) unfolding call_effect_def by blast
qed

lemma approvals_kept_evolves:
  assumes "appr.evolves (approvals s) (approvals s')" "\<And>k. k \<in> linked s \<Longrightarrow> k \<in> a_id ` set (approvals s') \<Longrightarrow> k \<in> a_id ` set (approvals s)"
  shows "approvals_kept s s'"
  unfolding approvals_kept_def
proof (intro ballI allI impI)
  fix k a'
  assume k: "k \<in> linked s" "sql_fetch a_id k (approvals s') = Some a'"
  then have "k \<in> a_id ` set (approvals s)" using assms(2) [OF k(1)] sql_fetch_None [of a_id k "approvals s'"] by force
  then obtain a where a: "sql_fetch a_id k (approvals s) = Some a"
    using sql_fetch_None [of a_id k "approvals s"] by fastforce
  with appr.evolvesD [OF assms(1) k(2)] have "a' = a \<or> appr_step (a_status a) (a_status a')" by simp
  with a show "\<exists>a. sql_fetch a_id k (approvals s) = Some a \<and> (a_status a \<in> given \<longrightarrow> a_status a' \<in> given)"
    by (auto simp: appr_step_def given_def)
qed

lemma approvals_kept_step:
  assumes "store_step s l s'" "db_ok s" "\<And>k. l = Created k \<Longrightarrow> k \<notin> linked s"
  shows "approvals_kept s s'"
  using store_step_evolves [OF assms(1,2)] store_step_new_key [OF assms(1)] assms(3)
  by (intro approvals_kept_evolves) auto

lemma approvals_kept_trans:
  assumes "approvals_kept s s1" "approvals_kept s1 s'" "remediation_proposals s1 = remediation_proposals s"
  shows "approvals_kept s s'"
proof -
  have "linked s1 = linked s" using assms(3) by (simp add: linked_def)
  with assms(1,2) show ?thesis unfolding approvals_kept_def by metis
qed

lemma approvals_kept_run:
  assumes "store_run s ls s'" "db_ok s" "set ls \<subseteq> {Tau}"
  shows "approvals_kept s s'"
  using assms
proof (induction rule: store_run.induct)
  case (run_step s l s1 ls s')
  have "approvals_kept s s1" using approvals_kept_step [OF run_step.hyps(1)] run_step.prems by auto
  moreover have "approvals_kept s1 s'" using run_step store_step_db_ok by simp
  ultimately show ?case using store_step_proposals [OF run_step.hyps(1)] by (rule approvals_kept_trans)
qed (simp add: approvals_kept_refl)

lemma evaluate_effect:
  assumes "evaluate_policy rt clock dr rid now pid tenant environment team s = (res, s')"
    "pd_approval_id dr \<noteq> []" "pd_approval_id dr \<notin> linked s"
  shows "call_effect s s'"
  using assms(1) unfolding evaluate_policy_def Let_def
proof (cases rule: guarded_cases)
  case (passed r)
  let ?q = "remediation_request r environment team"
  from passed(5) have st: "p_status r = ''proposed''" by (auto simp: allowed_targets_def split: if_splits)
  obtain x s0 where x: "evaluate_governance_request (rt_sha rt) (rt_mac rt) (rt_signing rt) (rt_quota_policy rt) clock None (rt_bundle rt) ?q s = (x, s0)"
    by fastforce
  show ?thesis
  proof (cases x)
    case (Inl e)
    have "s0 = s" using evaluate_governance_unchanged [of "rt_sha rt" "rt_mac rt" "rt_signing rt" "rt_quota_policy rt" clock None "rt_bundle rt" ?q s] x by simp
    with passed(6) x Inl show ?thesis by (simp add: bnd_def)
  next
    case (Inr e)
    note ev = x [unfolded Inr]
    note v = evaluated_verdict [OF ev]
    obtain y s1 where y: "persist_evaluation (rt_sha rt) (rt_ttl rt) dr e ?q rid s = (y, s1)" by fastforce
    note p = persist_approvals [OF y]
    have kept: "approvals_kept s s1"
      unfolding approvals_kept_def
    proof (intro ballI allI impI)
      fix k a'
      assume k: "k \<in> linked s" "sql_fetch a_id k (approvals s1) = Some a'"
      with assms(3) p(2) have "sql_fetch a_id k (approvals s) = Some a'" by metis
      then show "\<exists>a. sql_fetch a_id k (approvals s) = Some a \<and> (a_status a \<in> given \<longrightarrow> a_status a' \<in> given)" by blast
    qed
    show ?thesis
    proof (cases y)
      case (Inl err)
      with passed(6) ev v(1) y p(1) kept show ?thesis by (simp add: bnd_def call_effect_def)
    next
      case (Inr persisted)
      have u: "record_verdict now pid persisted s1 = (res, s')"
        using passed(6) ev v(1) y Inr by (simp add: bnd_def)
      have per: "ge_verdict persisted = ge_verdict e" "ge_approval_id persisted = (if needs_approval e then Some (pd_approval_id dr) else None)"
        using p(3) [OF Inr] v(3) by simp_all
      show ?thesis
        by (rule call_effect_after [OF kept p(1) u [unfolded record_verdict_def] passed(2)])
          (use v(2,3) assms(2) in \<open>auto simp: st rem_edge_def write_fields verdict_status_def per needs_approval_def row_ok_def backed_def past_approval_def\<close>)
    qed
  qed
qed simp

lemma resolve_proposal_effect:
  assumes "resolve_proposal g pid approved reviewer comment tenant s = (res, s')" "db_ok s"
  shows "call_effect s s'"
  using assms(1) unfolding resolve_proposal_def Let_def
proof (cases rule: guarded_cases)
  case (passed r)
  let ?target = "if approved then ''approved'' else ''rejected''"
  from passed(5) have st: "p_status r = ''policy_evaluated''" by (auto simp: allowed_targets_def split: if_splits)
  obtain x s1 where x: "resolve_linked_approval g r ?target reviewer comment s = (x, s1)" by fastforce
  obtain ls where ls: "store_run s ls s1" "set ls \<subseteq> {Tau}" using linked_steps [OF x] by blast
  have kept: "approvals_kept s s1" by (rule approvals_kept_run [OF ls(1) assms(2) ls(2)])
  have same: "remediation_proposals s1 = remediation_proposals s" by (rule store_run_proposals [OF ls(1)])
  show ?thesis
  proof (cases x)
    case (Inl e)
    with passed(6) x kept same show ?thesis by (simp add: bnd_def call_effect_def)
  next
    case (Inr u)
    have w: "update_remediation_proposal (rd_updated_at g) pid (no_update\<lparr>pu_status := Some ?target\<rparr>) s1 = (res, s')"
      using passed(6) x Inr by (simp add: bnd_def)
    have "backed s1 r" if "opt_str (p_approval_id r) \<noteq> []" "approved"
      using linked_resolved [OF x [unfolded Inr] assms(2) that(1)] that by (cases "p_approval_id r") (auto simp: backed_def given_def)
    then show ?thesis
      by (intro call_effect_after [OF kept same w passed(2)])
        (auto simp: st rem_edge_def write_fields allowed_targets_def row_ok_def backed_def past_approval_def)
  qed
qed simp

subsection \<open>Runs\<close>

text \<open>
  One step is a call of the service, with any outcome, or any step of another session on the store. Ids are drawn
  by \<open>uuid4\<close>: an approval id that some proposal already points to is not drawn again, and none is empty.
\<close>

inductive rem_step :: "db \<Rightarrow> db \<Rightarrow> bool" where
  open_proposal: "create_from_drift pid now tenant index kind status s = (res, s') \<Longrightarrow> rem_step s s'"
| evaluate: "evaluate_policy rt clock dr rid now pid tenant environment team s = (res, s') \<Longrightarrow>
    pd_approval_id dr \<noteq> [] \<Longrightarrow> pd_approval_id dr \<notin> linked s \<Longrightarrow> rem_step s s'"
| resolve: "resolve_proposal g pid approved reviewer comment tenant s = (res, s') \<Longrightarrow> rem_step s s'"
| prepare: "prepare_pr_draft provider now pid tenant pr_url s = (res, s') \<Longrightarrow> rem_step s s'"
| apply_it: "mark_applied applied_at now pid tenant pr_url s = (res, s') \<Longrightarrow> rem_step s s'"
| verify: "verify_runtime t1 verified_at t2 pid tenant injected probed s = (res, s') \<Longrightarrow> rem_step s s'"
| other: "store_step s l s' \<Longrightarrow> (\<And>k. l = Created k \<Longrightarrow> k \<notin> linked s) \<Longrightarrow> rem_step s s'"

lemma create_proposal_effect:
  assumes "create_from_drift pid now tenant index kind status s = (res, s')"
  shows "approvals s' = approvals s \<and> (remediation_proposals s' = remediation_proposals s \<or>
    (\<exists>row. sql_insert p_id row (remediation_proposals s) = Some (remediation_proposals s') \<and> p_status row = ''proposed''))"
proof -
  have each: "approvals (snd (create_remediation_proposal pid now t ''proposed'' src k d a s)) = approvals s \<and>
    (remediation_proposals (snd (create_remediation_proposal pid now t ''proposed'' src k d a s)) = remediation_proposals s \<or>
     (\<exists>row. sql_insert p_id row (remediation_proposals s) =
        Some (remediation_proposals (snd (create_remediation_proposal pid now t ''proposed'' src k d a s))) \<and> p_status row = ''proposed''))"
    for t src k d a
    by (auto simp: create_remediation_proposal_def with_db_def proposal_row_def split: option.split)
  have "s' = s \<or> (\<exists>t src k d a. s' = snd (create_remediation_proposal pid now t ''proposed'' src k d a s))"
  proof (cases "select_action status index kind")
    case (Inr action)
    let ?c = "create_remediation_proposal pid now (str_or tenant ''platform'') ''proposed'' ''inventory_drift'' (da_kind action)
        (drift_value status) (action_value action)"
    have "snd (bnd ?c (\<lambda>new. bnd (get_remediation_proposal new None)
        (\<lambda>rec. case rec of None \<Rightarrow> throw AssertionError | Some r \<Rightarrow> ret r)) s) = snd (?c s)"
    proof -
      have g: "snd (bnd (get_remediation_proposal new None) (\<lambda>rec. case rec of None \<Rightarrow> throw AssertionError | Some r \<Rightarrow> ret r) u) = u"
        for new u using get_proposal_unchanged [of new None u]
        by (cases "get_remediation_proposal new None u") (auto simp: bnd_def throw_def ret_def split: sum.split option.split)
      then show ?thesis by (cases "?c s") (auto simp: bnd_def [of ?c] split: sum.split)
    qed
    with assms Inr show ?thesis by (auto simp: create_from_drift_def throw_def split: if_splits) (metis snd_conv)+
  qed (use assms in \<open>auto simp: create_from_drift_def throw_def split: if_splits\<close>)
  then show ?thesis by (elim disjE exE) (simp, simp only: each simp_thms)
qed

lemma keeps_update_proposal: "keeps db_ok (update_remediation_proposal now pid u)"
proof (rule keepsI)
  fix s assume "db_ok s"
  then show "db_ok (snd (update_remediation_proposal now pid u s))"
    using update_proposal_state [of now pid u s] by (elim disjE) (simp_all add: db_ok_defs proposals.keys_update)
qed

lemma keeps_create_proposal: "keeps db_ok (create_remediation_proposal pid now t st src k d a)"
  by (rule keepsI) (auto simp: create_remediation_proposal_def with_db_def db_ok_defs sql_insert_Some split: option.split)

lemma keeps_get_proposal: "keeps db_ok (get_remediation_proposal pid tenant)"
  by (simp add: keeps_def)

lemma keeps_find_proposal: "keeps db_ok (find_proposal pid tenant)"
  unfolding find_proposal_def by (rule keeps_bnd) (auto simp: keeps_def throw_def ret_def split: option.split)

lemma keeps_require: "keeps db_ok (require_transition a b)"
  by (simp add: require_transition_def keeps_ret keeps_throw)

lemma keeps_persist_evaluation: "keeps db_ok (persist_evaluation sha ttl dr r q rid)"
proof (rule keepsI)
  fix s assume ok: "db_ok s"
  obtain res s' where p: "persist_evaluation sha ttl dr r q rid s = (res, s')" by fastforce
  then show "db_ok (snd (persist_evaluation sha ttl dr r q rid s))"
  proof (cases rule: persist_evaluation_cases)
    case (stored digest digests aid r')
    from keepsD [OF keeps_persist_records ok, of ttl dr r q rid digest digests] stored(5) p show ?thesis by simp
  qed (simp add: ok p)
qed

lemma keeps_linked: "keeps db_ok (resolve_linked_approval g r target reviewer comment)"
  unfolding resolve_linked_approval_def by (auto intro!: keeps_bnd keeps_db_ok)

lemma keeps_start: "keeps db_ok (start_verifying now r)"
  unfolding start_verifying_def by (auto intro!: keeps_bnd keeps_require keeps_update_proposal)

lemmas keeps_calls = keeps_get_proposal keeps_find_proposal keeps_require keeps_update_proposal keeps_create_proposal keeps_persist_evaluation
  keeps_linked keeps_start

lemma rem_step_db_ok:
  assumes "rem_step s s'" "db_ok s" shows "db_ok s'"
  using assms
proof (induction rule: rem_step.induct)
  case (open_proposal pid now tenant index kind status s res s')
  have "keeps db_ok (create_from_drift pid now tenant index kind status)"
    unfolding create_from_drift_def
    by (auto intro!: keeps_bnd keeps_calls split: sum.split option.split)
  then show ?case using open_proposal keepsD by (metis snd_conv)
next
  case (evaluate rt clock dr rid now pid tenant environment team s res s')
  have "keeps db_ok (evaluate_policy rt clock dr rid now pid tenant environment team)"
    unfolding evaluate_policy_def Let_def record_verdict_def
    by (intro keeps_bnd keeps_calls) (simp add: keeps_def evaluate_governance_unchanged)
  then show ?case using evaluate keepsD by (metis snd_conv)
next
  case (resolve g pid approved reviewer comment tenant s res s')
  have "keeps db_ok (resolve_proposal g pid approved reviewer comment tenant)"
    unfolding resolve_proposal_def Let_def by (intro keeps_bnd keeps_calls)
  then show ?case using resolve keepsD by (metis snd_conv)
next
  case (prepare provider now pid tenant pr_url s res s')
  have "keeps db_ok (prepare_pr_draft provider now pid tenant pr_url)"
    unfolding prepare_pr_draft_def Let_def
    by (intro keeps_bnd keeps_calls) (auto intro: keeps_calls split: sum.split)
  then show ?case using prepare keepsD by (metis snd_conv)
next
  case (apply_it applied_at now pid tenant pr_url s res s')
  have "keeps db_ok (mark_applied applied_at now pid tenant pr_url)"
    unfolding mark_applied_def by (intro keeps_bnd keeps_calls)
  then show ?case using apply_it keepsD by (metis snd_conv)
next
  case (verify t1 verified_at t2 pid tenant injected probed s res s')
  have "keeps db_ok (verify_runtime t1 verified_at t2 pid tenant injected probed)"
    unfolding verify_runtime_def by (intro keeps_bnd keeps_calls) (auto intro: keeps_calls split: sum.split)
  then show ?case using verify keepsD by (metis snd_conv)
next
  case (other s l s')
  then show ?case by (simp add: store_step_db_ok)
qed

subsection \<open>What holds of every run\<close>

lemma rem_step_cases:
  assumes "rem_step s s'" "db_ok s"
  obtains (call) "call_effect s s'"
  | (new) row where "sql_insert p_id row (remediation_proposals s) = Some (remediation_proposals s')" "p_status row = ''proposed''"
    "approvals s' = approvals s"
  using assms
proof (induction rule: rem_step.induct)
  case (open_proposal pid now tenant index kind status s res s')
  from create_proposal_effect [OF open_proposal(1)] open_proposal(2,3) show ?case
    by (auto simp: call_effect_def approvals_kept_refl)
next
  case (other s l s')
  have "call_effect s s'"
    using approvals_kept_step [OF other(1) _ other(2)] other(5) store_step_proposals [OF other(1)] by (simp add: call_effect_def)
  then show ?case by (rule other(3))
qed (auto intro: evaluate_effect resolve_proposal_effect prepare_effect applied_effect verify_effect)

lemma rem_step_evolves:
  assumes "rem_step s s'" "db_ok s"
  shows "rem.evolves (remediation_proposals s) (remediation_proposals s')"
  using assms by (cases rule: rem_step_cases) (auto intro: call_effect_evolves rem.evolves_insert)

lemma rem_step_backed:
  assumes "rem_step s s'" "db_ok s" "all_backed s"
  shows "all_backed s'"
  using assms(1,2)
proof (cases rule: rem_step_cases)
  case (new row)
  have same: "row_ok s' r \<longleftrightarrow> row_ok s r" for r using new(3) by (simp add: row_ok_def backed_def)
  have "remediation_proposals s' = remediation_proposals s @ [row]" "row_ok s row"
    using new(1,2) by (auto simp: sql_insert_Some row_ok_def past_approval_def)
  with assms(3) show ?thesis by (auto simp: all_backed_def same sql_fetch_append split: option.splits if_splits)
qed (simp add: call_effect_backed assms(3))

lemma rem_run:
  assumes "rtranclp rem_step s s'" "db_ok s"
  shows "db_ok s'" and "all_backed s \<Longrightarrow> all_backed s'"
proof -
  have "db_ok s' \<and> (all_backed s \<longrightarrow> all_backed s')"
    using assms by (induction rule: rtranclp_induct) (auto intro: rem_step_db_ok rem_step_backed)
  then show "db_ok s'" "all_backed s \<Longrightarrow> all_backed s'" by auto
qed

lemma all_backed_empty: "all_backed empty_db"
  by (simp add: all_backed_def empty_db_def sql_fetch_def)

text \<open>C2: Nothing is remediated behind the back of the policy. In every run, from the empty store on, a proposal that
  is approved, or for which a pull request was opened, applied or verified, was allowed by policy or its
  approval was given by a reviewer, as long as retention has not removed that approval.\<close>

theorem no_remediation_unapproved:
  assumes "rtranclp rem_step s s'" "db_ok s" "all_backed s" "sql_fetch p_id pid (remediation_proposals s') = Some r"
    "p_status r \<in> {''approved'', ''pr_created'', ''applied'', ''verifying'', ''verified'', ''failed''}"
  shows "p_verdict r = Some ''allow'' \<or>
    (\<exists>aid. p_approval_id r = Some aid \<and>
       (\<forall>a. sql_fetch a_id aid (approvals s') = Some a \<longrightarrow> a_status a \<in> {''approved'', ''consumed''}))"
proof -
  have "row_ok s' r" using rem_run(2) [OF assms(1-3)] assms(4) by (auto simp: all_backed_def)
  with assms(5) show ?thesis by (simp add: row_ok_def past_approval_def backed_def given_def)
qed

lemma call_effect_present:
  assumes "call_effect s s'" "sql_fetch p_id pid (remediation_proposals s) = Some r"
  shows "sql_fetch p_id pid (remediation_proposals s') \<noteq> None"
proof -
  from assms(1) consider "remediation_proposals s' = remediation_proposals s" | k r' where "replaced k r' s s'"
    by (auto simp: call_effect_def)
  then show ?thesis
  proof cases
    case 2
    then have "sql_fetch p_id pid (remediation_proposals s') = (if pid = k then Some r' else sql_fetch p_id pid (remediation_proposals s))"
      by (simp add: replaced_def)
    with assms(2) show ?thesis by simp
  qed (simp add: assms(2))
qed

lemma find_proposal_kept:
  assumes "rem_step s s'" "db_ok s" "sql_fetch p_id pid (remediation_proposals s) = Some r"
  shows "sql_fetch p_id pid (remediation_proposals s') \<noteq> None"
  using assms(1,2)
proof (cases rule: rem_step_cases)
  case (new row)
  then show ?thesis using assms(3) by (auto simp: sql_insert_Some sql_fetch_append)
qed (rule call_effect_present [OF _ assms(3)])


text \<open>A proposal whose approval is no longer pending, because it was decided at the approvals endpoint or has
  expired, can be neither approved nor rejected any more: every attempt raises and writes nothing to it.\<close>

theorem proposal_left_behind:
  assumes "db_ok s" "sql_fetch p_id pid (remediation_proposals s) = Some r" "p_approval_id r = Some aid" "aid \<noteq> []"
    "sql_fetch a_id aid (approvals s) = Some a" "a_status a \<noteq> ''pending''"
  shows "(\<exists>e. fst (resolve_proposal g pid approved reviewer comment tenant s) = Inl e) \<and>
    remediation_proposals (snd (resolve_proposal g pid approved reviewer comment tenant s)) = remediation_proposals s"
proof -
  obtain res s' where res: "resolve_proposal g pid approved reviewer comment tenant s = (res, s')" by fastforce
  from res [unfolded resolve_proposal_def Let_def] have "(\<exists>e. res = Inl e) \<and> remediation_proposals s' = remediation_proposals s"
  proof (cases rule: guarded_cases)
    case (passed r')
    then have r': "r' = r" using assms(2) by simp
    let ?target = "if approved then ''approved'' else ''rejected''"
    obtain x s1 where x: "resolve_linked_approval g r ?target reviewer comment s = (x, s1)" by fastforce
    have "\<exists>e. x = Inl e"
    proof (rule ccontr)
      assume "\<nexists>e. x = Inl e"
      then obtain u where "x = Inr u" by (cases x) auto
      with x have "resolve_linked_approval g r ?target reviewer comment s = (Inr u, s1)" by simp
      then obtain row s2 where "resolve_approval (rd_expiry_read g) (rd_expiry_write g) (rd_resolved_at g) aid ?target reviewer comment None True s = (Inr row, s2)"
        using assms(3,4) by (auto simp: resolve_linked_approval_def elim!: bnd_InrE split: if_splits)
      from resolve_effect [OF this assms(1)] assms(5,6) show False by auto
    qed
    moreover have "remediation_proposals s1 = remediation_proposals s" using linked_steps [OF x] store_run_proposals by blast
    ultimately show ?thesis using passed(6) x by (auto simp: r' bnd_def)
  qed simp
  then show ?thesis by (simp add: res)
qed

text \<open>The last write of an evaluation does not look at the status any more: when it comes late it reopens a proposal
  that another session has meanwhile closed.\<close>

lemma late_verdict_reopens:
  assumes "db_up s" "db_ok s" "sql_fetch p_id pid (remediation_proposals s) = Some r" "p_status r = ''rejected''"
    "ge_verdict persisted = ''approval_required''"
  shows "\<exists>r' s'. record_verdict now pid persisted s = (Inr r', s') \<and> p_status r' = ''policy_evaluated''"
  using update_proposal_found [OF assms(1) db_ok_proposals [OF assms(2)] assms(3)] assms(5)
  by (auto simp: record_verdict_def verdict_status_def write_fields)

text \<open>A store with one proposal.\<close>

definition demo_proposal :: "string \<Rightarrow> rem_row" where
  "demo_proposal status = (proposal_row ''p1'' 0 ''acme'' status ''inventory_drift'' ''pull_model'' [] [])
     \<lparr>p_verdict := Some ''approval_required'', p_approval_id := Some ''a1''\<rparr>"

definition demo_loop :: "string \<Rightarrow> string \<Rightarrow> db" where
  "demo_loop appr status = (demo_db appr)\<lparr>remediation_proposals := [demo_proposal status]\<rparr>"

lemma demo_loop_ok: "db_ok (demo_loop appr status)" "db_up (demo_loop appr status)"
  "sql_fetch p_id ''p1'' (remediation_proposals (demo_loop appr status)) = Some (demo_proposal status)"
  "p_id (demo_proposal status) = ''p1''" "p_status (demo_proposal status) = status"
  "sql_fetch a_id ''a1'' (approvals (demo_loop appr status)) = Some (demo_approval appr)"
  by (simp_all add: demo_loop_def demo_defs db_ok_defs demo_proposal_def proposal_row_def sql_fetch_def)

lemma demo_applied:
  "mark_applied 0 0 ''p1'' None None (demo_loop ''approved'' ''pr_created'') =
     (Inr (write_update 0 (no_update\<lparr>pu_status := Some ''applied'', pu_applied_at := Some (isoformat 0), pu_pr_url := None\<rparr>) (demo_proposal ''pr_created'')),
      (demo_loop ''approved'' ''pr_created'')\<lparr>remediation_proposals :=
        sql_update (\<lambda>r. p_id r = ''p1'') (write_update 0 (no_update\<lparr>pu_status := Some ''applied'', pu_applied_at := Some (isoformat 0), pu_pr_url := None\<rparr>))
          (remediation_proposals (demo_loop ''approved'' ''pr_created''))\<rparr>)"
proof -
  let ?s = "demo_loop ''approved'' ''pr_created''"
  have "find_proposal ''p1'' None ?s = (Inr (demo_proposal ''pr_created''), ?s)"
    by (simp add: find_proposal_def bnd_def get_proposal_Inr [THEN iffD2] demo_loop_ok ret_def)
  then show ?thesis
    by (simp add: mark_applied_def bnd_def demo_loop_ok require_transition_def allowed_targets_def ret_def
        update_proposal_found [OF demo_loop_ok(2) db_ok_proposals [OF demo_loop_ok(1)] demo_loop_ok(3)])
qed

theorem no_remediation_unapproved_witness:
  "\<exists>s' r. rtranclp rem_step (demo_loop ''approved'' ''pr_created'') s' \<and>
     sql_fetch p_id ''p1'' (remediation_proposals s') = Some r \<and> p_status r = ''applied'' \<and>
     (p_verdict r = Some ''allow'' \<or> (\<exists>aid. p_approval_id r = Some aid \<and>
       (\<forall>a. sql_fetch a_id aid (approvals s') = Some a \<longrightarrow> a_status a \<in> {''approved'', ''consumed''})))"
proof -
  let ?s = "demo_loop ''approved'' ''pr_created''"
  obtain r s' where m: "mark_applied 0 0 ''p1'' None None ?s = (Inr r, s')" and st: "p_status r = ''applied''"
    and f: "sql_fetch p_id ''p1'' (remediation_proposals s') = Some r"
    using demo_applied demo_loop_ok(3) [of "''approved''" "''pr_created''"]
    by (simp add: proposals.fetch_update demo_loop_ok)
  have run: "rtranclp rem_step ?s s'" by (rule r_into_rtranclp) (rule rem_step.apply_it [OF m])
  have "row_ok ?s (demo_proposal ''pr_created'')"
    by (simp add: row_ok_def backed_def demo_loop_ok given_def)
      (simp add: demo_proposal_def proposal_row_def demo_loop_ok(6) demo_approval_def)
  then have "all_backed ?s" by (auto simp: all_backed_def demo_loop_def sql_fetch_def split: if_splits)
  from no_remediation_unapproved [OF run demo_loop_ok(1) this f] st run f show ?thesis by blast
qed


theorem proposal_left_behind_witness:
  "\<exists>e. fst (resolve_proposal \<lparr>rd_expiry_read = 0, rd_expiry_write = 0, rd_resolved_at = 0, rd_event = ''e'', rd_event_at = 0,
     rd_updated_at = 0\<rparr> ''p1'' True ''bob'' [] None (demo_loop ''approved'' ''policy_evaluated'')) = Inl e"
  using proposal_left_behind [OF demo_loop_ok(1) demo_loop_ok(3) _ _ demo_loop_ok(6)]
  by (simp add: demo_proposal_def demo_approval_def)

end
