(* ===== verification/Remediation_Api.thy ===== *)
theory Remediation_Api
  imports Approval_Api Remediation_Lifecycle
begin

text \<open>
  The remediation endpoints (\<open>routers/remediation.py\<close>): roles, the tenant the call is scoped to, the call of the
  service and its exceptions as HTTP answers. An answer is the proposal row; \<open>proposal_to_dict\<close> renders it.
\<close>

definition remediation_scope :: "access_env \<Rightarrow> bool \<Rightarrow> names \<Rightarrow> string \<Rightarrow> string option result" where
  "remediation_scope ac isolation headers body_tenant =
     (if \<not> isolation then Inr (if py_strip body_tenant = [] then None else Some (py_strip body_tenant))
      else rbind (map_error http_auth (resolve_request_tenant ac headers)) (\<lambda>t.
        let tenant = str_or t (py_strip body_tenant) in
        if tenant = [] then Inl (HttpError 400 ''tenant required'') else Inr (Some tenant)))"

text \<open>\<open>tenant_for_request(...) or _tenant_scope(...)\<close>.\<close>

definition call_tenant :: "access_env \<Rightarrow> bool \<Rightarrow> names \<Rightarrow> string \<Rightarrow> string option result" where
  "call_tenant ac isolation headers body_tenant =
     rbind (tenant_for_request ac isolation headers None body_tenant) (\<lambda>t.
       if opt_str t \<noteq> [] then Inr t else remediation_scope ac isolation headers body_tenant)"

definition http_create :: "exn \<Rightarrow> exn" where
  "http_create e = (case e of StoreUnavailable \<Rightarrow> store_unavailable | RemediationError m \<Rightarrow> HttpError 400 m | _ \<Rightarrow> e)"

definition http_proposal :: "exn \<Rightarrow> exn" where
  "http_proposal e =
     (case e of StoreUnavailable \<Rightarrow> store_unavailable | KeyError _ \<Rightarrow> HttpError 404 ''remediation proposal not found''
      | RemediationError m \<Rightarrow> HttpError 409 m | _ \<Rightarrow> e)"

definition http_evaluate :: "exn \<Rightarrow> exn" where
  "http_evaluate e = (case e of RuntimeError m \<Rightarrow> HttpError 503 m | _ \<Rightarrow> http_proposal e)"

definition http_resolve_proposal :: "exn \<Rightarrow> exn" where
  "http_resolve_proposal e = (case e of ValueError m \<Rightarrow> HttpError 409 m | _ \<Rightarrow> http_proposal e)"

definition api_create_proposal ::
  "access_env \<Rightarrow> bool \<Rightarrow> names \<Rightarrow> string \<Rightarrow> instant \<Rightarrow> string \<Rightarrow> int option \<Rightarrow> string option \<Rightarrow> drift_status \<Rightarrow> (db, rem_row) opn" where
  "api_create_proposal ac isolation headers pid now body_tenant index kind probed =
     bnd (lift_result (require_roles ac headers [''tenant-admin'', ''platform-admin''])) (\<lambda>_.
     bnd (lift_result (call_tenant ac isolation headers body_tenant)) (\<lambda>t.
       rethrow http_create (create_from_drift pid now (str_or (opt_str t) (str_or body_tenant ''platform'')) index kind probed)))"

definition read_roles :: "string list" where
  "read_roles = [''tenant-admin'', ''platform-admin'', ''auditor'', ''viewer'', ''approver'']"

definition api_list_proposals ::
  "access_env \<Rightarrow> bool \<Rightarrow> names \<Rightarrow> string option \<Rightarrow> int \<Rightarrow> int \<Rightarrow> (db, rem_row page) opn" where
  "api_list_proposals ac isolation headers status limit offset =
     bnd (lift_result (require_roles ac headers read_roles)) (\<lambda>_.
     bnd (lift_result (call_tenant ac isolation headers [])) (\<lambda>t.
       rethrow http_503 (list_remediation_proposals status limit offset t)))"

definition api_get_proposal :: "access_env \<Rightarrow> bool \<Rightarrow> names \<Rightarrow> string \<Rightarrow> (db, rem_row) opn" where
  "api_get_proposal ac isolation headers pid =
     bnd (lift_result (require_roles ac headers read_roles)) (\<lambda>_.
     bnd (lift_result (call_tenant ac isolation headers [])) (\<lambda>t.
     bnd (rethrow http_503 (get_remediation_proposal pid t)) (\<lambda>rec.
       case rec of None \<Rightarrow> throw (HttpError 404 ''remediation proposal not found'') | Some r \<Rightarrow> ret r)))"

definition api_evaluate_proposal ::
  "access_env \<Rightarrow> bool \<Rightarrow> names \<Rightarrow> runtime \<Rightarrow> string \<Rightarrow> persist_draws \<Rightarrow> string \<Rightarrow> instant \<Rightarrow> string \<Rightarrow> string \<Rightarrow> (db, rem_row) opn" where
  "api_evaluate_proposal ac isolation headers rt clock dr rid now pid environment =
     bnd (lift_result (require_roles ac headers [''tenant-admin'', ''platform-admin''])) (\<lambda>_.
     bnd (lift_result (call_tenant ac isolation headers [])) (\<lambda>t.
       rethrow http_evaluate (evaluate_policy rt clock dr rid now pid t environment t)))"

definition api_resolve_proposal ::
  "access_env \<Rightarrow> bool \<Rightarrow> names \<Rightarrow> resolve_draws \<Rightarrow> string \<Rightarrow> bool \<Rightarrow> string \<Rightarrow> string \<Rightarrow> (db, rem_row) opn" where
  "api_resolve_proposal ac isolation headers g pid approved body_reviewer comment =
     bnd (lift_result (remediation_scope ac isolation headers [])) (\<lambda>t.
     bnd (lift_result (reviewer_of_request ac headers body_reviewer)) (\<lambda>reviewer.
       rethrow http_resolve_proposal (resolve_proposal g pid approved reviewer comment t)))"

definition approve_proposal :: "access_env \<Rightarrow> bool \<Rightarrow> names \<Rightarrow> resolve_draws \<Rightarrow> string \<Rightarrow> string \<Rightarrow> string \<Rightarrow> (db, rem_row) opn" where
  "approve_proposal ac isolation headers g pid body_reviewer comment =
     api_resolve_proposal ac isolation headers g pid True body_reviewer comment"

definition reject_proposal :: "access_env \<Rightarrow> bool \<Rightarrow> names \<Rightarrow> resolve_draws \<Rightarrow> string \<Rightarrow> string \<Rightarrow> string \<Rightarrow> (db, rem_row) opn" where
  "reject_proposal ac isolation headers g pid body_reviewer comment =
     api_resolve_proposal ac isolation headers g pid False body_reviewer comment"

definition non_empty_text :: "string \<Rightarrow> string option" where
  "non_empty_text t = (if t = [] then None else Some t)"

definition prepare_proposal_pr ::
  "access_env \<Rightarrow> bool \<Rightarrow> names \<Rightarrow> (pr_request \<Rightarrow> string option result) \<Rightarrow> instant \<Rightarrow> string \<Rightarrow> string \<Rightarrow> (db, rem_row) opn" where
  "prepare_proposal_pr ac isolation headers provider now pid pr_url =
     bnd (lift_result (require_roles ac headers [''tenant-admin'', ''platform-admin''])) (\<lambda>_.
     bnd (lift_result (call_tenant ac isolation headers [])) (\<lambda>t.
       rethrow http_proposal (prepare_pr_draft provider now pid t (non_empty_text pr_url))))"

definition mark_proposal_applied ::
  "access_env \<Rightarrow> bool \<Rightarrow> names \<Rightarrow> instant \<Rightarrow> instant \<Rightarrow> string \<Rightarrow> string \<Rightarrow> (db, rem_row) opn" where
  "mark_proposal_applied ac isolation headers applied_at now pid pr_url =
     bnd (lift_result (require_roles ac headers [''runtime-service'', ''platform-admin''])) (\<lambda>_.
     bnd (lift_result (call_tenant ac isolation headers [])) (\<lambda>t.
       rethrow http_proposal (mark_applied applied_at now pid t (non_empty_text pr_url))))"

definition verify_proposal ::
  "access_env \<Rightarrow> bool \<Rightarrow> names \<Rightarrow> instant \<Rightarrow> string \<Rightarrow> instant \<Rightarrow> string \<Rightarrow> drift_status \<Rightarrow> (db, rem_row) opn" where
  "verify_proposal ac isolation headers t1 verified_at t2 pid probed =
     bnd (lift_result (require_roles ac headers [''runtime-service'', ''platform-admin''])) (\<lambda>_.
     bnd (lift_result (call_tenant ac isolation headers [])) (\<lambda>t.
       rethrow http_proposal (verify_runtime t1 verified_at t2 pid t None probed)))"

subsection \<open>An endpoint does what its service call does, or nothing\<close>

lemma lifted_state:
  assumes "bnd (lift_result c) f s = (res, s')"
  obtains (refused) "s' = s" "\<exists>e. res = Inl e" | (passed) x where "c = Inr x" "f x s = (res, s')"
  using assms by (cases c) (auto simp: bnd_def)

lemma guarded_call:
  assumes "bnd (lift_result roles) (\<lambda>_. bnd (lift_result scope) (\<lambda>t. rethrow f (op t))) s = (res, s')"
  obtains (refused) "s' = s" "\<exists>e. res = Inl e"
  | (called) subject t res' where "roles = Inr subject" "scope = Inr t" "op t s = (res', s')" "\<And>r. res = Inr r \<Longrightarrow> res' = Inr r"
  using assms
proof (cases rule: lifted_state)
  case (passed x)
  from passed(2) show ?thesis
  proof (cases rule: lifted_state)
    case (passed t)
    obtain res' s2 where "op t s = (res', s2)" by fastforce
    moreover from this passed(2) have "s2 = s'" by (metis rethrow_state snd_conv)
    ultimately show ?thesis using passed \<open>roles = Inr x\<close> called by (metis rethrow_Inr)
  qed (auto intro: refused)
qed (auto intro: refused)

text \<open>The endpoints add no way around the lifecycle: whatever a call of the API answers, it left the store alone or
  made one step of the remediation loop, so the facts about all runs hold of every history of requests.\<close>

theorem api_calls_are_steps:
  assumes "api_create_proposal ac isolation headers pid now body_tenant index kind probed s = (res, s') \<or>
    api_evaluate_proposal ac isolation headers rt clock dr rid now pid environment s = (res, s') \<and>
      pd_approval_id dr \<noteq> [] \<and> pd_approval_id dr \<notin> linked s \<or>
    api_resolve_proposal ac isolation headers g pid approved body_reviewer comment s = (res, s') \<or>
    prepare_proposal_pr ac isolation headers provider now pid pr_url s = (res, s') \<or>
    mark_proposal_applied ac isolation headers applied_at now pid pr_url s = (res, s') \<or>
    verify_proposal ac isolation headers t1 verified_at t2 pid probed s = (res, s')"
  shows "s' = s \<or> rem_step s s'"
  using assms
proof (elim disjE conjE)
  assume "api_create_proposal ac isolation headers pid now body_tenant index kind probed s = (res, s')"
  then show ?thesis unfolding api_create_proposal_def
    by (cases rule: guarded_call) (auto intro: rem_step.open_proposal)
next
  assume "api_evaluate_proposal ac isolation headers rt clock dr rid now pid environment s = (res, s')"
    and dr: "pd_approval_id dr \<noteq> []" "pd_approval_id dr \<notin> linked s"
  then show ?thesis unfolding api_evaluate_proposal_def
    by (cases rule: guarded_call) (auto intro: rem_step.evaluate dr)
next
  assume "api_resolve_proposal ac isolation headers g pid approved body_reviewer comment s = (res, s')"
  then show ?thesis unfolding api_resolve_proposal_def
  proof (cases rule: lifted_state)
    case (passed t)
    from passed(2) show ?thesis
    proof (cases rule: lifted_state)
      case (passed reviewer)
      obtain res' s2 where "resolve_proposal g pid approved reviewer comment t s = (res', s2)" by fastforce
      with passed(2) show ?thesis by (metis rem_step.resolve rethrow_state snd_conv)
    qed simp
  qed simp
next
  assume "prepare_proposal_pr ac isolation headers provider now pid pr_url s = (res, s')"
  then show ?thesis unfolding prepare_proposal_pr_def
    by (cases rule: guarded_call) (auto intro: rem_step.prepare)
next
  assume "mark_proposal_applied ac isolation headers applied_at now pid pr_url s = (res, s')"
  then show ?thesis unfolding mark_proposal_applied_def
    by (cases rule: guarded_call) (auto intro: rem_step.apply_it)
next
  assume "verify_proposal ac isolation headers t1 verified_at t2 pid probed s = (res, s')"
  then show ?thesis unfolding verify_proposal_def
    by (cases rule: guarded_call) (auto intro: rem_step.verify)
qed

theorem api_calls_are_steps_witness:
  "\<exists>s'. snd (mark_proposal_applied \<lparr>ac_env = [], tk_verified = (\<lambda>_. None), tk_unsigned = (\<lambda>_. None)\<rparr> False [] 0 0 ''p1'' []
      (demo_loop ''approved'' ''pr_created'')) = s' \<and>
     (s' = demo_loop ''approved'' ''pr_created'' \<or> rem_step (demo_loop ''approved'' ''pr_created'') s')"
proof -
  let ?ac = "\<lparr>ac_env = [], tk_verified = (\<lambda>_. None), tk_unsigned = (\<lambda>_. None)\<rparr>"
  obtain res s' where m: "mark_proposal_applied ?ac False [] 0 0 ''p1'' [] (demo_loop ''approved'' ''pr_created'') = (res, s')" by fastforce
  then have "s' = demo_loop ''approved'' ''pr_created'' \<or> rem_step (demo_loop ''approved'' ''pr_created'') s'"
    by (intro api_calls_are_steps [where ac = ?ac and isolation = False and headers = "[]"]) blast
  with m show ?thesis by simp
qed

text \<open>With verification on, only an administrator opens a pull request, and the proposal was approved.\<close>

lemma pull_request_by_admin:
  assumes "prepare_proposal_pr ac isolation headers provider now pid pr_url s = (Inr row, s')" "is_jwt_verify_enabled ac"
  obtains token claims role r where "presented_token headers = Some token" "tk_verified ac token = Some claims"
    "role \<in> set (roles_from_claims ac claims)" "role \<in> {''tenant-admin'', ''platform-admin''}"
    "sql_fetch p_id pid (remediation_proposals s) = Some r" "p_status r = ''approved''"
proof -
  from assms(1) obtain subject t where c: "require_roles ac headers [''tenant-admin'', ''platform-admin''] = Inr subject"
    "prepare_pr_draft provider now pid t (non_empty_text pr_url) s = (Inr row, s')"
    unfolding prepare_proposal_pr_def by (cases rule: guarded_call) auto
  from c(1) have "require_any_role ac headers [''tenant-admin'', ''platform-admin''] = Inr subject" by (simp add: require_roles_def)
  then obtain claims where cl: "require_bearer_claims ac headers = Inr claims"
    "principal_has_any_role ac claims [''tenant-admin'', ''platform-admin'']"
    using assms(2) by (auto simp: require_any_role_def rbind_Inr Let_def split: if_splits)
  from c(2) [unfolded prepare_pr_draft_def] obtain r where "sql_fetch p_id pid (remediation_proposals s) = Some r"
    "''pr_created'' \<in> set (allowed_targets (p_status r))"
    by (cases rule: guarded_cases) auto
  moreover from this(2) have "p_status r = ''approved''" by (auto simp: allowed_targets_def split: if_splits)
  moreover obtain token where "presented_token headers = Some token" "tk_verified ac token = Some claims"
    by (rule required_token [OF cl(1) assms(2)])
  ultimately show thesis using cl(2) that by (auto simp: principal_has_any_role_def)
qed

end
