(* ===== verification/Governance_Api.thy ===== *)
theory Governance_Api
  imports Governance_Inputs Remediation_Api
begin

text \<open>
  \<open>routers/governance.py\<close>, the endpoint a gateway asks before it lets a request through, with the audit trail in
  memory of \<open>audit_service.py\<close>. The state is the database and the trail. The ids and times a call draws are in a
  record; the file or Loki sink that gets every event may fail. Counters of metrics are left out.
\<close>

subsection \<open>The audit trail\<close>

record audit_event =
  av_id :: string
  av_timestamp :: string
  av_type :: string
  av_subject :: string
  av_team :: string
  av_owner :: string
  av_environment :: string
  av_namespace :: string
  av_model :: string
  av_action :: string
  av_policy_pack :: string
  av_verdict :: string
  av_reasons :: "string list"
  av_blocking_stage :: "string option"
  av_source :: string
  av_groups :: "string list"
  av_request_id :: string

definition stage_field :: "governance_response \<Rightarrow> string \<Rightarrow> string \<Rightarrow> string option" where
  "stage_field r stage key =
     (case map_of (ge_stages r) stage of
        Some (PDict d) \<Rightarrow> (case map_of d key of Some (PStr v) \<Rightarrow> Some v | _ \<Rightarrow> None)
      | _ \<Rightarrow> None)"

definition blocking_stages :: "string list" where
  "blocking_stages = [''policy_pack'', ''prompt_security'', ''agent'', ''quota'', ''registry'', ''sovereign'', ''cost'', ''approval'']"

definition blocking_stage_from_response :: "governance_response \<Rightarrow> string option" where
  "blocking_stage_from_response r =
     (if ge_verdict r = ''allow'' then None
      else case find (\<lambda>s. stage_field r s ''decision'' = Some ''block'') blocking_stages of
        Some s \<Rightarrow> Some s
      | None \<Rightarrow>
          if stage_field r ''risk'' ''level'' = Some ''critical'' then Some ''risk''
          else if ge_verdict r = ''approval_required'' then
            (if stage_field r ''approval'' ''decision'' = Some ''approval_required'' then Some ''approval''
             else if stage_field r ''cost'' ''decision'' = Some ''warn'' then Some ''cost'' else Some ''approval'')
          else None)"

definition audit_event_of ::
  "string \<Rightarrow> string \<Rightarrow> workload_identity \<Rightarrow> eval_request \<Rightarrow> governance_response \<Rightarrow> string \<Rightarrow> audit_event" where
  "audit_event_of eid now i q r rid =
     \<lparr>av_id = eid, av_timestamp = now, av_type = ''governance_evaluate'', av_subject = wi_subject i, av_team = wi_team i,
      av_owner = wi_owner i, av_environment = q_environment q, av_namespace = q_namespace q, av_model = q_model q,
      av_action = q_action q, av_policy_pack = str_or (q_policy_pack q) (ge_pack r), av_verdict = ge_verdict r,
      av_reasons = ge_reasons r, av_blocking_stage = blocking_stage_from_response r, av_source = wi_source i,
      av_groups = wi_groups i, av_request_id = rid\<rparr>"

text \<open>A \<open>deque\<close> with \<open>maxlen\<close>, the newest last; slices \<open>xs[:n]\<close>.\<close>

definition push :: "nat \<Rightarrow> 'a \<Rightarrow> 'a list \<Rightarrow> 'a list" where
  "push n x xs = (let ys = xs @ [x] in drop (length ys - n) ys)"

definition py_take :: "int \<Rightarrow> 'a list \<Rightarrow> 'a list" where
  "py_take n xs = (if 0 \<le> n then take (nat n) xs else take (length xs - nat (- n)) xs)"

definition keep_if :: "string option \<Rightarrow> ('a \<Rightarrow> string) \<Rightarrow> 'a list \<Rightarrow> 'a list" where
  "keep_if wanted f xs = (if opt_str wanted = [] then xs else filter (\<lambda>x. f x = opt_str wanted) xs)"

definition list_events :: "int \<Rightarrow> string option \<Rightarrow> string option \<Rightarrow> string option \<Rightarrow> audit_event list \<Rightarrow> audit_event list" where
  "list_events limit team subject verdict events =
     py_take limit (rev (keep_if verdict av_verdict (keep_if subject av_subject (keep_if team av_team events))))"

subsection \<open>The state of the API\<close>

record api_state =
  st_db :: db
  st_events :: "audit_event list"

definition on_store :: "(db, 'a) opn \<Rightarrow> (api_state, 'a) opn" where
  "on_store m st = (case m (st_db st) of (x, s) \<Rightarrow> (x, st\<lparr>st_db := s\<rparr>))"

record eval_draws =
  ed_request_id :: string
  ed_grant :: grant_draws
  ed_clock :: string
  ed_persist :: persist_draws
  ed_event_id :: string
  ed_event_at :: string
  ed_max_events :: nat
  ed_sink_ok :: bool

text \<open>The event is in the trail before the sinks get it; a failing sink ends the call.\<close>

definition record_governance_evaluate ::
  "eval_draws \<Rightarrow> workload_identity \<Rightarrow> eval_request \<Rightarrow> governance_response \<Rightarrow> string \<Rightarrow> (api_state, unit) opn" where
  "record_governance_evaluate dr i q r rid st =
     (if ed_sink_ok dr then Inr () else Inl (RuntimeError ''audit sink''),
      st\<lparr>st_events := push (ed_max_events dr) (audit_event_of (ed_event_id dr) (ed_event_at dr) i q r rid) (st_events st)\<rparr>)"

subsection \<open>The endpoint\<close>

definition with_header :: "names \<Rightarrow> string \<Rightarrow> (string \<Rightarrow> eval_request \<Rightarrow> eval_request) \<Rightarrow> eval_request \<Rightarrow> eval_request" where
  "with_header headers k f q = (if stripped_header headers k = [] then q else f (stripped_header headers k) q)"

definition apply_supply_chain_headers :: "eval_request \<Rightarrow> names \<Rightarrow> eval_request" where
  "apply_supply_chain_headers q headers =
     with_header headers ''x-ai-region'' (\<lambda>v q. q\<lparr>q_region := v\<rparr>)
       (with_header headers ''x-ai-model-revision'' (\<lambda>v q. q\<lparr>q_model_revision := v\<rparr>)
         (with_header headers ''x-ai-model-digest'' (\<lambda>v q. q\<lparr>q_model_artifact_digest := v\<rparr>) q))"

definition http_401 :: "exn \<Rightarrow> exn" where
  "http_401 e = (case e of AuthenticationError m \<Rightarrow> HttpError 401 m | _ \<Rightarrow> e)"

definition granted_response :: "eval_request \<Rightarrow> string \<Rightarrow> policy_bundle \<Rightarrow> governance_response" where
  "granted_response q aid bundle =
     \<lparr>ge_verdict = ''allow'', ge_pack = str_or (q_policy_pack q) ''default'', ge_reasons = [''durable approval grants allow''],
      ge_stages = [], ge_telemetry = None, ge_decision_id = None, ge_bundle_id = Some (pb_id bundle),
      ge_policy_digest = Some (pb_digest bundle), ge_agent_digest = None, ge_tools_digest = None, ge_approval_id = Some aid\<rparr>"

text \<open>The last steps of both paths: store the decision, then add it to the trail.\<close>

definition conclude ::
  "runtime \<Rightarrow> eval_draws \<Rightarrow> workload_identity \<Rightarrow> eval_request \<Rightarrow> string \<Rightarrow> governance_response \<Rightarrow> (api_state, governance_response) opn" where
  "conclude rt dr i q rid result =
     bnd (rethrow http_503 (on_store (persist_evaluation (rt_sha rt) (rt_ttl rt) (ed_persist dr) result q rid)))
       (\<lambda>stored. bnd (record_governance_evaluate dr i q stored rid) (\<lambda>_. ret stored))"

definition evaluate_live ::
  "access_env \<Rightarrow> runtime \<Rightarrow> input_env \<Rightarrow> eval_draws \<Rightarrow> names \<Rightarrow> eval_request \<Rightarrow>
   (api_state, eval_request \<times> governance_response) opn" where
  "evaluate_live ac rt ie dr headers merged =
     bnd (lift_result (enrich_governance_request ac ie headers merged)) (\<lambda>(enriched, snap, live).
     bnd (lift_result (build_telemetry_stage (in_prom ie) enriched snap live)) (\<lambda>t.
     bnd (rethrow http_503 (on_store (evaluate_governance_request (rt_sha rt) (rt_mac rt) (rt_signing rt) (rt_quota_policy rt)
         (ed_clock dr) (Some t) (rt_bundle rt) enriched))) (\<lambda>result. ret (enriched, result))))"

definition check_prior ::
  "runtime \<Rightarrow> eval_draws \<Rightarrow> names \<Rightarrow> eval_request \<Rightarrow> (api_state, bool) opn" where
  "check_prior rt dr headers merged =
     (let prior = stripped_header headers ''x-ai-approval-id'' in
      if prior = [] then ret False
      else rethrow http_503 (on_store (approval_grants_allow (rt_sha rt) (ed_grant dr) prior merged (pb_digest (rt_bundle rt)))))"

definition governance_evaluate ::
  "access_env \<Rightarrow> runtime \<Rightarrow> input_env \<Rightarrow> eval_draws \<Rightarrow> names \<Rightarrow> eval_request \<Rightarrow> (api_state, governance_response) opn" where
  "governance_evaluate ac rt ie dr headers payload =
     (let q = apply_supply_chain_headers payload headers in
      bnd (lift_result (map_error http_401 (resolve_workload_identity ac headers q))) (\<lambda>i.
        let merged = apply_identity q i; rid = str_or (header headers ''x-request-id'') (ed_request_id dr) in
        bnd (check_prior rt dr headers merged) (\<lambda>granted.
          if granted
          then conclude rt dr i merged rid (granted_response merged (stripped_header headers ''x-ai-approval-id'') (rt_bundle rt))
          else bnd (evaluate_live ac rt ie dr headers merged) (\<lambda>(enriched, result). conclude rt dr i enriched rid result))))"

text \<open>\<open>POST /governance/evaluate-tool\<close>: here an authentication error is not caught.\<close>

definition tool_body :: "tool_request \<Rightarrow> eval_request" where
  "tool_body q = default_request\<lparr>q_subject := tq_subject q, q_groups := tq_groups q, q_policy_pack := tq_policy_pack q,
     q_team := tq_team q, q_owner := tq_owner q, q_environment := tq_environment q, q_namespace := tq_namespace q,
     q_tenant_id := []\<rparr>"

definition governance_evaluate_tool ::
  "access_env \<Rightarrow> table \<Rightarrow> table \<Rightarrow> names \<Rightarrow> tool_request \<Rightarrow> tool_response result" where
  "governance_evaluate_tool ac agents tools headers q =
     rbind (resolve_workload_identity ac headers (tool_body q)) (\<lambda>i. evaluate_tool_governance q (Some i) agents tools)"

subsection \<open>What a call leaves behind\<close>

lemma on_store_apply: "on_store m st = (fst (m (st_db st)), st\<lparr>st_db := snd (m (st_db st))\<rparr>)"
  by (simp add: on_store_def split: prod.split)

lemma rethrow_apply: "rethrow f m s = (map_error f (fst (m s)), snd (m s))"
  by (auto simp: rethrow_def map_error_def split: prod.split sum.split)

text \<open>Checking an approval adds no decision.\<close>

definition keeps_decisions :: "(db, 'a) opn \<Rightarrow> bool" where
  "keeps_decisions m \<longleftrightarrow> (\<forall>D. keeps (\<lambda>s. decisions s = D) m)"

lemma keeps_decisionsD: "keeps_decisions m \<Longrightarrow> decisions (snd (m s)) = decisions s"
  by (simp add: keeps_decisions_def keeps_def)

lemma keeps_decisions_steps [intro]:
  "keeps_decisions (ret x)" "keeps_decisions (throw e)"
  "keeps_decisions m \<Longrightarrow> (\<And>x. keeps_decisions (f x)) \<Longrightarrow> keeps_decisions (bnd m f)"
  "keeps_decisions m \<Longrightarrow> keeps_decisions (rollback_on_error m)"
  unfolding keeps_decisions_def by (blast intro: keeps_ret keeps_throw keeps_bnd keeps_rollback)+

lemma keeps_decisions_with: "(\<And>s. decisions (snd (m s)) = decisions s) \<Longrightarrow> keeps_decisions (with_db m)"
  by (simp add: keeps_decisions_def keeps_def with_db_def)

lemma keeps_decisions_store [intro]:
  "keeps_decisions (get_approval t1 t2 aid tenant)" "keeps_decisions (get_decision did tenant)"
  "keeps_decisions (consume_approval t3 aid)" "keeps_decisions (append_audit_meta eid t4 did etype actor payload)"
  "keeps_decisions (resolve_execution_capability_digests sha agent team)"
  unfolding get_approval_def get_decision_def consume_approval_def append_audit_meta_def
  by (rule keeps_decisions_with; simp add: expire_if_needed_due Let_def split: option.split)+
    (simp add: keeps_decisions_def keeps_def)

lemma keeps_decisions_grant: "keeps_decisions (approval_grants_allow sha g aid q pd)"
  unfolding approval_grants_allow_def use_approval_def
  by (auto intro!: keeps_decisions_steps keeps_decisions_store split: option.split sum.split prod.split)

lemma check_prior_keeps: "decisions (st_db (snd (check_prior rt dr headers q st))) = decisions (st_db st) \<and>
    st_events (snd (check_prior rt dr headers q st)) = st_events st"
  by (simp add: check_prior_def Let_def ret_def rethrow_apply on_store_apply keeps_decisionsD [OF keeps_decisions_grant])

lemma evaluate_live_cases:
  assumes "evaluate_live ac rt ie dr headers merged st = (res, st')"
  obtains (failed) e where "res = Inl e" "st' = st"
  | (answered) e snap live t result where "res = Inr (e, result)" "st' = st"
      "enrich_governance_request ac ie headers merged = Inr (e, snap, live)" "build_telemetry_stage (in_prom ie) e snap live = Inr t"
      "evaluate_governance_request (rt_sha rt) (rt_mac rt) (rt_signing rt) (rt_quota_policy rt) (ed_clock dr) (Some t) (rt_bundle rt) e
         (st_db st) = (Inr result, st_db st)"
proof (cases "enrich_governance_request ac ie headers merged")
  case (Inl e)
  with assms show thesis by (intro failed) (auto simp: evaluate_live_def bnd_def)
next
  case (Inr x)
  obtain e snap live where x: "x = (e, snap, live)" by (cases x)
  show thesis
  proof (cases "build_telemetry_stage (in_prom ie) e snap live")
    case (Inl err)
    with assms Inr x show thesis by (intro failed) (auto simp: evaluate_live_def bnd_def)
  next
    case (Inr t)
    let ?m = "evaluate_governance_request (rt_sha rt) (rt_mac rt) (rt_signing rt) (rt_quota_policy rt) (ed_clock dr) (Some t) (rt_bundle rt) e"
    have state: "snd (?m (st_db st)) = st_db st" by (rule evaluate_governance_unchanged)
    have run: "bnd (rethrow http_503 (on_store ?m)) (\<lambda>result. ret (e, result)) st = (res, st')"
      using assms Inr x \<open>enrich_governance_request ac ie headers merged = Inr x\<close> by (simp add: evaluate_live_def bnd_def)
    show thesis
    proof (cases "fst (?m (st_db st))")
      case (Inl err)
      with run state show thesis by (intro failed) (auto simp: bnd_def rethrow_apply on_store_apply map_error_def)
    next
      case (Inr result)
      with state have m: "?m (st_db st) = (Inr result, st_db st)" by (cases "?m (st_db st)") simp
      with run have "res = Inr (e, result)" "st' = st" by (auto simp: bnd_def rethrow_apply on_store_apply map_error_def ret_def)
      from answered [OF this _ \<open>build_telemetry_stage (in_prom ie) e snap live = Inr t\<close> m]
      show thesis using x \<open>enrich_governance_request ac ie headers merged = Inr x\<close> by simp
    qed
  qed
qed

lemma conclude_cases:
  assumes "conclude rt dr i q rid result st = (res, st')"
  obtains (failed) e where "res = Inl e" "st' = st"
  | (stored) r s' where "persist_evaluation (rt_sha rt) (rt_ttl rt) (ed_persist dr) result q rid (st_db st) = (Inr r, s')"
      "st' = st\<lparr>st_db := s', st_events := push (ed_max_events dr) (audit_event_of (ed_event_id dr) (ed_event_at dr) i q r rid) (st_events st)\<rparr>"
      "res = (if ed_sink_ok dr then Inr r else Inl (RuntimeError ''audit sink''))"
proof -
  obtain x s' where p: "persist_evaluation (rt_sha rt) (rt_ttl rt) (ed_persist dr) result q rid (st_db st) = (x, s')" by fastforce
  show thesis
  proof (cases x)
    case (Inl e)
    with p have "s' = st_db st" by (elim persist_evaluation_cases) simp_all
    with assms p Inl show thesis by (intro failed) (auto simp: conclude_def bnd_def rethrow_apply on_store_apply map_error_def)
  next
    case (Inr r)
    with assms p show thesis
      by (intro stored; cases "ed_sink_ok dr")
        (auto simp: conclude_def bnd_def rethrow_apply on_store_apply map_error_def record_governance_evaluate_def ret_def)
  qed
qed

lemma governance_evaluate_cases:
  assumes "governance_evaluate ac rt ie dr headers payload st = (res, st')"
  defines "q \<equiv> apply_supply_chain_headers payload headers"
    and "prior \<equiv> stripped_header headers ''x-ai-approval-id''" and "rid \<equiv> str_or (header headers ''x-request-id'') (ed_request_id dr)"
  obtains (early) e where "res = Inl e" "decisions (st_db st') = decisions (st_db st)" "st_events st' = st_events st"
  | (granted) i st1 where "resolve_workload_identity ac headers q = Inr i"
      "check_prior rt dr headers (apply_identity q i) st = (Inr True, st1)"
      "conclude rt dr i (apply_identity q i) rid (granted_response (apply_identity q i) prior (rt_bundle rt)) st1 = (res, st')"
  | (live) i st1 e snap sig t result where "resolve_workload_identity ac headers q = Inr i"
      "check_prior rt dr headers (apply_identity q i) st = (Inr False, st1)"
      "enrich_governance_request ac ie headers (apply_identity q i) = Inr (e, snap, sig)" "build_telemetry_stage (in_prom ie) e snap sig = Inr t"
      "evaluate_governance_request (rt_sha rt) (rt_mac rt) (rt_signing rt) (rt_quota_policy rt) (ed_clock dr) (Some t) (rt_bundle rt) e
         (st_db st1) = (Inr result, st_db st1)"
      "conclude rt dr i e rid result st1 = (res, st')"
proof (cases "resolve_workload_identity ac headers q")
  case (Inl e)
  with assms show thesis by (intro early) (auto simp: governance_evaluate_def bnd_def map_error_def Let_def)
next
  case (Inr i)
  note identity = this
  define merged where "merged = apply_identity q i"
  obtain g st1 where prior_check: "check_prior rt dr headers merged st = (g, st1)" by fastforce
  then have keep: "decisions (st_db st1) = decisions (st_db st)" "st_events st1 = st_events st"
    using check_prior_keeps [of rt dr headers merged st] by simp_all
  have run: "bnd (check_prior rt dr headers merged) (\<lambda>granted.
      if granted then conclude rt dr i merged rid (granted_response merged prior (rt_bundle rt))
      else bnd (evaluate_live ac rt ie dr headers merged) (\<lambda>(enriched, result). conclude rt dr i enriched rid result)) st = (res, st')"
    using assms(1) identity unfolding governance_evaluate_def merged_def q_def prior_def rid_def
    by (simp add: bnd_Inr map_error_def Let_def)
  show thesis
  proof (cases g)
    case (Inl e)
    with run prior_check keep show thesis by (intro early) (auto simp: bnd_Inl)
  next
    case (Inr b)
    show thesis
    proof (cases b)
      case True
      with run prior_check Inr granted [OF identity] show thesis by (simp add: bnd_Inr merged_def)
    next
      case False
      with run prior_check Inr have go: "bnd (evaluate_live ac rt ie dr headers merged)
          (\<lambda>(enriched, result). conclude rt dr i enriched rid result) st1 = (res, st')" by (simp add: bnd_Inr)
      obtain x st2 where "evaluate_live ac rt ie dr headers merged st1 = (x, st2)" by fastforce
      then show thesis
      proof (cases rule: evaluate_live_cases)
        case (failed e)
        with go \<open>evaluate_live ac rt ie dr headers merged st1 = (x, st2)\<close> keep show thesis by (intro early) (auto simp: bnd_Inl)
      next
        case (answered e snap sig t result)
        with go \<open>evaluate_live ac rt ie dr headers merged st1 = (x, st2)\<close>
        have "conclude rt dr i e rid result st1 = (res, st')" by (simp add: bnd_Inr)
        with answered prior_check Inr False show thesis by (intro live [OF identity]) (simp_all add: merged_def)
      qed
    qed
  qed
qed

subsection \<open>Why a request passed, and what is recorded\<close>

lemma grant_needs_db: "approval_grants_allow sha g aid q pd s = (Inr True, s') \<Longrightarrow> db_up s"
  by (rule ccontr) (simp add: approval_grants_allow_def bnd_def get_approval_def with_db_def)

lemma granted_consumed:
  assumes "approval_grants_allow sha g aid q pd s = (Inr True, s')" "db_ok s"
  shows "grantable sha aid q pd s \<and> (\<exists>a. sql_fetch a_id aid (approvals s') = Some a \<and> a_status a = ''consumed'')"
proof -
  note up = grant_needs_db [OF assms(1)]
  have s': "s' = granted_db g aid (a_decision_id (the (sql_fetch a_id aid (approvals s)))) q (sha (json_canonical (PDict (request_payload q)))) s"
    and g: "grantable sha aid q pd s"
    using grant_step [OF up assms(2), of sha g aid q pd] assms(1) by simp_all
  from g obtain a where a: "sql_fetch a_id aid (approvals s) = Some a" "consumable a" by (rule grantableE)
  then have "sql_fetch a_id aid (approvals s') = Some (mark_consumed (gd_used_at g) a)"
    by (auto simp: s' granted_db_def consumed.fetch_update dest: sql_fetch_Some_in)
  with g show ?thesis by (simp add: mark_consumed_def)
qed

lemma stored_allow:
  assumes "persist_evaluation sha ttl dr r q rid s = (Inr r', s')"
  shows "ge_verdict r' = ge_verdict r \<and> ge_decision_id r' = Some (pd_decision_id dr) \<and>
    (\<exists>row. decisions s' = decisions s @ [row] \<and> d_id row = pd_decision_id dr \<and> d_final_verdict row = ge_verdict r \<and> d_request_id row = rid) \<and>
    (ge_verdict r = ''allow'' \<longrightarrow> approvals s' = approvals s)"
  using assms
proof (cases rule: persist_evaluation_cases)
  case (stored digest digests aid r'')
  obtain rows where "if needs_approval r then \<exists>expires. add_seconds (pd_approval_at dr) ttl = Some expires \<and>
        rows = [approval_row (pd_approval_id dr) (pd_decision_id dr) (pd_approval_at dr) expires] else rows = []"
    "s' = s\<lparr>decisions := decisions s @ [decision_row (pd_decision_id dr) (pd_decided_at dr) (evaluation_decision r q rid digest digests)],
       approvals := approvals s @ rows, audit_meta := audit_meta s @ evaluation_events dr r q rid digest\<rparr>"
    using persist_records_Inr [OF stored(5)] by metis
  with stored(3,4) show ?thesis by (auto simp: needs_approval_def decision_row_def evaluation_decision_def)
qed simp


text \<open>C17: Every answer is on record. A call that answers has stored one decision, the one it names, with the verdict
  and the request id of the answer, and has put that verdict at the end of the audit trail. A call that raises has
  stored no decision and no event, unless the audit sink failed after both.\<close>

theorem every_answer_recorded:
  assumes "governance_evaluate ac rt ie dr headers payload st = (res, st')"
  shows "case res of
      Inr r \<Rightarrow> \<exists>row ev. decisions (st_db st') = decisions (st_db st) @ [row] \<and> ge_decision_id r = Some (d_id row) \<and>
        d_final_verdict row = ge_verdict r \<and> d_request_id row = av_request_id ev \<and> av_verdict ev = ge_verdict r \<and>
        st_events st' = push (ed_max_events dr) ev (st_events st)
    | Inl e \<Rightarrow> \<not> ed_sink_ok dr \<or> decisions (st_db st') = decisions (st_db st) \<and> st_events st' = st_events st"
proof -
  have ended: ?thesis if "check_prior rt dr headers m st = (b, st1)" "conclude rt dr i q rid result st1 = (res, st')" for m b st1 i q rid result
  proof -
    have keep: "decisions (st_db st1) = decisions (st_db st)" "st_events st1 = st_events st"
      using check_prior_keeps [of rt dr headers m st] that(1) by simp_all
    from that(2) show ?thesis
    proof (cases rule: conclude_cases)
      case (stored r s')
      from stored_allow [OF stored(1)] obtain row where row: "decisions s' = decisions (st_db st1) @ [row]" "d_id row = pd_decision_id (ed_persist dr)"
        "d_final_verdict row = ge_verdict result" "d_request_id row = rid" "ge_verdict r = ge_verdict result"
        "ge_decision_id r = Some (pd_decision_id (ed_persist dr))" by blast
      show ?thesis
      proof (cases "ed_sink_ok dr")
        case True
        have "\<exists>ev. d_request_id row = av_request_id ev \<and> av_verdict ev = ge_verdict r \<and> st_events st' = push (ed_max_events dr) ev (st_events st)"
          using stored(2) row keep
          by (intro exI [of _ "audit_event_of (ed_event_id dr) (ed_event_at dr) i q r rid"]) (simp add: audit_event_of_def)
        with True stored row keep show ?thesis by auto
      qed (use stored(3) in simp)
    qed (simp add: keep)
  qed
  from assms show ?thesis
  proof (cases rule: governance_evaluate_cases)
    case (granted i st1)
    from ended [OF granted(2,3)] show ?thesis .
  next
    case (live i st1 e snap sig t result)
    from ended [OF live(2,6)] show ?thesis .
  qed simp
qed

text \<open>Using the approval and storing the decision are two transactions: when the second fails, the caller gets an error
  and his approval is gone.\<close>

lemma grant_lost_on_failure:
  assumes "resolve_workload_identity ac headers (apply_supply_chain_headers payload headers) = Inr i"
    and "check_prior rt dr headers (apply_identity (apply_supply_chain_headers payload headers) i) st = (Inr True, st1)"
    and "\<And>q r rid. fst (persist_evaluation (rt_sha rt) (rt_ttl rt) (ed_persist dr) r q rid (st_db st1)) = Inl StoreUnavailable"
    and "db_ok (st_db st)"
  shows "governance_evaluate ac rt ie dr headers payload st = (Inl store_unavailable, st1) \<and>
    (\<exists>a. sql_fetch a_id (stripped_header headers ''x-ai-approval-id'') (approvals (st_db st1)) = Some a \<and> a_status a = ''consumed'')"
proof -
  let ?q = "apply_identity (apply_supply_chain_headers payload headers) i" and ?aid = "stripped_header headers ''x-ai-approval-id''"
  have "?aid \<noteq> []" using assms(2) by (auto simp: check_prior_def ret_def)
  with assms(2) have "approval_grants_allow (rt_sha rt) (ed_grant dr) ?aid ?q (pb_digest (rt_bundle rt)) (st_db st) = (Inr True, st_db st1)"
    by (auto simp: check_prior_def Let_def on_store_def split: prod.splits)
  note used = granted_consumed [OF this assms(4)]
  have conc: "conclude rt dr i q rid r st1 = (Inl store_unavailable, st1)" for q rid r
  proof -
    obtain s' where p: "persist_evaluation (rt_sha rt) (rt_ttl rt) (ed_persist dr) r q rid (st_db st1) = (Inl StoreUnavailable, s')"
      using assms(3) [of r q rid] by (metis prod.collapse)
    then have "s' = st_db st1" by (elim persist_evaluation_cases) simp_all
    with p show ?thesis by (simp add: conclude_def bnd_def rethrow_apply on_store_apply map_error_def http_503_def)
  qed
  have "governance_evaluate ac rt ie dr headers payload st = (Inl store_unavailable, st1)"
    using assms(1,2) conc by (simp add: governance_evaluate_def Let_def map_error_def bnd_Inr)
  with used show ?thesis by blast
qed

subsection \<open>Example: a caller returns with his approval\<close>

definition demo_runtime :: runtime where
  "demo_runtime = \<lparr>rt_sha = (\<lambda>_. ''rq''), rt_mac = (\<lambda>_ _. []), rt_signing = demo_signing, rt_quota_policy = ''approval_required'',
     rt_bundle = demo_bundle_ok\<lparr>pb_digest := ''pd''\<rparr>, rt_ttl = 3600\<rparr>"

definition demo_draws :: eval_draws where
  "demo_draws = \<lparr>ed_request_id = ''rid'', ed_grant = demo_grant, ed_clock = [],
     ed_persist = \<lparr>pd_decision_id = ''d2'', pd_decided_at = 9, pd_approval_id = ''a2'', pd_approval_at = 9, pd_created_event = ''e2'',
       pd_created_at = 9, pd_recorded_event = ''e3'', pd_recorded_at = 9\<rparr>,
     ed_event_id = ''v1'', ed_event_at = [], ed_max_events = 1000, ed_sink_ok = True\<rparr>"

definition demo_open :: access_env where
  "demo_open = \<lparr>ac_env = [], tk_verified = (\<lambda>_. None), tk_unsigned = (\<lambda>_. None)\<rparr>"

definition demo_state :: api_state where
  "demo_state = \<lparr>st_db = demo_db ''approved'', st_events = []\<rparr>"

lemma demo_grantable_any:
  "q_agent q = [] \<Longrightarrow> grantable (\<lambda>_. ''rq'') ''a1'' q ''pd'' (demo_db ''approved'')"
  by (simp add: grantable_def demo_fetch consumable_def demo_approval_def demo_decision_def same_request_def approved_digest_def
      digest_dump decision_from_row_def pins_agree_def pins_current_def resolve_digests_eq pinned_tools_def pinned_agent_def)

lemma demo_granted:
  assumes "q_agent q = []"
  obtains s where "approval_grants_allow (\<lambda>_. ''rq'') demo_grant ''a1'' q ''pd'' (demo_db ''approved'') = (Inr True, s)"
    "db_up s" "decisions s = [demo_decision]" "map e_id (audit_meta s) = [''e1'']"
proof -
  note step = grant_step [of "demo_db ''approved''" "\<lambda>_. ''rq''" demo_grant "''a1''" q "''pd''"]
  have ok: "fst (approval_grants_allow (\<lambda>_. ''rq'') demo_grant ''a1'' q ''pd'' (demo_db ''approved'')) = Inr True"
    using step(1) demo_grantable_any [OF assms] demo_db_ok demo_fetch(4) by (simp add: demo_defs)
  from step(2) [OF demo_fetch(4) demo_db_ok ok] obtain did where
    "snd (approval_grants_allow (\<lambda>_. ''rq'') demo_grant ''a1'' q ''pd'' (demo_db ''approved'')) = granted_db demo_grant ''a1'' did q ''rq'' (demo_db ''approved'')"
    by blast
  with ok show thesis
    by (intro that [of "granted_db demo_grant ''a1'' did q ''rq'' (demo_db ''approved'')"])
      (simp_all add: prod_eq_iff granted_db_def demo_db_def empty_db_def audit_row_of_def demo_grant_def)
qed

lemma demo_persist:
  assumes "db_up s" "decisions s = [demo_decision]" "map e_id (audit_meta s) = [''e1'']" "ge_verdict r = ''allow''" "q_agent q = []"
  obtains r' s' where "persist_evaluation (\<lambda>_. ''rq'') ttl (ed_persist demo_draws) r q rid s = (Inr r', s')"
proof -
  obtain digests where d: "evaluation_digests (\<lambda>_. ''rq'') r q s = (Inr digests, s)" using evaluation_digests_up [OF assms(1)] by blast
  have ev: "e_id ` set (audit_meta s) = {''e1''}" using assms(3) by (metis list.set_map list.simps(15) set_empty2)
  have "\<exists>x s'. persist_records ttl (ed_persist demo_draws) r q rid ''rq'' digests s = (Inr x, s')"
    using assms(1,2,4) ev
    by (auto simp: persist_records_def demo_draws_def bnd_def create_decision_def append_audit_meta_def sql_insert_def decision_row_def
        demo_decision_def ret_def with_db_def split: option.split)
  then obtain x s' where "persist_records ttl (ed_persist demo_draws) r q rid ''rq'' digests s = (Inr x, s')" by blast
  then show thesis using d that
    by (cases x) (simp add: persist_evaluation_def digest_dump bnd_Inr ret_def)
qed

definition demo_prior :: names where
  "demo_prior = [(''x-ai-approval-id'', ''a1'')]"

lemma demo_identity: "\<exists>i. resolve_workload_identity demo_open demo_prior q = Inr i"
proof -
  have "\<not> is_tenant_jwt_only demo_open" by code_simp
  then show ?thesis by (cases "open_team_tenant (extract_bearer_claims demo_open demo_prior) demo_prior
      (if normalize_groups (get_none (extract_bearer_claims demo_open demo_prior) ''groups'') \<noteq> []
       then normalize_groups (get_none (extract_bearer_claims demo_open demo_prior) ''groups'')
       else if parse_groups_header demo_prior \<noteq> [] then parse_groups_header demo_prior else q_groups q) q")
      (simp add: resolve_workload_identity_def Let_def)
qed

lemma demo_prior_header: "stripped_header demo_prior ''x-ai-approval-id'' = ''a1''" "header demo_prior ''x-request-id'' = []"
  by code_simp+

lemma demo_answer:
  obtains r st' where "governance_evaluate demo_open demo_runtime demo_inputs demo_draws demo_prior default_request demo_state = (Inr r, st')"
    "ge_verdict r = ''allow''"
proof -
  let ?q = "apply_supply_chain_headers default_request demo_prior"
  obtain i where i: "resolve_workload_identity demo_open demo_prior ?q = Inr i" using demo_identity by blast
  let ?m = "apply_identity ?q i"
  have agent: "q_agent ?m = []"
    by (simp add: apply_identity_def apply_supply_chain_headers_def with_header_def default_request_def)
  obtain s where g: "approval_grants_allow (\<lambda>_. ''rq'') demo_grant ''a1'' ?m ''pd'' (demo_db ''approved'') = (Inr True, s)"
    "db_up s" "decisions s = [demo_decision]" "map e_id (audit_meta s) = [''e1'']"
    using demo_granted [OF agent] .
  let ?r = "granted_response ?m ''a1'' (demo_bundle_ok\<lparr>pb_digest := ''pd''\<rparr>)"
  have allow: "ge_verdict ?r = ''allow''" by (simp add: granted_response_def)
  obtain r' s' where p: "persist_evaluation (\<lambda>_. ''rq'') 3600 (ed_persist demo_draws) ?r ?m ''rid'' s = (Inr r', s')"
    using demo_persist [OF g(2-4) allow agent] .
  have prior_step: "check_prior demo_runtime demo_draws demo_prior ?m demo_state = (Inr True, demo_state\<lparr>st_db := s\<rparr>)"
    using g(1) by (simp add: check_prior_def demo_prior_header Let_def rethrow_apply on_store_apply map_error_def demo_runtime_def
        demo_draws_def demo_state_def)
  have "conclude demo_runtime demo_draws i ?m ''rid'' ?r (demo_state\<lparr>st_db := s\<rparr>) = (Inr r',
      \<lparr>st_db = s', st_events = push 1000 (audit_event_of ''v1'' [] i ?m r' ''rid'') []\<rparr>)"
    using p by (simp add: conclude_def bnd_def rethrow_apply on_store_apply map_error_def record_governance_evaluate_def ret_def
        demo_runtime_def demo_state_def) (simp add: demo_draws_def)
  then have "governance_evaluate demo_open demo_runtime demo_inputs demo_draws demo_prior default_request demo_state = (Inr r',
      \<lparr>st_db = s', st_events = push 1000 (audit_event_of ''v1'' [] i ?m r' ''rid'') []\<rparr>)"
    using i prior_step by (simp add: governance_evaluate_def Let_def map_error_def bnd_Inr demo_prior_header)
      (simp add: demo_runtime_def demo_draws_def)
  moreover have "ge_verdict r' = ''allow''" using stored_allow [OF p] allow by simp
  ultimately show thesis using that by blast
qed


theorem every_answer_recorded_witness:
  "\<exists>r st' row. governance_evaluate demo_open demo_runtime demo_inputs demo_draws demo_prior default_request demo_state = (Inr r, st') \<and>
     decisions (st_db st') = [demo_decision, row] \<and> d_final_verdict row = ''allow''"
proof -
  obtain r st' where a: "governance_evaluate demo_open demo_runtime demo_inputs demo_draws demo_prior default_request demo_state = (Inr r, st')"
    "ge_verdict r = ''allow''" using demo_answer .
  have "decisions (st_db demo_state) = [demo_decision]" by (simp add: demo_state_def demo_db_def)
  with every_answer_recorded [OF a(1)] a show ?thesis by auto
qed

end
