(* ===== verification/Intent_Engine.thy ===== *)
theory Intent_Engine
  imports Fleet_Engine Governance_Api
begin

text \<open>
  Intents: the routes file and the plan for a message (\<open>governance/intent/evaluate.py\<close>), the service that
  has the plan evaluated by the governance pipeline (\<open>intent_service.py\<close>), and its endpoint in
  \<open>routers/governance.py\<close>.
\<close>

subsection \<open>The routes\<close>

record routes_reader =
  ir_section :: "string option"
  ir_intent :: "string option"
  ir_list :: "string option"
  ir_default :: string
  ir_intents :: table

definition route_item :: "routes_reader \<Rightarrow> string \<Rightarrow> string \<Rightarrow> config_line \<Rightarrow> routes_reader result" where
  "route_item s name key l =
     rbind (append_to name key (drop 2 (l_text l)) (ir_intents s)) (\<lambda>t. Inr (s\<lparr>ir_intents := t\<rparr>))"

definition route_entry :: "routes_reader \<Rightarrow> string \<Rightarrow> config_line \<Rightarrow> routes_reader result" where
  "route_entry s name l =
     (let (key, _, value) = partition_char (CHR '':'') (l_text l);
          bad = Inl (ValueError (''unsupported intent entry: '' @ l_raw l))
      in if key = [] then bad
         else if py_strip value = []
         then (if key = ''keywords''
               then Inr (s\<lparr>ir_list := Some key, ir_intents := set_in name key (PList []) (ir_intents s)\<rparr>)
               else bad)
         else Inr (s\<lparr>ir_list := None, ir_intents := set_in name key (parse_scalar value) (ir_intents s)\<rparr>))"

definition routes_step :: "routes_reader \<Rightarrow> config_line \<Rightarrow> routes_reader result" where
  "routes_step s l =
     (let bad_line = Inl (ValueError (''unsupported intent routes line: '' @ l_raw l)) in
      if l_indent l = 0
      then (let (key, _, value) = partition_char (CHR '':'') (l_text l) in
            if key = ''default_intent'' then Inr (s\<lparr>ir_default := py_strip value, ir_section := None\<rparr>)
            else if key = ''intents'' then Inr (s\<lparr>ir_section := Some ''intents''\<rparr>)
            else bad_line)
      else if ir_section s \<noteq> Some ''intents'' then bad_line
      else if l_indent l = 2 \<and> ends_with (l_text l) '':''
      then Inr (s\<lparr>ir_intent := Some (butlast (l_text l)), ir_list := None,
                  ir_intents := dict_set (butlast (l_text l)) [] (ir_intents s)\<rparr>)
      else case ir_intent s of
        None \<Rightarrow> bad_line
      | Some name \<Rightarrow>
          if l_indent l = 4
          then (if starts_with (l_text l) ''- ''
                then (case ir_list s of None \<Rightarrow> Inr s | Some key \<Rightarrow> route_item s name key l)
                else route_entry s name l)
          else if l_indent l = 6 \<and> starts_with (l_text l) ''- ''
          then (case ir_list s of None \<Rightarrow> bad_line | Some key \<Rightarrow> route_item s name key l)
          else bad_line)"

definition routes_start :: routes_reader where
  "routes_start = \<lparr>ir_section = None, ir_intent = None, ir_list = None, ir_default = ''general_assistant'', ir_intents = []\<rparr>"

record routes =
  rt_default_intent :: string
  rt_intents :: table

definition parse_routes :: "string option \<Rightarrow> routes result" where
  "parse_routes file =
     (case file of
        None \<Rightarrow> Inl (FileNotFoundError ''intent routes file does not exist'')
      | Some t \<Rightarrow> rbind (read_lines routes_step routes_start (config_lines t))
          (\<lambda>s. Inr \<lparr>rt_default_intent = ir_default s, rt_intents = ir_intents s\<rparr>))"

subsection \<open>The intent of a message\<close>

text \<open>\<open>re.findall("[a-z0-9]{n,}", text.lower())\<close>: the runs of such characters that are long enough.\<close>

fun token_runs :: "string \<Rightarrow> string \<Rightarrow> string list" where
  "token_runs cur [] = [rev cur]"
| "token_runs cur (c # s) =
     (if lower c \<or> is_digit c then token_runs (c # cur) s else rev cur # token_runs [] s)"

definition tokens_of :: "nat \<Rightarrow> string \<Rightarrow> string list" where
  "tokens_of n text = filter (\<lambda>t. n \<le> length t) (token_runs [] (py_lower text))"

definition score_intent :: "string \<Rightarrow> pyobj \<Rightarrow> rat" where
  "score_intent message intent =
     (if truthy (get_none intent ''default'') then fl (1 / 100)
      else case get_default intent ''keywords'' (PList []) of
        PList keywords \<Rightarrow>
          (let toks = tokens_of 3 message;
               hits = length (filter (\<lambda>k. py_lower (py_str k) \<in> set toks) keywords)
           in if keywords = [] \<or> toks = [] \<or> hits = 0 then 0
              else fdiv (of_nat hits) (of_nat (length keywords)))
      | _ \<Rightarrow> 0)"

record intent_choice =
  ic_score :: rat
  ic_name :: string
  ic_intent :: pyobj

fun best_intent :: "string \<Rightarrow> table \<Rightarrow> intent_choice \<Rightarrow> intent_choice" where
  "best_intent message [] b = b"
| "best_intent message ((name, intent) # rest) b =
     best_intent message rest
       (if ic_score b < score_intent message intent
        then \<lparr>ic_score = score_intent message intent, ic_name = name, ic_intent = intent\<rparr> else b)"

definition default_choice :: "table \<Rightarrow> intent_choice \<Rightarrow> intent_choice" where
  "default_choice intents b =
     (if ic_score b = 0
      then (case find (\<lambda>(_, intent). truthy (get_none intent ''default'')) intents of
              None \<Rightarrow> b
            | Some (name, intent) \<Rightarrow> \<lparr>ic_score = fl (1 / 100), ic_name = name, ic_intent = intent\<rparr>)
      else b)"

definition resolve_intent :: "string \<Rightarrow> routes \<Rightarrow> string \<times> pyobj \<times> rat" where
  "resolve_intent message r =
     (let start = \<lparr>ic_score = 0, ic_name = rt_default_intent r,
            ic_intent = get_default (rt_intents r) (rt_default_intent r) []\<rparr>;
          b = default_choice (rt_intents r) (best_intent message (rt_intents r) start)
      in (ic_name b, ic_intent b, py_round 3 (min 1 (max (ic_score b) (fl (1 / 100))))))"

definition cluster_candidates :: "string \<Rightarrow> string \<Rightarrow> table \<Rightarrow> table" where
  "cluster_candidates preferred_region environment clusters =
     (let here = filter (\<lambda>(_, e). field_text e ''region'' = preferred_region) clusters;
          matching = filter (\<lambda>(_, e). field_text e ''environment'' = environment) here
      in if environment \<noteq> [] \<and> matching \<noteq> [] then matching else here)"

definition select_cluster :: "string \<Rightarrow> string \<Rightarrow> table \<Rightarrow> string \<times> pyobj option" where
  "select_cluster preferred_region environment clusters =
     (let candidates = cluster_candidates preferred_region environment clusters in
      if candidates = [] then ([], None)
      else case find (\<lambda>(_, e). truthy (get_none e ''primary'')) candidates of
        Some (name, e) \<Rightarrow> (name, Some e)
      | None \<Rightarrow> (let (name, e) = hd (sort_key fst candidates) in (name, Some e)))"

subsection \<open>The plan\<close>

record plan =
  pl_agent :: string
  pl_model :: string
  pl_tools :: "pyval list"
  pl_region :: string
  pl_runtime :: string
  pl_cluster :: "string option"
  pl_policy_pack :: string
  pl_namespace :: string
  pl_team :: string

text \<open>The hint is a dictionary of the four keys, empty when the agent is forbidden.\<close>

record cluster_hint =
  ch_name :: pyval
  ch_region :: pyval
  ch_cloud :: pyval
  ch_environment :: pyval

definition no_hint :: cluster_hint where
  "no_hint = \<lparr>ch_name = PNone, ch_region = PNone, ch_cloud = PNone, ch_environment = PNone\<rparr>"

record planned =
  po_intent :: string
  po_description :: pyval
  po_confidence :: rat
  po_forbidden :: bool
  po_reasons :: "string list"
  po_plan :: "plan option"
  po_cluster :: cluster_hint

definition hint_of :: "string \<times> pyobj option \<Rightarrow> string \<Rightarrow> string \<Rightarrow> cluster_hint" where
  "hint_of chosen region environment =
     (case snd chosen of
        Some e \<Rightarrow>
          if e \<noteq> []
          then \<lparr>ch_name = PStr (fst chosen), ch_region = get_none e ''region'', ch_cloud = get_none e ''cloud'',
                ch_environment = get_none e ''environment''\<rparr>
          else \<lparr>ch_name = PStr (fst chosen), ch_region = PStr region, ch_cloud = PNone, ch_environment = PStr environment\<rparr>
      | None \<Rightarrow> \<lparr>ch_name = PStr (fst chosen), ch_region = PStr region, ch_cloud = PNone, ch_environment = PStr environment\<rparr>)"

definition text_or :: "pyval \<Rightarrow> pyval \<Rightarrow> string \<Rightarrow> string" where
  "text_or a b d = py_str (or_else a (or_else b (PStr d)))"

definition plan_reasons :: "pyobj \<Rightarrow> pyobj \<Rightarrow> plan \<Rightarrow> string list" where
  "plan_reasons agent_entry model_entry p =
     reason_if (agent_entry = []) (''agent '' @ pl_agent p @ '' is not registered'') @
     reason_if (truthy (get_none model_entry ''forbidden'')) (''model '' @ pl_model p @ '' is forbidden'') @
     reason_if (excluded (get_none agent_entry ''allowed_teams'') (pl_team p))
       (''team '' @ pl_team p @ '' is not allowed to use agent '' @ pl_agent p)"

definition plan_of :: "pyobj \<Rightarrow> pyobj \<Rightarrow> string \<Rightarrow> pyobj \<Rightarrow> table \<Rightarrow> table \<Rightarrow> (plan \<times> pyobj \<times> cluster_hint) result" where
  "plan_of request intent agent_name agent_entry models clusters =
     (let model = text_or (get_none request ''model'') (get_none agent_entry ''model'') ''llama3.1:8b'';
          model_entry = get_default models model [];
          region = py_str (or_else (get_none request ''region'') (or_else (get_none intent ''preferred_region'')
            (or_else (get_none request ''preferred_region'') (PStr ''local''))));
          environment = py_str (or_else (get_none request ''environment'') (PStr ''development''));
          chosen = select_cluster region environment clusters
      in rbind (py_iter (get_default agent_entry ''tools'' (PList []))) (\<lambda>tools.
         let provider = text_or (get_none request ''provider'') (get_none intent ''preferred_runtime'') ''ollama'' in
         Inr (\<lparr>pl_agent = agent_name, pl_model = model, pl_tools = tools, pl_region = region,
                pl_runtime = (if truthy (get_none model_entry ''external_provider'') then ''openai'' else provider),
                pl_cluster = non_empty (fst chosen),
                pl_policy_pack = text_or (get_none request ''policy_pack'') (get_none agent_entry ''policy_pack'') [],
                pl_namespace = py_str (or_else (get_none request ''namespace'') (PStr ''ai-dev'')),
                pl_team = py_str (or_else (get_none request ''team'') (PStr ''platform''))\<rparr>,
              model_entry, hint_of chosen region environment)))"

definition build_orchestration_plan :: "pyobj \<Rightarrow> routes \<Rightarrow> table \<Rightarrow> table \<Rightarrow> table \<Rightarrow> planned result" where
  "build_orchestration_plan request r agents models clusters =
     (let (intent_name, intent, confidence) = resolve_intent (py_strip (field_text request ''message'')) r;
          agent_name = py_strip (field_text intent ''agent'');
          agent_entry = get_default agents agent_name []
      in if truthy (get_none agent_entry ''forbidden'')
         then Inr \<lparr>po_intent = intent_name, po_description = PNone, po_confidence = confidence, po_forbidden = True,
                po_reasons = [''agent '' @ agent_name @ '' is forbidden''], po_plan = None, po_cluster = no_hint\<rparr>
         else rbind (plan_of request intent agent_name agent_entry models clusters) (\<lambda>(p, model_entry, hint).
           let reasons = plan_reasons agent_entry model_entry p in
           Inr \<lparr>po_intent = intent_name, po_description = get_none intent ''description'', po_confidence = confidence,
             po_forbidden = (reasons \<noteq> []), po_reasons = reasons, po_plan = Some p, po_cluster = hint\<rparr>))"

subsection \<open>The service\<close>

record intent_request =
  iq_message :: string
  iq_subject :: string
  iq_groups :: "string list"
  iq_policy_pack :: string
  iq_team :: string
  iq_owner :: string
  iq_environment :: string
  iq_namespace :: string
  iq_region :: string
  iq_model :: string
  iq_provider :: string
  iq_run_governance :: bool

definition intent_dump :: "intent_request \<Rightarrow> pyobj" where
  "intent_dump q =
     [(''message'', PStr (iq_message q)), (''subject'', PStr (iq_subject q)), (''groups'', PList (map PStr (iq_groups q))),
      (''policy_pack'', PStr (iq_policy_pack q)), (''team'', PStr (iq_team q)), (''owner'', PStr (iq_owner q)),
      (''environment'', PStr (iq_environment q)), (''namespace'', PStr (iq_namespace q)), (''region'', PStr (iq_region q)),
      (''model'', PStr (iq_model q)), (''provider'', PStr (iq_provider q)), (''run_governance'', PBool (iq_run_governance q))]"

text \<open>The files the service reads on every call.\<close>

record intent_files =
  if_routes :: "string option"
  if_agents :: string
  if_models :: string
  if_clusters :: "string option"

text \<open>What the response models accept for \<open>str | None\<close> and for \<open>list[str]\<close>.\<close>

definition text_or_none :: "pyval \<Rightarrow> bool" where
  "text_or_none v = (case v of PNone \<Rightarrow> True | PStr _ \<Rightarrow> True | _ \<Rightarrow> False)"

definition is_text :: "pyval \<Rightarrow> bool" where
  "is_text v = (case v of PStr _ \<Rightarrow> True | _ \<Rightarrow> False)"

definition plan_valid :: "planned \<Rightarrow> bool" where
  "plan_valid o' \<longleftrightarrow>
     (case po_plan o' of None \<Rightarrow> True | Some p \<Rightarrow> list_all is_text (pl_tools p)) \<and>
     list_all text_or_none [ch_name (po_cluster o'), ch_region (po_cluster o'), ch_cloud (po_cluster o'), ch_environment (po_cluster o')]"

definition governance_body :: "intent_request \<Rightarrow> plan \<Rightarrow> eval_request" where
  "governance_body q p = default_request\<lparr>q_subject := iq_subject q, q_groups := iq_groups q,
     q_policy_pack := str_or (pl_policy_pack p) (iq_policy_pack q), q_team := pl_team p, q_owner := iq_owner q,
     q_environment := iq_environment q, q_namespace := pl_namespace p, q_model := pl_model p, q_provider := pl_runtime p,
     q_region := pl_region p, q_agent := pl_agent p, q_prompt_text := iq_message q\<rparr>"

record intent_response =
  is_planned :: planned
  is_governance :: "governance_response option"

definition read_plan :: "intent_files \<Rightarrow> intent_request \<Rightarrow> planned result" where
  "read_plan files q =
     rbind (parse_routes (if_routes files)) (\<lambda>r.
     rbind (parse_registry agent_format (if_agents files)) (\<lambda>agents.
     rbind (parse_registry model_format (if_models files)) (\<lambda>models.
     rbind (parse_clusters (if_clusters files)) (\<lambda>clusters.
       build_orchestration_plan (intent_dump q) r agents models clusters))))"

definition with_verdict :: "planned \<Rightarrow> governance_response \<Rightarrow> planned" where
  "with_verdict o' g =
     (if ge_verdict g = ''block'' then o'\<lparr>po_forbidden := True, po_reasons := po_reasons o' @ ge_reasons g\<rparr> else o')"

definition intent_answer :: "planned \<Rightarrow> governance_response option \<Rightarrow> (db, intent_response) opn" where
  "intent_answer o' g =
     (if text_or_none (po_description o') then ret \<lparr>is_planned = o', is_governance = g\<rparr>
      else throw (ValueError ''description''))"

definition resolve_intent_plan :: "runtime \<Rightarrow> string \<Rightarrow> intent_files \<Rightarrow> intent_request \<Rightarrow> (db, intent_response) opn" where
  "resolve_intent_plan rt now files q =
     (case read_plan files q of
        Inl e \<Rightarrow> throw e
      | Inr o' \<Rightarrow>
          if \<not> plan_valid o' then throw (ValueError ''plan'')
          else (case po_plan o' of
            Some p \<Rightarrow>
              if iq_run_governance q \<and> \<not> po_forbidden o'
              then bnd (evaluate_governance_request (rt_sha rt) (rt_mac rt) (rt_signing rt) (rt_quota_policy rt) now None
                     (rt_bundle rt) (governance_body q p)) (\<lambda>g. intent_answer (with_verdict o' g) (Some g))
              else intent_answer o' None
          | None \<Rightarrow> intent_answer o' None))"

text \<open>\<open>POST /governance/intent/resolve\<close>.\<close>

definition intent_identity_body :: "intent_request \<Rightarrow> eval_request" where
  "intent_identity_body q = default_request\<lparr>q_team := iq_team q, q_owner := iq_owner q, q_subject := iq_subject q,
     q_groups := iq_groups q, q_policy_pack := iq_policy_pack q, q_environment := iq_environment q,
     q_namespace := iq_namespace q\<rparr>"

definition merge_intent :: "names \<Rightarrow> workload_identity \<Rightarrow> intent_request \<Rightarrow> intent_request" where
  "merge_intent headers i q =
     q\<lparr>iq_subject := wi_subject i, iq_team := wi_team i, iq_owner := wi_owner i, iq_groups := wi_groups i,
       iq_policy_pack := str_or (wi_policy_pack i) (iq_policy_pack q), iq_environment := wi_environment i,
       iq_namespace := wi_namespace i, iq_region := str_or (stripped_header headers ''x-ai-region'') (iq_region q)\<rparr>"

definition intent_resolve ::
  "access_env \<Rightarrow> runtime \<Rightarrow> string \<Rightarrow> intent_files \<Rightarrow> names \<Rightarrow> intent_request \<Rightarrow> (db, intent_response) opn" where
  "intent_resolve ac rt now files headers q =
     (case resolve_workload_identity ac headers (intent_identity_body q) of
        Inl e \<Rightarrow> throw e
      | Inr i \<Rightarrow> resolve_intent_plan rt now files (merge_intent headers i q))"

subsection \<open>The choice of the intent\<close>

text \<open>The score of a default intent, and what rounding to three digits does to it.\<close>

lemma cent: "fl (1 / 100) = (5764607523034235 / 576460752303423488 :: rat)"
proof -
  have e: "ulp_exponent (1 / 100) = - 59" by code_simp
  have f: "\<lfloor>(1 / 100) / pow2 (- 59)\<rfloor> = 5764607523034234" by (simp add: floor_eq_iff pow2_def)
  have r: "round_even ((1 / 100) / pow2 (- 59)) = 5764607523034235"
    unfolding round_even_def f Let_def by (simp add: pow2_def)
  show ?thesis unfolding fl_def e r by (simp add: pow2_def)
qed

lemma cent_bounds: "0 < fl (1 / 100 :: rat)" "fl (1 / 100) \<le> (1 :: rat)"
  by (simp_all add: cent)

lemma round_cent: "py_round 3 (fl (1 / 100)) = fl (1 / 100)"
proof -
  have "\<lfloor>5764607523034235 / 576460752303423488 * 1000 :: rat\<rfloor> = 10" by (simp add: floor_eq_iff)
  then have "round_even (5764607523034235 / 576460752303423488 * 1000) = 10" by (simp add: round_even_def)
  then have "round_even (fl (1 / 100) * 10 ^ 3) = 10" by (simp add: cent)
  then show ?thesis by (simp add: py_round_def)
qed

lemma round_one: "py_round 3 1 = 1"
  by code_simp

lemma score_intent_bounds: "0 \<le> score_intent message intent" "score_intent message intent \<le> 1"
proof -
  have one: "fl 1 = (1::rat)" and zero: "fl 0 = (0::rat)" by code_simp+
  have "0 \<le> fdiv (of_nat h) (of_nat n) \<and> fdiv (of_nat h) (of_nat n) \<le> 1" if "h \<le> n" for h n :: nat
  proof -
    have "(of_nat h :: rat) / of_nat n \<le> 1" "0 \<le> (of_nat h :: rat) / of_nat n"
      using that by (auto simp: divide_le_eq_1)
    then show ?thesis unfolding fdiv_def using fl_mono [of "of_nat h / of_nat n" 1] fl_mono [of 0 "of_nat h / of_nat n"]
      by (simp add: one zero)
  qed
  note ratio = this
  have "0 \<le> score_intent message intent \<and> score_intent message intent \<le> 1"
  proof (cases "\<exists>ks. get_default intent ''keywords'' (PList []) = PList ks")
    case True
    then obtain ks where ks: "get_default intent ''keywords'' (PList []) = PList ks" ..
    show ?thesis unfolding score_intent_def ks Let_def pyval.case
      using cent_bounds
        ratio [OF length_filter_le [of "\<lambda>k. py_lower (py_str k) \<in> set (tokens_of 3 message)" ks]] by (simp split: if_split)
  next
    case False
    with cent_bounds show ?thesis by (auto simp: score_intent_def split: pyval.split)
  qed
  then show "0 \<le> score_intent message intent" "score_intent message intent \<le> 1" by simp_all
qed

text \<open>The fold keeps the first of the best.\<close>

lemma best_intent_facts:
  "ic_score b \<le> ic_score (best_intent message ints b) \<and>
   (\<forall>(n, i)\<in>set ints. score_intent message i \<le> ic_score (best_intent message ints b)) \<and>
   (best_intent message ints b = b \<or>
    (ic_name (best_intent message ints b), ic_intent (best_intent message ints b)) \<in> set ints \<and>
     ic_score (best_intent message ints b) = score_intent message (ic_intent (best_intent message ints b)))"
proof (induction ints arbitrary: b)
  case (Cons p rest)
  obtain n i where p: "p = (n, i)" by (cases p)
  define b' where "b' = (if ic_score b < score_intent message i
    then \<lparr>ic_score = score_intent message i, ic_name = n, ic_intent = i\<rparr> else b)"
  have step: "best_intent message (p # rest) b = best_intent message rest b'" by (simp add: p b'_def)
  have b': "ic_score b \<le> ic_score b'" "score_intent message i \<le> ic_score b'"
    "b' = b \<or> (ic_name b', ic_intent b') = (n, i) \<and> ic_score b' = score_intent message i"
    by (auto simp: b'_def)
  define r where "r = best_intent message rest b'"
  from Cons.IH [of b'] have r: "ic_score b' \<le> ic_score r" "\<forall>(n, i)\<in>set rest. score_intent message i \<le> ic_score r"
    "r = b' \<or> (ic_name r, ic_intent r) \<in> set rest \<and> ic_score r = score_intent message (ic_intent r)"
    by (simp_all add: r_def)
  have "ic_score b \<le> ic_score r" using b'(1) r(1) by simp
  moreover have "\<forall>(n, i)\<in>set ((n, i) # rest). score_intent message i \<le> ic_score r"
    using b'(2) r(1,2) by simp
  moreover have "r = b \<or> (ic_name r, ic_intent r) \<in> set ((n, i) # rest) \<and> ic_score r = score_intent message (ic_intent r)"
    using r(3) b'(3) by auto
  ultimately have "ic_score b \<le> ic_score r \<and> (\<forall>(n, i)\<in>set ((n, i) # rest). score_intent message i \<le> ic_score r) \<and>
    (r = b \<or> (ic_name r, ic_intent r) \<in> set ((n, i) # rest) \<and> ic_score r = score_intent message (ic_intent r))" by blast
  then show ?case unfolding step r_def [symmetric] unfolding p .
qed simp

lemma default_choice_same:
  assumes "\<forall>(n, i)\<in>set ints. score_intent message i \<le> ic_score b"
  shows "default_choice ints b = b"
proof (cases "ic_score b = 0")
  case True
  have "find (\<lambda>(_, i). truthy (get_none i ''default'')) ints = None"
    using assms True cent_bounds(1) by (fastforce simp: find_None_iff score_intent_def)
  with True show ?thesis by (simp add: default_choice_def)
qed (simp add: default_choice_def)


subsection \<open>The cluster\<close>

text \<open>The cluster of a plan lies in the region asked for; none is chosen only if the region has none, and the
  environment is respected where the region has a cluster of it.\<close>

lemma select_cluster_in:
  assumes "select_cluster region environment clusters = (c, Some e)"
  shows "(c, e) \<in> set (cluster_candidates region environment clusters)"
proof (cases "find (\<lambda>(_, e). truthy (get_none e ''primary'')) (cluster_candidates region environment clusters)")
  case None
  with assms have "cluster_candidates region environment clusters \<noteq> []"
    "hd (sort_key fst (cluster_candidates region environment clusters)) = (c, e)"
    by (auto simp: select_cluster_def Let_def split: if_splits prod.splits)
  then show ?thesis by (metis hd_in_set set_empty set_sort)
next
  case (Some x)
  with assms have "x = (c, e)" by (auto simp: select_cluster_def Let_def split: if_splits prod.splits)
  with Some show ?thesis by (auto simp: find_Some_iff) (metis nth_mem)
qed

lemma select_cluster_facts:
  assumes "select_cluster region environment clusters = (c, Some e)"
  shows "(c, e) \<in> set clusters" "field_text e ''region'' = region"
    "environment \<noteq> [] \<Longrightarrow> (c', e') \<in> set clusters \<Longrightarrow> field_text e' ''region'' = region \<Longrightarrow>
     field_text e' ''environment'' = environment \<Longrightarrow> field_text e ''environment'' = environment"
  using select_cluster_in [OF assms] by (auto simp: cluster_candidates_def Let_def filter_empty_conv split: if_splits)

lemma select_cluster_some:
  assumes "select_cluster region environment clusters = (c, x)" "c \<noteq> []"
  obtains e where "x = Some e"
proof (cases x)
  case None
  with assms show ?thesis by (auto simp: select_cluster_def Let_def split: option.splits prod.splits if_splits)
qed

lemma plan_of_facts:
  assumes "plan_of request intent agent_name agent_entry models clusters = Inr (p, model_entry, hint)"
  shows "pl_agent p = agent_name" "model_entry = get_default models (pl_model p) []"
    "pl_team p = py_str (or_else (get_none request ''team'') (PStr ''platform''))"
    "pl_cluster p = Some c \<Longrightarrow> \<exists>e. (c, e) \<in> set clusters \<and> field_text e ''region'' = pl_region p"
proof -
  show "pl_agent p = agent_name" "model_entry = get_default models (pl_model p) []"
    "pl_team p = py_str (or_else (get_none request ''team'') (PStr ''platform''))"
    using assms by (auto simp: plan_of_def Let_def rbind_Inr)
  show "\<exists>e. (c, e) \<in> set clusters \<and> field_text e ''region'' = pl_region p" if c: "pl_cluster p = Some c"
  proof -
    obtain environment where "pl_cluster p = non_empty (fst (select_cluster (pl_region p) environment clusters))"
      using assms by (auto simp: plan_of_def Let_def rbind_Inr)
    with c obtain x where sel: "select_cluster (pl_region p) environment clusters = (c, x)" "c \<noteq> []"
      by (cases "select_cluster (pl_region p) environment clusters") (auto simp: non_empty_def split: if_splits)
    from sel obtain e where "x = Some e" by (rule select_cluster_some)
    with sel(1) select_cluster_facts(1,2) [of "pl_region p" environment clusters c e] show ?thesis by auto
  qed
qed

lemma plan_allowed:
  assumes "build_orchestration_plan request r agents models clusters = Inr o'" "\<not> po_forbidden o'"
  obtains p entry where "po_plan o' = Some p" "map_of agents (pl_agent p) = Some entry"
    "\<not> truthy (get_none entry ''forbidden'')" "\<not> excluded (get_none entry ''allowed_teams'') (pl_team p)"
    "\<not> truthy (get_none (get_default models (pl_model p) []) ''forbidden'')"
    "pl_team p = py_str (or_else (get_none request ''team'') (PStr ''platform''))"
    "\<And>c. pl_cluster p = Some c \<Longrightarrow> \<exists>e. (c, e) \<in> set clusters \<and> field_text e ''region'' = pl_region p"
proof -
  obtain n intent conf where ri: "resolve_intent (py_strip (field_text request ''message'')) r = (n, intent, conf)"
    by (cases "resolve_intent (py_strip (field_text request ''message'')) r") auto
  define entry where "entry = get_default agents (py_strip (field_text intent ''agent'')) []"
  have nf: "\<not> truthy (get_none entry ''forbidden'')"
    using assms ri by (auto simp: build_orchestration_plan_def Let_def entry_def split: if_splits)
  with assms ri obtain p me hint where
    pl: "plan_of request intent (py_strip (field_text intent ''agent'')) entry models clusters = Inr (p, me, hint)"
    and o': "po_plan o' = Some p" and rs: "plan_reasons entry me p = []"
    by (auto simp: build_orchestration_plan_def Let_def rbind_Inr simp flip: entry_def)
  from rs have ne: "entry \<noteq> []" "\<not> truthy (get_none me ''forbidden'')" "\<not> excluded (get_none entry ''allowed_teams'') (pl_team p)"
    by (auto simp: plan_reasons_def reason_if_def split: if_splits)
  then have "map_of agents (pl_agent p) = Some entry"
    using plan_of_facts(1) [OF pl] by (auto simp: entry_def get_default_def split: option.splits)
  then show ?thesis using ne(2,3) nf plan_of_facts(2,3,4) [OF pl] by (intro that [OF o']) auto
qed

lemma intent_answer_Inr: "intent_answer o' g s = (Inr a, s') \<longleftrightarrow>
    text_or_none (po_description o') \<and> a = \<lparr>is_planned = o', is_governance = g\<rparr> \<and> s' = s"
  by (auto simp: intent_answer_def ret_def throw_def)

lemma resolve_intent_plan_allowed:
  assumes "resolve_intent_plan rt now files q s = (Inr a, s')" "\<not> po_forbidden (is_planned a)"
  obtains o' where "read_plan files q = Inr o'" "\<not> po_forbidden o'" "po_plan (is_planned a) = po_plan o'" "s' = s"
    "\<And>p. po_plan o' = Some p \<Longrightarrow> iq_run_governance q \<Longrightarrow> \<exists>g. is_governance a = Some g \<and> ge_verdict g \<noteq> ''block'' \<and>
      fst (evaluate_governance_request (rt_sha rt) (rt_mac rt) (rt_signing rt) (rt_quota_policy rt) now None
        (rt_bundle rt) (governance_body q p) s) = Inr g"
proof -
  obtain o' where o': "read_plan files q = Inr o'" "plan_valid o'"
    using assms(1) by (auto simp: resolve_intent_plan_def throw_def split: sum.splits if_splits)
  consider p where "po_plan o' = Some p" "iq_run_governance q" "\<not> po_forbidden o'"
    | "po_plan o' = None \<or> \<not> iq_run_governance q \<or> po_forbidden o'" by (cases "po_plan o'") blast+
  then show ?thesis
  proof cases
    case 1
    let ?ev = "evaluate_governance_request (rt_sha rt) (rt_mac rt) (rt_signing rt) (rt_quota_policy rt) now None
        (rt_bundle rt) (governance_body q p)"
    have un: "snd (?ev s) = s" by (rule evaluate_governance_unchanged)
    from assms(1) o' 1 obtain g where g: "fst (?ev s) = Inr g"
      and ans: "intent_answer (with_verdict o' g) (Some g) s = (Inr a, s')"
      using un by (cases "?ev s") (auto simp: resolve_intent_plan_def bnd_def split: sum.splits)
    from ans have a: "a = \<lparr>is_planned = with_verdict o' g, is_governance = Some g\<rparr>" "s' = s" by (simp_all add: intent_answer_Inr)
    with assms(2) have "ge_verdict g \<noteq> ''block''" "with_verdict o' g = o'" by (auto simp: with_verdict_def split: if_splits)
    with a g o' 1 show ?thesis by (intro that [OF o'(1)]) auto
  next
    case 2
    then have ans: "intent_answer o' None s = (Inr a, s')"
      using assms(1) o' by (auto simp: resolve_intent_plan_def split: option.splits if_splits)
    from ans have a: "is_planned a = o'" "s' = s" by (simp_all add: intent_answer_Inr)
    with assms(2) 2 o'(1) show ?thesis
    proof (intro that [OF o'(1)])
      fix p assume "po_plan o' = Some p" "iq_run_governance q"
      with 2 a assms(2) show "\<exists>g. is_governance a = Some g \<and> ge_verdict g \<noteq> ''block'' \<and>
        fst (evaluate_governance_request (rt_sha rt) (rt_mac rt) (rt_signing rt) (rt_quota_policy rt) now None
          (rt_bundle rt) (governance_body q p) s) = Inr g" by auto
    qed auto
  qed
qed


subsection \<open>Examples\<close>

definition file_of :: "string list \<Rightarrow> string" where
  "file_of ls = concat (map (\<lambda>l. l @ [CHR 0x0A]) ls)"

definition demo_intent_files :: intent_files where
  "demo_intent_files =
     \<lparr>if_routes = Some (file_of [''default_intent: chat'', ''intents:'', ''  chat:'', ''    agent: helper'', ''    default: true'',
        ''  review:'', ''    agent: reviewer'', ''    preferred_region: eu'', ''    keywords:'', ''      - review'', ''      - code'']),
      if_agents = file_of [''agents:'', ''  helper:'', ''    model: small'', ''  reviewer:'', ''    model: large'', ''    allowed_teams:'',
        ''      - core''],
      if_models = file_of [''models:'', ''  large:'', ''    risk_tier: high''],
      if_clusters = Some (file_of [''clusters:'', ''  west:'', ''    region: eu'', ''  east:'', ''    region: eu'', ''    environment: production''])\<rparr>"

definition demo_intent_request :: intent_request where
  "demo_intent_request = \<lparr>iq_message = ''please review my code'', iq_subject = [], iq_groups = [], iq_policy_pack = [],
     iq_team = ''core'', iq_owner = ''alice'', iq_environment = ''production'', iq_namespace = ''ai-dev'', iq_region = [],
     iq_model = [], iq_provider = [], iq_run_governance = False\<rparr>"

definition demo_routes :: routes where
  "demo_routes = \<lparr>rt_default_intent = ''chat'',
     rt_intents = [(''chat'', [(''agent'', PStr ''helper''), (''default'', PBool True)]),
       (''review'', [(''agent'', PStr ''reviewer''), (''preferred_region'', PStr ''eu''),
          (''keywords'', PList [PStr ''review'', PStr ''code''])])]\<rparr>"

lemma demo_routes_read: "parse_routes (if_routes demo_intent_files) = Inr demo_routes"
  by code_simp

lemma demo_registries_read:
  "parse_registry agent_format (if_agents demo_intent_files) =
     Inr [(''helper'', [(''model'', PStr ''small'')]),
          (''reviewer'', [(''model'', PStr ''large''), (''allowed_teams'', PList [PStr ''core''])])]"
  "parse_registry model_format (if_models demo_intent_files) = Inr [(''large'', [(''risk_tier'', PStr ''high'')])]"
  "parse_clusters (if_clusters demo_intent_files) = Inr [(''west'', [(''region'', PStr ''eu'')]),
      (''east'', [(''region'', PStr ''eu''), (''environment'', PStr ''production'')])]"
  by code_simp+

lemma demo_resolved:
  "resolve_intent ''please review my code'' demo_routes = (''review'', snd (rt_intents demo_routes ! 1), 1)"
proof -
  have "tokens_of 3 ''please review my code'' = [''please'', ''review'', ''code'']" by code_simp
  moreover have "py_lower ''review'' = ''review''" "py_lower ''code'' = ''code''" by code_simp+
  moreover have "fdiv 2 2 = 1" by code_simp
  moreover have "fl (1 / 100) < (1::rat)" by (simp add: cent)
  ultimately show ?thesis using cent_bounds round_one
    by (simp add: resolve_intent_def Let_def default_choice_def score_intent_def demo_routes_def get_none_def get_default_def py_str_def)
qed

definition demo_who :: workload_identity where
  "demo_who = \<lparr>wi_subject = ''anonymous'', wi_groups = [], wi_team = ''core'', wi_owner = ''alice'',
     wi_environment = ''production'', wi_namespace = ''ai-dev'', wi_policy_pack = [], wi_tenant_id = ''core'', wi_source = ''default''\<rparr>"

lemma demo_intent_identity:
  "resolve_workload_identity demo_open [] (intent_identity_body demo_intent_request) = Inr demo_who"
proof -
  have "resolve_workload_identity demo_open [] (d\<lparr>q_team := ''core'', q_owner := ''alice'', q_subject := [], q_groups := [],
      q_policy_pack := [], q_environment := ''production'', q_namespace := ''ai-dev'', q_tenant_id := []\<rparr>) = Inr demo_who" for d
    by (cases d, hypsubst, code_simp)
  moreover have "intent_identity_body demo_intent_request = default_request\<lparr>q_team := ''core'', q_owner := ''alice'', q_subject := [],
      q_groups := [], q_policy_pack := [], q_environment := ''production'', q_namespace := ''ai-dev'', q_tenant_id := []\<rparr>"
    by (simp add: intent_identity_body_def demo_intent_request_def default_request_def)
  ultimately show ?thesis by (simp only:)
qed

lemma demo_plan:
  obtains o' where "read_plan demo_intent_files (merge_intent [] demo_who demo_intent_request) = Inr o'"
    "\<not> po_forbidden o'" "plan_valid o'" "po_description o' = PNone" "map_option pl_cluster (po_plan o') = Some (Some ''east'')"
proof -
  let ?d = "intent_dump (merge_intent [] demo_who demo_intent_request)"
  let ?entry = "[(''model'', PStr ''large''), (''allowed_teams'', PList [PStr ''core''])]"
  let ?models = "[(''large'', [(''risk_tier'', PStr ''high'')])]"
  let ?intent = "[(''agent'', PStr ''reviewer''), (''preferred_region'', PStr ''eu''), (''keywords'', PList [PStr ''review'', PStr ''code''])]"
  let ?p = "\<lparr>pl_agent = ''reviewer'', pl_model = ''large'', pl_tools = [], pl_region = ''eu'', pl_runtime = ''ollama'',
    pl_cluster = Some ''east'', pl_policy_pack = [], pl_namespace = ''ai-dev'', pl_team = ''core''\<rparr>"
  let ?hint = "\<lparr>ch_name = PStr ''east'', ch_region = PStr ''eu'', ch_cloud = PNone, ch_environment = PStr ''production''\<rparr>"
  have msg: "py_strip (field_text ?d ''message'') = ''please review my code''" by code_simp
  have agent: "py_strip (field_text ?intent ''agent'') = ''reviewer''" by code_simp
  have intent: "snd (rt_intents demo_routes ! 1) = ?intent" by (simp add: demo_routes_def)
  have plan: "plan_of ?d ?intent ''reviewer'' ?entry ?models [(''west'', [(''region'', PStr ''eu'')]),
      (''east'', [(''region'', PStr ''eu''), (''environment'', PStr ''production'')])] =
    Inr (?p, [(''risk_tier'', PStr ''high'')], ?hint)" by code_simp
  have rs: "plan_reasons ?entry [(''risk_tier'', PStr ''high'')] ?p = []" by code_simp
  have "read_plan demo_intent_files (merge_intent [] demo_who demo_intent_request) =
      Inr \<lparr>po_intent = ''review'', po_description = PNone, po_confidence = 1, po_forbidden = False, po_reasons = [],
        po_plan = Some ?p, po_cluster = ?hint\<rparr>"
    unfolding read_plan_def demo_routes_read demo_registries_read rbind_simps build_orchestration_plan_def msg demo_resolved intent
    using plan rs agent by (simp add: get_default_def get_none_def)
  then show ?thesis by (rule that) (simp_all add: plan_valid_def text_or_none_def)
qed



end
