(* ===== verification/Policy_Store.thy ===== *)
theory Policy_Store
  imports Store_Tables "HOL-Library.Product_Lexorder"
begin

text \<open>
  Policy bundles: the store methods on \<open>policy_bundles\<close> and \<open>policy_bundle_impacts\<close>
  (\<open>decision_store.py\<close>). A bundle is a candidate, active or previous; activation gives it the next
  generation number and demotes the active one, rollback activates the last known good one.
\<close>

subsection \<open>Candidates\<close>

record new_bundle =
  nb_bundle_id :: string
  nb_digest :: string
  nb_git_revision :: string
  nb_source_type :: string
  nb_source :: pyobj
  nb_validation :: string
  nb_error :: "string option"
  nb_loaded_at :: "string option"

definition bundle_row_of :: "string \<Rightarrow> string \<Rightarrow> new_bundle \<Rightarrow> bundle_row" where
  "bundle_row_of rid now a =
     \<lparr>b_id = rid, b_bundle_id = nb_bundle_id a, b_digest = nb_digest a,
      b_git_revision = nb_git_revision a, b_status = ''candidate'', b_generation = None,
      b_source_type = nb_source_type a, b_source = nb_source a, b_validation = nb_validation a,
      b_error = nb_error a, b_loaded_at = str_or (opt_str (nb_loaded_at a)) now,
      b_created_at = now, b_updated_at = now, b_activated_at = None\<rparr>"

definition refresh_bundle :: "string \<Rightarrow> new_bundle \<Rightarrow> bundle_row \<Rightarrow> bundle_row" where
  "refresh_bundle now a r =
     r\<lparr>b_git_revision := nb_git_revision a, b_source_type := nb_source_type a,
       b_source := nb_source a, b_validation := nb_validation a, b_error := nb_error a,
       b_loaded_at := str_or (opt_str (nb_loaded_at a)) now, b_updated_at := now,
       b_status := (if b_status r = ''active'' then ''active''
                    else if b_status r = ''previous'' then ''previous'' else ''candidate'')\<rparr>"

definition get_policy_bundle_by_digest :: "string \<Rightarrow> string \<Rightarrow> (db, bundle_row option) opn" where
  "get_policy_bundle_by_digest bid digest = with_db (\<lambda>s.
     (Inr (find (\<lambda>r. bundle_key r = (bid, digest)) (policy_bundles s)), s))"

definition upsert_policy_bundle_candidate :: "string \<Rightarrow> instant \<Rightarrow> new_bundle \<Rightarrow> (db, bundle_row) opn" where
  "upsert_policy_bundle_candidate rid now a =
     bnd (get_policy_bundle_by_digest (nb_bundle_id a) (nb_digest a)) (\<lambda>existing s.
       case existing of
         Some r \<Rightarrow> (Inr (refresh_bundle (isoformat now) a r),
           s\<lparr>policy_bundles := sql_update (\<lambda>x. b_id x = b_id r) (refresh_bundle (isoformat now) a) (policy_bundles s)\<rparr>)
       | None \<Rightarrow>
           (case sql_insert b_id (bundle_row_of rid (isoformat now) a) (policy_bundles s) of
              None \<Rightarrow> (Inl StoreUnavailable, s)
            | Some t \<Rightarrow> (Inr (bundle_row_of rid (isoformat now) a), s\<lparr>policy_bundles := t\<rparr>)))"

subsection \<open>Reads\<close>

text \<open>\<open>ORDER BY CASE status ... END, updated_at DESC LIMIT 1\<close>.\<close>

definition status_rank :: "string \<Rightarrow> nat" where
  "status_rank st = (if st = ''active'' then 0 else if st = ''candidate'' then 1
     else if st = ''previous'' then 2 else 3)"

definition first_row :: "'r list \<Rightarrow> 'r option" where
  "first_row l = (case l of [] \<Rightarrow> None | r # _ \<Rightarrow> Some r)"

definition get_policy_bundle_record :: "string \<Rightarrow> (db, bundle_row option) opn" where
  "get_policy_bundle_record bid = with_db (\<lambda>s.
     (Inr (first_row (order_asc (\<lambda>r. status_rank (b_status r))
        (order_desc b_updated_at (filter (\<lambda>r. b_bundle_id r = bid) (policy_bundles s))))), s))"

text \<open>A missing generation sorts as 0 (SQLite's CASE), below every generation an activation gives.\<close>

definition gen_of :: "bundle_row \<Rightarrow> int" where
  "gen_of r = (case b_generation r of None \<Rightarrow> 0 | Some g \<Rightarrow> g)"

definition latest_with :: "string \<Rightarrow> bundle_row list \<Rightarrow> bundle_row option" where
  "latest_with st t = first_row (order_desc (\<lambda>r. (gen_of r, b_updated_at r)) (filter (\<lambda>r. b_status r = st) t))"

definition get_active_policy_bundle :: "(db, bundle_row option) opn" where
  "get_active_policy_bundle = with_db (\<lambda>s. (Inr (latest_with ''active'' (policy_bundles s)), s))"

definition get_previous_policy_bundle :: "(db, bundle_row option) opn" where
  "get_previous_policy_bundle = with_db (\<lambda>s. (Inr (latest_with ''previous'' (policy_bundles s)), s))"

definition get_active_policy_generation :: "(db, int) opn" where
  "get_active_policy_generation = bnd get_active_policy_bundle
     (\<lambda>r. ret (case r of None \<Rightarrow> 0 | Some b \<Rightarrow> gen_of b))"

definition list_policy_bundle_candidates :: "int \<Rightarrow> (db, bundle_row list) opn" where
  "list_policy_bundle_candidates limit = with_db (\<lambda>s.
     (Inr (limit_offset (clamp 1 200 limit) 0
        (order_desc b_updated_at (filter (\<lambda>r. b_status r = ''candidate'') (policy_bundles s)))), s))"

subsection \<open>Activation and rollback\<close>

text \<open>\<open>COALESCE(MAX(generation), 0)\<close>.\<close>

definition max_generation :: "bundle_row list \<Rightarrow> int" where
  "max_generation t = (case List.map_filter b_generation t of [] \<Rightarrow> 0 | g # gs \<Rightarrow> fold max gs g)"

definition demote_active :: "string \<Rightarrow> string \<Rightarrow> bundle_row list \<Rightarrow> bundle_row list" where
  "demote_active now rid t =
     sql_update (\<lambda>r. b_status r = ''active'' \<and> b_id r \<noteq> rid)
       (\<lambda>r. r\<lparr>b_status := ''previous'', b_updated_at := now\<rparr>) t"

definition promote :: "string \<Rightarrow> int \<Rightarrow> bundle_row \<Rightarrow> bundle_row" where
  "promote now gen r = r\<lparr>b_status := ''active'', b_generation := Some gen, b_updated_at := now, b_activated_at := Some now\<rparr>"

definition activate_row :: "string \<Rightarrow> bundle_row \<Rightarrow> (db, bundle_row) opn" where
  "activate_row now r s =
     (let gen = max_generation (policy_bundles s) + 1;
          t = sql_update (\<lambda>x. b_id x = b_id r) (promote now gen) (demote_active now (b_id r) (policy_bundles s));
          s' = s\<lparr>policy_bundles := t\<rparr>
      in case sql_fetch b_id (b_id r) t of None \<Rightarrow> (Inl AssertionError, s) | Some x \<Rightarrow> (Inr x, s'))"

definition activate_policy_bundle :: "instant \<Rightarrow> string \<Rightarrow> string \<Rightarrow> (db, bundle_row) opn" where
  "activate_policy_bundle now bid digest =
     bnd (if digest \<noteq> [] then get_policy_bundle_by_digest bid digest else get_policy_bundle_record bid)
       (\<lambda>found. case found of
          None \<Rightarrow> throw (KeyError (''policy bundle not found: '' @ bid))
        | Some r \<Rightarrow>
            if b_validation r \<noteq> ''ok''
            then throw (ValueError (''cannot activate invalid policy bundle: '' @ bid))
            else activate_row (isoformat now) r)"

definition rollback_policy_bundle :: "instant \<Rightarrow> (db, bundle_row) opn" where
  "rollback_policy_bundle now =
     bnd get_previous_policy_bundle
       (\<lambda>p. case p of
          None \<Rightarrow> throw (RuntimeError ''no last-known-good policy bundle to rollback to'')
        | Some r \<Rightarrow> activate_policy_bundle now (b_bundle_id r) (b_digest r))"

subsection \<open>Impacts\<close>

text \<open>The report comes without its id and time, which the method fills in.\<close>

definition save_policy_bundle_impact :: "string \<Rightarrow> instant \<Rightarrow> impact_row \<Rightarrow> (db, impact_row) opn" where
  "save_policy_bundle_impact iid now report = with_db (\<lambda>s.
     let row = report\<lparr>i_id := iid, i_created_at := isoformat now\<rparr> in
     case sql_insert i_id row (policy_bundle_impacts s) of
       None \<Rightarrow> (Inl StoreUnavailable, s)
     | Some t \<Rightarrow> (Inr row, s\<lparr>policy_bundle_impacts := t\<rparr>))"

definition get_policy_bundle_impact :: "string \<Rightarrow> (db, impact_row option) opn" where
  "get_policy_bundle_impact bid = with_db (\<lambda>s.
     (Inr (first_row (order_desc i_created_at (filter (\<lambda>r. i_bundle_id r = bid) (policy_bundle_impacts s)))), s))"

end
