(* ===== verification/Policy_Source.thy ===== *)
theory Policy_Source
  imports Policy_Bundle Access Policy_Store
begin

text \<open>
  Where a policy bundle comes from, \<open>policy_source.py\<close>: a directory of the file system or an artifact of an
  OCI registry, pulled into a temporary directory. What lies outside of the program is the record \<open>world\<close>: the
  environment, the file system as it is when the bundle is read (\<open>wd_expand\<close> is \<open>expanduser\<close>, \<open>wd_resolve\<close> also resolves the path), the commands \<open>cosign\<close> and \<open>oras\<close> (\<open>None\<close>
  when the command is not installed; run with its arguments it succeeds or fails with a message), the name
  \<open>mkdtemp\<close> gives, and what a load draws (the time and the id of a bundle that cannot be loaded).
\<close>

record world =
  wd_env :: names
  wd_default_root :: string
  wd_expand :: "string \<Rightarrow> string"
  wd_resolve :: "string \<Rightarrow> string"
  wd_dirs :: "string \<Rightarrow> files option"
  wd_cosign :: "(string list \<Rightarrow> string option) option"
  wd_oras :: "(string list \<Rightarrow> string option) option"
  wd_temp :: string
  wd_hash :: "string \<Rightarrow> string"
  wd_now :: string
  wd_drawn_id :: string
  wd_store_error :: string

record policy_source =
  src_type :: string
  src_path :: string
  src_reference :: string
  src_digest :: string
  src_verify :: bool

definition environ :: "world \<Rightarrow> string \<Rightarrow> string \<Rightarrow> string" where
  "environ w k d = get_default (wd_env w) k d"

subsection \<open>Configuration\<close>

definition env_bool :: "world \<Rightarrow> string \<Rightarrow> bool \<Rightarrow> bool" where
  "env_bool w k fallback =
     (case map_of (wd_env w) k of
        None \<Rightarrow> fallback
      | Some raw \<Rightarrow> if py_strip raw = [] then fallback
          else py_lower (py_strip raw) \<in> {''1'', ''true'', ''yes'', ''on''})"

definition default_verify_signature_for_type :: "string \<Rightarrow> bool" where
  "default_verify_signature_for_type t \<longleftrightarrow> py_lower (py_strip t) = ''oci''"

definition policy_source_from_env :: "world \<Rightarrow> policy_source" where
  "policy_source_from_env w =
     (let t = str_or (py_lower (py_strip (environ w ''POLICY_SOURCE_TYPE'' ''filesystem''))) ''filesystem'' in
      \<lparr>src_type = t, src_path = py_strip (environ w ''POLICY_SOURCE_PATH'' []),
       src_reference = py_strip (environ w ''POLICY_SOURCE_OCI_REF'' []),
       src_digest = py_strip (environ w ''POLICY_SOURCE_OCI_DIGEST'' []),
       src_verify = env_bool w ''POLICY_SOURCE_VERIFY_SIGNATURE'' (default_verify_signature_for_type t)\<rparr>)"

definition get_policy_failure_mode :: "world \<Rightarrow> string" where
  "get_policy_failure_mode w =
     (if py_lower (py_strip (environ w ''POLICY_SOURCE_FAILURE_MODE'' ''last_known_good''))
           \<in> {''fail_closed'', ''fail-closed'', ''closed''}
      then ''fail_closed'' else ''last_known_good'')"

subsection \<open>Artifacts\<close>

text \<open>\<open>subprocess.run(argv, check=True)\<close>.\<close>

definition run_command :: "(string list \<Rightarrow> string option) option \<Rightarrow> string \<Rightarrow> string list \<Rightarrow> unit result" where
  "run_command command missing argv =
     (case command of
        None \<Rightarrow> Inl (RuntimeError missing)
      | Some run \<Rightarrow> (case run argv of None \<Rightarrow> Inr () | Some message \<Rightarrow> Inl (CalledProcessError message)))"

text \<open>A reference without a digest of its own is pinned to the one that is configured.\<close>

definition pinned_reference :: "string \<Rightarrow> string \<Rightarrow> string" where
  "pinned_reference ref digest =
     (if digest \<noteq> [] \<and> CHR ''@'' \<notin> set ref then hd (split_char (CHR '':'') ref) @ ''@'' @ digest else ref)"

definition cosign_verify_oci :: "world \<Rightarrow> string \<Rightarrow> string \<Rightarrow> unit result" where
  "cosign_verify_oci w ref digest =
     run_command (wd_cosign w) ''cosign CLI is required when POLICY_SOURCE_VERIFY_SIGNATURE=true''
       [''cosign'', ''verify'', ''--certificate-identity-regexp'',
        environ w ''POLICY_SOURCE_COSIGN_IDENTITY_REGEXP''
          (''https://github.com/.*/'' @ [char_of (92::nat)] @ ''.github/workflows/.*''),
        ''--certificate-oidc-issuer'',
        environ w ''POLICY_SOURCE_COSIGN_OIDC_ISSUER'' ''https://token.actions.githubusercontent.com'',
        pinned_reference ref digest]"

definition oras_pull :: "world \<Rightarrow> string \<Rightarrow> string \<Rightarrow> unit result" where
  "oras_pull w ref target =
     run_command (wd_oras w)
       ''oras CLI is required to pull OCI policy bundles (install oras or use POLICY_SOURCE_TYPE=filesystem)''
       [''oras'', ''pull'', ref, ''-o'', target]"

definition is_dir :: "world \<Rightarrow> string \<Rightarrow> bool" where
  "is_dir w path \<longleftrightarrow> wd_dirs w path \<noteq> None"

definition materialize_policy_root :: "world \<Rightarrow> policy_source \<Rightarrow> string result" where
  "materialize_policy_root w src =
     (if src_type src \<in> {[], ''filesystem''}
      then let dir = (if src_path src \<noteq> [] then wd_resolve w (src_path src) else wd_default_root w) in
           if is_dir w dir then Inr dir
           else Inl (FileNotFoundError (''policy filesystem root not found: '' @ dir))
      else if src_type src \<noteq> ''oci'' then Inl (ValueError (''unsupported POLICY_SOURCE_TYPE: '' @ src_type src))
      else if src_reference src = [] then Inl (ValueError ''POLICY_SOURCE_OCI_REF is required for oci policy source'')
      else
        rbind (if src_verify src then cosign_verify_oci w (src_reference src) (src_digest src) else Inr ()) (\<lambda>_.
        let pull_ref = pinned_reference (src_reference src) (src_digest src); target = wd_temp w in
        rbind (oras_pull w pull_ref target) (\<lambda>_.
          if is_dir w (target @ ''/governance'') then Inr (target @ ''/governance'')
          else if is_dir w (target @ ''/policy-packs'') then Inr target
          else Inl (FileNotFoundError (''OCI policy artifact '' @ pull_ref @ '' missing governance/ or policy-packs/'')))))"

subsection \<open>Loading\<close>

text \<open>\<open>_git_revision\<close>, and \<open>PolicyBundle.load(dir)\<close>: no directory is a directory without files.\<close>

definition git_revision :: "world \<Rightarrow> string" where
  "git_revision w = str_or (py_strip (environ w ''GIT_COMMIT'' [])) (str_or (py_strip (environ w ''SOURCE_COMMIT'' [])) ''unknown'')"

definition files_at :: "world \<Rightarrow> string \<Rightarrow> files" where
  "files_at w dir = (case wd_dirs w dir of None \<Rightarrow> (\<lambda>_. None) | Some fs \<Rightarrow> fs)"

definition load_root :: "world \<Rightarrow> string \<Rightarrow> policy_bundle" where
  "load_root w dir = load_bundle (wd_hash w) (wd_now w) (git_revision w) (wd_drawn_id w) (files_at w dir)"

text \<open>How the store keeps a source: \<open>_source_to_json\<close>, \<open>_source_from_json\<close>.\<close>

definition source_to_json :: "policy_source \<Rightarrow> pyobj" where
  "source_to_json src =
     [(''type'', PStr (src_type src)), (''path'', PStr (src_path src)), (''reference'', PStr (src_reference src)),
      (''digest'', PStr (src_digest src)), (''verify_signature'', PBool (src_verify src))]"

definition text_at :: "pyobj \<Rightarrow> string \<Rightarrow> string \<Rightarrow> string" where
  "text_at d k fallback = py_str (or_else (get_none d k) (PStr fallback))"

definition source_from_json :: "pyobj \<Rightarrow> policy_source" where
  "source_from_json d =
     \<lparr>src_type = text_at d ''type'' ''filesystem'', src_path = text_at d ''path'' [],
      src_reference = text_at d ''reference'' [], src_digest = text_at d ''digest'' [],
      src_verify = truthy (get_none d ''verify_signature'')\<rparr>"

definition load_from_record :: "world \<Rightarrow> bundle_row \<Rightarrow> policy_bundle result" where
  "load_from_record w r = rbind (materialize_policy_root w (source_from_json (b_source r))) (\<lambda>dir. Inr (load_root w dir))"

subsection \<open>What a source promises\<close>

lemma source_json_roundtrip:
  "source_from_json (source_to_json src) = src\<lparr>src_type := str_or (src_type src) ''filesystem''\<rparr>"
  by (cases src) (simp add: source_from_json_def source_to_json_def text_at_def or_else_def get_none_def get_default_def
      str_or_def py_str_def)

lemma run_command_Inr: "run_command c m argv = Inr x \<longleftrightarrow> (\<exists>run. c = Some run \<and> run argv = None)"
  by (auto simp: run_command_def split: option.splits)


subsection \<open>Examples\<close>

text \<open>An artifact whose signature is accepted by its digest, as it is pulled into a temporary directory.\<close>

definition demo_world :: world where
  "demo_world =
     \<lparr>wd_env = [], wd_default_root = ''/app'', wd_expand = (\<lambda>p. p), wd_resolve = (\<lambda>p. p),
      wd_dirs = (\<lambda>p. if p \<in> {''/app'', ''/tmp/x/governance''} then Some demo_files else None),
      wd_cosign = Some (\<lambda>argv. if last argv = ''reg/policies@sha256:a'' then None else Some ''no matching signatures''),
      wd_oras = Some (\<lambda>_. None), wd_temp = ''/tmp/x'', wd_hash = (\<lambda>_. ''d0''), wd_now = ''t0'', wd_drawn_id = ''u0'',
      wd_store_error = ''store unavailable''\<rparr>"

definition demo_source :: policy_source where
  "demo_source = \<lparr>src_type = ''oci'', src_path = [], src_reference = ''reg/policies:v1'', src_digest = ''sha256:a'', src_verify = True\<rparr>"


end
