(* ===== verification/Policy_Lifecycle.thy ===== *)
theory Policy_Lifecycle
  imports Policy_Source Governance_Service Approval_Store
begin

text \<open>
  The life of a policy bundle in one process, \<open>policy_lifecycle.py\<close>: candidates are validated, simulated on past
  decisions, activated and rolled back. The choice of the active bundle is durable (the generation in the store);
  what a process enforces is its own copy (\<open>lf_bundle\<close>, the global \<open>_bundle\<close> of \<open>policy_bundle.py\<close>), which
  \<open>sync_active_from_store\<close> brings up to date. Operations get one \<open>world\<close> per load they may do, since files change
  between loads: \<open>u\<close> for the first use of the bundle of the process, \<open>w\<close> for the load of a source.
\<close>

subsection \<open>State\<close>

record bundle_impact =
  im_bundle_id :: string
  im_digest :: string
  im_evaluated :: int
  im_unchanged :: int
  im_allow_to_block :: int
  im_allow_to_approval :: int
  im_block_to_allow :: int
  im_approval_to_allow :: int
  im_approval_to_block :: int
  im_other :: int
  im_samples :: "pyobj list"

record life =
  lf_db :: db
  lf_bundle :: "policy_bundle option"
  lf_candidates :: "(string \<times> policy_bundle) list"
  lf_sources :: "(string \<times> pyobj) list"
  lf_previous :: "policy_bundle option"
  lf_impacts :: "(string \<times> bundle_impact) list"
  lf_source :: policy_source
  lf_error :: "string option"
  lf_fallback :: bool
  lf_expected :: string
  lf_observed :: string
  lf_observed_gen :: int
  lf_active_gen :: int

definition new_lifecycle :: "world \<Rightarrow> db \<Rightarrow> policy_bundle option \<Rightarrow> life" where
  "new_lifecycle w s b =
     \<lparr>lf_db = s, lf_bundle = b, lf_candidates = [], lf_sources = [], lf_previous = None, lf_impacts = [],
      lf_source = policy_source_from_env w, lf_error = None, lf_fallback = False, lf_expected = [], lf_observed = [],
      lf_observed_gen = 0, lf_active_gen = 0\<rparr>"

definition in_store :: "(db, 'a) opn \<Rightarrow> (life, 'a) opn" where
  "in_store m st = (fst (m (lf_db st)), st\<lparr>lf_db := snd (m (lf_db st))\<rparr>)"

text \<open>\<open>get_policy_bundle\<close> and \<open>reload_policy_bundle\<close> of \<open>policy_bundle.py\<close>.\<close>

definition get_policy_bundle :: "world \<Rightarrow> life \<Rightarrow> policy_bundle \<times> life" where
  "get_policy_bundle u st =
     (case lf_bundle st of
        Some b \<Rightarrow> (b, st)
      | None \<Rightarrow> let b = load_root u (wd_default_root u) in (b, st\<lparr>lf_bundle := Some b\<rparr>))"

definition reload_policy_bundle :: "world \<Rightarrow> string \<Rightarrow> life \<Rightarrow> policy_bundle \<times> life" where
  "reload_policy_bundle w dir st = (let b = load_root w dir in (b, st\<lparr>lf_bundle := Some b\<rparr>))"

definition bundle_ok :: "policy_bundle \<Rightarrow> bool" where
  "bundle_ok b \<longleftrightarrow> pb_status b = ''ok''"

text \<open>\<open>str(exc)\<close>; the text of \<open>StoreUnavailableError\<close> is the driver's.\<close>

definition error_text :: "world \<Rightarrow> exn \<Rightarrow> string" where
  "error_text w e = (if e = StoreUnavailable then wd_store_error w else exn_text e)"

subsection \<open>Following the store\<close>

definition up_to_date :: "world \<Rightarrow> bundle_row \<Rightarrow> life \<Rightarrow> bool \<times> life" where
  "up_to_date u r st =
     (if 0 < gen_of r \<and> gen_of r = lf_observed_gen st
      then let (b, st1) = get_policy_bundle u st in (pb_digest b = b_digest r, st1)
      else (False, st))"

text \<open>The bundle the active record names, if it is valid and has the digest on record.\<close>

definition load_active :: "world \<Rightarrow> bundle_row \<Rightarrow> policy_bundle result" where
  "load_active w r =
     rbind (load_from_record w r) (\<lambda>b.
       if \<not> bundle_ok b then Inl (RuntimeError (str_or (opt_str (pb_error b)) ''active policy bundle invalid''))
       else if pb_digest b \<noteq> b_digest r
       then Inl (RuntimeError (''active policy digest mismatch after rematerialize: '' @ pb_digest b @ '' != '' @ b_digest r))
       else Inr b)"

definition install :: "world \<Rightarrow> bundle_row \<Rightarrow> policy_bundle \<Rightarrow> life \<Rightarrow> life" where
  "install u r b st =
     (let (current, st1) = get_policy_bundle u st;
          st2 = (if bundle_ok current \<and> pb_digest current \<noteq> pb_digest b then st1\<lparr>lf_previous := Some current\<rparr> else st1);
          st3 = st2\<lparr>lf_bundle := Some b, lf_observed_gen := gen_of r, lf_active_gen := gen_of r, lf_observed := pb_digest b,
                    lf_error := None, lf_fallback := False\<rparr>
      in if b_source r \<noteq> [] then st3\<lparr>lf_source := source_from_json (b_source r)\<rparr> else st3)"

definition sync_active_from_store :: "bool \<Rightarrow> world \<Rightarrow> world \<Rightarrow> life \<Rightarrow> policy_bundle option \<times> life" where
  "sync_active_from_store force u w st =
     (case in_store get_active_policy_bundle st of
        (Inr (Some r), st0) \<Rightarrow>
          (let (same, st1) = (if force then (False, st0) else up_to_date u r st0) in
           if same then (lf_bundle st1, st1\<lparr>lf_active_gen := gen_of r\<rparr>)
           else (case load_active w r of
                   Inl e \<Rightarrow> (None, st1\<lparr>lf_error := Some (exn_text e)\<rparr>)
                 | Inr b \<Rightarrow> (Some b, install u r b st1)))
      | (_, st0) \<Rightarrow> (None, st0))"

definition lifecycle_active :: "world \<Rightarrow> world \<Rightarrow> life \<Rightarrow> policy_bundle \<times> life" where
  "lifecycle_active u w st = get_policy_bundle u (snd (sync_active_from_store False u w st))"

text \<open>\<open>evaluate_governance_request\<close> called without a bundle (\<open>governance_service.py\<close>).\<close>

definition evaluate_with_active ::
  "world \<Rightarrow> world \<Rightarrow> (policy_bundle \<Rightarrow> (db, 'a) opn) \<Rightarrow> (life, 'a) opn" where
  "evaluate_with_active u w evaluate st = (let (b, st1) = lifecycle_active u w st in in_store (evaluate b) st1)"

subsection \<open>Candidates\<close>

definition lifecycle_previous :: "world \<Rightarrow> (life, policy_bundle option) opn" where
  "lifecycle_previous w st =
     (if lf_previous st \<noteq> None then (Inr (lf_previous st), st)
      else bnd (in_store get_previous_policy_bundle) (\<lambda>found.
        ret (case found of
               None \<Rightarrow> None
             | Some r \<Rightarrow> (case load_from_record w r of Inl e \<Rightarrow> None | Inr b \<Rightarrow> Some b))) st)"

fun add_stored :: "(nat \<Rightarrow> world) \<Rightarrow> nat \<Rightarrow> bundle_row list \<Rightarrow> (string \<times> policy_bundle) list \<Rightarrow> (string \<times> policy_bundle) list" where
  "add_stored ws k [] d = d"
| "add_stored ws k (r # rs) d =
     add_stored ws (Suc k) rs
       (if map_of d (b_bundle_id r) \<noteq> None then d
        else (case load_from_record (ws k) r of Inl e \<Rightarrow> d | Inr b \<Rightarrow> dict_set (b_bundle_id r) b d))"

definition list_candidates :: "(nat \<Rightarrow> world) \<Rightarrow> (life, policy_bundle list) opn" where
  "list_candidates ws st =
     bnd (in_store (list_policy_bundle_candidates 50)) (\<lambda>records.
       ret (map snd (add_stored ws 0 records (fold (\<lambda>b. dict_set (pb_id b) b) (map snd (lf_candidates st)) [])))) st"

definition remember :: "policy_bundle \<Rightarrow> pyobj \<Rightarrow> life \<Rightarrow> life" where
  "remember b source st =
     st\<lparr>lf_candidates := dict_set (pb_id b) b (lf_candidates st), lf_sources := dict_set (pb_id b) source (lf_sources st)\<rparr>"

definition stored_candidate :: "world \<Rightarrow> string \<Rightarrow> (life, policy_bundle option) opn" where
  "stored_candidate w bid =
     bnd (in_store (get_policy_bundle_record bid)) (\<lambda>found st.
       case found of
         None \<Rightarrow> (Inr None, st)
       | Some r \<Rightarrow>
           (case load_from_record w r of
              Inl e \<Rightarrow> (Inr None, st)
            | Inr b \<Rightarrow> (Inr (Some b), if bundle_ok b then remember b (b_source r) st else st)))"

definition get_candidate :: "world \<Rightarrow> world \<Rightarrow> string \<Rightarrow> (life, policy_bundle option) opn" where
  "get_candidate u w bid st =
     (case map_of (lf_candidates st) bid of
        Some b \<Rightarrow> (Inr (Some b), st)
      | None \<Rightarrow>
          (let (current, st1) = get_policy_bundle u st in
           if pb_id current = bid then (Inr (Some current), st1)
           else (case lf_previous st1 of
                   Some p \<Rightarrow> if pb_id p = bid then (Inr (Some p), st1) else stored_candidate w bid st1
                 | None \<Rightarrow> stored_candidate w bid st1)))"

definition candidate_args :: "policy_bundle \<Rightarrow> pyobj \<Rightarrow> new_bundle" where
  "candidate_args b source =
     \<lparr>nb_bundle_id = pb_id b, nb_digest = pb_digest b, nb_git_revision = pb_revision b,
      nb_source_type = text_at source ''type'' ''filesystem'', nb_source = source, nb_validation = pb_status b,
      nb_error = pb_error b, nb_loaded_at = Some (pb_loaded_at b)\<rparr>"

text \<open>The row id and the time an insertion or an activation draws.\<close>

record draws =
  dw_row_id :: string
  dw_now :: instant
  dw_activated :: instant

definition source_json_for :: "policy_source \<Rightarrow> string \<Rightarrow> pyobj" where
  "source_json_for src dir =
     (let d = source_to_json src in
      if src_type src \<in> {[], ''filesystem''} \<and> \<not> truthy (get_none d ''path'') then dict_set ''path'' (PStr dir) d else d)"

definition validate_from_path :: "draws \<Rightarrow> world \<Rightarrow> string \<Rightarrow> policy_source option \<Rightarrow> (life, policy_bundle) opn" where
  "validate_from_path dr w dir source st =
     (let b = load_root w dir in
      if \<not> bundle_ok b then (Inr b, st)
      else let src = (case source of
               None \<Rightarrow> \<lparr>src_type = ''filesystem'', src_path = dir, src_reference = [], src_digest = [], src_verify = False\<rparr>
             | Some s \<Rightarrow> s);
             d = source_json_for src dir
           in bnd (in_store (upsert_policy_bundle_candidate (dw_row_id dr) (dw_now dr) (candidate_args b d)))
                (\<lambda>_. ret b) (remember b d st))"

definition of_result :: "'a result \<Rightarrow> ('s, 'a) opn" where
  "of_result r st = (r, st)"

definition validate_from_source :: "draws \<Rightarrow> world \<Rightarrow> policy_source option \<Rightarrow> (life, policy_bundle) opn" where
  "validate_from_source dr w source =
     (let src = (case source of None \<Rightarrow> policy_source_from_env w | Some s \<Rightarrow> s) in
      bnd (of_result (materialize_policy_root w src)) (\<lambda>dir.
      bnd (validate_from_path dr w dir (Some src)) (\<lambda>b st. (Inr b, st\<lparr>lf_source := src\<rparr>))))"

subsection \<open>Activation and rollback\<close>

definition default_source :: "world \<Rightarrow> pyobj" where
  "default_source w =
     [(''type'', PStr ''filesystem''), (''path'', PStr (wd_default_root w)), (''reference'', PStr []),
      (''digest'', PStr []), (''verify_signature'', PBool False)]"

text \<open>The candidate that is named, valid, or a \<open>KeyError\<close>.\<close>

definition valid_candidate :: "world \<Rightarrow> world \<Rightarrow> string \<Rightarrow> (life, policy_bundle) opn" where
  "valid_candidate u w bid =
     bnd (get_candidate u w bid) (\<lambda>found.
       case found of
         Some b \<Rightarrow> if bundle_ok b then ret b else throw (KeyError (''validated policy bundle not found: '' @ bid))
       | None \<Rightarrow> throw (KeyError (''validated policy bundle not found: '' @ bid)))"

definition cached_candidate :: "world \<Rightarrow> world \<Rightarrow> string \<Rightarrow> (life, policy_bundle) opn" where
  "cached_candidate u w bid st =
     (case map_of (lf_candidates st) bid of
        Some b \<Rightarrow> if bundle_ok b then (Inr b, st) else valid_candidate u w bid st
      | None \<Rightarrow> valid_candidate u w bid st)"

definition candidate_source :: "world \<Rightarrow> pyobj \<Rightarrow> policy_bundle \<Rightarrow> (life, pyobj) opn" where
  "candidate_source w cached b =
     (if cached \<noteq> [] then ret cached
      else bnd (in_store (get_policy_bundle_by_digest (pb_id b) (pb_digest b))) (\<lambda>found.
        let d = (case found of None \<Rightarrow> [] | Some r \<Rightarrow> b_source r) in ret (if d = [] then default_source w else d)))"

definition take_over :: "world \<Rightarrow> bundle_row \<Rightarrow> policy_bundle \<Rightarrow> life \<Rightarrow> life" where
  "take_over u r b st =
     (let (current, st1) = get_policy_bundle u st in
      (if bundle_ok current then st1\<lparr>lf_previous := Some current\<rparr> else st1)
        \<lparr>lf_bundle := Some b, lf_observed_gen := gen_of r, lf_active_gen := gen_of r, lf_observed := pb_digest b,
         lf_error := None, lf_fallback := False\<rparr>)"

definition lifecycle_activate :: "draws \<Rightarrow> world \<Rightarrow> world \<Rightarrow> string \<Rightarrow> (life, policy_bundle) opn" where
  "lifecycle_activate dr u w bid st =
     (let cached = get_default (lf_sources st) bid [] in
      bnd (cached_candidate u w bid) (\<lambda>b.
      bnd (candidate_source w cached b) (\<lambda>source.
      bnd (in_store (upsert_policy_bundle_candidate (dw_row_id dr) (dw_now dr) (candidate_args b source))) (\<lambda>_.
      bnd (in_store (activate_policy_bundle (dw_activated dr) (pb_id b) (pb_digest b))) (\<lambda>r st.
        (Inr b, take_over u r b st))))) st)"

text \<open>A rollback in the store that the process cannot follow at first is tried once more, without the check of the
  digest.\<close>

definition follow_rollback :: "world \<Rightarrow> world \<Rightarrow> bundle_row \<Rightarrow> (life, policy_bundle) opn" where
  "follow_rollback u w r =
     bnd (of_result (load_from_record w r)) (\<lambda>b st.
       if \<not> bundle_ok b then (Inl (RuntimeError (str_or (opt_str (pb_error b)) ''rollback bundle invalid'')), st)
       else let (current, st1) = get_policy_bundle u st in
         (Inr b, (if bundle_ok current then st1\<lparr>lf_previous := Some current\<rparr> else st1)
            \<lparr>lf_bundle := Some b, lf_observed_gen := gen_of r, lf_active_gen := gen_of r, lf_observed := pb_digest b\<rparr>))"

definition lifecycle_rollback :: "draws \<Rightarrow> world \<Rightarrow> world \<Rightarrow> world \<Rightarrow> (life, policy_bundle) opn" where
  "lifecycle_rollback dr u w w' st =
     bnd (in_store get_previous_policy_bundle) (\<lambda>found.
       case found of
         Some _ \<Rightarrow>
           bnd (in_store (rollback_policy_bundle (dw_activated dr))) (\<lambda>r st1.
             case sync_active_from_store True u w st1 of
               (Some b, st2) \<Rightarrow> (Inr b, st2)
             | (None, st2) \<Rightarrow> follow_rollback u w' r st2)
       | None \<Rightarrow>
           (case lf_previous st of
              Some p \<Rightarrow>
                if bundle_ok p then lifecycle_activate dr u w (pb_id p)
                else throw (RuntimeError ''no last-known-good policy bundle to rollback to'')
            | None \<Rightarrow> throw (RuntimeError ''no last-known-good policy bundle to rollback to''))) st"

subsection \<open>Start of a process\<close>

definition seed_active :: "draws \<Rightarrow> world \<Rightarrow> world \<Rightarrow> policy_bundle \<Rightarrow> (life, policy_bundle) opn" where
  "seed_active dr w w' current =
     bnd (of_result (materialize_policy_root w (policy_source_from_env w))) (\<lambda>dir.
     (let loaded = load_root w dir; source = source_json_for (policy_source_from_env w) dir in
      if \<not> bundle_ok loaded then throw (RuntimeError (str_or (opt_str (pb_error loaded)) ''policy bundle invalid''))
      else
        bnd (in_store (upsert_policy_bundle_candidate (dw_row_id dr) (dw_now dr) (candidate_args loaded source))) (\<lambda>_.
        bnd (in_store (activate_policy_bundle (dw_activated dr) (pb_id loaded) (pb_digest loaded))) (\<lambda>r st.
          let st1 = (if bundle_ok current \<and> pb_digest current \<noteq> pb_digest loaded then st\<lparr>lf_previous := Some current\<rparr> else st);
              (active, st2) = reload_policy_bundle w' dir st1
          in (Inr active, st2\<lparr>lf_error := None, lf_fallback := False, lf_observed := pb_digest active,
                              lf_observed_gen := gen_of r, lf_active_gen := gen_of r\<rparr>)))))"

definition follow_or_seed :: "draws \<Rightarrow> world \<Rightarrow> world \<Rightarrow> world \<Rightarrow> policy_bundle \<Rightarrow> (life, policy_bundle) opn" where
  "follow_or_seed dr u w w' current =
     bnd (in_store get_active_policy_bundle) (\<lambda>durable.
       case durable of
         None \<Rightarrow> seed_active dr w w' current
       | Some _ \<Rightarrow> (\<lambda>st. case sync_active_from_store True u w st of
             (Some b, st1) \<Rightarrow> (Inr b, st1)
           | (None, st1) \<Rightarrow> (Inl (RuntimeError (str_or (opt_str (lf_error st1)) ''failed to sync durable active policy bundle'')), st1)))"

definition ensure_bootstrapped :: "draws \<Rightarrow> world \<Rightarrow> world \<Rightarrow> world \<Rightarrow> (life, policy_bundle) opn" where
  "ensure_bootstrapped dr u w w' st =
     (let (current, st0) = get_policy_bundle u st; src = policy_source_from_env w;
          st1 = st0\<lparr>lf_source := src, lf_expected := src_digest src\<rparr>
      in case follow_or_seed dr u w w' current st1 of
           (Inr b, st2) \<Rightarrow> (Inr b, st2)
         | (Inl e, st2) \<Rightarrow>
             (let st3 = st2\<lparr>lf_error := Some (error_text w e)\<rparr> in
              if get_policy_failure_mode w = ''last_known_good'' \<and> bundle_ok current
              then (Inr current, st3\<lparr>lf_fallback := True, lf_observed := pb_digest current\<rparr>)
              else (Inl e, st3\<lparr>lf_fallback := False\<rparr>)))"

record bootstrap =
  bo_ok :: bool
  bo_error :: "string option"
  bo_fallback :: bool
  bo_expected :: string
  bo_observed :: string
  bo_source_type :: string
  bo_failure_mode :: string
  bo_active_gen :: int
  bo_observed_gen :: int

definition bootstrap_status :: "world \<Rightarrow> life \<Rightarrow> bootstrap \<times> life" where
  "bootstrap_status u st =
     (let (ok, st1) = (if lf_error st \<noteq> None then (False, st) else let (b, s) = get_policy_bundle u st in (bundle_ok b, s));
          (observed, st2) = (if lf_observed st1 \<noteq> [] then (lf_observed st1, st1)
             else let (b, s) = get_policy_bundle u st1 in (pb_digest b, s))
      in (\<lparr>bo_ok = ok, bo_error = lf_error st2, bo_fallback = lf_fallback st2, bo_expected = lf_expected st2,
            bo_observed = observed, bo_source_type = src_type (lf_source st2), bo_failure_mode = get_policy_failure_mode u,
            bo_active_gen = lf_active_gen st2, bo_observed_gen = lf_observed_gen st2\<rparr>, st2))"

subsection \<open>Simulation\<close>

text \<open>What a replay needs besides the candidate: \<open>GovernanceEvaluateRequest.model_validate\<close>, the hash, the
  attestation, \<open>QUOTA_ON_UNAVAILABLE\<close>, and the clock at each evaluation.\<close>

record replay_env =
  sm_validate :: "pyobj \<Rightarrow> eval_request option"
  sm_sha :: "string \<Rightarrow> string"
  sm_mac :: "string \<Rightarrow> string \<Rightarrow> string"
  sm_signing :: signing_env
  sm_quota_policy :: string
  sm_clock :: "nat \<Rightarrow> string"

definition replay :: "replay_env \<Rightarrow> policy_bundle \<Rightarrow> nat \<Rightarrow> pyobj \<Rightarrow> (db, string) opn" where
  "replay sm b k request =
     (case sm_validate sm request of
        None \<Rightarrow> throw (ValueError ''request'')
      | Some q \<Rightarrow> bnd (evaluate_governance_request (sm_sha sm) (sm_mac sm) (sm_signing sm) (sm_quota_policy sm) (sm_clock sm k) None b q)
          (\<lambda>r. ret (ge_verdict r)))"

definition count_change :: "string \<Rightarrow> bundle_impact \<Rightarrow> bundle_impact" where
  "count_change key im =
     (if key = ''allow->block'' then im\<lparr>im_allow_to_block := im_allow_to_block im + 1\<rparr>
      else if key = ''allow->approval_required'' then im\<lparr>im_allow_to_approval := im_allow_to_approval im + 1\<rparr>
      else if key = ''block->allow'' then im\<lparr>im_block_to_allow := im_block_to_allow im + 1\<rparr>
      else if key = ''approval_required->allow'' then im\<lparr>im_approval_to_allow := im_approval_to_allow im + 1\<rparr>
      else if key = ''approval_required->block'' then im\<lparr>im_approval_to_block := im_approval_to_block im + 1\<rparr>
      else im\<lparr>im_other := im_other im + 1\<rparr>)"

definition change_sample :: "decision_record \<Rightarrow> string \<Rightarrow> pyobj" where
  "change_sample d after =
     [(''decision_id'', PStr (dr_decision_id d)), (''before'', PStr (dr_final_verdict d)), (''after'', PStr after),
      (''team'', PStr (dr_team d)), (''model'', PStr (dr_model d))]"

definition tally :: "decision_record \<Rightarrow> string \<Rightarrow> bundle_impact \<Rightarrow> bundle_impact" where
  "tally d after im =
     (let im1 = im\<lparr>im_evaluated := im_evaluated im + 1\<rparr>; before = dr_final_verdict d in
      if before = after then im1\<lparr>im_unchanged := im_unchanged im1 + 1\<rparr>
      else let im2 = count_change (before @ ''->'' @ after) im1 in
           if length (im_samples im2) < 20 then im2\<lparr>im_samples := im_samples im2 @ [change_sample d after]\<rparr> else im2)"

fun replay_records :: "replay_env \<Rightarrow> policy_bundle \<Rightarrow> nat \<Rightarrow> decision_record list \<Rightarrow> bundle_impact \<Rightarrow> db \<Rightarrow> bundle_impact \<times> db" where
  "replay_records sm b k [] im s = (im, s)"
| "replay_records sm b k (d # ds) im s =
     (if dr_request d = [] then replay_records sm b (Suc k) ds im s
      else (case replay sm b k (dr_request d) s of
              (Inl e, s') \<Rightarrow> replay_records sm b (Suc k) ds (im\<lparr>im_other := im_other im + 1\<rparr>) s'
            | (Inr after, s') \<Rightarrow> replay_records sm b (Suc k) ds (tally d after im) s'))"

definition new_impact :: "policy_bundle \<Rightarrow> bundle_impact" where
  "new_impact b =
     \<lparr>im_bundle_id = pb_id b, im_digest = pb_digest b, im_evaluated = 0, im_unchanged = 0, im_allow_to_block = 0,
      im_allow_to_approval = 0, im_block_to_allow = 0, im_approval_to_allow = 0, im_approval_to_block = 0, im_other = 0,
      im_samples = []\<rparr>"

definition impact_args :: "bundle_impact \<Rightarrow> int \<Rightarrow> impact_row" where
  "impact_args im limit =
     \<lparr>i_id = [], i_bundle_id = im_bundle_id im, i_digest = im_digest im, i_evaluated = im_evaluated im,
      i_unchanged = im_unchanged im, i_allow_to_block = im_allow_to_block im, i_allow_to_approval = im_allow_to_approval im,
      i_block_to_allow = im_block_to_allow im, i_approval_to_allow = im_approval_to_allow im,
      i_approval_to_block = im_approval_to_block im, i_other = im_other im, i_samples = im_samples im, i_limit = limit,
      i_created_at = []\<rparr>"

definition impact_of_row :: "impact_row \<Rightarrow> bundle_impact" where
  "impact_of_row r =
     \<lparr>im_bundle_id = i_bundle_id r, im_digest = i_digest r, im_evaluated = i_evaluated r, im_unchanged = i_unchanged r,
      im_allow_to_block = i_allow_to_block r, im_allow_to_approval = i_allow_to_approval r,
      im_block_to_allow = i_block_to_allow r, im_approval_to_allow = i_approval_to_allow r,
      im_approval_to_block = i_approval_to_block r, im_other = i_other r, im_samples = i_samples r\<rparr>"

definition simulate :: "draws \<Rightarrow> replay_env \<Rightarrow> world \<Rightarrow> world \<Rightarrow> string \<Rightarrow> int \<Rightarrow> (life, bundle_impact) opn" where
  "simulate dr sm u w bid limit =
     bnd (valid_candidate u w bid) (\<lambda>b.
     bnd (in_store (list_recent_decisions limit None)) (\<lambda>records st.
       let (im, s) = replay_records sm b 0 records (new_impact b) (lf_db st);
           st1 = st\<lparr>lf_db := s, lf_impacts := dict_set bid im (lf_impacts st)\<rparr>
       in bnd (in_store (save_policy_bundle_impact (dw_row_id dr) (dw_now dr) (impact_args im limit))) (\<lambda>_. ret im) st1))"

definition lifecycle_impact :: "string \<Rightarrow> (life, bundle_impact option) opn" where
  "lifecycle_impact bid st =
     (case map_of (lf_impacts st) bid of
        Some im \<Rightarrow> (Inr (Some im), st)
      | None \<Rightarrow>
          bnd (in_store (get_policy_bundle_impact bid)) (\<lambda>found st.
            case found of
              None \<Rightarrow> (Inr None, st)
            | Some r \<Rightarrow> (Inr (Some (impact_of_row r)), st\<lparr>lf_impacts := dict_set bid (impact_of_row r) (lf_impacts st)\<rparr>)) st)"

definition impact_to_dict :: "bundle_impact \<Rightarrow> pyobj" where
  "impact_to_dict im =
     [(''bundle_id'', PStr (im_bundle_id im)), (''content_digest'', PStr (im_digest im)),
      (''evaluated_decisions'', PInt (im_evaluated im)), (''unchanged'', PInt (im_unchanged im)),
      (''allow_to_block'', PInt (im_allow_to_block im)), (''allow_to_approval'', PInt (im_allow_to_approval im)),
      (''block_to_allow'', PInt (im_block_to_allow im)), (''approval_to_allow'', PInt (im_approval_to_allow im)),
      (''approval_to_block'', PInt (im_approval_to_block im)), (''other_changes'', PInt (im_other im)),
      (''sample_changes'', PList (map PDict (take 20 (im_samples im))))]"

end
