(* ===== verification/Policy_Generations.thy ===== *)
theory Policy_Generations
  imports Policy_Store
begin

text \<open>
  The generations of policy bundles: on every database the methods of \<open>Policy_Store\<close> can reach, at
  most one bundle is active and it has the highest generation; activation moves to a new highest
  generation; rollback returns to the bundle that was active before.
\<close>

subsection \<open>Selecting the latest row\<close>

lemma last_sorted_max:
  assumes "sorted (map k l)" "r \<in> set l" "\<And>r'. r' \<in> set l \<Longrightarrow> r' \<noteq> r \<Longrightarrow> k r' < k r"
  shows "last l = r"
proof (rule ccontr)
  assume "last l \<noteq> r"
  from assms(2) have "l \<noteq> []" by auto
  then have l: "last l \<in> set l" by simp
  have "k r \<le> k (last l)"
    using assms(1,2) \<open>l \<noteq> []\<close> by (induction l) auto
  moreover have "k (last l) < k r" using assms(3) [OF l \<open>last l \<noteq> r\<close>] .
  ultimately show False by simp
qed

lemma first_row_order_desc:
  assumes "r \<in> set t" "\<And>r'. r' \<in> set t \<Longrightarrow> r' \<noteq> r \<Longrightarrow> k r' < k r"
  shows "first_row (order_desc k t) = Some r"
proof -
  let ?l = "sort_key k (rev t)"
  have "last ?l = r" using assms by (intro last_sorted_max [of k]) auto
  moreover have "?l \<noteq> []" using assms(1) by (metis empty_iff empty_set set_rev set_sort)
  ultimately show ?thesis
    by (cases ?l rule: rev_cases) (auto simp: first_row_def order_desc_def)
qed

lemma first_row_in: "first_row l = Some r \<Longrightarrow> r \<in> set l"
  by (cases l) (auto simp: first_row_def)

lemma latest_with_in: "latest_with st t = Some r \<Longrightarrow> r \<in> set t \<and> b_status r = st"
  unfolding latest_with_def by (auto dest: first_row_in)

lemma latest_with_max:
  assumes "r \<in> set t" "b_status r = st" "\<And>r'. r' \<in> set t \<Longrightarrow> b_status r' = st \<Longrightarrow> r' \<noteq> r \<Longrightarrow> gen_of r' < gen_of r"
  shows "latest_with st t = Some r"
  unfolding latest_with_def using assms by (intro first_row_order_desc) auto

lemma fold_max_ge: "x \<in> set gs \<or> x = g \<Longrightarrow> x \<le> fold max gs (g::int)"
proof (induction gs arbitrary: g x)
  case (Cons a gs)
  show ?case
  proof (cases "x \<in> set gs")
    case True
    with Cons.IH [of x "max a g"] show ?thesis by simp
  next
    case False
    have "max a g \<le> fold max gs (max a g)" using Cons.IH [of "max a g" "max a g"] by simp
    moreover have "x \<le> max a g" using Cons.prems False by auto
    ultimately have "x \<le> fold max gs (max a g)" by (rule order_trans [rotated])
    then show ?thesis by simp
  qed
qed simp

lemma max_generation_ge:
  assumes "r \<in> set t" "0 \<le> max_generation t" shows "gen_of r \<le> max_generation t"
proof (cases "b_generation r")
  case (Some g)
  with assms(1) have "g \<in> set (List.map_filter b_generation t)"
    by (force simp: List.map_filter_def)
  then show ?thesis using Some fold_max_ge
    by (cases "List.map_filter b_generation t") (auto simp: max_generation_def gen_of_def)
qed (use assms in \<open>simp add: gen_of_def\<close>)

lemma fold_max_in: "fold max gs (g::int) \<in> insert g (set gs)"
proof (induction gs arbitrary: g)
  case (Cons a gs)
  from Cons [of "max a g"] have "fold max gs (max a g) = max a g \<or> fold max gs (max a g) \<in> set gs" by simp
  moreover have "max a g = a \<or> max a g = g" by (simp add: max_def)
  ultimately show ?case by auto
qed simp

lemma max_generation_nonneg:
  assumes "\<forall>r\<in>set t. 0 \<le> gen_of r" shows "0 \<le> max_generation t"
proof (cases "List.map_filter b_generation t")
  case (Cons g gs)
  have "fold max gs g \<in> set (List.map_filter b_generation t)" using fold_max_in [of gs g] Cons by simp
  then obtain r where "r \<in> set t" "b_generation r = Some (fold max gs g)"
    by (auto simp: List.map_filter_def)
  with assms have "0 \<le> fold max gs g" by (force simp: gen_of_def)
  with Cons show ?thesis by (simp add: max_generation_def)
qed (simp add: max_generation_def)

subsection \<open>The invariant\<close>

definition activate_bundle :: "string \<Rightarrow> int \<Rightarrow> string \<Rightarrow> unit \<Rightarrow> bundle_row \<Rightarrow> bundle_row" where
  "activate_bundle now gen k g r =
     (if b_id r = k then promote now gen r
      else if b_status r = ''active'' then r\<lparr>b_status := ''previous'', b_updated_at := now\<rparr> else r)"

interpretation bundles: exclusive_update b_id "\<lambda>_. ()" "\<lambda>r. b_status r = ''active''" "activate_bundle now gen"
  for now gen by unfold_locales (auto simp: activate_bundle_def promote_def)

definition bundles_ok :: "bundle_row list \<Rightarrow> bool" where
  "bundles_ok t \<longleftrightarrow> distinct (map b_id t) \<and> distinct (map bundle_key t) \<and> bundles.one_active t \<and>
     (\<forall>r\<in>set t. 0 \<le> gen_of r) \<and>
     (\<forall>r\<in>set t. b_status r = ''active'' \<longrightarrow> 1 \<le> gen_of r \<and> (\<forall>r'\<in>set t. r' \<noteq> r \<longrightarrow> gen_of r' < gen_of r))"

lemma bundle_activation_is_map:
  "sql_update (\<lambda>x. b_id x = rid) (promote now gen) (demote_active now rid t) = map (activate_bundle now gen rid ()) t"
  by (simp add: sql_update_def demote_active_def activate_bundle_def)

lemma bundles_okI:
  assumes "distinct (map b_id t)" "distinct (map bundle_key t)" "bundles.one_active t" "\<And>r. r \<in> set t \<Longrightarrow> 0 \<le> gen_of r"
    "\<And>r r'. r \<in> set t \<Longrightarrow> b_status r = ''active'' \<Longrightarrow> r' \<in> set t \<Longrightarrow> r' \<noteq> r \<Longrightarrow> gen_of r' < gen_of r"
    "\<And>r. r \<in> set t \<Longrightarrow> b_status r = ''active'' \<Longrightarrow> 1 \<le> gen_of r"
  shows "bundles_ok t"
  using assms unfolding bundles_ok_def by blast

lemma bundles_okD:
  assumes "bundles_ok t"
  shows "distinct (map b_id t)" "distinct (map bundle_key t)" "bundles.one_active t" "\<And>r. r \<in> set t \<Longrightarrow> 0 \<le> gen_of r"
    "\<And>r r'. r \<in> set t \<Longrightarrow> b_status r = ''active'' \<Longrightarrow> r' \<in> set t \<Longrightarrow> r' \<noteq> r \<Longrightarrow> gen_of r' < gen_of r"
    "\<And>r. r \<in> set t \<Longrightarrow> b_status r = ''active'' \<Longrightarrow> 1 \<le> gen_of r"
  using assms unfolding bundles_ok_def by blast+

lemma bundles_ok_Nil: "bundles_ok []"
  by (rule bundles_okI) (simp_all add: bundles.one_active_Nil)

lemma bundles_ok_append:
  assumes "bundles_ok t" "b_id r \<notin> b_id ` set t" "bundle_key r \<notin> bundle_key ` set t"
    "b_status r \<noteq> ''active''" "b_generation r = None"
  shows "bundles_ok (t @ [r])"
proof (rule bundles_okI)
  have g: "gen_of r = 0" using assms(5) by (simp add: gen_of_def)
  show "bundles.one_active (t @ [r])" using bundles_okD(3) [OF assms(1)] assms(4) by (rule bundles.one_active_append)
  show "0 \<le> gen_of x" if "x \<in> set (t @ [r])" for x using that g bundles_okD(4) [OF assms(1)] by auto
  show "1 \<le> gen_of x" if "x \<in> set (t @ [r])" "b_status x = ''active''" for x
    using that assms(4) bundles_okD(6) [OF assms(1), of x] by auto
  show "gen_of y < gen_of x" if "x \<in> set (t @ [r])" "b_status x = ''active''" "y \<in> set (t @ [r])" "y \<noteq> x" for x y
  proof -
    have x: "x \<in> set t" using that(1,2) assms(4) by auto
    show ?thesis
    proof (cases "y = r")
      case True
      with g bundles_okD(6) [OF assms(1) x that(2)] show ?thesis by simp
    next
      case False
      with that(3) have "y \<in> set t" by auto
      from bundles_okD(5) [OF assms(1) x that(2) this that(4)] show ?thesis .
    qed
  qed
qed (use assms bundles_okD(1,2) [OF assms(1)] in auto)

text \<open>A map that keeps keys, generations and who is active keeps the invariant.\<close>

lemma bundles_ok_map:
  assumes "bundles_ok t" and f: "\<And>r. b_id (f r) = b_id r" "\<And>r. bundle_key (f r) = bundle_key r"
    "\<And>r. b_generation (f r) = b_generation r" "\<And>r. b_status (f r) = ''active'' \<longleftrightarrow> b_status r = ''active''"
  shows "bundles_ok (map f t)"
proof (rule bundles_okI)
  have g: "gen_of (f r) = gen_of r" for r by (simp add: gen_of_def f(3))
  show "distinct (map b_id (map f t))" "distinct (map bundle_key (map f t))"
    using bundles_okD(1,2) [OF assms(1)] by (simp_all add: comp_def f(1,2))
  show "bundles.one_active (map f t)"
    using bundles_okD(3) [OF assms(1)] by (rule bundles.one_active_map) (simp add: f)
  show "0 \<le> gen_of x" if "x \<in> set (map f t)" for x using that bundles_okD(4) [OF assms(1)] by (auto simp: g)
  show "1 \<le> gen_of x" if "x \<in> set (map f t)" "b_status x = ''active''" for x
    using that bundles_okD(6) [OF assms(1)] by (auto simp: g f(4))
  show "gen_of y < gen_of x" if "x \<in> set (map f t)" "b_status x = ''active''" "y \<in> set (map f t)" "y \<noteq> x" for x y
  proof -
    from that obtain r r' where r: "x = f r" "r \<in> set t" "y = f r'" "r' \<in> set t" by auto
    with that(4) have "r' \<noteq> r" by auto
    with bundles_okD(5) [OF assms(1) r(2) _ r(4)] that(2) r show ?thesis by (simp add: g f(4))
  qed
qed

lemma bundles_ok_activate:
  assumes "bundles_ok t" "target \<in> set t" "\<And>r. r \<in> set t \<Longrightarrow> gen_of r < gen" "1 \<le> gen"
  shows "bundles_ok (map (activate_bundle now gen (b_id target) ()) t)"
proof (rule bundles_okI)
  let ?f = "activate_bundle now gen (b_id target) ()"
  note d = bundles_okD(1) [OF assms(1)]
  have keep: "b_id (?f r) = b_id r" "bundle_key (?f r) = bundle_key r" for r
    by (simp_all add: activate_bundle_def promote_def bundle_key_def)
  have g: "gen_of (?f r) = (if b_id r = b_id target then gen else gen_of r)" for r
    by (simp add: activate_bundle_def promote_def gen_of_def)
  have act: "b_status (?f r) = ''active'' \<longleftrightarrow> b_id r = b_id target" for r
    by (simp add: activate_bundle_def promote_def)
  show "distinct (map b_id (map ?f t))" "distinct (map bundle_key (map ?f t))"
    using bundles_okD(1,2) [OF assms(1)] by (simp_all add: comp_def keep)
  show "bundles.one_active (map ?f t)"
    by (rule bundles.one_active_activate [OF bundles_okD(3) [OF assms(1)] assms(2) d])
  show "0 \<le> gen_of x" if "x \<in> set (map ?f t)" for x
    using that bundles_okD(4) [OF assms(1)] assms(4) by (auto simp: g)
  show "1 \<le> gen_of x" if "x \<in> set (map ?f t)" "b_status x = ''active''" for x
    using that assms(4) by (auto simp: g act)
  show "gen_of y < gen_of x" if m: "x \<in> set (map ?f t)" "b_status x = ''active''" "y \<in> set (map ?f t)" "y \<noteq> x" for x y
  proof -
    from m obtain r r' where r: "x = ?f r" "r \<in> set t" "b_id r = b_id target" "y = ?f r'" "r' \<in> set t"
      by (auto simp: act)
    have "b_id r' \<noteq> b_id target"
    proof
      assume "b_id r' = b_id target"
      with r d have "r' = r" by (metis sql_fetch_in_distinct option.inject)
      with m(4) r show False by simp
    qed
    with r assms(3) show ?thesis by (simp add: g)
  qed
qed

subsection \<open>Effect of the operations\<close>

abbreviation next_generation :: "db \<Rightarrow> int" where
  "next_generation s \<equiv> max_generation (policy_bundles s) + 1"

lemma next_generation_above:
  assumes "bundles_ok (policy_bundles s)"
  shows "1 \<le> next_generation s" "r \<in> set (policy_bundles s) \<Longrightarrow> gen_of r < next_generation s"
proof -
  have "0 \<le> max_generation (policy_bundles s)"
    using bundles_okD(4) [OF assms] by (intro max_generation_nonneg) blast
  with max_generation_ge show "1 \<le> next_generation s" "r \<in> set (policy_bundles s) \<Longrightarrow> gen_of r < next_generation s"
    by fastforce+
qed

lemma activate_row_effect:
  assumes "bundles_ok (policy_bundles s)" "r \<in> set (policy_bundles s)"
  shows "activate_row now r s = (Inr (promote now (next_generation s) r),
    s\<lparr>policy_bundles := map (activate_bundle now (next_generation s) (b_id r) ()) (policy_bundles s)\<rparr>)"
proof -
  let ?f = "activate_bundle now (next_generation s) (b_id r) ()"
  have "sql_fetch b_id (b_id r) (policy_bundles s) = Some r"
    using sql_fetch_in_distinct [OF bundles_okD(1) [OF assms(1)] assms(2)] .
  then have "sql_fetch b_id (b_id r) (map ?f (policy_bundles s)) = Some (?f r)"
    unfolding sql_fetch_def using find_map_key [of "\<lambda>x. b_id x = b_id r" ?f]
    by (simp add: bundles.pk_activate)
  moreover have "?f r = promote now (next_generation s) r" by (simp add: activate_bundle_def)
  ultimately show ?thesis by (simp add: activate_row_def bundle_activation_is_map Let_def)
qed

lemma find_key:
  assumes "bundles_ok t" "r \<in> set t"
  shows "find (\<lambda>x. bundle_key x = (b_bundle_id r, b_digest r)) t = Some r"
proof -
  have "sql_fetch bundle_key (bundle_key r) t = Some r"
    using sql_fetch_in_distinct [OF bundles_okD(2) [OF assms(1)] assms(2)] .
  then show ?thesis by (simp add: sql_fetch_def bundle_key_def)
qed

definition bundle_target :: "string \<Rightarrow> string \<Rightarrow> db \<Rightarrow> bundle_row option" where
  "bundle_target bid digest s =
     (if digest \<noteq> [] then find (\<lambda>r. bundle_key r = (bid, digest)) (policy_bundles s)
      else first_row (order_asc (\<lambda>r. status_rank (b_status r))
        (order_desc b_updated_at (filter (\<lambda>r. b_bundle_id r = bid) (policy_bundles s)))))"

lemma bundle_target_in: "bundle_target bid digest s = Some r \<Longrightarrow> r \<in> set (policy_bundles s) \<and> b_bundle_id r = bid"
  by (auto simp: bundle_target_def bundle_key_def split: if_splits dest: find_Some_in first_row_in)

lemma activate_eq:
  assumes "db_up s"
  shows "activate_policy_bundle now bid digest s = (case bundle_target bid digest s of
     None \<Rightarrow> (Inl (KeyError (''policy bundle not found: '' @ bid)), s)
   | Some r \<Rightarrow> if b_validation r \<noteq> ''ok''
       then (Inl (ValueError (''cannot activate invalid policy bundle: '' @ bid)), s)
       else activate_row (isoformat now) r s)"
  using assms
  by (simp add: activate_policy_bundle_def bundle_target_def bnd_def get_policy_bundle_by_digest_def
      get_policy_bundle_record_def throw_def split: option.split)

lemma activate_down: "\<not> db_up s \<Longrightarrow> activate_policy_bundle now bid digest s = (Inl StoreUnavailable, s)"
  by (simp add: activate_policy_bundle_def bnd_def get_policy_bundle_by_digest_def
      get_policy_bundle_record_def with_db_down)

lemma activate_cases:
  assumes "activate_policy_bundle now bid digest s = (res, s')" "bundles_ok (policy_bundles s)"
  obtains (did) r where "db_up s" "bundle_target bid digest s = Some r" "r \<in> set (policy_bundles s)" "b_bundle_id r = bid"
      "b_validation r = ''ok''" "res = Inr (promote (isoformat now) (next_generation s) r)"
      "s' = s\<lparr>policy_bundles := map (activate_bundle (isoformat now) (next_generation s) (b_id r) ()) (policy_bundles s)\<rparr>"
  | (failed) e where "res = Inl e" "s' = s"
proof (cases "db_up s")
  case True
  show thesis
  proof (cases "bundle_target bid digest s")
    case None
    with assms(1) activate_eq [OF True] show thesis by (auto intro: failed)
  next
    case (Some r)
    note r = bundle_target_in [OF Some]
    show thesis
    proof (cases "b_validation r = ''ok''")
      case True
      with assms(1) activate_eq [OF \<open>db_up s\<close>] activate_row_effect [OF assms(2)] r Some \<open>db_up s\<close>
      show thesis by (intro did [of r]) simp_all
    next
      case False
      with assms(1) activate_eq [OF \<open>db_up s\<close>] Some show thesis by (auto intro: failed)
    qed
  qed
qed (use assms(1) activate_down in \<open>auto intro: failed\<close>)

lemma rollback_eq:
  assumes "db_up s"
  shows "rollback_policy_bundle now s = (case latest_with ''previous'' (policy_bundles s) of
     None \<Rightarrow> (Inl (RuntimeError ''no last-known-good policy bundle to rollback to''), s)
   | Some r \<Rightarrow> activate_policy_bundle now (b_bundle_id r) (b_digest r) s)"
  using assms by (simp add: rollback_policy_bundle_def get_previous_policy_bundle_def bnd_def throw_def
      split: option.split)

lemma rollback_cases:
  assumes "rollback_policy_bundle now s = (res, s')"
  obtains (act) bid digest where "activate_policy_bundle now bid digest s = (res, s')"
  | (failed) e where "res = Inl e" "s' = s"
  using assms
proof (cases "db_up s")
  case True
  with assms show thesis
    by (cases "latest_with ''previous'' (policy_bundles s)") (auto simp: rollback_eq intro: act failed)
next
  case False
  with assms show thesis
    by (auto simp: rollback_policy_bundle_def get_previous_policy_bundle_def bnd_def with_db_down intro: failed)
qed

lemma upsert_cases:
  assumes "upsert_policy_bundle_candidate rid now a s = (res, s')"
  obtains (refresh) r where "s' = s\<lparr>policy_bundles := sql_update (\<lambda>x. b_id x = b_id r) (refresh_bundle (isoformat now) a) (policy_bundles s)\<rparr>"
      "r \<in> set (policy_bundles s)" "bundle_key r = (nb_bundle_id a, nb_digest a)" "res = Inr (refresh_bundle (isoformat now) a r)"
  | (insert) "s' = s\<lparr>policy_bundles := policy_bundles s @ [bundle_row_of rid (isoformat now) a]\<rparr>"
      "rid \<notin> b_id ` set (policy_bundles s)" "(nb_bundle_id a, nb_digest a) \<notin> bundle_key ` set (policy_bundles s)"
      "res = Inr (bundle_row_of rid (isoformat now) a)"
  | (failed) e where "res = Inl e" "s' = s"
proof (cases "find (\<lambda>r. bundle_key r = (nb_bundle_id a, nb_digest a)) (policy_bundles s)")
  case None
  then have k: "(nb_bundle_id a, nb_digest a) \<notin> bundle_key ` set (policy_bundles s)"
    by (auto simp: find_None_all)
  have "b_id (bundle_row_of rid (isoformat now) a) = rid" by (simp add: bundle_row_of_def)
  with None assms k show thesis
    by (auto simp: upsert_policy_bundle_candidate_def get_policy_bundle_by_digest_def bnd_def with_db_def
        sql_insert_Some split: if_splits option.splits intro: insert failed)
next
  case (Some r)
  with assms find_Some_in [OF Some] show thesis
    by (auto simp: upsert_policy_bundle_candidate_def get_policy_bundle_by_digest_def bnd_def with_db_def
        split: if_splits intro: refresh failed)
qed

subsection \<open>Reachable databases\<close>

inductive policy_step :: "db \<Rightarrow> db \<Rightarrow> bool" where
  upsert: "upsert_policy_bundle_candidate rid now a s = (res, s') \<Longrightarrow> policy_step s s'"
| activate: "activate_policy_bundle now bid digest s = (res, s') \<Longrightarrow> policy_step s s'"
| rollback: "rollback_policy_bundle now s = (res, s') \<Longrightarrow> policy_step s s'"
| impact: "save_policy_bundle_impact iid now r s = (res, s') \<Longrightarrow> policy_step s s'"

inductive policy_run :: "db \<Rightarrow> db \<Rightarrow> bool" where
  start: "policy_run s s"
| step: "policy_run s s' \<Longrightarrow> policy_step s' s'' \<Longrightarrow> policy_run s s''"

lemma bundles_ok_activate_op:
  assumes "activate_policy_bundle now bid digest s = (res, s')" "bundles_ok (policy_bundles s)"
  shows "bundles_ok (policy_bundles s')"
  using assms
proof (cases rule: activate_cases)
  case (did r)
  with bundles_ok_activate [OF assms(2) did(3)] next_generation_above [OF assms(2)] show ?thesis by simp
qed (use assms in simp)

lemma bundles_ok_refresh:
  "bundles_ok t \<Longrightarrow> bundles_ok (sql_update (\<lambda>x. b_id x = k) (refresh_bundle now a) t)"
  unfolding sql_update_def by (rule bundles_ok_map) (auto simp: refresh_bundle_def bundle_key_def)

lemma policy_step_ok:
  assumes "policy_step s s'" "bundles_ok (policy_bundles s)" shows "bundles_ok (policy_bundles s')"
  using assms
proof cases
  case (upsert rid now a res)
  from upsert show ?thesis
  proof (cases rule: upsert_cases)
    case insert
    with bundles_ok_append [OF assms(2), of "bundle_row_of rid (isoformat now) a"] show ?thesis
      by (simp add: bundle_row_of_def bundle_key_def)
  qed (use assms(2) bundles_ok_refresh in simp_all)
next
  case (activate now bid digest res)
  then show ?thesis using assms(2) by (rule bundles_ok_activate_op)
next
  case (rollback now res)
  then show ?thesis
    by (cases rule: rollback_cases) (use assms(2) bundles_ok_activate_op in simp_all)
next
  case (impact iid now r res)
  then have "policy_bundles s' = policy_bundles s"
    by (auto simp: save_policy_bundle_impact_def with_db_def Let_def split: if_splits option.splits)
  with assms(2) show ?thesis by simp
qed

lemma policy_run_ok: "policy_run s s' \<Longrightarrow> bundles_ok (policy_bundles s) \<Longrightarrow> bundles_ok (policy_bundles s')"
  by (induction rule: policy_run.induct) (auto intro: policy_step_ok)


definition active_generation :: "db \<Rightarrow> int" where
  "active_generation s = (case latest_with ''active'' (policy_bundles s) of None \<Rightarrow> 0 | Some b \<Rightarrow> gen_of b)"

lemma active_generation_read: "db_up s \<Longrightarrow> get_active_policy_generation s = (Inr (active_generation s), s)"
  by (simp add: get_active_policy_generation_def get_active_policy_bundle_def bnd_def ret_def active_generation_def)

lemma active_is_latest:
  assumes "bundles_ok (policy_bundles s)" "r \<in> set (policy_bundles s)" "b_status r = ''active''"
  shows "latest_with ''active'' (policy_bundles s) = Some r"
  using assms bundles_okD(5) [OF assms(1)] by (intro latest_with_max) blast+

lemma active_generation_bound:
  assumes "bundles_ok (policy_bundles s)" shows "active_generation s < next_generation s"
proof (cases "latest_with ''active'' (policy_bundles s)")
  case (Some r)
  with latest_with_in [OF Some] next_generation_above(2) [OF assms] show ?thesis
    by (simp add: active_generation_def)
qed (use next_generation_above(1) [OF assms] in \<open>simp add: active_generation_def\<close>)

lemma activation_done:
  assumes "bundles_ok (policy_bundles s)" "r \<in> set (policy_bundles s)"
    "s' = s\<lparr>policy_bundles := map (activate_bundle now (next_generation s) (b_id r) ()) (policy_bundles s)\<rparr>"
  shows "bundles_ok (policy_bundles s')"
    "latest_with ''active'' (policy_bundles s') = Some (promote now (next_generation s) r)"
    "active_generation s' = next_generation s"
proof -
  show ok: "bundles_ok (policy_bundles s')"
    using bundles_ok_activate [OF assms(1,2)] next_generation_above [OF assms(1)] assms(3) by simp
  have "activate_bundle now (next_generation s) (b_id r) () r = promote now (next_generation s) r"
    by (simp add: activate_bundle_def)
  with imageI [OF assms(2), of "activate_bundle now (next_generation s) (b_id r) ()"]
  have "promote now (next_generation s) r \<in> set (policy_bundles s')" by (simp add: assms(3))
  from active_is_latest [OF ok this]
  show l: "latest_with ''active'' (policy_bundles s') = Some (promote now (next_generation s) r)"
    by (simp add: promote_def)
  then show "active_generation s' = next_generation s"
    by (simp add: active_generation_def promote_def gen_of_def)
qed

lemma order_desc_Nil: "order_desc k l = [] \<longleftrightarrow> l = []"
  using length_order(2) [of k l] by (metis length_0_conv)

lemma latest_with_None: "latest_with st t = None \<longleftrightarrow> (\<forall>r\<in>set t. b_status r \<noteq> st)"
proof -
  have "first_row l = None \<longleftrightarrow> l = []" for l :: "bundle_row list"
    by (cases l) (simp_all add: first_row_def)
  then show ?thesis by (simp add: latest_with_def order_desc_Nil filter_empty_conv)
qed

lemma latest_with_image:
  assumes "\<And>r. b_status (f r) = ''active'' \<longleftrightarrow> b_status r = ''active''" "bundles_ok (map f t)"
  shows "latest_with ''active'' (map f t) = map_option f (latest_with ''active'' t)"
proof (cases "latest_with ''active'' t")
  case None
  then have "latest_with ''active'' (map f t) = None" by (simp add: latest_with_None assms(1))
  with None show ?thesis by simp
next
  case (Some r)
  from latest_with_in [OF Some] have r: "f r \<in> set (map f t)" "b_status (f r) = ''active''" by (auto simp: assms(1))
  have "latest_with ''active'' (map f t) = Some (f r)"
    using r bundles_okD(5) [OF assms(2) r] by (intro latest_with_max) blast+
  with Some show ?thesis by simp
qed

lemma latest_with_map:
  assumes "bundles_ok t" "\<And>r. b_status (f r) = ''active'' \<longleftrightarrow> b_status r = ''active''"
    "\<And>r. b_generation (f r) = b_generation r" "bundles_ok (map f t)"
  shows "map_option gen_of (latest_with ''active'' (map f t)) = map_option gen_of (latest_with ''active'' t)"
proof -
  have "gen_of \<circ> f = gen_of" by (rule ext) (simp add: gen_of_def assms(3))
  then show ?thesis by (simp add: latest_with_image [OF assms(2,4)] option.map_comp)
qed

lemma active_generation_append:
  assumes "b_status r \<noteq> ''active''"
  shows "latest_with ''active'' (t @ [r]) = latest_with ''active'' t"
  using assms by (simp add: latest_with_def)

lemma active_generation_option:
  "active_generation s = (case map_option gen_of (latest_with ''active'' (policy_bundles s)) of None \<Rightarrow> 0 | Some g \<Rightarrow> g)"
  by (simp add: active_generation_def split: option.split)

lemma generation_activate:
  assumes "activate_policy_bundle now bid digest s = (res, s')" "bundles_ok (policy_bundles s)"
  shows "active_generation s' = (case res of Inl _ \<Rightarrow> active_generation s | Inr _ \<Rightarrow> next_generation s)"
  using assms
proof (cases rule: activate_cases)
  case (did r)
  with activation_done(3) [OF assms(2) did(3)] show ?thesis by simp
qed simp

lemma generation_step:
  assumes "policy_step s s'" "bundles_ok (policy_bundles s)"
  shows "active_generation s \<le> active_generation s'"
  using assms(1)
proof cases
  case (upsert rid now a res)
  from upsert show ?thesis
  proof (cases rule: upsert_cases)
    case (refresh r)
    have "active_generation s' = active_generation s"
      unfolding active_generation_option refresh(1) sql_update_def
      using latest_with_map [OF assms(2), of "\<lambda>x. if b_id x = b_id r then refresh_bundle (isoformat now) a x else x"]
        bundles_ok_refresh [OF assms(2), of "b_id r" "isoformat now" a]
      by (simp add: refresh_bundle_def sql_update_def)
    then show ?thesis by simp
  next
    case insert
    then show ?thesis
      by (simp add: active_generation_def active_generation_append bundle_row_of_def)
  qed simp
next
  case (activate now bid digest res)
  from generation_activate [OF this assms(2)] active_generation_bound [OF assms(2)]
  show ?thesis by (cases res) simp_all
next
  case (rollback now res)
  then show ?thesis
  proof (cases rule: rollback_cases)
    case (act bid digest)
    from generation_activate [OF this assms(2)] active_generation_bound [OF assms(2)]
    show ?thesis by (cases res) simp_all
  qed simp
next
  case (impact iid now r res)
  then have "policy_bundles s' = policy_bundles s"
    by (auto simp: save_policy_bundle_impact_def with_db_def Let_def split: if_splits option.splits)
  then show ?thesis by (simp add: active_generation_def)
qed

text \<open>The generation that replicas poll never decreases, and each successful activation or rollback
  raises it strictly, so a replica that compares generations always sees a newer policy.\<close>

theorem policy_generation_increases:
  assumes "policy_run empty_db s"
  shows "(policy_run s s' \<longrightarrow> active_generation s \<le> active_generation s') \<and>
    (activate_policy_bundle now bid digest s = (Inr row, s') \<or> rollback_policy_bundle now s = (Inr row, s') \<longrightarrow>
       active_generation s < active_generation s' \<and> latest_with ''active'' (policy_bundles s') = Some row)"
proof (intro conjI impI)
  have ok: "bundles_ok (policy_bundles s)"
    using policy_run_ok [OF assms(1)] bundles_ok_Nil by (simp add: empty_db_def)
  show "active_generation s \<le> active_generation s'" if "policy_run s s'"
    using that ok
  proof (induction rule: policy_run.induct)
    case (step s s' s'')
    with policy_run_ok generation_step show ?case by (meson order_trans)
  qed simp
  assume *: "activate_policy_bundle now bid digest s = (Inr row, s') \<or> rollback_policy_bundle now s = (Inr row, s')"
  then obtain b d where a: "activate_policy_bundle now b d s = (Inr row, s')"
    by (auto elim: rollback_cases)
  then show "active_generation s < active_generation s'"
    using generation_activate [OF a ok] active_generation_bound [OF ok] by simp
  from a show "latest_with ''active'' (policy_bundles s') = Some row"
  proof (cases rule: activate_cases [OF _ ok, consumes 1])
    case (1 r)
    with activation_done(2) [OF ok] show ?thesis by simp
  qed simp
qed

lemma reachable_ok: "policy_run empty_db s \<Longrightarrow> bundles_ok (policy_bundles s)"
  using policy_run_ok bundles_ok_Nil by (simp add: empty_db_def)

lemma demoted_is_previous:
  assumes "bundles_ok (policy_bundles s)" "latest_with ''active'' (policy_bundles s) = Some a" "b_id a \<noteq> rid"
  shows "latest_with ''previous'' (map (activate_bundle now gen rid ()) (policy_bundles s)) =
    Some (a\<lparr>b_status := ''previous'', b_updated_at := now\<rparr>)"
proof (rule latest_with_max)
  let ?f = "activate_bundle now gen rid ()"
  note a = latest_with_in [OF assms(2)]
  have fa: "?f a = a\<lparr>b_status := ''previous'', b_updated_at := now\<rparr>"
    using assms(3) a by (simp add: activate_bundle_def)
  then show "a\<lparr>b_status := ''previous'', b_updated_at := now\<rparr> \<in> set (map ?f (policy_bundles s))"
    using imageI [of a "set (policy_bundles s)" ?f] a by simp
  fix y assume y: "y \<in> set (map ?f (policy_bundles s))" "b_status y = ''previous''"
    "y \<noteq> a\<lparr>b_status := ''previous'', b_updated_at := now\<rparr>"
  then obtain x where x: "x \<in> set (policy_bundles s)" "y = ?f x" by auto
  with y fa have "x \<noteq> a" by metis
  moreover have "b_id x \<noteq> rid" using y(2) x(2) by (auto simp: activate_bundle_def promote_def)
  ultimately show "gen_of y < gen_of (a\<lparr>b_status := ''previous'', b_updated_at := now\<rparr>)"
    using bundles_okD(5) [OF assms(1), of a x] a x by (simp add: activate_bundle_def gen_of_def)
qed simp

text \<open>Activation refuses an unknown bundle and one that did not validate, changing nothing; otherwise
  the chosen bundle becomes the active one with its content unchanged, and the bundle that was
  active becomes the last known good one.\<close>

theorem activation_outcome:
  assumes "policy_run empty_db s" "db_up s"
  shows "case activate_policy_bundle now bid digest s of
     (Inl e, s') \<Rightarrow> s' = s \<and> (\<forall>r. bundle_target bid digest s = Some r \<longrightarrow> b_validation r \<noteq> ''ok'')
   | (Inr row, s') \<Rightarrow> \<exists>r. bundle_target bid digest s = Some r \<and> b_bundle_id r = bid \<and> b_validation r = ''ok'' \<and>
       row = promote (isoformat now) (next_generation s) r \<and> latest_with ''active'' (policy_bundles s') = Some row \<and>
       (\<forall>a. latest_with ''active'' (policy_bundles s) = Some a \<and> b_id a \<noteq> b_id r \<longrightarrow>
          latest_with ''previous'' (policy_bundles s') = Some (a\<lparr>b_status := ''previous'', b_updated_at := isoformat now\<rparr>))"
proof -
  note ok = reachable_ok [OF assms(1)]
  obtain res s' where m: "activate_policy_bundle now bid digest s = (res, s')" by fastforce
  from m ok show ?thesis
  proof (cases rule: activate_cases)
    case (did r)
    from activation_done(2) [OF ok did(3,7)] did m demoted_is_previous [OF ok] show ?thesis by auto
  next
    case (failed e)
    have "b_validation r \<noteq> ''ok''" if "bundle_target bid digest s = Some r" for r
      using m failed that activate_eq [OF assms(2)] bundle_target_in [OF that] activate_row_effect [OF ok]
      by (auto split: if_splits)
    with m failed show ?thesis by simp
  qed
qed

text \<open>C18: rollback undoes an activation: after a bundle has been activated over a valid active one, a
  rollback makes the former bundle active again, with the same digest, source and revision.\<close>

theorem rollback_undoes_activation:
  assumes "policy_run empty_db s" "db_up s" "latest_with ''active'' (policy_bundles s) = Some a"
    "b_validation a = ''ok''" "b_digest a \<noteq> []"
    "activate_policy_bundle now bid digest s = (Inr b, s1)" "b_id b \<noteq> b_id a"
  shows "\<exists>s2 row. rollback_policy_bundle now' s1 = (Inr row, s2) \<and>
    latest_with ''active'' (policy_bundles s2) = Some row \<and>
    row = a\<lparr>b_generation := Some (next_generation s1), b_updated_at := isoformat now', b_activated_at := Some (isoformat now')\<rparr>"
proof -
  note ok = reachable_ok [OF assms(1)]
  from assms(6) ok obtain r where r: "r \<in> set (policy_bundles s)" "b = promote (isoformat now) (next_generation s) r"
    "s1 = s\<lparr>policy_bundles := map (activate_bundle (isoformat now) (next_generation s) (b_id r) ()) (policy_bundles s)\<rparr>"
    by (cases rule: activate_cases) auto
  have bid: "b_id b = b_id r" by (simp add: r(2) promote_def)
  let ?a = "a\<lparr>b_status := ''previous'', b_updated_at := isoformat now\<rparr>"
  have step: "policy_run empty_db s1" using assms(1,6) by (blast intro: policy_run.step policy_step.activate)
  note ok1 = reachable_ok [OF step]
  have up1: "db_up s1" using assms(2) by (simp add: r(3))
  have prev: "latest_with ''previous'' (policy_bundles s1) = Some ?a"
    using demoted_is_previous [OF ok assms(3)] assms(7) bid by (simp add: r(3))
  from latest_with_in [OF this] have in1: "?a \<in> set (policy_bundles s1)" by simp
  have key: "bundle_target (b_bundle_id ?a) (b_digest ?a) s1 = Some ?a"
    using find_key [OF ok1 in1] assms(5) by (simp add: bundle_target_def)
  have roll: "rollback_policy_bundle now' s1 = activate_row (isoformat now') ?a s1"
    using key assms(4) by (simp add: rollback_eq [OF up1] prev activate_eq [OF up1])
  note eff = activate_row_effect [OF ok1 in1, of "isoformat now'"]
  have "promote (isoformat now') (next_generation s1) ?a =
      a\<lparr>b_generation := Some (next_generation s1), b_updated_at := isoformat now', b_activated_at := Some (isoformat now')\<rparr>"
    using latest_with_in [OF assms(3)] by (simp add: promote_def)
  with roll eff activation_done(2) [OF ok1 in1 refl] show ?thesis by simp
qed

subsection \<open>A concrete history\<close>

definition demo_bundle :: "string \<Rightarrow> new_bundle" where
  "demo_bundle x = \<lparr>nb_bundle_id = ''b'' @ x, nb_digest = ''d'' @ x, nb_git_revision = [], nb_source_type = ''filesystem'',
     nb_source = [], nb_validation = ''ok'', nb_error = None, nb_loaded_at = None\<rparr>"

text \<open>Two candidates are registered and the first one is activated.\<close>

definition demo_policy :: db where
  "demo_policy =
     snd (activate_policy_bundle 2 ''b1'' ''d1''
       (snd (upsert_policy_bundle_candidate ''x2'' 1 (demo_bundle ''2'')
         (snd (upsert_policy_bundle_candidate ''x1'' 0 (demo_bundle ''1'') empty_db)))))"

lemma demo_policy_run: "policy_run empty_db demo_policy"
  unfolding demo_policy_def
  by (rule policy_run.step, rule policy_run.step, rule policy_run.step, rule policy_run.start)
    (rule policy_step.upsert policy_step.activate, rule prod.collapse [symmetric])+

lemma demo_policy_facts:
  "db_up demo_policy" "map b_status (policy_bundles demo_policy) = [''active'', ''candidate'']"
  "map b_id (policy_bundles demo_policy) = [''x1'', ''x2'']"
  "map_option b_id (latest_with ''active'' (policy_bundles demo_policy)) = Some ''x1''"
  "map_option b_digest (latest_with ''active'' (policy_bundles demo_policy)) = Some ''d1''"
  "map_option b_validation (latest_with ''active'' (policy_bundles demo_policy)) = Some ''ok''"
  "map_option b_id (bundle_target ''b2'' ''d2'' demo_policy) = Some ''x2''"
  "map_option b_validation (bundle_target ''b2'' ''d2'' demo_policy) = Some ''ok''"
  by code_simp+


lemma demo_activation:
  obtains b s1 where "activate_policy_bundle 3 ''b2'' ''d2'' demo_policy = (Inr b, s1)" "b_id b = ''x2''"
proof -
  note ok = reachable_ok [OF demo_policy_run]
  obtain r where r: "bundle_target ''b2'' ''d2'' demo_policy = Some r" "b_id r = ''x2''" "b_validation r = ''ok''"
    using demo_policy_facts(7,8) by auto
  with activate_row_effect [OF ok] bundle_target_in [OF r(1)] activate_eq [OF demo_policy_facts(1), of 3 "''b2''" "''d2''"]
  have "activate_policy_bundle 3 ''b2'' ''d2'' demo_policy =
    (Inr (promote (isoformat 3) (next_generation demo_policy) r), snd (activate_row (isoformat 3) r demo_policy))"
    by simp
  then show thesis by (rule that) (simp add: promote_def r(2))
qed

theorem policy_generation_increases_witness:
  "\<exists>b s1. activate_policy_bundle 3 ''b2'' ''d2'' demo_policy = (Inr b, s1) \<and>
     active_generation demo_policy < active_generation s1"
proof -
  obtain b s1 where a: "activate_policy_bundle 3 ''b2'' ''d2'' demo_policy = (Inr b, s1)"
    by (rule demo_activation)
  have "active_generation demo_policy < active_generation s1"
    using policy_generation_increases [OF demo_policy_run, where now = 3 and bid = "''b2''" and digest = "''d2''"] a by blast
  with a show ?thesis by blast
qed

theorem activation_outcome_witness:
  "\<exists>b s1. activate_policy_bundle 3 ''b2'' ''d2'' demo_policy = (Inr b, s1) \<and>
     latest_with ''active'' (policy_bundles s1) = Some b"
proof -
  obtain b s1 where a: "activate_policy_bundle 3 ''b2'' ''d2'' demo_policy = (Inr b, s1)"
    by (rule demo_activation)
  from activation_outcome [OF demo_policy_run demo_policy_facts(1), where now = 3 and bid = "''b2''" and digest = "''d2''"] a
  have "latest_with ''active'' (policy_bundles s1) = Some b" by auto
  with a show ?thesis by blast
qed

theorem rollback_undoes_activation_witness:
  "\<exists>b s1 s2 row. activate_policy_bundle 3 ''b2'' ''d2'' demo_policy = (Inr b, s1) \<and>
     rollback_policy_bundle 4 s1 = (Inr row, s2) \<and> b_id row = ''x1''"
proof -
  obtain b s1 where b: "activate_policy_bundle 3 ''b2'' ''d2'' demo_policy = (Inr b, s1)" "b_id b = ''x2''"
    by (rule demo_activation)
  obtain a where a: "latest_with ''active'' (policy_bundles demo_policy) = Some a" "b_id a = ''x1''"
    "b_digest a = ''d1''" "b_validation a = ''ok''"
    using demo_policy_facts(4-6) by auto
  from rollback_undoes_activation [OF demo_policy_run demo_policy_facts(1) a(1,4) _ b(1), of 4] a b
  obtain s2 row where "rollback_policy_bundle 4 s1 = (Inr row, s2)"
    "row = a\<lparr>b_generation := Some (next_generation s1), b_updated_at := isoformat 4, b_activated_at := Some (isoformat 4)\<rparr>"
    by auto
  with b a(2) show ?thesis by auto
qed

end
