(* ===== verification/Policy_Fleet.thy ===== *)
theory Policy_Fleet
  imports Policy_Lifecycle Policy_Generations
begin

text \<open>
  What the processes of the control plane enforce: how the bundle of a process (\<open>Policy_Lifecycle\<close>) follows the active
  record of the shared store (\<open>Policy_Store\<close>). Other processes appear as steps of the store.
\<close>

subsection \<open>Reading and installing\<close>

definition enforced :: "world \<Rightarrow> life \<Rightarrow> policy_bundle" where
  "enforced u st = (case lf_bundle st of Some b \<Rightarrow> b | None \<Rightarrow> load_root u (wd_default_root u))"

abbreviation active_row :: "db \<Rightarrow> bundle_row option" where
  "active_row s \<equiv> latest_with ''active'' (policy_bundles s)"

lemma get_policy_bundle_eq: "get_policy_bundle u st = (enforced u st, st\<lparr>lf_bundle := Some (enforced u st)\<rparr>)"
  by (cases st) (simp add: get_policy_bundle_def enforced_def Let_def split: option.split)

lemma in_store_apply: "in_store m st = (fst (m (lf_db st)), st\<lparr>lf_db := snd (m (lf_db st))\<rparr>)"
  by (simp add: in_store_def)

lemma in_store_read [simp]: "m (lf_db st) = (x, lf_db st) \<Longrightarrow> in_store m st = (x, st)"
  by (cases st) (simp add: in_store_def)

lemma active_row_read: "db_up s \<Longrightarrow> get_active_policy_bundle s = (Inr (active_row s), s)"
  by (simp add: get_active_policy_bundle_def)

lemma load_active_Inr:
  "load_active w r = Inr b \<longleftrightarrow> load_from_record w r = Inr b \<and> bundle_ok b \<and> pb_digest b = b_digest r"
  by (auto simp: load_active_def rbind_def split: sum.split)

lemma install_effect:
  "lf_bundle (install u r b st) = Some b" "lf_observed_gen (install u r b st) = gen_of r"
  "lf_active_gen (install u r b st) = gen_of r" "lf_error (install u r b st) = None"
  "lf_fallback (install u r b st) = False" "lf_db (install u r b st) = lf_db st" "lf_observed (install u r b st) = pb_digest b"
  by (simp_all add: install_def get_policy_bundle_eq Let_def)

lemma take_over_effect:
  "lf_bundle (take_over u r b st) = Some b" "lf_observed_gen (take_over u r b st) = gen_of r"
  "lf_active_gen (take_over u r b st) = gen_of r" "lf_error (take_over u r b st) = None"
  "lf_fallback (take_over u r b st) = False" "lf_db (take_over u r b st) = lf_db st"
  "lf_previous (take_over u r b st) = (if bundle_ok (enforced u st) then Some (enforced u st) else lf_previous st)"
  by (simp_all add: take_over_def get_policy_bundle_eq Let_def)

text \<open>The outcomes of a synchronisation.\<close>

lemma sync_cases:
  assumes "sync_active_from_store force u w st = (res, st')"
  obtains (blind) "res = None" "st' = st" "\<not> db_up (lf_db st) \<or> active_row (lf_db st) = None"
  | (same) r where "db_up (lf_db st)" "active_row (lf_db st) = Some r" "\<not> force" "0 < gen_of r" "gen_of r = lf_observed_gen st"
      "pb_digest (enforced u st) = b_digest r" "res = Some (enforced u st)"
      "st' = st\<lparr>lf_bundle := Some (enforced u st), lf_active_gen := gen_of r\<rparr>"
  | (loaded) r b st1 where "db_up (lf_db st)" "active_row (lf_db st) = Some r" "load_active w r = Inr b" "res = Some b"
      "st' = install u r b st1" "st1 \<in> {st, st\<lparr>lf_bundle := Some (enforced u st)\<rparr>}"
  | (failed) r e st1 where "db_up (lf_db st)" "active_row (lf_db st) = Some r" "load_active w r = Inl e" "res = None"
      "st' = st1\<lparr>lf_error := Some (exn_text e)\<rparr>" "st1 \<in> {st, st\<lparr>lf_bundle := Some (enforced u st)\<rparr>}"
proof (cases "db_up (lf_db st)")
  case False
  then have "in_store get_active_policy_bundle st = (Inl StoreUnavailable, st)"
    by (simp add: get_active_policy_bundle_def with_db_down)
  with assms False show thesis by (intro blind) (simp_all add: sync_active_from_store_def)
next
  case True
  then have read: "in_store get_active_policy_bundle st = (Inr (active_row (lf_db st)), st)"
    by (simp add: active_row_read)
  show thesis
  proof (cases "active_row (lf_db st)")
    case None
    with assms read show thesis by (intro blind) (simp_all add: sync_active_from_store_def)
  next
    case (Some r)
    obtain sm st1 where sm: "(if force then (False, st) else up_to_date u r st) = (sm, st1)" by (metis prod.exhaust)
    have st1: "st1 \<in> {st, st\<lparr>lf_bundle := Some (enforced u st)\<rparr>}"
      using sm by (auto simp: up_to_date_def get_policy_bundle_eq Let_def split: if_splits)
    have sync: "sync_active_from_store force u w st =
        (if sm then (lf_bundle st1, st1\<lparr>lf_active_gen := gen_of r\<rparr>)
         else case load_active w r of Inl e \<Rightarrow> (None, st1\<lparr>lf_error := Some (exn_text e)\<rparr>) | Inr b \<Rightarrow> (Some b, install u r b st1))"
      using Some by (simp only: sync_active_from_store_def read prod.case sum.case option.case sm Let_def)
    show thesis
    proof (cases sm)
      case True
      with sm have "\<not> force" "0 < gen_of r" "gen_of r = lf_observed_gen st" "pb_digest (enforced u st) = b_digest r"
        "st1 = st\<lparr>lf_bundle := Some (enforced u st)\<rparr>"
        by (auto simp: up_to_date_def get_policy_bundle_eq Let_def split: if_splits)
      with True assms sync Some \<open>db_up (lf_db st)\<close> show thesis by (intro same [of r]) simp_all
    next
      case False
      show thesis
      proof (cases "load_active w r")
        case (Inl e)
        with False assms sync Some \<open>db_up (lf_db st)\<close> st1 show thesis by (intro failed [of r e st1]) simp_all
      next
        case (Inr b)
        with False assms sync Some \<open>db_up (lf_db st)\<close> st1 show thesis by (intro loaded [of r b st1]) simp_all
      qed
    qed
  qed
qed

lemma sync_keeps_db [simp]: "lf_db (snd (sync_active_from_store force u w st)) = lf_db st"
proof -
  obtain res st' where s: "sync_active_from_store force u w st = (res, st')" by (metis prod.exhaust)
  then have "lf_db st' = lf_db st" by (cases rule: sync_cases) (auto simp: install_effect)
  with s show ?thesis by simp
qed

text \<open>C11: Replicas converge. A process that synchronises while the store is up and the source of the active record
  still has the content on record enforces from then on a bundle with the digest of that record, in its generation;
  two processes that do so enforce the same policies as far as digests tell them apart. When the source cannot be
  loaded or has another digest, the process keeps what it enforced and records why.\<close>

theorem replicas_converge:
  assumes "lf_db st2 = lf_db st1" "db_up (lf_db st1)" "active_row (lf_db st1) = Some r"
    "sync_active_from_store f1 u1 w1 st1 = (x1, st1')" "sync_active_from_store f2 u2 w2 st2 = (x2, st2')"
  shows "(load_from_record w1 r = Inr b \<and> bundle_ok b \<and> pb_digest b = b_digest r \<longrightarrow> x1 \<noteq> None) \<and>
    (case x1 of
       Some b1 \<Rightarrow> lf_bundle st1' = Some b1 \<and> pb_digest b1 = b_digest r \<and> lf_observed_gen st1' = gen_of r
     | None \<Rightarrow> enforced u1 st1' = enforced u1 st1 \<and> lf_error st1' \<noteq> None) \<and>
    (\<forall>b1 b2. x1 = Some b1 \<and> x2 = Some b2 \<longrightarrow> pb_digest b1 = pb_digest b2 \<and> lf_observed_gen st1' = lf_observed_gen st2')"
proof -
  have one: "x \<noteq> None \<or> load_active w r \<noteq> Inr b"
    "case x of Some y \<Rightarrow> lf_bundle st' = Some y \<and> pb_digest y = b_digest r \<and> lf_observed_gen st' = gen_of r
       | None \<Rightarrow> enforced u st' = enforced u st \<and> lf_error st' \<noteq> None"
    if "sync_active_from_store f u w st = (x, st')" "lf_db st = lf_db st1" for f u w st x st'
    using that(1) by (cases rule: sync_cases; use that(2) assms(2,3) in \<open>force simp: install_effect load_active_Inr enforced_def\<close>)+
  from one [OF assms(4) refl] one(2) [OF assms(5,1)] show ?thesis
    by (auto simp: load_active_Inr split: option.splits)
qed

subsection \<open>The pin of a process\<close>

text \<open>A process is never ahead of the store, and in the generation of the active record it enforces the content of
  that record.\<close>

definition pinned :: "life \<Rightarrow> bool" where
  "pinned st \<longleftrightarrow> lf_observed_gen st \<le> active_generation (lf_db st) \<and>
     (0 < lf_observed_gen st \<and> lf_observed_gen st = active_generation (lf_db st) \<longrightarrow>
       map_option pb_digest (lf_bundle st) = map_option b_digest (active_row (lf_db st)) \<and> lf_bundle st \<noteq> None)"

definition process_ok :: "life \<Rightarrow> bool" where
  "process_ok st \<longleftrightarrow> bundles_ok (policy_bundles (lf_db st)) \<and> pinned st"

text \<open>A step of the store raises the generation or leaves the active content as it is.\<close>

lemma active_view_step:
  assumes "policy_step s s'" "bundles_ok (policy_bundles s)"
  shows "active_generation s < active_generation s' \<or>
    active_generation s' = active_generation s \<and> map_option b_digest (active_row s') = map_option b_digest (active_row s)"
  using assms(1)
proof cases
  case (upsert rid now a res)
  from upsert show ?thesis
  proof (cases rule: upsert_cases)
    case (refresh r)
    have "active_row s' = map_option (\<lambda>x. if b_id x = b_id r then refresh_bundle (isoformat now) a x else x) (active_row s)"
      unfolding refresh(1) using bundles_ok_refresh [OF assms(2), of "b_id r" "isoformat now" a]
      by (simp add: sql_update_def) (rule latest_with_image, auto simp: refresh_bundle_def)
    then show ?thesis by (cases "active_row s") (auto simp: active_generation_def refresh_bundle_def gen_of_def)
  next
    case insert
    then show ?thesis by (simp add: active_generation_def active_generation_append bundle_row_of_def)
  qed simp
next
  case (activate now bid digest res)
  from generation_activate [OF this assms(2)] active_generation_bound [OF assms(2)] activate
  show ?thesis by (cases rule: activate_cases [OF activate assms(2)]) simp_all
next
  case (rollback now res)
  then show ?thesis
  proof (cases rule: rollback_cases)
    case (act bid digest)
    from generation_activate [OF this assms(2)] active_generation_bound [OF assms(2)]
    show ?thesis by (cases rule: activate_cases [OF act assms(2)]) simp_all
  qed simp
next
  case (impact iid now r res)
  then have "policy_bundles s' = policy_bundles s"
    by (auto simp: save_policy_bundle_impact_def with_db_def Let_def split: if_splits option.splits)
  then show ?thesis by (simp add: active_generation_def)
qed

lemma pinned_step: "policy_step (lf_db st) s' \<Longrightarrow> process_ok st \<Longrightarrow> process_ok (st\<lparr>lf_db := s'\<rparr>)"
  using active_view_step [of "lf_db st" s'] policy_step_ok [of "lf_db st" s']
  unfolding process_ok_def pinned_def by (elim disjE conjE) auto

text \<open>What an operation may do besides: read the store, change its caches, load the bundle on first use.\<close>

lemma process_ok_cong:
  assumes "lf_db st' = lf_db st" "lf_observed_gen st' = lf_observed_gen st" "lf_bundle st' = lf_bundle st \<or> lf_bundle st = None"
    "process_ok st"
  shows "process_ok st'"
  using assms(3,4) unfolding process_ok_def pinned_def assms(1,2) by auto

lemma process_ok_first_use [simp]: "process_ok st \<Longrightarrow> process_ok (st\<lparr>lf_bundle := Some (enforced u st)\<rparr>)"
  by (erule process_ok_cong [rotated -1]) (simp_all add: enforced_def split: option.split)

lemma active_row_generation:
  assumes "bundles_ok (policy_bundles s)" "active_row s = Some r" shows "gen_of r = active_generation s" "1 \<le> gen_of r"
  using assms latest_with_in [OF assms(2)] bundles_okD(6) [OF assms(1)] by (auto simp: active_generation_def)

lemma process_ok_install:
  assumes "bundles_ok (policy_bundles (lf_db st))" "active_row (lf_db st) = Some r" "pb_digest b = b_digest r"
    "lf_db st' = lf_db st" "lf_bundle st' = Some b" "lf_observed_gen st' = gen_of r"
  shows "process_ok st'"
  using assms active_row_generation [OF assms(1,2)] by (simp add: process_ok_def pinned_def)

lemma process_ok_sync:
  assumes "process_ok st" shows "process_ok (snd (sync_active_from_store force u w st))"
proof -
  obtain res st' where s: "sync_active_from_store force u w st = (res, st')" by (metis prod.exhaust)
  note ok = assms [unfolded process_ok_def, THEN conjunct1]
  from s have "process_ok st'"
  proof (cases rule: sync_cases)
    case (same r)
    from assms show ?thesis
      by (rule process_ok_cong [rotated -1]) (auto simp: same(8) enforced_def split: option.split)
  next
    case (loaded r b st1)
    then have "lf_db st1 = lf_db st" by auto
    with loaded ok show ?thesis
      by (intro process_ok_install [of st r b]) (simp_all add: install_effect load_active_Inr)
  next
    case (failed r e st1)
    from assms show ?thesis by (rule process_ok_cong [rotated -1]) (use failed in \<open>auto simp: enforced_def split: option.split\<close>)
  qed (use assms in simp)
  with s show ?thesis by simp
qed

subsection \<open>Steps of a process\<close>

lemma keeps_in_store:
  assumes "\<And>s. snd (m s) = s \<or> policy_step s (snd (m s))" shows "keeps process_ok (in_store m)"
proof (rule keepsI)
  fix st assume ok: "process_ok st"
  show "process_ok (snd (in_store m st))"
    using assms [of "lf_db st"] pinned_step [OF _ ok] ok by (cases st) (auto simp: in_store_apply)
qed

lemma keeps_reads:
  "keeps process_ok (in_store get_active_policy_bundle)" "keeps process_ok (in_store get_previous_policy_bundle)"
  "keeps process_ok (in_store (list_policy_bundle_candidates n))" "keeps process_ok (in_store (get_policy_bundle_record bid))"
  "keeps process_ok (in_store (get_policy_bundle_by_digest bid digest))" "keeps process_ok (in_store (get_policy_bundle_impact bid))"
  "keeps process_ok (in_store (list_recent_decisions n tenant))"
  by (rule keeps_in_store; simp add: get_active_policy_bundle_def get_previous_policy_bundle_def
      list_policy_bundle_candidates_def get_policy_bundle_record_def get_policy_bundle_by_digest_def
      get_policy_bundle_impact_def list_recent_decisions_def with_db_def split: option.split)+

lemma keeps_writes:
  "keeps process_ok (in_store (upsert_policy_bundle_candidate rid now a))"
  "keeps process_ok (in_store (rollback_policy_bundle now))"
  "keeps process_ok (in_store (activate_policy_bundle now bid digest))"
  "keeps process_ok (in_store (save_policy_bundle_impact iid now row))"
  by (rule keeps_in_store; rule disjI2; metis policy_step.intros prod.collapse)+

lemma keeps_of_result [intro]: "keeps process_ok (of_result r)"
  by (rule keepsI) (simp add: of_result_def)

lemma keeps_stored_candidate: "keeps process_ok (stored_candidate w bid)"
  unfolding stored_candidate_def
proof (rule keeps_bnd [OF keeps_reads(4)], rule keepsI)
  fix x st assume "process_ok st"
  then show "process_ok (snd (case x of None \<Rightarrow> (Inr None, st) | Some r \<Rightarrow> (case load_from_record w r of
      Inl e \<Rightarrow> (Inr None, st) | Inr b \<Rightarrow> (Inr (Some b), if bundle_ok b then remember b (b_source r) st else st))))"
    by (auto simp: remember_def split: option.split sum.split intro: process_ok_cong [of _ st])
qed

lemma keeps_get_candidate: "keeps process_ok (get_candidate u w bid)"
proof (rule keepsI)
  fix st assume ok: "process_ok st"
  note first = keepsD [OF keeps_stored_candidate process_ok_first_use [OF ok]]
  show "process_ok (snd (get_candidate u w bid st))"
    using ok first by (simp add: get_candidate_def get_policy_bundle_eq split: option.split)
qed

lemma keeps_valid_candidate: "keeps process_ok (valid_candidate u w bid)"
  unfolding valid_candidate_def by (intro keeps_bnd keeps_get_candidate) (auto split: option.split)

lemma keeps_cached_candidate: "keeps process_ok (cached_candidate u w bid)"
  using keeps_valid_candidate by (auto simp: cached_candidate_def keeps_def split: option.split)

lemma keeps_candidate_source: "keeps process_ok (candidate_source w cached b)"
  unfolding candidate_source_def Let_def by (auto intro!: keeps_bnd keeps_reads)

lemma keeps_validate_from_path: "keeps process_ok (validate_from_path dr w dir source)"
proof (rule keepsI)
  fix st assume ok: "process_ok st"
  have cached: "process_ok (remember b d st)" for b d
    using ok by (rule process_ok_cong [rotated -1]) (simp_all add: remember_def)
  have "keeps process_ok (bnd (in_store (upsert_policy_bundle_candidate rid now a)) (\<lambda>_. ret b))" for rid now a and b :: policy_bundle
    by (auto intro: keeps_bnd keeps_writes)
  from keepsD [OF this cached] ok show "process_ok (snd (validate_from_path dr w dir source st))"
    by (simp add: validate_from_path_def Let_def)
qed

lemma keeps_validate_from_source: "keeps process_ok (validate_from_source dr w source)"
proof -
  have "keeps process_ok (\<lambda>st. (Inr b, st\<lparr>lf_source := src\<rparr>))" for b :: policy_bundle and src
    by (rule keepsI) (auto intro: process_ok_cong)
  then show ?thesis unfolding validate_from_source_def Let_def
    by (intro keeps_bnd keeps_of_result keeps_validate_from_path)
qed

lemma replay_state: "snd (replay sm b k request s) = s"
proof (cases "sm_validate sm request")
  case None then show ?thesis by (simp add: replay_def throw_def)
next
  case (Some q)
  let ?e = "evaluate_governance_request (sm_sha sm) (sm_mac sm) (sm_signing sm) (sm_quota_policy sm) (sm_clock sm k) None b q"
  obtain r where "?e s = (r, s)" using evaluate_governance_unchanged by (metis prod.collapse)
  with Some show ?thesis by (cases r) (simp_all add: replay_def bnd_def ret_def)
qed

lemma replay_records_state: "snd (replay_records sm b k ds im s) = s"
proof (induction ds arbitrary: k im)
  case (Cons d ds)
  have "snd (replay sm b k (dr_request d) s) = s" by (rule replay_state)
  with Cons show ?case by (auto split: prod.split sum.split)
qed simp

lemma keeps_simulate: "keeps process_ok (simulate dr sm u w bid limit)"
proof -
  have "keeps process_ok (\<lambda>st. let (im, s) = replay_records sm b 0 records (new_impact b) (lf_db st);
        st1 = st\<lparr>lf_db := s, lf_impacts := dict_set bid im (lf_impacts st)\<rparr>
      in bnd (in_store (save_policy_bundle_impact i n (impact_args im limit))) (\<lambda>_. ret im) st1)" for b records i n
  proof (rule keepsI)
    fix st assume ok: "process_ok st"
    obtain im s where r: "replay_records sm b 0 records (new_impact b) (lf_db st) = (im, s)" by (metis prod.exhaust)
    with replay_records_state [of sm b 0 records "new_impact b" "lf_db st"] have s: "s = lf_db st" by simp
    have "process_ok (st\<lparr>lf_db := s, lf_impacts := dict_set bid im (lf_impacts st)\<rparr>)"
      using ok by (rule process_ok_cong [rotated -1]) (simp_all add: s)
    moreover have "keeps process_ok (bnd (in_store (save_policy_bundle_impact i n (impact_args im limit))) (\<lambda>_. ret im))"
      by (auto intro: keeps_bnd keeps_writes)
    ultimately show "process_ok (snd (let (im, s) = replay_records sm b 0 records (new_impact b) (lf_db st);
        st1 = st\<lparr>lf_db := s, lf_impacts := dict_set bid im (lf_impacts st)\<rparr>
      in bnd (in_store (save_policy_bundle_impact i n (impact_args im limit))) (\<lambda>_. ret im) st1))"
      using r by (simp add: keepsD)
  qed
  then show ?thesis unfolding simulate_def by (intro keeps_bnd keeps_valid_candidate keeps_reads)
qed

lemma keeps_impact: "keeps process_ok (lifecycle_impact bid)"
proof (rule keepsI)
  fix st assume ok: "process_ok st"
  have "keeps process_ok (bnd (in_store (get_policy_bundle_impact bid)) (\<lambda>found st.
      case found of None \<Rightarrow> (Inr None, st)
      | Some r \<Rightarrow> (Inr (Some (impact_of_row r)), st\<lparr>lf_impacts := dict_set bid (impact_of_row r) (lf_impacts st)\<rparr>)))"
    by (intro keeps_bnd keeps_reads keepsI) (auto split: option.split intro: process_ok_cong)
  from keepsD [OF this ok] ok show "process_ok (snd (lifecycle_impact bid st))"
    by (auto simp: lifecycle_impact_def split: option.split)
qed

lemma keeps_previous: "keeps process_ok (lifecycle_previous w)"
proof (rule keepsI)
  fix st assume ok: "process_ok st"
  have "keeps process_ok (bnd (in_store get_previous_policy_bundle) (\<lambda>found. ret (f found)))" for f :: "bundle_row option \<Rightarrow> policy_bundle option"
    by (intro keeps_bnd keeps_reads) auto
  from keepsD [OF this ok] ok show "process_ok (snd (lifecycle_previous w st))" by (simp add: lifecycle_previous_def)
qed

lemma keeps_list: "keeps process_ok (list_candidates ws)"
proof (rule keepsI)
  fix st assume ok: "process_ok st"
  have "keeps process_ok (bnd (in_store (list_policy_bundle_candidates 50)) (\<lambda>records. ret (f records)))"
    for f :: "bundle_row list \<Rightarrow> policy_bundle list" by (intro keeps_bnd keeps_reads) auto
  from keepsD [OF this ok] show "process_ok (snd (list_candidates ws st))" by (simp add: list_candidates_def)
qed

text \<open>An activation in the store, followed by the process.\<close>

lemma activated_row:
  assumes "activate_policy_bundle now bid digest s = (Inr r, s')" "bundles_ok (policy_bundles s)" "digest \<noteq> []"
  shows "db_up s' \<and> bundles_ok (policy_bundles s') \<and> active_row s' = Some r \<and> b_digest r = digest \<and> b_bundle_id r = bid"
proof (cases rule: activate_cases [OF assms(1,2)])
  case (1 x)
  note did = this
  then have "b_digest x = digest" using assms(3)
    by (auto simp: bundle_target_def bundle_key_def dest: find_Some_in)
  with did activation_done [OF assms(2) did(3,7)] show ?thesis by (simp add: promote_def)
qed simp

lemma activate_and_follow:
  assumes "process_ok st" "bnd (in_store (activate_policy_bundle now bid digest)) f st = (res, st')"
    and "\<And>r st1. active_row (lf_db st1) = Some r \<Longrightarrow> b_digest r = digest \<Longrightarrow> bundles_ok (policy_bundles (lf_db st1)) \<Longrightarrow> f r st1 = (res, st') \<Longrightarrow> process_ok st'"
    and "digest \<noteq> []"
  shows "process_ok st'"
proof -
  obtain x s where a: "activate_policy_bundle now bid digest (lf_db st) = (x, s)" by (metis prod.exhaust)
  show ?thesis
  proof (cases x)
    case (Inl e)
    with a assms(2) have "st' = snd (in_store (activate_policy_bundle now bid digest) st)"
      by (simp add: bnd_def in_store_apply)
    with keepsD [OF keeps_writes(3) assms(1)] show ?thesis by simp
  next
    case (Inr r)
    with a assms(2) have f: "f r (st\<lparr>lf_db := s\<rparr>) = (res, st')" by (simp add: bnd_def in_store_apply)
    from activated_row [of now bid digest "lf_db st" r s] a Inr assms(1,4)
    show ?thesis by (intro assms(3) [OF _ _ _ f]) (simp_all add: process_ok_def)
  qed
qed

definition prepare_activation :: "draws \<Rightarrow> world \<Rightarrow> world \<Rightarrow> string \<Rightarrow> pyobj \<Rightarrow> (life, policy_bundle) opn" where
  "prepare_activation dr u w bid cached =
     bnd (cached_candidate u w bid) (\<lambda>b. bnd (candidate_source w cached b) (\<lambda>source.
     bnd (in_store (upsert_policy_bundle_candidate (dw_row_id dr) (dw_now dr) (candidate_args b source))) (\<lambda>_. ret b)))"

lemma activate_split:
  "lifecycle_activate dr u w bid st = bnd (prepare_activation dr u w bid (get_default (lf_sources st) bid [])) (\<lambda>b.
     bnd (in_store (activate_policy_bundle (dw_activated dr) (pb_id b) (pb_digest b))) (\<lambda>r st. (Inr b, take_over u r b st))) st"
  unfolding lifecycle_activate_def prepare_activation_def Let_def bnd_assoc bnd_ret ..

lemma keeps_prepare: "keeps process_ok (prepare_activation dr u w bid cached)"
  unfolding prepare_activation_def
  by (intro keeps_bnd keeps_cached_candidate keeps_candidate_source keeps_writes) auto

lemma process_ok_activate:
  assumes "process_ok st" "lifecycle_activate dr u w bid st = (res, st')" "\<forall>b. res = Inr b \<longrightarrow> pb_digest b \<noteq> []"
  shows "process_ok st'"
proof -
  let ?pre = "prepare_activation dr u w bid (get_default (lf_sources st) bid [])"
  have ok: "process_ok (snd (?pre st))" using keeps_prepare assms(1) by (rule keepsD)
  from assms(2) obtain y st1 where p: "?pre st = (y, st1)"
    "(case y of Inl e \<Rightarrow> (Inl e, st1) | Inr b \<Rightarrow> bnd (in_store (activate_policy_bundle (dw_activated dr) (pb_id b) (pb_digest b)))
        (\<lambda>r st. (Inr b, take_over u r b st)) st1) = (res, st')"
    unfolding activate_split bnd_def [of ?pre] by (auto split: prod.splits)
  show ?thesis
  proof (cases y)
    case (Inl e) with p ok show ?thesis by simp
  next
    case (Inr b)
    with p have act: "bnd (in_store (activate_policy_bundle (dw_activated dr) (pb_id b) (pb_digest b)))
        (\<lambda>r st. (Inr b, take_over u r b st)) st1 = (res, st')" by simp
    have res: "res = Inr b \<or> (\<exists>e. res = Inl e)" using act by (auto simp: bnd_def split: prod.splits sum.splits)
    show ?thesis
    proof (cases "res = Inr b")
      case True
      with assms(3) have "pb_digest b \<noteq> []" by simp
      show ?thesis
      proof (rule activate_and_follow [OF _ act _ \<open>pb_digest b \<noteq> []\<close>])
        show "process_ok st1" using ok p by simp
        show "process_ok st'" if "active_row (lf_db st2) = Some r" "b_digest r = pb_digest b" "bundles_ok (policy_bundles (lf_db st2))"
          "(Inr b, take_over u r b st2) = (res, st')" for r st2
          by (rule process_ok_install [of st2 r b]) (use that in \<open>auto simp: take_over_effect\<close>)
      qed
    next
      case False
      with res obtain e where "res = Inl e" by blast
      with act have "st' = snd (in_store (activate_policy_bundle (dw_activated dr) (pb_id b) (pb_digest b)) st1)"
        by (auto simp: bnd_def split: prod.splits sum.splits)
      with keepsD [OF keeps_writes(3)] ok p show ?thesis by simp
    qed
  qed
qed

lemma rolled_back_row:
  assumes "rollback_policy_bundle now s = (Inr r, s')" "bundles_ok (policy_bundles s)"
  shows "db_up s'" "active_row s' = Some r"
proof -
  from assms(1) obtain bid digest where a: "activate_policy_bundle now bid digest s = (Inr r, s')"
    by (cases rule: rollback_cases) auto
  show "db_up s'" "active_row s' = Some r"
  proof (atomize(full), cases rule: activate_cases [OF a assms(2)])
    case (1 x)
    with activation_done(2) [OF assms(2) 1(3,7)] show "db_up s' \<and> active_row s' = Some r" by simp
  qed simp
qed

lemma sync_needs_error:
  assumes "sync_active_from_store force u w st = (None, st')" "db_up (lf_db st)" "active_row (lf_db st) = Some r"
  shows "lf_error st' \<noteq> None"
  using assms(1) by (cases rule: sync_cases) (use assms(2,3) in auto)

lemma follow_rollback_cases:
  assumes "follow_rollback u w r st = (res, st')"
  obtains (failed) e where "res = Inl e" "st' = st"
  | (followed) b where "res = Inr b" "load_from_record w r = Inr b" "bundle_ok b" "lf_error st' = lf_error st"
      "lf_bundle st' = Some b" "lf_observed_gen st' = gen_of r" "lf_db st' = lf_db st"
proof (cases "load_from_record w r")
  case (Inl e)
  with assms show thesis by (intro failed [of e]) (simp_all add: follow_rollback_def of_result_def bnd_def)
next
  case (Inr b)
  show thesis
  proof (cases "bundle_ok b")
    case True
    with Inr assms show thesis
      by (intro followed [of b]) (auto simp: follow_rollback_def of_result_def bnd_def get_policy_bundle_eq Let_def)
  next
    case False
    with Inr assms show thesis
      by (intro failed) (auto simp: follow_rollback_def of_result_def bnd_def)
  qed
qed

lemma process_ok_rollback:
  assumes "process_ok st" "lifecycle_rollback dr u w w' st = (res, st')"
    "\<forall>b. res = Inr b \<longrightarrow> lf_error st' = None \<and> pb_digest b \<noteq> []"
  shows "process_ok st'"
proof -
  obtain x where x: "in_store get_previous_policy_bundle st = (x, st)"
    by (cases st) (simp add: in_store_apply get_previous_policy_bundle_def with_db_def)
  consider e where "x = Inl e" | "x = Inr None" | p where "x = Inr (Some p)" by (cases x) auto
  then show ?thesis
  proof cases
    case 1
    with x assms(1,2) show ?thesis by (simp add: lifecycle_rollback_def bnd_def)
  next
    case 2
    with x assms(2) have "st' = st \<or> (\<exists>bid. lifecycle_activate dr u w bid st = (res, st'))"
      by (cases "lf_previous st") (auto simp: lifecycle_rollback_def bnd_def throw_def split: if_splits)
    with process_ok_activate [OF assms(1)] assms(1,3) show ?thesis by blast
  next
    case 3
    obtain y st1 where y: "in_store (rollback_policy_bundle (dw_activated dr)) st = (y, st1)" by (metis prod.exhaust)
    with keepsD [OF keeps_writes(2) assms(1), of "dw_activated dr"] have ok1: "process_ok st1" by simp
    show ?thesis
    proof (cases y)
      case (Inl e)
      with x 3 y assms(2) ok1 show ?thesis by (simp add: lifecycle_rollback_def bnd_def)
    next
      case (Inr r)
      obtain z st2 where z: "sync_active_from_store True u w st1 = (z, st2)" by (metis prod.exhaust)
      with process_ok_sync [OF ok1, of True u w] have ok2: "process_ok st2" by simp
      have up: "db_up (lf_db st1)" "active_row (lf_db st1) = Some r"
        using rolled_back_row [of "dw_activated dr" "lf_db st" r "lf_db st1"] y Inr assms(1)
        by (auto simp: in_store_apply process_ok_def prod_eq_iff)
      show ?thesis
      proof (cases z)
        case (Some b)
        with x 3 y Inr z assms(2) ok2 show ?thesis by (simp add: lifecycle_rollback_def bnd_def)
      next
        case None
        with x 3 y Inr z assms(2) have "follow_rollback u w' r st2 = (res, st')"
          by (simp add: lifecycle_rollback_def bnd_def)
        then show ?thesis
        proof (cases rule: follow_rollback_cases)
          case (followed b)
          with sync_needs_error [OF z [unfolded None] up] assms(3) show ?thesis by simp
        qed (use ok2 in simp)
      qed
    qed
  qed
qed

lemma load_root_digest:
  "wd_dirs w' = wd_dirs w \<Longrightarrow> wd_hash w' = wd_hash w \<Longrightarrow> pb_digest (load_root w' dir) = pb_digest (load_root w dir)"
  by (simp add: load_root_def load_bundle_def files_at_def Let_def split: sum.split)

lemma process_ok_seed:
  assumes "process_ok st" "seed_active dr w w' current st = (res, st')" "wd_dirs w' = wd_dirs w" "wd_hash w' = wd_hash w"
    "\<forall>b. res = Inr b \<longrightarrow> pb_digest b \<noteq> []"
  shows "process_ok st'"
proof (cases "materialize_policy_root w (policy_source_from_env w)")
  case (Inl e)
  with assms(1,2) show ?thesis by (simp add: seed_active_def bnd_def of_result_def)
next
  case (Inr dir)
  let ?b = "load_root w dir" and ?src = "source_json_for (policy_source_from_env w) dir"
  show ?thesis
  proof (cases "bundle_ok ?b")
    case False
    with Inr assms(1,2) show ?thesis by (simp add: seed_active_def bnd_def of_result_def throw_def Let_def)
  next
    case True
    obtain y st1 where y: "in_store (upsert_policy_bundle_candidate (dw_row_id dr) (dw_now dr) (candidate_args ?b ?src)) st = (y, st1)"
      by (metis prod.exhaust)
    with keepsD [OF keeps_writes(1) assms(1), of "dw_row_id dr" "dw_now dr" "candidate_args ?b ?src"]
    have ok1: "process_ok st1" by simp
    define f where "f = (\<lambda>r st. let st1 = (if bundle_ok current \<and> pb_digest current \<noteq> pb_digest ?b then st\<lparr>lf_previous := Some current\<rparr> else st);
              (active, st2) = reload_policy_bundle w' dir st1
          in (Inr active :: policy_bundle result, st2\<lparr>lf_error := None, lf_fallback := False, lf_observed := pb_digest active,
                              lf_observed_gen := gen_of r, lf_active_gen := gen_of r\<rparr>))"
    show ?thesis
    proof (cases y)
      case (Inl e)
      with True Inr y ok1 assms(2) show ?thesis
        by (simp add: seed_active_def bnd_def [of "of_result _"] bnd_def [of "in_store (upsert_policy_bundle_candidate _ _ _)"] of_result_def Let_def)
    next
      case (Inr y')
      with True \<open>materialize_policy_root w _ = Inr dir\<close> y assms(2)
      have act: "bnd (in_store (activate_policy_bundle (dw_activated dr) (pb_id ?b) (pb_digest ?b))) f st1 = (res, st')"
        by (simp add: seed_active_def bnd_def [of "of_result _"] bnd_def [of "in_store (upsert_policy_bundle_candidate _ _ _)"]
            of_result_def Let_def f_def)
      have fr: "f r st2 = (res, st') \<Longrightarrow> res = Inr (load_root w' dir)" for r st2
        by (auto simp: f_def reload_policy_bundle_def Let_def)
      show ?thesis
      proof (cases "pb_digest ?b = []")
        case True
        with load_root_digest [OF assms(3,4), of dir] assms(5) fr have "\<nexists>r st2. f r st2 = (res, st')" by fastforce
        with act have "st' = snd (in_store (activate_policy_bundle (dw_activated dr) (pb_id ?b) (pb_digest ?b)) st1)"
          by (auto simp: bnd_def split: prod.splits sum.splits)
        with keepsD [OF keeps_writes(3) ok1] show ?thesis by simp
      next
        case False
        show ?thesis
        proof (rule activate_and_follow [OF ok1 act _ False])
          fix r st2 assume a: "active_row (lf_db st2) = Some r" "b_digest r = pb_digest ?b" "bundles_ok (policy_bundles (lf_db st2))"
            "f r st2 = (res, st')"
          then show "process_ok st'"
            by (intro process_ok_install [OF a(3,1), of "load_root w' dir"])
              (auto simp: f_def reload_policy_bundle_def Let_def load_root_digest [OF assms(3,4)] split: if_splits)
        qed
      qed
    qed
  qed
qed

lemma process_ok_bootstrap:
  assumes "process_ok st" "ensure_bootstrapped dr u w w' st = (res, st')" "wd_dirs w' = wd_dirs w" "wd_hash w' = wd_hash w"
    "\<forall>b. res = Inr b \<longrightarrow> pb_digest b \<noteq> []"
  shows "process_ok st'"
proof -
  let ?c = "enforced u st"
  define st1 where "st1 = st\<lparr>lf_bundle := Some ?c, lf_source := policy_source_from_env w, lf_expected := src_digest (policy_source_from_env w)\<rparr>"
  have ok1: "process_ok st1" using assms(1)
    by (rule process_ok_cong [rotated -1]) (auto simp: st1_def enforced_def split: option.split)
  obtain x st2 where x: "follow_or_seed dr u w w' ?c st1 = (x, st2)" by (metis prod.exhaust)
  have boot: "(case x of Inr b \<Rightarrow> (Inr b, st2)
     | Inl e \<Rightarrow> (let st3 = st2\<lparr>lf_error := Some (error_text w e)\<rparr> in
          if get_policy_failure_mode w = ''last_known_good'' \<and> bundle_ok ?c
          then (Inr ?c, st3\<lparr>lf_fallback := True, lf_observed := pb_digest ?c\<rparr>)
          else (Inl e, st3\<lparr>lf_fallback := False\<rparr>))) = (res, st')"
    using assms(2) unfolding ensure_bootstrapped_def get_policy_bundle_eq Let_def prod.case st1_def [symmetric] x
    by (cases x) auto
  have "\<forall>b. x = Inr b \<longrightarrow> pb_digest b \<noteq> []" using boot assms(5) by auto
  have ok2: "process_ok st2"
  proof -
    obtain y where y: "in_store get_active_policy_bundle st1 = (y, st1)"
      by (cases st1) (simp add: in_store_apply get_active_policy_bundle_def with_db_def)
    consider e where "y = Inl e" | "y = Inr None" | p where "y = Inr (Some p)" by (cases y) auto
    then show ?thesis
    proof cases
      case 1
      with x y ok1 show ?thesis by (simp add: follow_or_seed_def bnd_def)
    next
      case 2
      with x y have "seed_active dr w w' ?c st1 = (x, st2)" by (simp add: follow_or_seed_def bnd_def)
      then show ?thesis using process_ok_seed [OF ok1 _ assms(3,4)] \<open>\<forall>b. x = Inr b \<longrightarrow> _\<close> by blast
    next
      case 3
      with x y have "st2 = snd (sync_active_from_store True u w st1)"
        by (auto simp: follow_or_seed_def bnd_def split: prod.splits option.splits)
      with process_ok_sync [OF ok1] show ?thesis by simp
    qed
  qed
  show ?thesis
  proof (cases x)
    case (Inr b) with boot ok2 show ?thesis by simp
  next
    case (Inl e)
    with boot have "lf_db st' = lf_db st2" "lf_observed_gen st' = lf_observed_gen st2" "lf_bundle st' = lf_bundle st2"
      by (auto simp: Let_def split: if_splits)
    with ok2 show ?thesis by (auto intro: process_ok_cong)
  qed
qed

text \<open>What a process does, and what the others do to the store meanwhile. Three things are excluded that would break the
  pin: a bundle without a digest, a rollback that succeeds only in its second attempt (it ends with an error on record),
  and files that change between the two loads of a first start.\<close>

inductive process_step :: "life \<Rightarrow> life \<Rightarrow> bool" where
  sync: "process_step st (snd (sync_active_from_store force u w st))"
| active: "process_step st (snd (lifecycle_active u w st))"
| previous: "process_step st (snd (lifecycle_previous w st))"
| listed: "process_step st (snd (list_candidates ws st))"
| candidate: "process_step st (snd (get_candidate u w bid st))"
| validate_path: "process_step st (snd (validate_from_path dr w dir source st))"
| validate_source: "process_step st (snd (validate_from_source dr w src st))"
| simulated: "process_step st (snd (simulate dr sm u w bid limit st))"
| impact: "process_step st (snd (lifecycle_impact bid st))"
| activate: "lifecycle_activate dr u w bid st = (res, st') \<Longrightarrow> \<forall>b. res = Inr b \<longrightarrow> pb_digest b \<noteq> [] \<Longrightarrow> process_step st st'"
| rollback: "lifecycle_rollback dr u w w' st = (res, st') \<Longrightarrow>
    \<forall>b. res = Inr b \<longrightarrow> lf_error st' = None \<and> pb_digest b \<noteq> [] \<Longrightarrow> process_step st st'"
| bootstrap: "ensure_bootstrapped dr u w w' st = (res, st') \<Longrightarrow> wd_dirs w' = wd_dirs w \<Longrightarrow> wd_hash w' = wd_hash w \<Longrightarrow>
    \<forall>b. res = Inr b \<longrightarrow> pb_digest b \<noteq> [] \<Longrightarrow> process_step st st'"
| others: "policy_step (lf_db st) s' \<or> policy_bundles s' = policy_bundles (lf_db st) \<Longrightarrow> process_step st (st\<lparr>lf_db := s'\<rparr>)"

inductive process_run :: "life \<Rightarrow> life \<Rightarrow> bool" where
  start: "process_run st st"
| step: "process_run st st' \<Longrightarrow> process_step st' st'' \<Longrightarrow> process_run st st''"

lemma process_step_ok:
  assumes "process_step st st'" "process_ok st" shows "process_ok st'"
  using assms
proof cases
  case (active u w)
  with process_ok_first_use [OF process_ok_sync [OF assms(2), of False u w], of u] show ?thesis
    by (simp add: lifecycle_active_def get_policy_bundle_eq)
next
  case (others s')
  then show ?thesis using pinned_step assms(2)
    by (auto simp: process_ok_def pinned_def active_generation_def)
qed (use assms(2) in \<open>auto intro: process_ok_sync keepsD [OF keeps_previous] keepsD [OF keeps_list] keepsD [OF keeps_get_candidate]
    keepsD [OF keeps_validate_from_path] keepsD [OF keeps_validate_from_source] keepsD [OF keeps_simulate] keepsD [OF keeps_impact]
    process_ok_activate process_ok_rollback process_ok_bootstrap\<close>)

lemma process_run_ok: "process_run st st' \<Longrightarrow> process_ok st \<Longrightarrow> process_ok st'"
  by (induction rule: process_run.induct) (auto intro: process_step_ok)

lemma process_ok_new: "bundles_ok (policy_bundles s) \<Longrightarrow> process_ok (new_lifecycle w s b)"
  using active_row_generation(2) [of s]
  by (auto simp: process_ok_def pinned_def new_lifecycle_def active_generation_def split: option.split)


subsection \<open>Activation\<close>

lemma enforced_simps [simp]:
  "enforced u (st\<lparr>lf_bundle := Some b\<rparr>) = b" "enforced u (st\<lparr>lf_db := s\<rparr>) = enforced u st"
  "enforced u (st\<lparr>lf_impacts := im\<rparr>) = enforced u st" "enforced u (remember c d st) = enforced u st"
  by (simp_all add: enforced_def remember_def)

definition keeps_bundle :: "world \<Rightarrow> (life, 'a) opn \<Rightarrow> bool" where
  "keeps_bundle u m \<longleftrightarrow> (\<forall>b. keeps (\<lambda>st. enforced u st = b) m)"

lemma keeps_bundle_bnd: "keeps_bundle u m \<Longrightarrow> (\<And>x. keeps_bundle u (f x)) \<Longrightarrow> keeps_bundle u (bnd m f)"
  by (auto simp: keeps_bundle_def intro: keeps_bnd)

lemma keeps_bundle_basic:
  "keeps_bundle u (in_store m)" "keeps_bundle u (ret x)" "keeps_bundle u (throw e)" "keeps_bundle u (of_result r)"
  by (simp_all add: keeps_bundle_def keeps_def in_store_apply ret_def throw_def of_result_def)

lemma keeps_bundle_stored: "keeps_bundle u (stored_candidate w bid)"
  unfolding stored_candidate_def
  by (intro keeps_bundle_bnd keeps_bundle_basic) (auto simp: keeps_bundle_def keeps_def split: option.split sum.split)

lemma keeps_bundle_candidates: "keeps_bundle u (get_candidate u w bid)" "keeps_bundle u (valid_candidate u w bid)"
  "keeps_bundle u (cached_candidate u w bid)" "keeps_bundle u (candidate_source w cached b)"
proof -
  show g: "keeps_bundle u (get_candidate u w bid)"
    using keeps_bundle_stored [of u w bid]
    by (auto simp: keeps_bundle_def keeps_def get_candidate_def get_policy_bundle_eq split: option.split)
  show v: "keeps_bundle u (valid_candidate u w bid)" unfolding valid_candidate_def
    by (intro keeps_bundle_bnd g) (auto intro: keeps_bundle_basic split: option.split)
  show "keeps_bundle u (cached_candidate u w bid)" using v
    by (auto simp: keeps_bundle_def keeps_def cached_candidate_def split: option.split)
  show "keeps_bundle u (candidate_source w cached b)" unfolding candidate_source_def Let_def
    by (auto intro!: keeps_bundle_bnd keeps_bundle_basic)
qed

lemma keeps_bundle_prepare: "keeps_bundle u (prepare_activation dr u w bid cached)"
  unfolding prepare_activation_def by (intro keeps_bundle_bnd keeps_bundle_candidates keeps_bundle_basic)

lemma sync_nothing_new:
  assumes "db_up (lf_db st)" "active_row (lf_db st) = Some r" "0 < gen_of r" "lf_observed_gen st = gen_of r"
    "lf_active_gen st = gen_of r" "lf_bundle st = Some b" "pb_digest b = b_digest r"
  shows "sync_active_from_store False u w st = (Some b, st)"
proof -
  have "in_store get_active_policy_bundle st = (Inr (Some r), st)" using assms(1,2) by (simp add: active_row_read)
  moreover have "up_to_date u r st = (True, st)"
    using assms(3-7) by (cases st) (simp add: up_to_date_def get_policy_bundle_eq enforced_def)
  ultimately show ?thesis using assms(5,6) by (cases st) (simp add: sync_active_from_store_def)
qed


subsection \<open>Examples\<close>

text \<open>A first start over an empty store, from the files shipped with the process.\<close>

definition start_draws :: draws where
  "start_draws = \<lparr>dw_row_id = ''x1'', dw_now = 1, dw_activated = 2\<rparr>"

definition demo_started :: "policy_bundle result \<times> life" where
  "demo_started = ensure_bootstrapped start_draws demo_world demo_world demo_world (new_lifecycle demo_world empty_db None)"

definition demo_life :: life where
  "demo_life = snd demo_started"

lemma demo_start: "lf_observed_gen demo_life = 1" "active_generation (lf_db demo_life) = 1" "db_up (lf_db demo_life)"
  "active_row (lf_db demo_life) \<noteq> None" "case fst demo_started of Inl e \<Rightarrow> False | Inr b \<Rightarrow> pb_digest b \<noteq> []"
  by code_simp+

lemma demo_run: "process_run (new_lifecycle demo_world empty_db None) demo_life"
proof -
  have "process_step (new_lifecycle demo_world empty_db None) demo_life"
    by (rule process_step.bootstrap [where res = "fst demo_started"])
      (use demo_start(5) in \<open>simp_all add: demo_life_def demo_started_def split: sum.splits\<close>)
  then show ?thesis by (rule process_run.step [OF process_run.start])
qed

lemma bundles_ok_empty: "bundles_ok (policy_bundles empty_db)"
  using bundles_ok_Nil by (simp add: empty_db_def)


definition demo_replica :: life where
  "demo_replica = new_lifecycle demo_world (lf_db demo_life) None"

lemma demo_both_sync: "fst (sync_active_from_store False demo_world demo_world demo_life) \<noteq> None"
  "fst (sync_active_from_store False demo_world demo_world demo_replica) \<noteq> None"
  by code_simp+

theorem replicas_converge_witness:
  "\<exists>b1 b2. fst (sync_active_from_store False demo_world demo_world demo_life) = Some b1 \<and>
    fst (sync_active_from_store False demo_world demo_world demo_replica) = Some b2 \<and> pb_digest b1 = pb_digest b2"
proof -
  let ?s1 = "sync_active_from_store False demo_world demo_world demo_life"
  let ?s2 = "sync_active_from_store False demo_world demo_world demo_replica"
  obtain r where r: "active_row (lf_db demo_life) = Some r" using demo_start(4) by blast
  have db: "lf_db demo_replica = lf_db demo_life" by (simp add: demo_replica_def new_lifecycle_def)
  obtain x1 t1 x2 t2 where s: "?s1 = (x1, t1)" "?s2 = (x2, t2)" by (metis prod.exhaust)
  with demo_both_sync obtain b1 b2 where "x1 = Some b1" "x2 = Some b2" by auto
  moreover from replicas_converge [OF db demo_start(3) r s]
  have "\<forall>b1 b2. x1 = Some b1 \<and> x2 = Some b2 \<longrightarrow> pb_digest b1 = pb_digest b2" by blast
  ultimately show ?thesis using s by simp
qed

lemma demo_activates: "case lifecycle_activate start_draws demo_world demo_world ''d0'' demo_life of
    (Inl e, st) \<Rightarrow> False | (Inr b, st) \<Rightarrow> pb_digest b \<noteq> []"
  by code_simp


end
