(* ===== verification/Policy_Operations.thy ===== *)
theory Policy_Operations
  imports Policy_Fleet Approval_Spec
begin

text \<open>
  The operations of the policy lifecycle one by one: what a start ends with, what a simulation counts and leaves alone,
  and where a rollback and a candidate are not checked against the digest on record.
\<close>

subsection \<open>Start\<close>

lemma seed_outcome:
  assumes "seed_active dr w w' current st = (res, st')"
  shows "case res of Inr b \<Rightarrow> lf_bundle st' = Some b \<and> lf_error st' = None \<and> \<not> lf_fallback st' | Inl e \<Rightarrow> lf_bundle st' = lf_bundle st"
  using assms
  by (auto simp: seed_active_def bnd_def of_result_def throw_def reload_policy_bundle_def in_store_apply Let_def
      split: sum.splits prod.splits if_splits)

lemma sync_outcome:
  assumes "sync_active_from_store True u w st = (Some b, st')"
  shows "lf_bundle st' = Some b \<and> lf_error st' = None \<and> \<not> lf_fallback st'"
  using assms by (cases rule: sync_cases) (auto simp: install_effect)

lemma sync_failed_bundle:
  assumes "sync_active_from_store force u w st = (None, st')" "lf_bundle st = Some b" shows "lf_bundle st' = Some b"
  using assms(1) by (cases rule: sync_cases) (use assms(2) in \<open>auto simp: enforced_def\<close>)

lemma follow_or_seed_outcome:
  assumes "follow_or_seed dr u w w' current st = (res, st')" "lf_bundle st = Some c"
  shows "case res of Inr b \<Rightarrow> lf_bundle st' = Some b \<and> lf_error st' = None \<and> \<not> lf_fallback st' | Inl e \<Rightarrow> lf_bundle st' = Some c"
proof -
  obtain y where y: "in_store get_active_policy_bundle st = (y, st)"
    by (cases st) (simp add: in_store_apply get_active_policy_bundle_def with_db_def)
  consider e where "y = Inl e" | "y = Inr None" | r where "y = Inr (Some r)" by (cases y) auto
  then show ?thesis
  proof cases
    case 1
    with y assms show ?thesis by (auto simp: follow_or_seed_def bnd_def)
  next
    case 2
    with y assms(1) have "seed_active dr w w' current st = (res, st')" by (simp add: follow_or_seed_def bnd_def)
    from seed_outcome [OF this] assms(2) show ?thesis by (simp split: sum.splits)
  next
    case 3
    obtain z st1 where z: "sync_active_from_store True u w st = (z, st1)" by (metis prod.exhaust)
    show ?thesis
    proof (cases z)
      case None
      with 3 y z assms sync_failed_bundle [of True u w st st1 c] show ?thesis by (auto simp: follow_or_seed_def bnd_def)
    next
      case (Some b)
      with 3 y z assms sync_outcome [of u w st b st1] show ?thesis by (auto simp: follow_or_seed_def bnd_def)
    qed
  qed
qed

text \<open>C32: How a start ends. It returns the bundle the process enforces from then on. Either that is the active one, with
  no error on record, or it is the valid bundle the process had, marked as a fallback, with the error on record, and
  only where \<open>POLICY_SOURCE_FAILURE_MODE\<close> allows it. When a start raises, it leaves the error on record, no fallback is
  marked, and either the mode is \<open>fail_closed\<close> or there was no valid bundle to keep.\<close>

theorem bootstrap_outcome:
  assumes "ensure_bootstrapped dr u w w' st = (res, st')"
  shows "case res of
      Inr b \<Rightarrow> lf_bundle st' = Some b \<and>
        (lf_error st' = None \<and> \<not> lf_fallback st' \<or>
         lf_error st' \<noteq> None \<and> lf_fallback st' \<and> b = enforced u st \<and> bundle_ok b \<and> get_policy_failure_mode w = ''last_known_good'')
    | Inl e \<Rightarrow> lf_error st' = Some (error_text w e) \<and> \<not> lf_fallback st' \<and> lf_bundle st' = Some (enforced u st) \<and>
        (get_policy_failure_mode w = ''fail_closed'' \<or> \<not> bundle_ok (enforced u st))"
proof -
  let ?c = "enforced u st"
  define st1 where "st1 = st\<lparr>lf_bundle := Some ?c, lf_source := policy_source_from_env w, lf_expected := src_digest (policy_source_from_env w)\<rparr>"
  obtain x st2 where x: "follow_or_seed dr u w w' ?c st1 = (x, st2)" by (metis prod.exhaust)
  have out: "case x of Inr b \<Rightarrow> lf_bundle st2 = Some b \<and> lf_error st2 = None \<and> \<not> lf_fallback st2 | Inl e \<Rightarrow> lf_bundle st2 = Some ?c"
    by (rule follow_or_seed_outcome [OF x]) (simp add: st1_def)
  have mode: "get_policy_failure_mode w = ''last_known_good'' \<or> get_policy_failure_mode w = ''fail_closed''"
    by (simp add: get_policy_failure_mode_def)
  show ?thesis
  proof (cases x)
    case (Inr b)
    with assms x have "res = Inr b" "st' = st2" by (simp_all add: ensure_bootstrapped_def get_policy_bundle_eq Let_def flip: st1_def)
    with out Inr show ?thesis by simp
  next
    case (Inl e)
    with assms x have "(if get_policy_failure_mode w = ''last_known_good'' \<and> bundle_ok ?c
          then (Inr ?c, st2\<lparr>lf_error := Some (error_text w e), lf_fallback := True, lf_observed := pb_digest ?c\<rparr>)
          else (Inl e, st2\<lparr>lf_error := Some (error_text w e), lf_fallback := False\<rparr>)) = (res, st')"
      by (simp add: ensure_bootstrapped_def get_policy_bundle_eq Let_def flip: st1_def)
    with out Inl mode show ?thesis by (auto split: if_splits)
  qed
qed

subsection \<open>Simulation\<close>

definition changes :: "bundle_impact \<Rightarrow> int" where
  "changes im = im_allow_to_block im + im_allow_to_approval im + im_block_to_allow im + im_approval_to_allow im +
     im_approval_to_block im + im_other im"

text \<open>The decisions that could not be evaluated again.\<close>

definition unreplayable :: "replay_env \<Rightarrow> policy_bundle \<Rightarrow> db \<Rightarrow> nat \<times> decision_record \<Rightarrow> bool" where
  "unreplayable sm b s x \<longleftrightarrow> (case x of (k, d) \<Rightarrow> dr_request d \<noteq> [] \<and> (\<exists>e. fst (replay sm b k (dr_request d) s) = Inl e))"

lemma count_change_simps [simp]:
  "im_evaluated (count_change key im) = im_evaluated im" "im_unchanged (count_change key im) = im_unchanged im"
  "im_samples (count_change key im) = im_samples im" "changes (count_change key im) = changes im + 1"
  by (simp_all add: count_change_def changes_def)

lemma changes_frame [simp]:
  "changes (im\<lparr>im_evaluated := a\<rparr>) = changes im" "changes (im\<lparr>im_unchanged := a\<rparr>) = changes im"
  "changes (im\<lparr>im_samples := l\<rparr>) = changes im" "changes (im\<lparr>im_other := im_other im + 1\<rparr>) = changes im + 1"
  by (simp_all add: changes_def)

lemma tally_counts:
  "im_evaluated (tally d after im) = im_evaluated im + 1"
  "im_unchanged (tally d after im) + changes (tally d after im) = im_unchanged im + changes im + 1"
  "length (im_samples im) \<le> 20 \<Longrightarrow> length (im_samples (tally d after im)) \<le> 20"
  by (simp_all add: tally_def Let_def)

lemma replay_records_counts:
  assumes "length (im_samples im) \<le> 20"
  shows "let im' = fst (replay_records sm b k ds im s); failed = filter (unreplayable sm b s) (enumerate k ds);
      n = int (length (filter (\<lambda>d. dr_request d \<noteq> []) ds))
    in im_evaluated im' + int (length failed) = im_evaluated im + n \<and>
      im_unchanged im' + changes im' = im_unchanged im + changes im + n \<and> length (im_samples im') \<le> 20"
  using assms
proof (induction ds arbitrary: k im)
  case Nil then show ?case by simp
next
  case (Cons d ds)
  show ?case
  proof (cases "dr_request d = []")
    case True
    with Cons.IH [OF Cons.prems, of "Suc k"] show ?thesis by (simp add: unreplayable_def Let_def)
  next
    case False
    obtain x where x: "replay sm b k (dr_request d) s = (x, s)" using replay_state [of sm b k "dr_request d" s] by (metis prod.collapse)
    show ?thesis
    proof (cases x)
      case (Inl e)
      have "length (im_samples (im\<lparr>im_other := im_other im + 1\<rparr>)) \<le> 20" using Cons.prems by simp
      from Cons.IH [OF this, of "Suc k"] False x Inl show ?thesis by (simp add: unreplayable_def Let_def)
    next
      case (Inr after)
      from Cons.IH [OF tally_counts(3) [OF Cons.prems], of "Suc k" d after] tally_counts(1,2) [of d after im] False x Inr
      show ?thesis by (simp add: unreplayable_def Let_def)
    qed
  qed
qed

lemma replay_records_digest: "im_digest (fst (replay_records sm b k ds im s)) = im_digest im"
proof (induction ds arbitrary: k im)
  case (Cons d ds)
  obtain x where x: "replay sm b k (dr_request d) s = (x, s)" using replay_state [of sm b k "dr_request d" s] by (metis prod.collapse)
  have "im_digest (tally d after im) = im_digest im" for after by (simp add: tally_def count_change_def Let_def)
  with Cons x show ?case by (cases x) simp_all
qed simp

lemma candidate_keeps_db: "keeps (\<lambda>st. lf_db st = s) (valid_candidate u w bid)"
proof -
  have "keeps (\<lambda>st. lf_db st = s) (in_store (get_policy_bundle_record bid))"
    by (auto simp: keeps_def in_store_apply get_policy_bundle_record_def with_db_def)
  then have stored: "keeps (\<lambda>st. lf_db st = s) (stored_candidate w bid)" unfolding stored_candidate_def
    by (rule keeps_bnd) (auto simp: keeps_def remember_def split: option.split sum.split)
  have "keeps (\<lambda>st. lf_db st = s) (get_candidate u w bid)"
    using stored by (auto simp: keeps_def get_candidate_def get_policy_bundle_eq split: option.split)
  then show ?thesis unfolding valid_candidate_def by (rule keeps_bnd) (auto split: option.split)
qed

definition replayed :: "int \<Rightarrow> db \<Rightarrow> decision_record list" where
  "replayed limit s = map decision_from_row (limit_offset (clamp 1 5000 limit) 0 (order_desc d_created_at (decisions s)))"

text \<open>C33: A simulation is dry and its counts add up. Whatever its outcome, the process enforces what it enforced, and no
  bundle and no decision of the store has changed. A report counts every recent decision with a request once: as
  unchanged or as one kind of change; evaluated are those that could be evaluated again. At most twenty samples are kept.\<close>

theorem simulation_dry_and_complete:
  assumes "simulate dr sm u w bid limit st = (res, st')"
  shows "enforced u st' = enforced u st \<and> policy_bundles (lf_db st') = policy_bundles (lf_db st) \<and>
    decisions (lf_db st') = decisions (lf_db st) \<and>
    (\<forall>im. res = Inr im \<longrightarrow> (\<exists>b.
       let n = int (length (filter (\<lambda>d. dr_request d \<noteq> []) (replayed limit (lf_db st))));
           failed = filter (unreplayable sm b (lf_db st)) (enumerate 0 (replayed limit (lf_db st)))
       in bundle_ok b \<and> im_digest im = pb_digest b \<and> im_unchanged im + changes im = n \<and>
          im_evaluated im + int (length failed) = n \<and> length (im_samples im) \<le> 20))"
proof -
  obtain y st1 where y: "valid_candidate u w bid st = (y, st1)" by (metis prod.exhaust)
  have "enforced u (snd (valid_candidate u w bid st)) = enforced u st"
    using keeps_bundle_candidates(2) [of u w bid] unfolding keeps_bundle_def keeps_def by blast
  with y have same: "enforced u st1 = enforced u st" by simp
  have db: "lf_db st1 = lf_db st" using candidate_keeps_db [of "lf_db st" u w bid] y by (simp add: keeps_def) (metis snd_conv)
  show ?thesis
  proof (cases y)
    case (Inl e)
    with assms y same db show ?thesis by (auto simp: simulate_def bnd_def)
  next
    case (Inr b)
    have valid: "bundle_ok b"
      using y Inr by (auto simp: valid_candidate_def bnd_def throw_def ret_def split: prod.splits sum.splits option.splits if_splits)
    show ?thesis
    proof (cases "db_up (lf_db st)")
      case False
      then have "in_store (list_recent_decisions limit None) st1 = (Inl StoreUnavailable, st1)"
        by (cases st1) (use db in \<open>simp add: in_store_apply list_recent_decisions_def with_db_down\<close>)
      with assms y Inr same db show ?thesis by (auto simp: simulate_def bnd_def)
    next
      case True
      let ?ds = "replayed limit (lf_db st)"
      have read: "in_store (list_recent_decisions limit None) st1 = (Inr ?ds, st1)"
        using True db by (simp add: list_recent_decisions_def replayed_def)
      obtain im where rr: "replay_records sm b 0 ?ds (new_impact b) (lf_db st) = (im, lf_db st)"
        using replay_records_state [of sm b 0 ?ds "new_impact b" "lf_db st"] by (metis prod.collapse)
      obtain z s where z: "save_policy_bundle_impact (dw_row_id dr) (dw_now dr) (impact_args im limit) (lf_db st) = (z, s)"
        by (metis prod.exhaust)
      then have s: "policy_bundles s = policy_bundles (lf_db st)" "decisions s = decisions (lf_db st)"
        by (auto simp: save_policy_bundle_impact_def with_db_def Let_def split: if_splits option.splits)
      have out: "st' = st1\<lparr>lf_db := s, lf_impacts := dict_set bid im (lf_impacts st1)\<rparr>"
        "res = (case z of Inl e \<Rightarrow> Inl e | Inr _ \<Rightarrow> Inr im)"
        using assms y Inr read rr z
        by (auto simp: db simulate_def bnd_def ret_def Let_def in_store_apply [of "save_policy_bundle_impact _ _ _"] split: sum.splits)
      have "im_digest im = pb_digest b"
        using replay_records_digest [of sm b 0 ?ds "new_impact b" "lf_db st"] rr by (simp add: new_impact_def)
      moreover have "length (im_samples (new_impact b)) \<le> 20" by (simp add: new_impact_def)
      note counts = replay_records_counts [OF this, of sm b 0 ?ds "lf_db st", unfolded rr fst_conv]
      have start: "im_evaluated (new_impact b) = 0" "im_unchanged (new_impact b) = 0" "changes (new_impact b) = 0"
        by (simp_all add: new_impact_def changes_def)
      ultimately show ?thesis using counts valid same s out unfolding start Let_def by (auto split: sum.splits)
    qed
  qed
qed

subsection \<open>Where the digest is not checked\<close>

text \<open>A later world: the policies in the shipped directory have changed. The new content is validated, activated and
  then rolled back. The record of the old content is active again, but its directory holds the new one: the
  synchronisation refuses it, the second attempt of the rollback installs it all the same.\<close>

definition changed_world :: world where
  "changed_world = demo_world\<lparr>wd_hash := (\<lambda>_. ''d1'')\<rparr>"

definition rollback_after_change :: "policy_bundle result \<times> life" where
  "rollback_after_change =
     (let st1 = snd (validate_from_path \<lparr>dw_row_id = ''x2'', dw_now = 3, dw_activated = 4\<rparr> changed_world ''/app'' None demo_life);
          st2 = snd (lifecycle_activate \<lparr>dw_row_id = ''x3'', dw_now = 5, dw_activated = 6\<rparr> changed_world changed_world ''d1'' st1)
      in lifecycle_rollback \<lparr>dw_row_id = ''x4'', dw_now = 7, dw_activated = 8\<rparr> changed_world changed_world changed_world st2)"

lemma rollback_keeps_replaced_policy:
  "case rollback_after_change of (res, st) \<Rightarrow>
     (case res of Inl e \<Rightarrow> False | Inr b \<Rightarrow> pb_digest b = ''d1'') \<and> map_option pb_digest (lf_bundle st) = Some ''d1'' \<and>
     map_option b_digest (active_row (lf_db st)) = Some ''d0'' \<and> lf_observed_gen st = active_generation (lf_db st)"
  by code_simp

text \<open>A process that activates a candidate another one has validated loads it again from its source and does not compare
  the digest: after a change of the files it activates content that nobody has validated under the name that was asked for.\<close>

lemma activation_of_other_content:
  "case lifecycle_activate \<lparr>dw_row_id = ''x2'', dw_now = 3, dw_activated = 4\<rparr> changed_world changed_world ''d0'' demo_replica of (res, st) \<Rightarrow>
     (case res of Inl e \<Rightarrow> False | Inr b \<Rightarrow> pb_id b = ''d1'' \<and> map_option b_digest (active_row (lf_db st)) = Some ''d1'')"
  by code_simp

subsection \<open>Examples\<close>

theorem bootstrap_outcome_witness:
  "\<exists>b. fst demo_started = Inr b \<and> lf_bundle demo_life = Some b"
proof -
  obtain res st where s: "demo_started = (res, st)" by (metis prod.exhaust)
  obtain b where b: "res = Inr b" using demo_start(5) [unfolded s fst_conv] by (cases res) simp_all
  from bootstrap_outcome [OF s [unfolded demo_started_def]] b show ?thesis
    unfolding demo_life_def s fst_conv snd_conv by simp
qed

definition demo_replay :: replay_env where
  "demo_replay = \<lparr>sm_validate = (\<lambda>_. None), sm_sha = (\<lambda>x. x), sm_mac = (\<lambda>_ _. []), sm_signing = demo_signing,
     sm_quota_policy = [], sm_clock = (\<lambda>_. [])\<rparr>"

definition demo_history :: life where
  "demo_history = demo_life\<lparr>lf_db := (lf_db demo_life)\<lparr>decisions := [demo_decision\<lparr>d_request := [(''team'', PStr ''platform'')]\<rparr>]\<rparr>\<rparr>"

lemma demo_simulates: "case simulate \<lparr>dw_row_id = ''i1'', dw_now = 3, dw_activated = 4\<rparr> demo_replay demo_world demo_world ''d0'' 10 demo_history of
    (Inl e, st) \<Rightarrow> False | (Inr im, st) \<Rightarrow> True"
  by code_simp

theorem simulation_dry_and_complete_witness:
  "\<exists>im st. simulate \<lparr>dw_row_id = ''i1'', dw_now = 3, dw_activated = 4\<rparr> demo_replay demo_world demo_world ''d0'' 10 demo_history = (Inr im, st) \<and>
    im_unchanged im + changes im = 1 \<and> decisions (lf_db st) = decisions (lf_db demo_history)"
proof -
  obtain res st where s: "simulate \<lparr>dw_row_id = ''i1'', dw_now = 3, dw_activated = 4\<rparr> demo_replay demo_world demo_world ''d0'' 10 demo_history = (res, st)"
    by (metis prod.exhaust)
  with demo_simulates obtain im where im: "res = Inr im" by (cases res) auto
  have "length (filter (\<lambda>d. dr_request d \<noteq> []) (replayed 10 (lf_db demo_history))) = 1" by code_simp
  with simulation_dry_and_complete [OF s] s im show ?thesis by (auto simp: Let_def)
qed

end
