(* ===== verification/Policy_Api.thy ===== *)
theory Policy_Api
  imports Policy_Operations Approval_Api
begin

text \<open>
  The endpoints over the policy lifecycle: \<open>routers/policy_bundles.py\<close>, the status and reload of the bundle in
  \<open>routers/approvals.py\<close>, and readiness in \<open>routers/health.py\<close>.
\<close>

subsection \<open>Policy bundles\<close>

record bundle_info =
  bi_bundle :: policy_bundle
  bi_role :: string

definition info :: "policy_bundle \<Rightarrow> string \<Rightarrow> bundle_info" where
  "info b role = \<lparr>bi_bundle = b, bi_role = role\<rparr>"

definition readers :: "string list" where
  "readers = [''platform-admin'', ''auditor'', ''viewer'']"

definition total_op :: "('s \<Rightarrow> 'a \<times> 's) \<Rightarrow> ('s, 'a) opn" where
  "total_op f st = (case f st of (x, st') \<Rightarrow> (Inr x, st'))"

definition add_candidate :: "policy_bundle \<Rightarrow> bundle_info list \<Rightarrow> bundle_info list" where
  "add_candidate b items =
     (if pb_id b \<in> set (map (\<lambda>i. pb_id (bi_bundle i)) items) then items else items @ [info b ''candidate''])"

definition list_bundles :: "access_env \<Rightarrow> names \<Rightarrow> world \<Rightarrow> world \<Rightarrow> world \<Rightarrow> (nat \<Rightarrow> world) \<Rightarrow> (life, bundle_info list) opn" where
  "list_bundles ac headers u w w' ws =
     bnd (lift_result (require_roles ac headers readers)) (\<lambda>_.
     bnd (total_op (lifecycle_active u w)) (\<lambda>active.
     bnd (lifecycle_previous w') (\<lambda>previous.
     bnd (list_candidates ws) (\<lambda>candidates.
       ret (fold add_candidate candidates
         (info active ''active'' # (case previous of None \<Rightarrow> [] | Some b \<Rightarrow> [info b ''previous'']))))))) "

record source_request =
  sr_type :: string
  sr_path :: string
  sr_reference :: string
  sr_digest :: string
  sr_verify :: "bool option"

definition requested_source :: "source_request \<Rightarrow> policy_source" where
  "requested_source p =
     \<lparr>src_type = sr_type p, src_path = sr_path p, src_reference = sr_reference p, src_digest = sr_digest p,
      src_verify = (case sr_verify p of None \<Rightarrow> default_verify_signature_for_type (sr_type p) | Some v \<Rightarrow> v)\<rparr>"

definition http_bundle :: "world \<Rightarrow> int \<Rightarrow> exn \<Rightarrow> exn" where
  "http_bundle w code e = HttpError code (error_text w e)"

definition http_not_found :: "exn \<Rightarrow> exn" where
  "http_not_found e = (case e of KeyError m \<Rightarrow> HttpError 404 (str_repr m) | _ \<Rightarrow> e)"

text \<open>\<open>StoreUnavailableError\<close> is a \<open>RuntimeError\<close>.\<close>

definition http_conflict :: "world \<Rightarrow> exn \<Rightarrow> exn" where
  "http_conflict w e = (case e of RuntimeError m \<Rightarrow> HttpError 409 m | StoreUnavailable \<Rightarrow> HttpError 409 (wd_store_error w) | _ \<Rightarrow> e)"

definition validate_bundle :: "access_env \<Rightarrow> names \<Rightarrow> draws \<Rightarrow> world \<Rightarrow> source_request \<Rightarrow> (life, bundle_info) opn" where
  "validate_bundle ac headers dr w p =
     bnd (lift_result (require_roles ac headers [''platform-admin''])) (\<lambda>_.
     bnd (rethrow (http_bundle w 400)
           (if sr_type p \<in> {[], ''filesystem''} \<and> sr_path p \<noteq> [] then validate_from_path dr w (wd_expand w (sr_path p)) None
            else validate_from_source dr w (Some (requested_source p)))) (\<lambda>b.
       if \<not> bundle_ok b then throw (HttpError 422 (str_or (opt_str (pb_error b)) ''validation failed''))
       else ret (info b ''candidate'')))"

definition simulate_bundle ::
  "access_env \<Rightarrow> names \<Rightarrow> draws \<Rightarrow> replay_env \<Rightarrow> world \<Rightarrow> world \<Rightarrow> string \<Rightarrow> int \<Rightarrow> (life, pyobj) opn" where
  "simulate_bundle ac headers dr sm u w bid limit =
     bnd (lift_result (require_roles ac headers [''platform-admin''])) (\<lambda>_.
     bnd (rethrow (\<lambda>e. case e of KeyError m \<Rightarrow> HttpError 404 (str_repr m) | _ \<Rightarrow> http_bundle w 503 e) (simulate dr sm u w bid limit))
       (\<lambda>im. ret (impact_to_dict im)))"

definition get_impact :: "access_env \<Rightarrow> names \<Rightarrow> string \<Rightarrow> (life, pyobj) opn" where
  "get_impact ac headers bid =
     bnd (lift_result (require_roles ac headers readers)) (\<lambda>_.
     bnd (lifecycle_impact bid) (\<lambda>found. case found of
         None \<Rightarrow> throw (HttpError 404 ''no simulation impact cached; run simulate first'')
       | Some im \<Rightarrow> ret (impact_to_dict im)))"

definition activate_bundle_endpoint :: "access_env \<Rightarrow> names \<Rightarrow> draws \<Rightarrow> world \<Rightarrow> world \<Rightarrow> string \<Rightarrow> (life, bundle_info) opn" where
  "activate_bundle_endpoint ac headers dr u w bid =
     bnd (lift_result (require_roles ac headers [''platform-admin''])) (\<lambda>_.
     bnd (rethrow http_not_found (lifecycle_activate dr u w bid)) (\<lambda>b. ret (info b ''active'')))"

definition rollback_bundle :: "access_env \<Rightarrow> names \<Rightarrow> draws \<Rightarrow> world \<Rightarrow> world \<Rightarrow> world \<Rightarrow> (life, bundle_info) opn" where
  "rollback_bundle ac headers dr u w w' =
     bnd (lift_result (require_roles ac headers [''platform-admin''])) (\<lambda>_.
     bnd (rethrow (http_conflict w) (lifecycle_rollback dr u w w')) (\<lambda>b. ret (info b ''active'')))"

text \<open>The reload of \<open>routers/approvals.py\<close>, which asks for no role.\<close>

definition policy_bundle_reload :: "world \<Rightarrow> (life, policy_bundle) opn" where
  "policy_bundle_reload w = total_op (reload_policy_bundle w (wd_default_root w))"

subsection \<open>Readiness\<close>

record policy_ready =
  rd_ok :: bool
  rd_digest :: string
  rd_error :: "string option"
  rd_fallback :: bool
  rd_expected :: string
  rd_active_gen :: int
  rd_observed_gen :: int

text \<open>\<open>status.get("error") or bundle.error\<close>: an empty message counts as none.\<close>

definition policy_bundle_ready :: "world \<Rightarrow> world \<Rightarrow> life \<Rightarrow> policy_ready \<times> life" where
  "policy_bundle_ready u w st =
     (let (bundle, st1) = lifecycle_active u w st; (status, st2) = bootstrap_status u st1;
          ok = (bundle_ok bundle \<and> bo_error status = None);
          closed = (get_policy_failure_mode u = ''fail_closed'');
          ok1 = (if closed \<and> opt_str (bo_error status) \<noteq> [] then False else ok);
          ok2 = (if bo_fallback status \<and> closed then False else ok1)
      in (\<lparr>rd_ok = ok2, rd_digest = pb_digest bundle,
            rd_error = (if opt_str (bo_error status) \<noteq> [] then bo_error status else pb_error bundle),
            rd_fallback = bo_fallback status, rd_expected = bo_expected status, rd_active_gen = bo_active_gen status,
            rd_observed_gen = bo_observed_gen status\<rparr>, st2))"

definition ping :: "db \<Rightarrow> bool" where
  "ping s = db_up s"

definition readyz :: "world \<Rightarrow> world \<Rightarrow> (life, policy_ready) opn" where
  "readyz u w st =
     (let store_ok = ping (lf_db st); (ready, st1) = policy_bundle_ready u w st in
      if \<not> store_ok \<or> \<not> rd_ok ready then (Inl (HttpError 503 ''not ready''), st1) else (Inr ready, st1))"

record operator_health =
  oh_status :: string
  oh_ready :: bool
  oh_store_ok :: bool
  oh_policy_ok :: bool

definition health :: "world \<Rightarrow> world \<Rightarrow> life \<Rightarrow> operator_health \<times> life" where
  "health u w st =
     (let store_ok = ping (lf_db st); (ready, st1) = policy_bundle_ready u w st; ok = (store_ok \<and> rd_ok ready) in
      (\<lparr>oh_status = (if ok then ''ok'' else ''degraded''), oh_ready = ok, oh_store_ok = store_ok, oh_policy_ok = rd_ok ready\<rparr>, st1))"

subsection \<open>Who may change policies\<close>

lemma required_role:
  assumes "require_roles ac headers roles = Inr subject" "is_jwt_verify_enabled ac"
  obtains token claims role where "presented_token headers = Some token" "tk_verified ac token = Some claims"
    "role \<in> set roles" "role \<in> set (roles_from_claims ac claims)"
proof -
  from assms(1) have "require_any_role ac headers roles = Inr subject" by (simp add: require_roles_def)
  then obtain claims where c: "require_bearer_claims ac headers = Inr claims" "principal_has_any_role ac claims roles"
    using assms(2) by (auto simp: require_any_role_def rbind_Inr Let_def split: if_splits)
  obtain token where "presented_token headers = Some token" "tk_verified ac token = Some claims"
    by (rule required_token [OF c(1) assms(2)])
  with c(2) that show thesis by (auto simp: principal_has_any_role_def list_ex_iff)
qed

text \<open>The calls of the API that may write: to the store, to the bundle the process enforces, to its candidates.\<close>

inductive policy_call :: "access_env \<Rightarrow> names \<Rightarrow> life \<Rightarrow> life \<Rightarrow> bool" where
  validate: "policy_call ac headers st (snd (validate_bundle ac headers dr w p st))"
| simulate: "policy_call ac headers st (snd (simulate_bundle ac headers dr sm u w bid limit st))"
| activate: "policy_call ac headers st (snd (activate_bundle_endpoint ac headers dr u w bid st))"
| rollback: "policy_call ac headers st (snd (rollback_bundle ac headers dr u w w' st))"

lemma guarded_unchanged:
  "snd (bnd (lift_result (require_roles ac headers roles)) f st) \<noteq> st \<Longrightarrow> \<exists>subject. require_roles ac headers roles = Inr subject"
  by (cases "require_roles ac headers roles") (simp_all add: bnd_def)


lemma reload_needs_no_role:
  "policy_bundle_reload w st = (Inr (load_root w (wd_default_root w)), st\<lparr>lf_bundle := Some (load_root w (wd_default_root w))\<rparr>)"
  by (simp add: policy_bundle_reload_def total_op_def reload_policy_bundle_def Let_def)

subsection \<open>Ready means up to date\<close>

lemma status_unchanged:
  assumes "lf_bundle st = Some b" "bootstrap_status u st = (status, st')"
  shows "st' = st" "bo_error status = lf_error st" "bo_fallback status = lf_fallback st" "bo_observed_gen status = lf_observed_gen st"
    "bo_active_gen status = lf_active_gen st"
proof -
  have g: "get_policy_bundle u st = (b, st)" using assms(1) by (simp add: get_policy_bundle_def)
  then show "st' = st" "bo_error status = lf_error st" "bo_fallback status = lf_fallback st" "bo_observed_gen status = lf_observed_gen st"
    "bo_active_gen status = lf_active_gen st"
    using assms(2) by (auto simp: bootstrap_status_def Let_def split: if_splits)
qed

text \<open>C34: A ready process enforces the active policies. When \<open>/readyz\<close> answers 200, the store is up, no error is on record,
  the bundle in force is valid, and where the store has an active bundle, it has the digest of that bundle and the
  process is in its generation.\<close>

theorem ready_enforces_active:
  assumes "readyz u w st = (Inr ready, st')"
  shows "db_up (lf_db st) \<and> lf_error st' = None \<and> (\<exists>b. lf_bundle st' = Some b \<and> bundle_ok b \<and> rd_digest ready = pb_digest b \<and>
    (\<forall>r. active_row (lf_db st) = Some r \<longrightarrow> pb_digest b = b_digest r \<and> rd_observed_gen ready = gen_of r))"
proof -
  obtain x st1 where s: "sync_active_from_store False u w st = (x, st1)" by (metis prod.exhaust)
  let ?b = "enforced u st1" and ?st2 = "st1\<lparr>lf_bundle := Some (enforced u st1)\<rparr>"
  obtain status st3 where t: "bootstrap_status u ?st2 = (status, st3)" by (metis prod.exhaust)
  note status = status_unchanged [OF _ t, of ?b, simplified]
  from assms s t have facts: "db_up (lf_db st)" "bundle_ok ?b" "bo_error status = None" "st' = st3" "rd_digest ready = pb_digest ?b"
    "rd_observed_gen ready = bo_observed_gen status"
    by (auto simp: readyz_def policy_bundle_ready_def lifecycle_active_def get_policy_bundle_eq ping_def Let_def split: if_splits)
  have "pb_digest ?b = b_digest r \<and> lf_observed_gen st1 = gen_of r" if "active_row (lf_db st) = Some r" for r
    using s
  proof (cases rule: sync_cases)
    case (failed r e st1')
    with facts(3) status(2) show ?thesis by simp
  qed (use that facts(1) in \<open>auto simp: install_effect load_active_Inr enforced_def\<close>)
  with facts status show ?thesis by auto
qed

subsection \<open>Examples\<close>

definition admin_claims :: pyobj where
  "admin_claims = [(''sub'', PStr ''ops''), (''preferred_username'', PStr ''ops''), (''roles'', PList [PStr ''platform-admin''])]"

definition admin_access :: access_env where
  "admin_access = \<lparr>ac_env = [(''OIDC_JWT_VERIFY'', ''true''), (''OIDC_JWKS_URL'', ''u'')],
     tk_verified = (\<lambda>t. if t = ''tok'' then Some admin_claims else None), tk_unsigned = (\<lambda>_. None)\<rparr>"

lemma admin_validates: "is_jwt_verify_enabled admin_access"
  "lf_candidates (snd (validate_bundle admin_access demo_headers start_draws demo_world
     \<lparr>sr_type = ''filesystem'', sr_path = ''/app'', sr_reference = [], sr_digest = [], sr_verify = None\<rparr> demo_life)) \<noteq> lf_candidates demo_life"
  by code_simp+


lemma demo_ready: "case readyz demo_world demo_world demo_life of (Inl e, st) \<Rightarrow> False | (Inr r, st) \<Rightarrow> True"
  by code_simp

theorem ready_enforces_active_witness:
  "\<exists>ready st b r. readyz demo_world demo_world demo_life = (Inr ready, st) \<and> lf_bundle st = Some b \<and>
    active_row (lf_db demo_life) = Some r \<and> pb_digest b = b_digest r"
proof -
  obtain x st where x: "readyz demo_world demo_world demo_life = (x, st)" by (metis prod.exhaust)
  obtain ready where "x = Inr ready" using demo_ready [unfolded x prod.case] by (cases x) simp_all
  moreover obtain r where "active_row (lf_db demo_life) = Some r" using demo_start(4) by blast
  ultimately show ?thesis using ready_enforces_active [of demo_world demo_world demo_life ready st] x by blast
qed

end
