(* ===== verification/Capability_Api.thy ===== *)
theory Capability_Api
  imports Capability_Service Policy_Api
begin

text \<open>
  The endpoints for capability contracts (\<open>routers/capabilities.py\<close>): who may import, activate and retire
  contracts, and which contracts a caller sees.
\<close>

subsection \<open>The endpoints\<close>

definition contract_to_dict :: "cap_row \<Rightarrow> pyobj" where
  "contract_to_dict r =
     [(''contract_id'', PStr (c_id r)), (''kind'', PStr (c_kind r)), (''name'', PStr (c_name r)), (''tenant_id'', PStr (c_tenant_id r)),
      (''status'', PStr (c_status r)), (''version'', PStr (c_version r)), (''content_digest'', PStr (c_digest r)),
      (''capabilities'', PDict (c_capabilities r)), (''source'', PStr (c_source r)), (''created_at'', PStr (c_created_at r)),
      (''updated_at'', PStr (c_updated_at r)), (''activated_at'', case c_activated_at r of None \<Rightarrow> PNone | Some t \<Rightarrow> PStr t)]"

definition capability_readers :: "string list" where
  "capability_readers = [''platform-admin'', ''tenant-admin'', ''auditor'', ''viewer'']"

record sync_request =
  sq_tenant_id :: string
  sq_activate :: bool

type_synonym registry_draws = "((string \<times> instant \<times> instant) \<times> string \<times> pyobj) list"

definition sync_capabilities ::
  "access_env \<Rightarrow> (string \<Rightarrow> string) \<Rightarrow> registry_draws \<Rightarrow> registry_draws \<Rightarrow> names \<Rightarrow> sync_request option \<Rightarrow>
   (db, nat \<times> pyobj list) opn" where
  "sync_capabilities ac sha agents tools headers payload =
     bnd (lift_result (require_roles ac headers [''platform-admin''])) (\<lambda>_.
       let body = (case payload of None \<Rightarrow> \<lparr>sq_tenant_id = ''platform'', sq_activate = False\<rparr> | Some b \<Rightarrow> b) in
       bnd (rethrow http_503 (sync_from_filesystem sha (str_or (sq_tenant_id body) ''platform'') (sq_activate body) agents tools))
         (\<lambda>rs. ret (length rs, map contract_to_dict rs)))"

definition list_capabilities ::
  "access_env \<Rightarrow> bool \<Rightarrow> names \<Rightarrow> string \<Rightarrow> string \<Rightarrow> string \<Rightarrow> string option \<Rightarrow> int \<Rightarrow> int \<Rightarrow> (db, cap_row page) opn" where
  "list_capabilities ac isolation headers kind status name tenant_id limit offset =
     bnd (lift_result (require_roles ac headers capability_readers)) (\<lambda>_.
     bnd (lift_result (tenant_for_request ac isolation headers tenant_id [])) (\<lambda>tenant.
       rethrow http_503 (list_capability_contracts kind status name tenant limit offset)))"

definition list_active_capabilities ::
  "access_env \<Rightarrow> bool \<Rightarrow> names \<Rightarrow> string \<Rightarrow> string option \<Rightarrow> (db, cap_row list) opn" where
  "list_active_capabilities ac isolation headers kind tenant_id =
     bnd (lift_result (require_roles ac headers capability_readers)) (\<lambda>_.
     bnd (lift_result (tenant_for_request ac isolation headers tenant_id [])) (\<lambda>tenant.
       rethrow http_503 (get_active_capabilities kind tenant)))"

definition get_capability :: "access_env \<Rightarrow> bool \<Rightarrow> names \<Rightarrow> string \<Rightarrow> (db, cap_row) opn" where
  "get_capability ac isolation headers cid =
     bnd (lift_result (require_roles ac headers capability_readers)) (\<lambda>_.
     bnd (lift_result (tenant_for_request ac isolation headers None [])) (\<lambda>tenant.
     bnd (rethrow http_503 (get_capability_contract cid tenant)) (\<lambda>rec.
       case rec of None \<Rightarrow> throw (HttpError 404 ''capability contract not found'') | Some r \<Rightarrow> ret r)))"

definition http_contract :: "exn \<Rightarrow> exn" where
  "http_contract e =
     (case e of StoreUnavailable \<Rightarrow> store_unavailable | KeyError _ \<Rightarrow> HttpError 404 ''capability contract not found'' | _ \<Rightarrow> e)"

definition activate_capability :: "access_env \<Rightarrow> names \<Rightarrow> instant \<Rightarrow> string \<Rightarrow> (db, cap_row) opn" where
  "activate_capability ac headers now cid =
     bnd (lift_result (require_roles ac headers [''platform-admin''])) (\<lambda>_.
       rethrow http_contract (set_capability_contract_status now cid ''active''))"

definition retire_capability :: "access_env \<Rightarrow> names \<Rightarrow> instant \<Rightarrow> string \<Rightarrow> (db, cap_row) opn" where
  "retire_capability ac headers now cid =
     bnd (lift_result (require_roles ac headers [''platform-admin''])) (\<lambda>_.
       rethrow http_contract (set_capability_contract_status now cid ''retired''))"

subsection \<open>Who sees and changes what\<close>

text \<open>A call of the API, with the contracts it returns and the store it leaves.\<close>

inductive capability_call :: "access_env \<Rightarrow> names \<Rightarrow> db \<Rightarrow> cap_row list \<Rightarrow> db \<Rightarrow> bool" for ac headers s where
  sync: "snd (sync_capabilities ac sha agents tools headers payload s) = s' \<Longrightarrow> capability_call ac headers s [] s'"
| activate: "snd (activate_capability ac headers now cid s) = s' \<Longrightarrow> capability_call ac headers s [] s'"
| retire: "snd (retire_capability ac headers now cid s) = s' \<Longrightarrow> capability_call ac headers s [] s'"
| listing: "list_capabilities ac True headers kind status name tenant_id limit offset s = (Inr p, s') \<Longrightarrow>
    capability_call ac headers s (pg_items p) s'"
| active: "list_active_capabilities ac True headers kind tenant_id s = (Inr rs, s') \<Longrightarrow> capability_call ac headers s rs s'"
| single: "get_capability ac True headers cid s = (Inr r, s') \<Longrightarrow> capability_call ac headers s [r] s'"

lemma reader_claims:
  assumes "require_roles ac headers roles = Inr subject" "is_jwt_verify_enabled ac"
  obtains token claims role where "presented_token headers = Some token" "tk_verified ac token = Some claims"
    "role \<in> set roles" "role \<in> set (roles_from_claims ac claims)" "require_bearer_claims ac headers = Inr claims"
proof -
  obtain token claims role where r: "presented_token headers = Some token" "tk_verified ac token = Some claims"
    "role \<in> set roles" "role \<in> set (roles_from_claims ac claims)" by (rule required_role [OF assms])
  have "require_any_role ac headers roles = Inr subject" using assms(1) by (simp add: require_roles_def)
  then obtain claims' where c: "require_bearer_claims ac headers = Inr claims'"
    using assms(2) by (auto simp: require_any_role_def rbind_Inr Let_def split: if_splits)
  then obtain token' where "presented_token headers = Some token'" "tk_verified ac token' = Some claims'"
    by (rule required_token [OF _ assms(2)])
  with r(1,2) c have "require_bearer_claims ac headers = Inr claims" by simp
  with r show thesis by (rule that)
qed

text \<open>The tenant of a token without a role that crosses tenants.\<close>

definition scoped_tenant :: "access_env \<Rightarrow> names \<Rightarrow> pyobj \<Rightarrow> string option \<Rightarrow> bool" where
  "scoped_tenant ac headers claims tenant \<longleftrightarrow>
     list_ex (\<lambda>r. r \<in> set cross_tenant_roles) (roles_from_claims ac claims) \<or>
     (\<exists>t. t \<noteq> [] \<and> tenant = Some t \<and> resolve_request_tenant ac headers = Inr t)"

lemma tenant_for_request_scoped:
  assumes "tenant_for_request ac True headers q b = Inr tenant" "is_jwt_verify_enabled ac" "require_bearer_claims ac headers = Inr claims"
  shows "scoped_tenant ac headers claims tenant"
  using assms by (auto simp: tenant_for_request_def rbind_Inr Let_def scoped_tenant_def split: if_splits)

lemma listed_in_tenant:
  assumes "list_capability_contracts kind status name tenant limit offset s = (Inr p, s')"
  shows "s' = s \<and> (\<forall>r\<in>set (pg_items p). r \<in> set (capability_contracts s) \<and> (\<forall>t. tenant = Some t \<longrightarrow> c_tenant_id r = t))"
  using assms
  by (auto simp: list_capability_contracts_def with_db_def make_page_def limit_offset_def order_desc_def cap_matches_def
      dest!: in_set_takeD in_set_dropD split: if_splits)

lemma admin_changes:
  assumes "\<exists>subject. require_roles ac headers [''platform-admin''] = Inr subject" "is_jwt_verify_enabled ac" "rs = []"
  shows "\<exists>token claims. presented_token headers = Some token \<and> tk_verified ac token = Some claims \<and>
    (s' \<noteq> s \<longrightarrow> rs = [] \<and> ''platform-admin'' \<in> set (roles_from_claims ac claims)) \<and>
    (rs \<noteq> [] \<longrightarrow> (\<exists>role\<in>set capability_readers. role \<in> set (roles_from_claims ac claims)) \<and>
      (list_ex (\<lambda>r. r \<in> set cross_tenant_roles) (roles_from_claims ac claims) \<or>
       (\<exists>t. resolve_request_tenant ac headers = Inr t \<and> (\<forall>r\<in>set rs. c_tenant_id r = t))))"
proof -
  obtain subject where "require_roles ac headers [''platform-admin''] = Inr subject" using assms(1) ..
  then obtain token claims role where "presented_token headers = Some token" "tk_verified ac token = Some claims"
    "role \<in> set [''platform-admin'']" "role \<in> set (roles_from_claims ac claims)"
    by (rule required_role [OF _ assms(2)])
  with assms(3) show ?thesis by simp
qed

lemma readers_see_own:
  assumes "require_roles ac headers capability_readers = Inr subject" "is_jwt_verify_enabled ac"
    "tenant_for_request ac True headers q [] = Inr tenant" "s' = s" "\<forall>r\<in>set rs. \<forall>t. tenant = Some t \<longrightarrow> c_tenant_id r = t"
  shows "\<exists>token claims. presented_token headers = Some token \<and> tk_verified ac token = Some claims \<and>
    (s' \<noteq> s \<longrightarrow> rs = [] \<and> ''platform-admin'' \<in> set (roles_from_claims ac claims)) \<and>
    (rs \<noteq> [] \<longrightarrow> (\<exists>role\<in>set capability_readers. role \<in> set (roles_from_claims ac claims)) \<and>
      (list_ex (\<lambda>r. r \<in> set cross_tenant_roles) (roles_from_claims ac claims) \<or>
       (\<exists>t. resolve_request_tenant ac headers = Inr t \<and> (\<forall>r\<in>set rs. c_tenant_id r = t))))"
proof -
  obtain token claims role where r: "presented_token headers = Some token" "tk_verified ac token = Some claims"
    "role \<in> set capability_readers" "role \<in> set (roles_from_claims ac claims)" and c: "require_bearer_claims ac headers = Inr claims"
    by (rule reader_claims [OF assms(1,2)])
  from tenant_for_request_scoped [OF assms(3,2) c] assms(5)
  have "list_ex (\<lambda>r. r \<in> set cross_tenant_roles) (roles_from_claims ac claims) \<or>
       (\<exists>t. resolve_request_tenant ac headers = Inr t \<and> (\<forall>r\<in>set rs. c_tenant_id r = t))"
    by (auto simp: scoped_tenant_def)
  with r assms(4) show ?thesis by blast
qed


subsection \<open>Examples\<close>

lemma admin_activates: "is_jwt_verify_enabled admin_access"
  "capability_contracts (snd (activate_capability admin_access demo_headers 5 ''c2'' demo_caps)) \<noteq> capability_contracts demo_caps"
  by code_simp+


end
