(* ===== verification/Gitops_Provider.thy ===== *)
theory Gitops_Provider
  imports Remediation_Service Json
begin

text \<open>
  Opening a draft pull request, \<open>gitops_provider.py\<close>. The GitHub server is a parameter: a function from a request and
  its own state to a reply and the next state; nothing is assumed of it. The wire keeps the requests that were sent, in
  order, so that properties can speak of them. A \<open>RuntimeError\<close> stands for \<open>GitOpsProviderError\<close>.
\<close>

subsection \<open>The wire\<close>

datatype http_method = GET | POST | PUT

record http_request =
  hr_method :: http_method
  hr_path :: string
  hr_params :: "(string \<times> string) list"
  hr_json :: "pyobj option"

text \<open>No reply is \<open>httpx.HTTPError\<close>; the body of a reply is \<open>None\<close> when it is not JSON.\<close>

datatype reply = NoReply string | Reply int "pyval option" string

type_synonym 'g server = "http_request \<Rightarrow> 'g \<Rightarrow> reply \<times> 'g"

record 'g wire =
  wr_state :: 'g
  wr_sent :: "http_request list"

definition send :: "'g server \<Rightarrow> http_request \<Rightarrow> ('g wire, int \<times> pyval option \<times> string) opn" where
  "send srv rq st =
     (case srv rq (wr_state st) of (rp, g) \<Rightarrow>
        let st' = \<lparr>wr_state = g, wr_sent = wr_sent st @ [rq]\<rparr> in
        case rp of
          NoReply m \<Rightarrow> (Inl (RuntimeError (''GitHub API request failed: '' @ m)), st')
        | Reply code body text \<Rightarrow> (Inr (code, body, text), st'))"

definition from_result :: "'a result \<Rightarrow> ('s, 'a) opn" where
  "from_result r st = (r, st)"

text \<open>\<open>response.json()\<close>, and the error text of a reply.\<close>

definition json_body :: "pyval option \<Rightarrow> pyval result" where
  "json_body body = (case body of None \<Rightarrow> Inl (ValueError ''Expecting value'') | Some v \<Rightarrow> Inr v)"

definition http_error :: "string \<Rightarrow> int \<Rightarrow> string \<Rightarrow> exn" where
  "http_error what code text = RuntimeError (what @ '': HTTP '' @ int_str code @ '' '' @ take 200 text)"

subsection \<open>Texts\<close>

definition utf8 :: "string \<Rightarrow> nat list" where
  "utf8 s = concat (map (\<lambda>c. let n = of_char c in if n < 128 then [n] else [192 + n div 64, 128 + n mod 64]) s)"

definition base64_char :: "nat \<Rightarrow> char" where
  "base64_char n =
     (if n < 26 then char_of (65 + n) else if n < 52 then char_of (71 + n) else if n < 62 then char_of (n - 4)
      else if n = 62 then CHR ''+'' else CHR ''/'')"

fun base64 :: "nat list \<Rightarrow> string" where
  "base64 (a # b # c # rest) =
     (let n = a * 65536 + b * 256 + c in
      [base64_char (n div 262144), base64_char (n div 4096 mod 64), base64_char (n div 64 mod 64), base64_char (n mod 64)] @ base64 rest)"
| "base64 [a, b] =
     (let n = a * 1024 + b * 4 in [base64_char (n div 4096), base64_char (n div 64 mod 64), base64_char (n mod 64), CHR ''=''])"
| "base64 [a] = (let n = a * 16 in [base64_char (n div 64), base64_char (n mod 64), CHR ''='', CHR ''=''])"
| "base64 [] = []"

text \<open>\<open>json.dumps(v, indent=2)\<close>; with \<open>sort_keys\<close> it is applied to \<open>canon v\<close>.\<close>

definition line_feed :: string where "line_feed = [CHR 0x0A]"

definition spaces :: "nat \<Rightarrow> string" where "spaces n = replicate n (CHR '' '')"

fun json_pretty :: "nat \<Rightarrow> pyval \<Rightarrow> string" where
  "json_pretty n (PList xs) =
     (if xs = [] then ''[]''
      else ''['' @ line_feed @ join_with ('','' @ line_feed) (map (\<lambda>x. spaces (n + 2) @ json_pretty (n + 2) x) xs) @ line_feed @ spaces n @ '']'')"
| "json_pretty n (PDict d) =
     (if d = [] then ''{}''
      else ''{'' @ line_feed @ join_with ('','' @ line_feed)
        (map (\<lambda>(k, v). spaces (n + 2) @ json_str k @ '': '' @ json_pretty (n + 2) v) d) @ line_feed @ spaces n @ ''}'')"
| "json_pretty n v = json_text v"

definition action_of :: "pr_request \<Rightarrow> pyobj" where
  "action_of rq = (case pq_action rq of None \<Rightarrow> [] | Some a \<Rightarrow> a)"

definition action_text :: "pr_request \<Rightarrow> string \<Rightarrow> string \<Rightarrow> string" where
  "action_text rq k fallback = py_str (or_else (get_none (action_of rq) k) (PStr fallback))"

definition remediation_payload :: "pr_request \<Rightarrow> pyval" where
  "remediation_payload rq =
     (let kind = str_or (pq_kind rq) (action_text rq ''kind'' ''update_inventory'');
          model = action_text rq ''model'' []; backend = action_text rq ''backend'' ''ollama''
      in PDict [
        (''remediation'', PDict ([(''proposal_id'', PStr (pq_proposal_id rq)), (''tenant_id'', PStr (str_or (pq_tenant_id rq) ''platform'')),
            (''kind'', PStr kind), (''backend'', PStr backend)] @ (if model = [] then [] else [(''model'', PStr model)]))),
        (''aiControlPlane'', PDict [
          (''inventory'', PDict [(''models'', PList (if model = [] then [] else [PStr model])), (''desiredAction'', PStr kind)]),
          (''resources'', PDict [
            (''limits'', PDict [(''cpu'', PStr (if kind = ''pull_model'' then ''500m'' else ''250m'')),
               (''memory'', PStr (if kind = ''pull_model'' then ''1Gi'' else ''512Mi''))]),
            (''replicas'', PInt (if kind \<in> {''pull_model'', ''update_inventory''} then 2 else 1))]),
          (''policy'', PDict [(''quotaOnUnavailable'', PStr ''approval_required''), (''verifySignature'', PBool True)])])])"

definition render_remediation_manifest :: "pr_request \<Rightarrow> string" where
  "render_remediation_manifest rq =
     ''# Generated by AI Infrastructure Control Plane remediation flow.'' @ line_feed @
     ''# proposal_id: '' @ pq_proposal_id rq @ line_feed @ json_pretty 0 (canon (remediation_payload rq)) @ line_feed"

definition render_note :: "pr_request \<Rightarrow> string" where
  "render_note rq =
     ''# Remediation proposal `'' @ pq_proposal_id rq @ ''`'' @ line_feed @ line_feed @
     ''- Tenant: `'' @ str_or (pq_tenant_id rq) ''n/a'' @ ''`'' @ line_feed @
     ''- Kind: `'' @ str_or (pq_kind rq) ''n/a'' @ ''`'' @ line_feed @ line_feed @ pq_body rq @ line_feed"

subsection \<open>The provider\<close>

record github =
  gh_owner :: string
  gh_repo :: string
  gh_base :: string
  gh_draft :: bool

record pr_result =
  rs_url :: "string option"
  rs_provider :: string
  rs_draft :: bool
  rs_created :: bool
  rs_detail :: string
  rs_head_sha :: string

definition repo_path :: "github \<Rightarrow> string \<Rightarrow> string" where
  "repo_path gh rest = ''/repos/'' @ gh_owner gh @ ''/'' @ gh_repo gh @ rest"

definition get_request :: "string \<Rightarrow> (string \<times> string) list \<Rightarrow> http_request" where
  "get_request path params = \<lparr>hr_method = GET, hr_path = path, hr_params = params, hr_json = None\<rparr>"

definition write_request :: "http_method \<Rightarrow> string \<Rightarrow> pyobj \<Rightarrow> http_request" where
  "write_request m path payload = \<lparr>hr_method = m, hr_path = path, hr_params = [], hr_json = Some payload\<rparr>"

text \<open>\<open>((payload.get(k) or {}).get(k')) or ""\<close>.\<close>

definition nested_text :: "pyval \<Rightarrow> string \<Rightarrow> string \<Rightarrow> pyval result" where
  "nested_text v k k' =
     rbind (get_attr v k PNone) (\<lambda>x. rbind (get_attr (or_else x (PDict [])) k' PNone) (\<lambda>y. Inr (or_else y (PStr []))))"

definition default_branch_sha :: "github \<Rightarrow> 'g server \<Rightarrow> ('g wire, string) opn" where
  "default_branch_sha gh srv =
     bnd (send srv (get_request (repo_path gh (''/git/ref/heads/'' @ gh_base gh)) [])) (\<lambda>(code, body, text).
       if 400 \<le> code then throw (http_error (''failed to resolve base branch '' @ gh_base gh) code text)
       else bnd (from_result (rbind (json_body body) (\<lambda>v. nested_text v ''object'' ''sha''))) (\<lambda>sha.
         if \<not> truthy sha then throw (RuntimeError ''base branch SHA missing'') else ret (py_str sha)))"

definition ensure_branch :: "github \<Rightarrow> 'g server \<Rightarrow> string \<Rightarrow> string \<Rightarrow> ('g wire, unit) opn" where
  "ensure_branch gh srv branch sha =
     bnd (send srv (get_request (repo_path gh (''/git/ref/heads/'' @ branch)) [])) (\<lambda>(code, _, _).
       if code = 200 then ret ()
       else bnd (send srv (write_request POST (repo_path gh ''/git/refs'')
                   [(''ref'', PStr (''refs/heads/'' @ branch)), (''sha'', PStr sha)])) (\<lambda>(code, _, text).
         if 400 \<le> code then throw (http_error (''failed to create branch '' @ branch) code text) else ret ()))"

definition put_file :: "github \<Rightarrow> 'g server \<Rightarrow> string \<Rightarrow> string \<Rightarrow> string \<Rightarrow> string \<Rightarrow> ('g wire, unit) opn" where
  "put_file gh srv path content branch message =
     (let url = repo_path gh (''/contents/'' @ path);
          payload = [(''message'', PStr message), (''content'', PStr (base64 (utf8 content))), (''branch'', PStr branch)]
      in bnd (send srv (get_request url [(''ref'', branch)])) (\<lambda>(code, body, _).
         bnd (from_result (if code = 200 then rbind (json_body body) (\<lambda>v. get_attr v ''sha'' PNone) else Inr PNone)) (\<lambda>sha.
         bnd (send srv (write_request PUT url (if truthy sha then payload @ [(''sha'', sha)] else payload))) (\<lambda>(code, _, text).
           if 400 \<le> code then throw (http_error (''failed to commit remediation file '' @ path) code text) else ret ()))))"

definition first_dict :: "pyval \<Rightarrow> pyobj option" where
  "first_dict v = (case v of PList (PDict d # _) \<Rightarrow> Some d | _ \<Rightarrow> None)"

definition find_open_pull_request :: "github \<Rightarrow> 'g server \<Rightarrow> string \<Rightarrow> ('g wire, pyobj option) opn" where
  "find_open_pull_request gh srv head =
     bnd (send srv (get_request (repo_path gh ''/pulls'')
            [(''state'', ''open''), (''head'', gh_owner gh @ '':'' @ head), (''base'', gh_base gh)])) (\<lambda>(code, body, text).
       if 400 \<le> code then throw (http_error ''failed to list pull requests'' code text)
       else bnd (from_result (json_body body)) (\<lambda>v. ret (first_dict v)))"

definition dict_of :: "pyval \<Rightarrow> pyobj result" where
  "dict_of v = (case v of PDict d \<Rightarrow> Inr d | _ \<Rightarrow> Inl (RuntimeError ''unexpected GitHub pulls response''))"

definition opened_pull_request :: "int \<times> pyval option \<times> string \<Rightarrow> ('g wire, pyobj) opn" where
  "opened_pull_request r =
     (case r of (code, body, text) \<Rightarrow>
        if 400 \<le> code then throw (http_error ''failed to create pull request'' code text)
        else from_result (rbind (json_body body) dict_of))"

definition create_pull_request :: "github \<Rightarrow> 'g server \<Rightarrow> string \<Rightarrow> string \<Rightarrow> string \<Rightarrow> ('g wire, pyobj) opn" where
  "create_pull_request gh srv title body head =
     bnd (send srv (write_request POST (repo_path gh ''/pulls'')
            [(''title'', PStr title), (''body'', PStr body), (''head'', PStr head), (''base'', PStr (gh_base gh)),
             (''draft'', PBool (gh_draft gh))])) (\<lambda>r.
       if fst r = 422
       then bnd (find_open_pull_request gh srv head) (\<lambda>existing.
         case existing of Some d \<Rightarrow> ret d | None \<Rightarrow> opened_pull_request r)
       else opened_pull_request r)"

definition branch_of :: "pr_request \<Rightarrow> string" where
  "branch_of rq = ''remediation/'' @ pq_proposal_id rq"

definition file_of :: "pr_request \<Rightarrow> string \<Rightarrow> string" where
  "file_of rq name = ''remediation/proposals/'' @ pq_proposal_id rq @ ''/'' @ name"

definition pr_result_of :: "github \<Rightarrow> bool \<Rightarrow> string \<Rightarrow> string \<Rightarrow> pyobj \<Rightarrow> pr_result result" where
  "pr_result_of gh created detail missing d =
     (let url = py_str (or_else (get_none d ''html_url'') (PStr [])) in
      if url = [] then Inl (RuntimeError missing)
      else rbind (nested_text (PDict d) ''head'' ''sha'') (\<lambda>sha.
        Inr \<lparr>rs_url = Some url, rs_provider = ''github'', rs_draft = truthy (get_default d ''draft'' (PBool (gh_draft gh))),
             rs_created = created, rs_detail = detail, rs_head_sha = py_str sha\<rparr>))"

definition create_draft_pull_request :: "github \<Rightarrow> 'g server \<Rightarrow> pr_request \<Rightarrow> ('g wire, pr_result) opn" where
  "create_draft_pull_request gh srv rq =
     (let branch = branch_of rq in
      bnd (find_open_pull_request gh srv branch) (\<lambda>existing.
      bnd (default_branch_sha gh srv) (\<lambda>sha.
      bnd (ensure_branch gh srv branch sha) (\<lambda>_.
      bnd (put_file gh srv (file_of rq ''values.patch.yaml'') (render_remediation_manifest rq) branch
             (''fix: remediation manifest for '' @ pq_proposal_id rq)) (\<lambda>_.
      bnd (put_file gh srv (file_of rq ''README.md'') (render_note rq) branch
             (''docs: remediation note for '' @ pq_proposal_id rq)) (\<lambda>_.
        case existing of
          Some d \<Rightarrow> from_result (pr_result_of gh False ''reused existing open pull request'' ''existing pull request missing html_url'' d)
        | None \<Rightarrow> bnd (create_pull_request gh srv (pq_title rq) (pq_body rq) branch) (\<lambda>d.
            from_result (pr_result_of gh True ''draft pull request created'' ''GitHub pull request missing html_url'' d))))))))"

subsection \<open>Choosing a provider\<close>

definition env_text :: "(string \<times> string) list \<Rightarrow> string \<Rightarrow> string \<Rightarrow> string" where
  "env_text env k fallback = py_strip (get_default env k fallback)"

definition env_switch :: "(string \<times> string) list \<Rightarrow> string \<Rightarrow> bool \<Rightarrow> bool" where
  "env_switch env k fallback =
     (let raw = env_text env k [] in if raw = [] then fallback else py_lower raw \<in> {''1'', ''true'', ''yes'', ''on''})"

definition resolve_gitops_provider_name :: "(string \<times> string) list \<Rightarrow> string" where
  "resolve_gitops_provider_name env =
     (let chosen = py_lower (env_text env ''GITOPS_PROVIDER'' []) in
      if chosen \<in> {''noop'', ''null'', ''none''} then ''noop''
      else if chosen = ''github'' then ''github''
      else if env_text env ''GITHUB_TOKEN'' [] \<noteq> [] \<and> env_text env ''GITHUB_REPOSITORY'' [] \<noteq> [] then ''github''
      else ''noop'')"

definition new_github :: "string \<Rightarrow> string \<Rightarrow> bool \<Rightarrow> github result" where
  "new_github repository base draft =
     (case partition_char (CHR ''/'') repository of (owner, found, repo) \<Rightarrow>
        if \<not> found then Inl (ValueError ''GITHUB_REPOSITORY must be owner/repo'')
        else Inr \<lparr>gh_owner = owner, gh_repo = repo, gh_base = base, gh_draft = draft\<rparr>)"

text \<open>\<open>None\<close> is \<open>NullGitOpsProvider\<close>.\<close>

definition build_gitops_provider :: "(string \<times> string) list \<Rightarrow> github option result" where
  "build_gitops_provider env =
     (if resolve_gitops_provider_name env \<noteq> ''github'' then Inr None
      else let token = env_text env ''GITHUB_TOKEN'' []; repo = env_text env ''GITHUB_REPOSITORY'' [] in
        if token = [] \<or> repo = [] then Inl (RuntimeError ''GITOPS_PROVIDER=github requires GITHUB_TOKEN and GITHUB_REPOSITORY'')
        else rbind (new_github repo (str_or (env_text env ''GITHUB_BASE_BRANCH'' ''main'') ''main'') (env_switch env ''GITHUB_PR_DRAFT'' True))
          (\<lambda>gh. Inr (Some gh)))"

definition null_result :: pr_result where
  "null_result = \<lparr>rs_url = None, rs_provider = ''noop'', rs_draft = True, rs_created = False, rs_detail = ''draft-only'', rs_head_sha = []\<rparr>"

definition open_pull_request :: "github option \<Rightarrow> 'g server \<Rightarrow> pr_request \<Rightarrow> ('g wire, pr_result) opn" where
  "open_pull_request provider srv rq =
     (case provider of None \<Rightarrow> ret null_result | Some gh \<Rightarrow> create_draft_pull_request gh srv rq)"

subsection \<open>What is sent\<close>

definition opens_pull_request :: "github \<Rightarrow> http_request \<Rightarrow> bool" where
  "opens_pull_request gh h \<longleftrightarrow> hr_method h = POST \<and> hr_path h = repo_path gh ''/pulls''"

definition field :: "http_request \<Rightarrow> string \<Rightarrow> pyval" where
  "field h k = (case hr_json h of None \<Rightarrow> PNone | Some d \<Rightarrow> get_none d k)"

text \<open>A request that reads, creates the branch of the proposal, commits one of its two files on that branch, or opens a
  pull request from that branch to the base branch.\<close>

definition confined :: "github \<Rightarrow> pr_request \<Rightarrow> http_request \<Rightarrow> bool" where
  "confined gh rq h \<longleftrightarrow> hr_method h = GET \<or>
     hr_method h = POST \<and> hr_path h = repo_path gh ''/git/refs'' \<and> field h ''ref'' = PStr (''refs/heads/'' @ branch_of rq) \<or>
     hr_method h = PUT \<and> field h ''branch'' = PStr (branch_of rq) \<and>
       (\<exists>file content. (file, content) \<in> {(''values.patch.yaml'', render_remediation_manifest rq), (''README.md'', render_note rq)} \<and>
         hr_path h = repo_path gh (''/contents/'' @ file_of rq file) \<and> field h ''content'' = PStr (base64 (utf8 content))) \<or>
     opens_pull_request gh h \<and> field h ''head'' = PStr (branch_of rq) \<and> field h ''base'' = PStr (gh_base gh) \<and>
       field h ''draft'' = PBool (gh_draft gh)"

definition sends :: "(http_request \<Rightarrow> bool) \<Rightarrow> ('g wire, 'a) opn \<Rightarrow> bool" where
  "sends P m \<longleftrightarrow> (\<forall>st. \<exists>hs. wr_sent (snd (m st)) = wr_sent st @ hs \<and> (\<forall>h\<in>set hs. P h))"

lemma sends_send [simp]: "sends P (send srv h) \<longleftrightarrow> P h"
proof -
  have "wr_sent (snd (send srv h st)) = wr_sent st @ [h]" for st
    by (simp add: send_def Let_def split: prod.split reply.split)
  then show ?thesis by (auto simp: sends_def)
qed

lemma sends_quiet: "sends P (ret x)" "sends P (throw e)" "sends P (from_result r)"
  by (simp_all add: sends_def ret_def throw_def from_result_def)

lemma sends_bnd: "sends P m \<Longrightarrow> (\<And>x. sends P (f x)) \<Longrightarrow> sends P (bnd m f)"
  unfolding sends_def
proof (intro allI)
  fix st assume m: "\<forall>st. \<exists>hs. wr_sent (snd (m st)) = wr_sent st @ hs \<and> (\<forall>h\<in>set hs. P h)"
    and f: "\<And>x. \<forall>st. \<exists>hs. wr_sent (snd (f x st)) = wr_sent st @ hs \<and> (\<forall>h\<in>set hs. P h)"
  obtain r st1 where r: "m st = (r, st1)" by (metis prod.exhaust)
  with m obtain hs where hs: "wr_sent st1 = wr_sent st @ hs" "\<forall>h\<in>set hs. P h" by (metis snd_conv)
  show "\<exists>hs. wr_sent (snd (bnd m f st)) = wr_sent st @ hs \<and> (\<forall>h\<in>set hs. P h)"
  proof (cases r)
    case (Inl e) with r hs show ?thesis by (simp add: bnd_def)
  next
    case (Inr x)
    from f obtain hs' where "wr_sent (snd (f x st1)) = wr_sent st1 @ hs'" "\<forall>h\<in>set hs'. P h" by blast
    with r hs Inr show ?thesis by (intro exI [of _ "hs @ hs'"]) (auto simp: bnd_def)
  qed
qed

lemma sends_if: "sends P m \<Longrightarrow> sends P m' \<Longrightarrow> sends P (if c then m else m')"
  by simp

lemma sends_case: "(\<And>a b c. sends P (f a b c)) \<Longrightarrow> sends P (case x of (a, b, c) \<Rightarrow> f a b c)"
  by (cases x) simp

lemmas sends_rules = sends_bnd sends_quiet sends_if sends_case

definition reads_only :: "http_request \<Rightarrow> bool" where
  "reads_only h \<longleftrightarrow> hr_method h = GET"

lemma sends_mono: "sends P m \<Longrightarrow> (\<And>h. P h \<Longrightarrow> Q h) \<Longrightarrow> sends Q m"
  unfolding sends_def by meson

lemma get_reads [simp]: "reads_only (get_request path params)"
  by (simp add: reads_only_def get_request_def)

lemma sends_reads:
  "sends reads_only (find_open_pull_request gh srv head)" "sends reads_only (default_branch_sha gh srv)"
  unfolding find_open_pull_request_def default_branch_sha_def by (auto intro!: sends_rules)

text \<open>The steps before the pull request write on the branch of the proposal only.\<close>

definition prepares :: "github \<Rightarrow> pr_request \<Rightarrow> http_request \<Rightarrow> bool" where
  "prepares gh rq h \<longleftrightarrow> confined gh rq h \<and> \<not> opens_pull_request gh h"

lemma repo_path_inj [simp]: "repo_path gh a = repo_path gh b \<longleftrightarrow> a = b"
  by (simp add: repo_path_def)

lemma reads_prepare: "reads_only h \<Longrightarrow> prepares gh rq h"
  by (simp add: reads_only_def prepares_def confined_def opens_pull_request_def)

lemma get_prepares [simp]: "prepares gh rq (get_request path params)"
  by (rule reads_prepare) simp

lemma branch_prepares:
  "prepares gh rq (write_request POST (repo_path gh ''/git/refs'') [(''ref'', PStr (''refs/heads/'' @ branch_of rq)), (''sha'', x)])"
  by (simp add: prepares_def confined_def opens_pull_request_def write_request_def field_def get_none_def get_default_def)

lemma file_prepares:
  assumes "(file, content) \<in> {(''values.patch.yaml'', render_remediation_manifest rq), (''README.md'', render_note rq)}"
  shows "prepares gh rq (write_request PUT (repo_path gh (''/contents/'' @ file_of rq file))
    ((''message'', m) # (''content'', PStr (base64 (utf8 content))) # (''branch'', PStr (branch_of rq)) # rest))"
proof -
  let ?h = "write_request PUT (repo_path gh (''/contents/'' @ file_of rq file))
    ((''message'', m) # (''content'', PStr (base64 (utf8 content))) # (''branch'', PStr (branch_of rq)) # rest)"
  have "hr_method ?h = PUT" "field ?h ''branch'' = PStr (branch_of rq)" "hr_path ?h = repo_path gh (''/contents/'' @ file_of rq file)"
    "field ?h ''content'' = PStr (base64 (utf8 content))"
    by (simp_all add: write_request_def field_def get_none_def get_default_def)
  with assms have "confined gh rq ?h" unfolding confined_def by blast
  then show ?thesis by (simp add: prepares_def opens_pull_request_def write_request_def)
qed

lemma sends_branch: "sends (prepares gh rq) (ensure_branch gh srv (branch_of rq) sha)"
  unfolding ensure_branch_def by (intro sends_rules) (simp_all only: sends_send get_prepares branch_prepares)

lemma sends_file:
  assumes "(file, content) \<in> {(''values.patch.yaml'', render_remediation_manifest rq), (''README.md'', render_note rq)}"
  shows "sends (prepares gh rq) (put_file gh srv (file_of rq file) content (branch_of rq) message)"
  unfolding put_file_def Let_def
  by (intro sends_rules) (use file_prepares [OF assms] in \<open>simp_all only: sends_send get_prepares append.simps split: if_split, simp_all\<close>)

text \<open>Everything up to the pull request, which needs no reply of an opening request.\<close>

definition prepare_branch :: "github \<Rightarrow> 'g server \<Rightarrow> pr_request \<Rightarrow> ('g wire, pyobj option) opn" where
  "prepare_branch gh srv rq =
     bnd (find_open_pull_request gh srv (branch_of rq)) (\<lambda>existing.
     bnd (default_branch_sha gh srv) (\<lambda>sha.
     bnd (ensure_branch gh srv (branch_of rq) sha) (\<lambda>_.
     bnd (put_file gh srv (file_of rq ''values.patch.yaml'') (render_remediation_manifest rq) (branch_of rq)
            (''fix: remediation manifest for '' @ pq_proposal_id rq)) (\<lambda>_.
     bnd (put_file gh srv (file_of rq ''README.md'') (render_note rq) (branch_of rq)
            (''docs: remediation note for '' @ pq_proposal_id rq)) (\<lambda>_. ret existing)))))"

lemma create_split:
  "create_draft_pull_request gh srv rq = bnd (prepare_branch gh srv rq) (\<lambda>existing.
     case existing of
       Some d \<Rightarrow> from_result (pr_result_of gh False ''reused existing open pull request'' ''existing pull request missing html_url'' d)
     | None \<Rightarrow> bnd (create_pull_request gh srv (pq_title rq) (pq_body rq) (branch_of rq)) (\<lambda>d.
         from_result (pr_result_of gh True ''draft pull request created'' ''GitHub pull request missing html_url'' d)))"
  unfolding create_draft_pull_request_def prepare_branch_def Let_def bnd_assoc bnd_ret ..

lemma sends_prepare: "sends (prepares gh rq) (prepare_branch gh srv rq)"
  unfolding prepare_branch_def
  by (intro sends_bnd sends_quiet sends_branch sends_file sends_mono [OF sends_reads(1) reads_prepare] sends_mono [OF sends_reads(2) reads_prepare])
    simp_all

text \<open>The opening request comes first and only once; a second listing after a conflict only reads.\<close>

lemma create_sends:
  "\<exists>h hs. wr_sent (snd (create_pull_request gh srv title body (branch_of rq) st)) = wr_sent st @ h # hs \<and>
     opens_pull_request gh h \<and> confined gh rq h \<and> (\<forall>x\<in>set hs. reads_only x)"
proof -
  let ?h = "write_request POST (repo_path gh ''/pulls'')
    [(''title'', PStr title), (''body'', PStr body), (''head'', PStr (branch_of rq)), (''base'', PStr (gh_base gh)), (''draft'', PBool (gh_draft gh))]"
  have h: "opens_pull_request gh ?h" "confined gh rq ?h"
    by (simp_all add: confined_def opens_pull_request_def write_request_def field_def get_none_def get_default_def)
  obtain r st1 where s: "send srv ?h st = (r, st1)" by (metis prod.exhaust)
  have sent: "wr_sent st1 = wr_sent st @ [?h]"
    using s by (auto simp: send_def Let_def split: prod.splits reply.splits)
  show ?thesis
  proof (cases r)
    case (Inl e)
    with s sent h show ?thesis by (intro exI [of _ ?h] exI [of _ "[]"]) (simp add: create_pull_request_def bnd_def)
  next
    case (Inr x)
    have "sends reads_only (if fst x = 422
       then bnd (find_open_pull_request gh srv (branch_of rq)) (\<lambda>existing.
         case existing of Some d \<Rightarrow> ret d | None \<Rightarrow> opened_pull_request x)
       else opened_pull_request x)"
      by (intro sends_rules sends_reads) (auto simp: opened_pull_request_def split: option.split prod.split intro: sends_rules)
    then obtain hs where "wr_sent (snd (create_pull_request gh srv title body (branch_of rq) st)) = wr_sent st1 @ hs" "\<forall>x\<in>set hs. reads_only x"
      using s Inr unfolding sends_def create_pull_request_def by (simp only: bnd_def [of "send _ _"] prod.case sum.case) blast
    with sent h show ?thesis by (intro exI [of _ ?h] exI [of _ hs]) simp
  qed
qed

text \<open>What a reader of the branch decodes.\<close>

definition base64_value :: "char \<Rightarrow> nat" where
  "base64_value c = (let n = of_char c in
     if 97 \<le> n then n - 71 else if 65 \<le> n then n - 65 else if 48 \<le> n then n + 4 else if n = 43 then 62 else 63)"

fun unbase64 :: "string \<Rightarrow> nat list" where
  "unbase64 (a # b # c # d # rest) =
     (let n = base64_value a * 64 + base64_value b in
      if c = CHR ''='' then [n div 16]
      else let m = n * 64 + base64_value c in
        if d = CHR ''='' then [m div 1024, m div 4 mod 256]
        else let k = m * 64 + base64_value d in [k div 65536, k div 256 mod 256, k mod 256] @ unbase64 rest)"
| "unbase64 _ = []"

fun utf8_decode :: "nat list \<Rightarrow> string" where
  "utf8_decode (a # b # rest) =
     (if a < 128 then char_of a # utf8_decode (b # rest) else char_of ((a - 192) * 64 + (b - 128)) # utf8_decode rest)"
| "utf8_decode [a] = [char_of a]"
| "utf8_decode [] = []"

lemma base64_value_char: "n < 64 \<Longrightarrow> base64_value (base64_char n) = n"
  by (auto simp: base64_value_def base64_char_def Let_def)

lemma base64_char_pad: "n < 64 \<Longrightarrow> base64_char n \<noteq> CHR ''=''"
proof
  assume "n < 64" "base64_char n = CHR ''=''"
  then have "base64_value (CHR ''='') = n" using base64_value_char by metis
  then have "n = 65" by (simp add: base64_value_def)
  with \<open>n < 64\<close> show False by simp
qed

lemma regroup: "n div (k * m) * m + n div k mod m = (n div k :: nat)"
  by (simp add: div_mult2_eq)

lemma sextets:
  fixes n :: nat assumes "n < 16777216"
  shows "n div 262144 < 64" "((n div 262144 * 64 + n div 4096 mod 64) * 64 + n div 64 mod 64) * 64 + n mod 64 = n"
proof -
  show "n div 262144 < 64" using assms by simp
  show "((n div 262144 * 64 + n div 4096 mod 64) * 64 + n div 64 mod 64) * 64 + n mod 64 = n"
    using regroup [of n 4096 64] regroup [of n 64 64] regroup [of n 1 64] by simp
qed

lemma bytes:
  assumes "b < (256 :: nat)" "c < 256"
  shows "(a * 65536 + b * 256 + c) div 65536 = a" "(a * 65536 + b * 256 + c) div 256 mod 256 = b" "(a * 65536 + b * 256 + c) mod 256 = c"
proof -
  have n: "a * 65536 + b * 256 + c = (a * 256 + b) * 256 + c" by simp
  have "((a * 256 + b) * 256 + c) div 256 = a * 256 + b" "((a * 256 + b) * 256 + c) mod 256 = c"
    using assms(2) by (simp, metis mod_mult_self3 mod_less)
  then show "(a * 65536 + b * 256 + c) div 256 mod 256 = b" "(a * 65536 + b * 256 + c) mod 256 = c"
    using assms(1) by (simp_all only: n) simp
  show "(a * 65536 + b * 256 + c) div 65536 = a" using assms by simp
qed

lemma unbase64_base64: "\<forall>b\<in>set bs. b < 256 \<Longrightarrow> unbase64 (base64 bs) = bs"
proof (induction bs rule: base64.induct)
  case (1 a b c rest)
  let ?n = "a * 65536 + b * 256 + c"
  have n: "?n < 16777216" using 1(2) by simp
  have parts: "?n div 65536 = a" "?n div 256 mod 256 = b" "?n mod 256 = c" using 1(2) bytes [of b c a] by auto
  have rest: "unbase64 (base64 rest) = rest" using 1 by simp
  have "unbase64 (base64 (a # b # c # rest)) = [?n div 65536, ?n div 256 mod 256, ?n mod 256] @ unbase64 (base64 rest)"
    using sextets [OF n] by (simp only: base64.simps Let_def append_Cons append_Nil unbase64.simps)
      (simp add: base64_value_char base64_char_pad)
  then show ?case using parts rest by simp
next
  case (2 a b)
  let ?n = "a * 1024 + b * 4"
  have n: "?n div 4096 < 64" "(?n div 4096 * 64 + ?n div 64 mod 64) * 64 + ?n mod 64 = ?n"
    using less_mult_imp_div_less [of ?n 64 4096] 2 regroup [of ?n 64 64] regroup [of ?n 1 64] by simp_all
  have "?n div 1024 = a" "?n div 4 mod 256 = b" using 2 by simp_all
  moreover have "unbase64 (base64 [a, b]) = [?n div 1024, ?n div 4 mod 256]"
    using n by (simp only: base64.simps Let_def unbase64.simps) (simp add: base64_value_char base64_char_pad)
  ultimately show ?case by simp
next
  case (3 a)
  have "a * 16 div 64 * 64 + a * 16 mod 64 = a * 16" by (rule div_mult_mod_eq)
  moreover have "a * 16 div 64 < 64" using 3 by (intro less_mult_imp_div_less) simp
  ultimately have "a * 16 div 64 * 64 + a * 16 mod 64 = a * 16" "a * 16 div 64 < 64" by blast+
  then have "unbase64 (base64 [a]) = [a * 16 div 16]"
    by (simp only: base64.simps Let_def unbase64.simps) (simp add: base64_value_char base64_char_pad)
  then show ?case by simp
qed simp

lemma utf8_bytes: "\<forall>b\<in>set (utf8 s). b < 256"
proof -
  have small: "192 + n div 64 < 256 \<and> 128 + n mod 64 < 256" if "n < 256" for n :: nat
    using div_le_mono [of n 255 64] that mod_less_divisor [of 64 n] by linarith
  have "\<forall>b\<in>set (let n = of_char c in if n < 128 then [n] else [192 + n div 64, 128 + n mod 64]). b < (256 :: nat)" for c :: char
    using small [of "of_char c"] by (simp add: Let_def)
  then show ?thesis by (simp add: utf8_def)
qed

lemma utf8_decode_utf8: "utf8_decode (utf8 s) = s"
proof (induction s)
  case (Cons c s)
  let ?n = "of_char c :: nat"
  show ?case
  proof (cases "?n < 128")
    case True
    then have "utf8 (c # s) = ?n # utf8 s" by (simp add: utf8_def)
    moreover have "utf8_decode (?n # l) = c # utf8_decode l" for l using True by (cases l) simp_all
    ultimately show ?thesis using Cons by simp
  next
    case False
    then have "utf8 (c # s) = (192 + ?n div 64) # (128 + ?n mod 64) # utf8 s" by (simp add: utf8_def Let_def)
    then show ?thesis using Cons by simp
  qed
qed (simp add: utf8_def)


subsection \<open>What the provider does\<close>

lemma send_sent: "wr_sent (snd (send srv h st)) = wr_sent st @ [h]"
  by (simp add: send_def Let_def split: prod.split reply.split)

text \<open>A file operation that succeeds has committed the file.\<close>

definition commits :: "github \<Rightarrow> pr_request \<Rightarrow> string \<Rightarrow> http_request \<Rightarrow> bool" where
  "commits gh rq file h \<longleftrightarrow> hr_method h = PUT \<and> hr_path h = repo_path gh (''/contents/'' @ file_of rq file)"

lemma put_file_commits:
  assumes "put_file gh srv (file_of rq file) content branch message st = (Inr x, st')"
  shows "\<exists>h\<in>set (wr_sent st'). commits gh rq file h"
proof -
  let ?put = "\<lambda>d. write_request PUT (repo_path gh (''/contents/'' @ file_of rq file)) d"
  from assms obtain d st1 r where "send srv (?put d) st1 = (Inr r, st')"
    by (auto simp: put_file_def Let_def throw_def ret_def elim!: bnd_InrE split: if_splits)
  then have "wr_sent st' = wr_sent st1 @ [?put d]" using send_sent [of srv "?put d" st1] by simp
  then show ?thesis by (simp add: commits_def write_request_def)
qed

lemma sent_stays: "sends P m \<Longrightarrow> m st = (x, st') \<Longrightarrow> set (wr_sent st) \<subseteq> set (wr_sent st')"
  unfolding sends_def by (metis Un_upper1 set_append snd_conv)

lemma prepared_files:
  assumes "prepare_branch gh srv rq st = (Inr x, st')"
  shows "\<exists>h\<in>set (wr_sent st'). commits gh rq ''values.patch.yaml'' h" "\<exists>h\<in>set (wr_sent st'). commits gh rq ''README.md'' h"
proof -
  from assms obtain a st1 b st2 where p: "put_file gh srv (file_of rq ''values.patch.yaml'') (render_remediation_manifest rq) (branch_of rq)
      (''fix: remediation manifest for '' @ pq_proposal_id rq) st1 = (Inr a, st2)"
    "put_file gh srv (file_of rq ''README.md'') (render_note rq) (branch_of rq)
      (''docs: remediation note for '' @ pq_proposal_id rq) st2 = (Inr b, st')"
    unfolding prepare_branch_def by (elim bnd_InrE) (simp add: ret_def)
  have "set (wr_sent st2) \<subseteq> set (wr_sent st')"
    by (rule sent_stays [OF sends_file p(2)]) simp
  with put_file_commits [OF p(1)] put_file_commits [OF p(2)]
  show "\<exists>h\<in>set (wr_sent st'). commits gh rq ''values.patch.yaml'' h" "\<exists>h\<in>set (wr_sent st'). commits gh rq ''README.md'' h"
    by blast+
qed

text \<open>C22: The provider touches only the branch of the proposal. Whatever the server answers, every request that writes
  creates the branch of the proposal, commits its rendered manifest or note there, or opens a pull request from that
  branch into the base branch with the configured draft flag; at most one pull request is asked for. Success means both
  files were committed, there is an address, and the result says whether a pull request was asked for.\<close>

theorem pull_request_confined:
  assumes "create_draft_pull_request gh srv rq st = (res, st')" "wr_sent st = []"
  shows "(\<forall>h\<in>set (wr_sent st'). confined gh rq h) \<and> length (filter (opens_pull_request gh) (wr_sent st')) \<le> 1 \<and>
    (\<forall>r. res = Inr r \<longrightarrow> (\<exists>url. rs_url r = Some url \<and> url \<noteq> []) \<and> (rs_created r \<longleftrightarrow> (\<exists>h\<in>set (wr_sent st'). opens_pull_request gh h)) \<and>
      (\<forall>file\<in>{''values.patch.yaml'', ''README.md''}. \<exists>h\<in>set (wr_sent st'). commits gh rq file h))"
proof -
  obtain x st1 where x: "prepare_branch gh srv rq st = (x, st1)" by (metis prod.exhaust)
  with sends_prepare [of gh rq srv] assms(2) have pre: "\<forall>h\<in>set (wr_sent st1). confined gh rq h \<and> \<not> opens_pull_request gh h"
    unfolding sends_def prepares_def by (metis append_Nil snd_conv)
  then have none: "filter (opens_pull_request gh) (wr_sent st1) = []" by simp
  show ?thesis
  proof (cases x)
    case (Inl e)
    with assms(1) x have "st' = st1" "res = Inl e" by (simp_all add: create_split bnd_def)
    with pre none show ?thesis by simp
  next
    case (Inr existing)
    note files = prepared_files [OF x [unfolded Inr]]
    show ?thesis
    proof (cases existing)
      case (Some d)
      with assms(1) x Inr have r: "st' = st1" "res = pr_result_of gh False ''reused existing open pull request'' ''existing pull request missing html_url'' d"
        by (simp_all add: create_split bnd_def from_result_def)
      then have "res = Inr r \<Longrightarrow> (\<exists>url. rs_url r = Some url \<and> url \<noteq> []) \<and> \<not> rs_created r" for r
        by (auto simp: pr_result_of_def rbind_Inr Let_def split: if_splits)
      with r pre none files show ?thesis by auto
    next
      case None
      obtain y st2 where y: "create_pull_request gh srv (pq_title rq) (pq_body rq) (branch_of rq) st1 = (y, st2)" by (metis prod.exhaust)
      with create_sends [of gh srv "pq_title rq" "pq_body rq" rq st1] obtain h hs where
        sent: "wr_sent st2 = wr_sent st1 @ h # hs" "opens_pull_request gh h" "confined gh rq h" "\<forall>x\<in>set hs. reads_only x" by auto
      have reads: "\<forall>x\<in>set hs. confined gh rq x \<and> \<not> opens_pull_request gh x"
        using sent(4) by (auto simp: reads_only_def confined_def opens_pull_request_def)
      from assms(1) x Inr None y have "st' = st2" "res = Inr r \<Longrightarrow> (\<exists>url. rs_url r = Some url \<and> url \<noteq> []) \<and> rs_created r" for r
        by (auto simp: create_split bnd_def from_result_def pr_result_of_def rbind_Inr Let_def split: sum.splits if_splits)
      moreover from sent(1) have "\<forall>file\<in>{''values.patch.yaml'', ''README.md''}. \<exists>h\<in>set (wr_sent st2). commits gh rq file h"
        using files by auto
      ultimately show ?thesis using sent reads pre none by (auto simp: filter_empty_conv)
    qed
  qed
qed

subsection \<open>Examples\<close>

text \<open>A server that knows the base branch and opens what is asked for.\<close>

definition demo_server :: "nat server" where
  "demo_server h n =
     (let reply = (if hr_method h = GET \<and> hr_path h = ''/repos/o/r/pulls'' then Reply 200 (Some (PList [])) []
        else if hr_method h = GET \<and> hr_path h = ''/repos/o/r/git/ref/heads/main''
        then Reply 200 (Some (PDict [(''object'', PDict [(''sha'', PStr ''s0'')])])) []
        else if hr_method h = GET then Reply 404 (Some (PDict [])) []
        else if hr_path h = ''/repos/o/r/pulls'' then Reply 201 (Some (PDict [(''html_url'', PStr ''https://x/1'')])) []
        else Reply 201 (Some (PDict [])) [])
      in (reply, n + 1))"

definition demo_github :: github where
  "demo_github = \<lparr>gh_owner = ''o'', gh_repo = ''r'', gh_base = ''main'', gh_draft = True\<rparr>"

definition demo_pr :: pr_request where
  "demo_pr = \<lparr>pq_proposal_id = ''p1'', pq_title = ''t'', pq_body = ''b'', pq_tenant_id = [], pq_kind = [],
     pq_action = Some [(''kind'', PStr ''pull_model''), (''model'', PStr ''m'')]\<rparr>"

definition demo_opened :: "pr_result result \<times> nat wire" where
  "demo_opened = create_draft_pull_request demo_github demo_server demo_pr \<lparr>wr_state = 0, wr_sent = []\<rparr>"

lemma demo_opens: "case fst demo_opened of Inl e \<Rightarrow> False | Inr r \<Rightarrow> rs_created r"
  by code_simp

theorem pull_request_confined_witness:
  "length (filter (opens_pull_request demo_github) (wr_sent (snd demo_opened))) \<le> 1 \<and>
    (\<exists>h\<in>set (wr_sent (snd demo_opened)). opens_pull_request demo_github h) \<and>
    (\<exists>h\<in>set (wr_sent (snd demo_opened)). commits demo_github demo_pr ''README.md'' h)"
proof -
  obtain res st where s: "demo_opened = (res, st)" by (metis prod.exhaust)
  obtain r where r: "res = Inr r" "rs_created r" using demo_opens [unfolded s fst_conv] by (cases res) simp_all
  from pull_request_confined [OF s [unfolded demo_opened_def]] r show ?thesis unfolding s snd_conv by simp
qed

end
