(* ===== verification/Approval_Races.thy ===== *)
theory Approval_Races
  imports Approval_Spec
begin

text \<open>
  Facts about several sessions and several methods: the loser of a race between two reviewers, the
  agreement of the two expiry paths on every reachable database, the isolation of tenants, the
  pages of a listing and what retention deletes.
\<close>

subsection \<open>Two reviewers\<close>

definition decided :: "string \<Rightarrow> db \<Rightarrow> bool" where
  "decided k s \<longleftrightarrow> (\<forall>r. sql_fetch a_id k (approvals s) = Some r \<longrightarrow> a_status r \<noteq> ''pending'')"

lemma decided_step:
  assumes "store_step s l s'" "db_ok s" "l \<noteq> Created k" "decided k s"
  shows "decided k s'"
  unfolding decided_def
proof (intro allI impI)
  fix r' assume r': "sql_fetch a_id k (approvals s') = Some r'"
  then have "k \<in> a_id ` set (approvals s')" using sql_fetch_Some_in [OF r'] by force
  then have "k \<in> a_id ` set (approvals s)" using store_step_new_key [OF assms(1,3)] by blast
  then obtain r where r: "sql_fetch a_id k (approvals s) = Some r"
    using sql_fetch_None [of a_id k "approvals s"] by fastforce
  with assms(4) have "a_status r \<noteq> ''pending''" by (simp add: decided_def)
  moreover from appr.evolvesD [OF store_step_evolves [OF assms(1,2)] r'] r
  have "r' = r \<or> appr_step (a_status r) (a_status r')" by simp
  ultimately show "a_status r' \<noteq> ''pending''" by (auto simp: appr_step_def)
qed

lemma decided_run:
  assumes "store_run s ls s'" "db_ok s" "Created k \<notin> set ls" "decided k s"
  shows "decided k s' \<and> db_ok s'"
  using assms
proof (induction rule: store_run.induct)
  case (run_step s l s' ls s'')
  with decided_step [OF run_step.hyps(1)] store_step_db_ok [OF run_step.hyps(1)] show ?case by auto
qed simp

text \<open>Two reviewers who both passed the checks while the approval was pending: once the UPDATE
  of one has gone through, the UPDATE of the other, run at any later time and after any operations
  of other sessions, changes nothing and raises the conflict.\<close>

theorem concurrent_resolve_one_winner:
  assumes "db_ok s" "status \<in> {''approved'', ''rejected''}"
    "resolve_commit t aid status rv cm s = (Inr row, s1)"
    "store_run s1 ls s2" "Created aid \<notin> set ls"
  shows "resolve_commit t' aid status' rv' cm' s2 =
    (Inl (ValueError ''approval is not pending (concurrent resolve or status=pending)''), s2)"
proof -
  obtain a where a: "sql_fetch a_id aid (approvals s) = Some a" "a_status a = ''pending''"
    using commit_not_pending [OF assms(1)] assms(3) by fastforce
  with commit_pending [OF assms(1) a] assms(3)
  have "approvals s1 = sql_update (pending_row aid) (mark_resolved status rv cm t) (approvals s)" by auto
  then have "sql_fetch a_id aid (approvals s1) = Some (mark_resolved status rv cm t a)"
    using fetch_mark_pending [OF a] by simp
  then have "decided aid s1" using assms(2) by (auto simp: decided_def)
  moreover have "db_ok s1" using db_ok_resolve_commit [OF assms(1)] assms(3) by (metis snd_conv)
  ultimately have "decided aid s2" "db_ok s2" using decided_run assms(4,5) by blast+
  then show ?thesis by (intro commit_not_pending) (auto simp: decided_def)
qed

theorem concurrent_resolve_one_winner_witness:
  "\<exists>row s1. resolve_commit 5 ''a1'' ''approved'' ''bob'' [] (demo_db ''pending'') = (Inr row, s1) \<and>
     resolve_commit 6 ''a1'' ''rejected'' ''carol'' [] s1 =
       (Inl (ValueError ''approval is not pending (concurrent resolve or status=pending)''), s1)"
proof -
  obtain row s1 where r: "resolve_commit 5 ''a1'' ''approved'' ''bob'' [] (demo_db ''pending'') = (Inr row, s1)"
    using commit_pending [OF demo_db_ok demo_fetch(1,3)] by blast
  from concurrent_resolve_one_winner [OF demo_db_ok _ r store_run.run_nil] r show ?thesis by simp
qed

subsection \<open>The two expiry paths\<close>

text \<open>The operations write expiry texts of \<open>isoformat\<close> only, so every reachable row has one.\<close>

definition stamped_row :: "appr_row \<Rightarrow> bool" where
  "stamped_row r \<longleftrightarrow> (\<exists>e<instant_limit. a_expires_at r = isoformat e)"

lemma stamped_rows: "stamped s \<longleftrightarrow> (\<forall>r\<in>set (approvals s). stamped_row r)"
  by (simp add: stamped_def stamped_row_def)

lemma stamped_marks [simp]:
  "stamped_row (mark_consumed t r) = stamped_row r" "stamped_row (mark_expired t r) = stamped_row r"
  "stamped_row (mark_resolved st rv cm t r) = stamped_row r"
  by (simp_all add: stamped_row_def mark_consumed_def mark_expired_def mark_resolved_def)

lemma stamped_update:
  assumes "stamped s" "\<And>r. stamped_row (f r) = stamped_row r" "approvals s' = sql_update p f (approvals s)"
  shows "stamped s'"
  using assms by (auto simp: stamped_rows sql_update_def)

lemma stamped_updates [simp]:
  assumes "stamped s"
  shows "stamped (s\<lparr>approvals := sql_update p (mark_expired t) (approvals s)\<rparr>)"
    "stamped (s\<lparr>approvals := sql_update p (mark_consumed t) (approvals s)\<rparr>)"
  using assms by (auto simp: stamped_rows sql_update_def)

lemma stamped_subset: "stamped s \<Longrightarrow> set (approvals s') \<subseteq> set (approvals s) \<Longrightarrow> stamped s'"
  by (auto simp: stamped_rows)

lemma stamped_expire_if_needed: "stamped s \<Longrightarrow> stamped (expire_if_needed t1 t2 aid s)"
  by (simp add: expire_if_needed_due split: option.split)

lemma stamped_expire_stale: "stamped s \<Longrightarrow> stamped (snd (expire_stale now s))"
  by (simp add: expire_stale_def)

lemma stamped_resolve_commit: "stamped s \<Longrightarrow> stamped (snd (resolve_commit t3 aid st rv cm s))"
  by (rule stamped_update [where f = "mark_resolved st rv cm t3" and p = "pending_row aid"])
    (auto simp: resolve_commit_def Let_def split: option.splits)

lemma stamped_resolve:
  "stamped s \<Longrightarrow> stamped (snd (resolve_approval t1 t2 t3 aid st rv cm tn fb s))"
  by (simp add: resolve_approval_def with_db_def throw_def Let_def stamped_resolve_commit
      stamped_expire_if_needed split: option.split)

lemma add_seconds_limit: "add_seconds now n = Some e \<Longrightarrow> e < instant_limit"
  by (auto simp: add_seconds_def Let_def split: if_splits)

lemma stamped_create: "stamped s \<Longrightarrow> stamped (snd (create_approval aid now did ttl s))"
  using add_seconds_limit [of now ttl]
  by (auto simp: create_approval_def with_db_def throw_def stamped_rows stamped_row_def
      sql_insert_Some approval_row_def split: option.splits)

lemma stamped_consume: "stamped s \<Longrightarrow> stamped (snd (consume_approval now aid s))"
  by (simp add: consume_approval_def with_db_def)

lemma stamped_purge:
  assumes "stamped s" shows "stamped (snd (purge_retained t1 t2 days dry_run n s))"
proof -
  obtain r s' where m: "purge_retained t1 t2 days dry_run n s = (r, s')" by fastforce
  show ?thesis
  proof (cases r)
    case (Inl e)
    with m have "s' = s" by (blast intro: purge_error_unchanged)
    with m assms show ?thesis by simp
  next
    case (Inr res)
    with m have "set (approvals s') \<subseteq> set (approvals (snd (expire_stale t2 s)))"
      by (auto elim!: purge_Inr simp: Let_def delete_decisions_def split: if_splits)
    with m stamped_subset [OF stamped_expire_stale [OF assms] this] show ?thesis by simp
  qed
qed

lemma stamped_same: "stamped s \<Longrightarrow> approvals s' = approvals s \<Longrightarrow> stamped s'"
  by (simp add: stamped_def)

lemma stamped_step:
  assumes "store_step s l s'" "stamped s" shows "stamped s'"
  using assms
proof (induction rule: store_step.induct)
  case (expire now s r s')
  then show ?case using stamped_same [of _ s'] stamped_expire_stale [of s now] approvals_expire_stale [of now s]
    by (metis snd_conv)
next
  case (get t1 t2 aid tenant s r s')
  then show ?case using stamped_same [of _ s'] stamped_expire_if_needed [of s t1 t2 aid] approvals_get [of t1 t2 aid tenant s]
    by (metis snd_conv)
next
  case (list now st n m tenant s r s')
  then show ?case using stamped_same [of _ s'] stamped_expire_stale [of s now] approvals_list [of now st n m tenant s]
    by (metis snd_conv)
next
  case (count now st s r s')
  then show ?case using stamped_same [of _ s'] stamped_expire_stale [of s now] approvals_count [of now st s]
    by (metis snd_conv)
qed (metis stamped_create stamped_consume stamped_resolve stamped_resolve_commit stamped_purge
    approvals_unchanged stamped_same snd_conv)+

lemma stamped_run: "store_run s ls s' \<Longrightarrow> stamped s \<Longrightarrow> stamped s'"
  by (induction rule: store_run.induct) (blast intro: stamped_step)+

text \<open>On every database the store's operations can reach from the empty one, the sweep that
  compares expiry texts in SQL and the check that parses one row's expiry agree on that row, for
  every clock reading: the text order of the stored time stamps is the order of time.\<close>

theorem expiry_paths_agree:
  assumes "store_run empty_db ls s" "now < instant_limit"
  shows "sql_fetch a_id k (approvals (expire_if_needed now now k s)) =
    sql_fetch a_id k (approvals (snd (expire_stale now s)))"
proof -
  have "stamped empty_db" by (simp add: stamped_def empty_db_def)
  with stamped_run [OF assms(1)] have st: "stamped s" by blast
  have "due now r = stale now r" if "sql_fetch a_id k (approvals s) = Some r" for r
    using st sql_fetch_Some_in [OF that] due_iff_stale [OF _ _ assms(2), of r] by (auto simp: stamped_def)
  then show ?thesis
    by (auto simp: expire_if_needed_fetch expire_stale_def expired.fetch_update intro!: option.map_cong0
        dest: sql_fetch_Some_in split: option.splits)
qed

lemma add_demo: "add_seconds 0 3600 = Some 3600000000"
  by (simp add: add_seconds_def instant_limit_def day_us_def)

theorem expiry_paths_agree_witness:
  "\<exists>s. store_run empty_db [Tau, Created ''a1''] s \<and>
     sql_fetch a_id ''a1'' (approvals (expire_if_needed 4000000000 4000000000 ''a1'' s)) =
       sql_fetch a_id ''a1'' (approvals (snd (expire_stale 4000000000 s)))"
proof -
  define nd where "nd = \<lparr>nd_final_verdict = ''approval_required'', nd_request_id = [], nd_policy_bundle_id = [],
    nd_policy_digest = [], nd_team = ''acme'', nd_tenant_id = [], nd_environment = [], nd_model = [],
    nd_subject = [], nd_reasons = [], nd_stages = PNone, nd_request = [], nd_request_digest = [],
    nd_agent_digest = [], nd_tools_digest = []\<rparr>"
  define s1 where "s1 = snd (create_decision ''d1'' 0 nd empty_db)"
  have 1: "store_step empty_db Tau s1"
    by (rule store_step.decide [of "''d1''" 0 nd _ "fst (create_decision ''d1'' 0 nd empty_db)"]) (simp add: s1_def)
  have s1: "db_up s1" "d_id ` set (decisions s1) = {''d1''}" "approvals s1 = []"
    by (simp_all add: s1_def create_decision_def empty_db_def sql_insert_def decision_row_def)
  then obtain s2 where "create_approval ''a1'' 0 ''d1'' 3600 s1 = (Inr ''a1'', s2)"
    by (simp add: create_approval_def add_demo sql_insert_def)
  from store_step.create [OF this] have "store_step s1 (Created ''a1'') s2" by simp
  with 1 have run: "store_run empty_db [Tau, Created ''a1''] s2" by (blast intro: store_run.intros)
  have lim: "4000000000 < instant_limit" by (simp add: instant_limit_def day_us_def)
  from expiry_paths_agree [OF run lim] run show ?thesis by blast
qed

subsection \<open>Tenants\<close>

definition foreign :: "string \<Rightarrow> string \<Rightarrow> db \<Rightarrow> bool" where
  "foreign aid tid s \<longleftrightarrow> (\<forall>a d. sql_fetch a_id aid (approvals s) = Some a \<longrightarrow>
     sql_fetch d_id (a_decision_id a) (decisions s) = Some d \<longrightarrow> owner_tenant d \<noteq> tid)"

definition without_approval :: "string \<Rightarrow> db \<Rightarrow> db" where
  "without_approval aid s = s\<lparr>approvals := sql_delete (\<lambda>a. a_id a = aid) (approvals s)\<rparr>"

lemma fetch_without: "sql_fetch a_id aid (approvals (without_approval aid s)) = None"
  by (auto simp: without_approval_def sql_fetch_None)

lemma expire_without: "expire_if_needed t1 t2 aid (without_approval aid s) = without_approval aid s"
  by (simp add: expire_if_needed_due fetch_without)

lemma foreign_expire: "foreign aid tid (expire_if_needed t1 t2 aid s) = foreign aid tid s"
  by (cases "sql_fetch a_id aid (approvals s)") (auto simp: foreign_def expire_if_needed_fetch)

lemma guard_foreign:
  "foreign aid tid s \<Longrightarrow> resolve_guard aid rv (Some tid) forbid s = Some (KeyError (''approval not found: '' @ aid))"
  by (auto simp: resolve_guard_def Let_def foreign_def split: option.splits)

text \<open>Tenant isolation. To a caller of another tenant an approval does not exist: reading it and
  resolving it give exactly the answers given on the database without that row.\<close>

theorem foreign_approval_invisible:
  assumes "foreign aid tid s"
  shows "fst (get_approval t1 t2 aid (Some tid) s) =
      fst (get_approval t1 t2 aid (Some tid) (without_approval aid s)) \<and>
    fst (resolve_approval t1 t2 t3 aid status rv cm (Some tid) forbid s) =
      fst (resolve_approval t1 t2 t3 aid status rv cm (Some tid) forbid (without_approval aid s))"
proof -
  have up: "db_up (without_approval aid s) = db_up s" by (simp add: without_approval_def)
  have f: "foreign aid tid (expire_if_needed t1 t2 aid s)" using assms by (simp add: foreign_expire)
  then have "fst (get_approval t1 t2 aid (Some tid) s) =
      fst (get_approval t1 t2 aid (Some tid) (without_approval aid s))"
    by (auto simp: get_approval_def with_db_def Let_def up expire_without fetch_without foreign_def
        split: option.split)
  moreover have "foreign aid tid (without_approval aid s)" by (simp add: foreign_def fetch_without)
  from guard_foreign [OF this] guard_foreign [OF f]
  have "fst (resolve_approval t1 t2 t3 aid status rv cm (Some tid) forbid s) =
      fst (resolve_approval t1 t2 t3 aid status rv cm (Some tid) forbid (without_approval aid s))"
    by (simp add: resolve_approval_def with_db_def throw_def Let_def up expire_without)
  ultimately show ?thesis ..
qed

theorem foreign_approval_invisible_witness:
  "foreign ''a1'' ''globex'' (demo_db ''pending'') \<and>
   fst (get_approval 0 0 ''a1'' (Some ''globex'') (demo_db ''pending'')) =
     fst (get_approval 0 0 ''a1'' (Some ''globex'') (without_approval ''a1'' (demo_db ''pending'')))"
proof -
  have "foreign ''a1'' ''globex'' (demo_db ''pending'')"
    by (simp add: foreign_def demo_defs sql_fetch_def owner_tenant_def)
  with foreign_approval_invisible [OF this] show ?thesis by blast
qed

subsection \<open>Pages of a listing\<close>

definition listing :: "instant \<Rightarrow> string \<Rightarrow> string option \<Rightarrow> db \<Rightarrow> appr_row list" where
  "listing now st tenant s = (let s' = snd (expire_stale now s)
     in order_asc a_created_at (filter (in_listing st tenant s') (approvals s')))"

lemma list_approvals_up:
  "db_up s \<Longrightarrow> list_approvals now st n m tenant s =
    (Inr (make_page (listing now st tenant s) (clamp 1 500 n) (max 0 m)), snd (expire_stale now s))"
  by (simp add: list_approvals_def listing_def Let_def)

lemma not_stale_after: "r \<in> set (approvals (snd (expire_stale now s))) \<Longrightarrow> \<not> stale now r"
  by (auto simp: expire_stale_def sql_update_def stale_def)

definition page_at :: "instant \<Rightarrow> string \<Rightarrow> string option \<Rightarrow> int \<Rightarrow> db \<Rightarrow> nat \<Rightarrow> appr_row list" where
  "page_at now st tenant n s i = (case fst (list_approvals now st n (int i * n) tenant s) of
     Inl _ \<Rightarrow> [] | Inr p \<Rightarrow> pg_items p)"

lemma pages_prefix:
  assumes "db_up s" "1 \<le> n" "n \<le> 500"
  shows "concat (map (page_at now st tenant n s) [0..<k]) = take (nat (int k * n)) (listing now st tenant s)"
proof (induction k)
  case (Suc k)
  have nn: "0 \<le> int k * n" using assms(2) by simp
  have "page_at now st tenant n s k = limit_offset n (int k * n) (listing now st tenant s)"
    using assms nn by (simp add: page_at_def list_approvals_up make_page_def clamp_def)
  moreover have "int (Suc k) * n = int k * n + n" by (simp add: algebra_simps)
  ultimately show ?case using Suc pages_append [of n "int k * n"] nn assms(2) by simp
qed simp

text \<open>Reading the pages of a listing one after the other yields every matching approval exactly
  once, in order of creation; none of them is overdue, and with a tenant filter all belong to
  decisions of that tenant.\<close>

theorem list_approvals_pages:
  assumes "db_up s" "1 \<le> n" "n \<le> 500" "int (length (listing now st tenant s)) \<le> int k * n"
  shows "concat (map (page_at now st tenant n s) [0..<k]) = listing now st tenant s \<and>
    sorted (map a_created_at (listing now st tenant s)) \<and>
    set (listing now st tenant s) = {a \<in> set (approvals (snd (expire_stale now s))).
       a_status a = st \<and> \<not> stale now a \<and> (\<forall>t. tenant = Some t \<longrightarrow>
         (\<exists>d. sql_fetch d_id (a_decision_id a) (decisions s) = Some d \<and> d_tenant_id d = Some t))}"
proof -
  have "length (listing now st tenant s) \<le> nat (int k * n)" using assms by linarith
  then have "concat (map (page_at now st tenant n s) [0..<k]) = listing now st tenant s"
    by (simp add: pages_prefix [OF assms(1-3)])
  moreover have "sorted (map a_created_at (listing now st tenant s))"
    by (simp add: listing_def Let_def sorted_order_asc)
  moreover have "set (listing now st tenant s) = {a \<in> set (approvals (snd (expire_stale now s))).
       a_status a = st \<and> \<not> stale now a \<and> (\<forall>t. tenant = Some t \<longrightarrow>
         (\<exists>d. sql_fetch d_id (a_decision_id a) (decisions s) = Some d \<and> d_tenant_id d = Some t))}"
    using not_stale_after [of _ now s]
    by (auto simp: listing_def Let_def in_listing_def expire_stale_def split: option.splits)
  ultimately show ?thesis by blast
qed

theorem list_approvals_pages_witness:
  "concat (map (page_at 0 ''pending'' (Some ''acme'') 1 (demo_db ''pending'')) [0..<2]) =
     listing 0 ''pending'' (Some ''acme'') (demo_db ''pending'')"
proof -
  have "int (length (listing 0 ''pending'' (Some ''acme'') (demo_db ''pending''))) \<le> int 2 * 1"
    by (simp add: listing_def Let_def expire_stale_def demo_defs sql_update_def)
  from list_approvals_pages [OF _ _ _ this] show ?thesis by (simp add: demo_fetch)
qed

subsection \<open>What retention deletes\<close>

lemma distinct_purge_rows:
  assumes "distinct (map d_id (decisions s))"
  shows "distinct (purge_rows cutoff limit s) \<and> inj_on d_id (set (decisions s))"
  using assms by (auto simp: purge_rows_def limit_offset_def order_asc_def distinct_map)

lemma deleted_rows:
  assumes "distinct (map d_id (decisions s))"
  shows "set (decisions (delete_decisions (map d_id (purge_rows cutoff limit s)) s)) =
    set (decisions s) - set (purge_rows cutoff limit s)"
proof -
  have "d_id r \<in> d_id ` set (purge_rows cutoff limit s) \<longleftrightarrow> r \<in> set (purge_rows cutoff limit s)"
    if r: "r \<in> set (decisions s)" for r
  proof
    assume "d_id r \<in> d_id ` set (purge_rows cutoff limit s)"
    then obtain r' where r': "r' \<in> set (purge_rows cutoff limit s)" "d_id r = d_id r'" by blast
    with purge_rows_old have "r' \<in> set (decisions s)" by blast
    with r r' distinct_purge_rows [OF assms] have "r = r'" by (blast dest: inj_onD)
    with r' show "r \<in> set (purge_rows cutoff limit s)" by simp
  qed (rule imageI)
  then show ?thesis by (auto simp: delete_decisions_def)
qed

definition orphaned :: "('r \<Rightarrow> string) \<Rightarrow> db \<Rightarrow> 'r \<Rightarrow> bool" where
  "orphaned ref s r \<longleftrightarrow> ref r \<notin> d_id ` set (decisions s)"

lemma deleted_children:
  assumes "refs_ok s" "s' = delete_decisions ids s"
  shows "approvals s' = sql_delete (orphaned a_decision_id s') (approvals s) \<and>
    audit_meta s' = sql_delete (orphaned e_decision_id s') (audit_meta s)"
proof -
  have "d_id ` set (decisions s') = d_id ` set (decisions s) - set ids"
    using assms(2) by (auto simp: delete_decisions_def)
  then have k: "a_decision_id a \<in> set ids \<longleftrightarrow> orphaned a_decision_id s' a" if "a \<in> set (approvals s)" for a
    using assms(1) that by (auto simp: refs_ok_iff orphaned_def)
  have k': "e_decision_id e \<in> set ids \<longleftrightarrow> orphaned e_decision_id s' e" if "e \<in> set (audit_meta s)" for e
    using assms(1) that \<open>d_id ` set (decisions s') = _\<close> by (auto simp: refs_ok_iff orphaned_def)
  have kept: "approvals s' = filter (\<lambda>a. \<not> a_decision_id a \<in> set ids) (approvals s)"
    "audit_meta s' = filter (\<lambda>e. \<not> e_decision_id e \<in> set ids) (audit_meta s)"
    by (simp_all add: assms(2) delete_decisions_def sql_delete_def)
  have "filter (\<lambda>a. \<not> a_decision_id a \<in> set ids) (approvals s) =
      filter (\<lambda>a. \<not> orphaned a_decision_id s' a) (approvals s)"
    by (rule filter_cong [OF refl]) (use k in simp)
  moreover have "filter (\<lambda>e. \<not> e_decision_id e \<in> set ids) (audit_meta s) =
      filter (\<lambda>e. \<not> orphaned e_decision_id s' e) (audit_meta s)"
    by (rule filter_cong [OF refl]) (use k' in simp)
  ultimately show ?thesis using kept by (simp only: sql_delete_def)
qed

text \<open>A retention run deletes only decisions created before the cutoff, at most \<open>limit\<close>, the oldest
  first (an old decision that stays is no older than any that goes, and stays only because the
  limit was reached), counts them rightly, deletes exactly the approvals and audit events of the
  deleted decisions, and leaves every constraint of the schema in force.\<close>

theorem purge_retained_spec:
  assumes "purge_retained t1 t2 days False limit s = (Inr res, s')" "db_ok s" "0 < days"
  shows "\<exists>cut_at gone. sub_days t1 days = Some cut_at \<and>
    set (decisions s') = set (decisions s) - gone \<and> gone \<subseteq> {d \<in> set (decisions s). d_created_at d < isoformat cut_at} \<and>
    card gone = pr_deleted_decisions res \<and> pr_deleted_decisions res \<le> nat limit \<and>
    (\<forall>d\<in>gone. \<forall>d'\<in>set (decisions s'). d_created_at d' < isoformat cut_at \<longrightarrow>
       d_created_at d \<le> d_created_at d' \<and> pr_deleted_decisions res = nat limit) \<and>
    approvals s' = sql_delete (orphaned a_decision_id s') (approvals (snd (expire_stale t2 s))) \<and>
    audit_meta s' = sql_delete (orphaned e_decision_id s') (audit_meta s) \<and> db_ok s'"
  using assms(1)
proof (rule purge_Inr)
  fix cut_at
  let ?e = "snd (expire_stale t2 s)"
  let ?rows = "purge_rows (isoformat cut_at) limit ?e"
  assume cut_at: "sub_days t1 days = Some cut_at"
    and eff: "let s0 = ?e; rows = purge_rows (isoformat cut_at) limit s0 in
      s' = (if days \<le> 0 \<or> False then s0 else delete_decisions (map d_id rows) s0) \<and>
      pr_deleted_decisions res = (if days \<le> 0 then 0 else length rows) \<and>
      pr_expired res = fst (expire_stale t2 s) \<and> pr_cutoff res = isoformat cut_at"
  from eff assms(3) have s': "s' = delete_decisions (map d_id ?rows) ?e"
    and n: "pr_deleted_decisions res = length ?rows" by (simp_all add: Let_def)
  have ok: "db_ok ?e" using assms(2) by (rule db_ok_expire_stale)
  have same: "decisions ?e = decisions s" "audit_meta ?e = audit_meta s" by (simp_all add: expire_stale_def)
  have d: "distinct (map d_id (decisions ?e))" using ok by (rule db_ok_keys)
  have dec: "set (decisions s') = set (decisions s) - set ?rows"
    using deleted_rows [OF d] by (simp add: s' same)
  have old: "set ?rows \<subseteq> {d \<in> set (decisions s). d_created_at d < isoformat cut_at}"
    using purge_rows_old [of _ "isoformat cut_at" limit ?e] unfolding same by blast
  have card: "card (set ?rows) = length ?rows" using distinct_purge_rows [OF d] distinct_card by blast
  have len: "length ?rows \<le> nat limit" by (rule length_purge_rows)
  have oldest: "\<forall>x\<in>set ?rows. \<forall>d'\<in>set (decisions s'). d_created_at d' < isoformat cut_at \<longrightarrow>
       d_created_at x \<le> d_created_at d' \<and> length ?rows = nat limit"
  proof (intro ballI impI)
    fix x d' assume x: "x \<in> set ?rows" and d': "d' \<in> set (decisions s')" "d_created_at d' < isoformat cut_at"
    from d'(1) dec have "d' \<in> set (decisions ?e)" "d' \<notin> set ?rows" by (simp_all add: same(1))
    from purge_rows_oldest [OF this(1) d'(2) this(2) x]
    show "d_created_at x \<le> d_created_at d' \<and> length ?rows = nat limit" .
  qed
  have "refs_ok ?e" using ok by (simp add: db_ok_def)
  from deleted_children [OF this s'] have kids: "approvals s' = sql_delete (orphaned a_decision_id s') (approvals ?e)"
    "audit_meta s' = sql_delete (orphaned e_decision_id s') (audit_meta s)" by (simp_all add: same)
  have ok': "db_ok s'" unfolding s' using ok by (rule db_ok_delete)
  show ?thesis unfolding n
    by (rule exI [of _ cut_at], rule exI [of _ "set ?rows"], intro conjI)
      (rule cut_at dec old card len oldest kids ok')+
qed

theorem purge_retained_spec_witness:
  "\<exists>res s'. purge_retained (31 * day_us) 0 30 False 10 (demo_db ''rejected'') = (Inr res, s') \<and>
     pr_deleted_decisions res = 1 \<and> decisions s' = [] \<and> approvals s' = [] \<and> db_ok s'"
proof -
  let ?s = "demo_db ''rejected''"
  have cut_at: "sub_days (31 * day_us) 30 = Some day_us"
    by (simp add: sub_days_def day_us_def instant_limit_def)
  have e: "expire_stale 0 ?s = (0, ?s)"
    by (simp add: expire_stale_def sql_rowcount_def sql_update_def stale_def demo_defs)
  have "isoformat 0 < isoformat day_us"
    by (simp add: isoformat_less_iff instant_limit_def day_us_def)
  then have rows: "purge_rows (isoformat day_us) 10 ?s = [demo_decision]"
    by (simp add: purge_rows_def demo_defs limit_offset_def order_asc_def)
  obtain res where m: "purge_retained (31 * day_us) 0 30 False 10 ?s = (Inr res, delete_decisions [''d1''] ?s)"
    and n: "pr_deleted_decisions res = 1"
    by (simp add: purge_retained_def cut_at e rows rollback_on_error_def demo_fetch)
      (simp add: demo_decision_def)
  have "decisions (delete_decisions [''d1''] ?s) = []" "approvals (delete_decisions [''d1''] ?s) = []"
    by (simp_all add: delete_decisions_def sql_delete_def demo_defs)
  with purge_retained_spec [OF m demo_db_ok] m n show ?thesis by auto
qed

end
