(* ===== verification/Spec2Isabelle.thy ===== *)
theory Spec2Isabelle
  imports Registry_Types Response_Evaluation Capability_Api Gitops_Provider Governance_Api Remediation_Api Approval_Spec Approval_Races Governance_Service Policy_Generations Drift
begin

text \<open>
  The governance control plane: what its store, its services and its policy engines do.
\<close>

end
